(* ===== verification/GoBase.thy ===== *)
theory GoBase
  imports Main "HOL-Library.AList" "HOL-Library.Char_ord" "HOL-Library.List_Lexorder"
    "HOL-Library.Product_Lexorder"
begin

text \<open>
  The prelude of the development: Go's byte strings and the operations of its \<open>strings\<close>,
  \<open>strconv\<close> and \<open>sort\<close> packages that the gateway calls, maps as association lists, the
  model of time, and the lemmas on them that the components share. A Go string is a byte
  sequence, so it is a HOL \<open>string\<close>, whose characters are bytes; \<open>length\<close> is Go's \<open>len\<close>.
  Go's \<open>int\<close> is a HOL \<open>int\<close> or \<open>nat\<close> where no operation can reach its bounds; fixed widths
  appear where they matter. A \<open>time.Time\<close> is the number of nanoseconds since Go's zero
  time, a \<open>time.Duration\<close> a number of nanoseconds.
\<close>

named_theorems go_simps \<open>equations that unfold the string library of the model\<close>
named_theorems go_splits \<open>facts that split results of the model's operations\<close>

type_synonym time = int
type_synonym duration = int

definition zero_time :: time where "zero_time = 0"
definition millisecond :: duration where "millisecond = 1000000"
definition second :: duration where "second = 1000 * millisecond"
definition minute :: duration where "minute = 60 * second"

section \<open>Bytes\<close>

abbreviation byte :: "char \<Rightarrow> nat" where
  "byte c \<equiv> of_char c"

definition is_upper :: "char \<Rightarrow> bool" where
  "is_upper c = (65 \<le> byte c \<and> byte c \<le> 90)"

definition is_lower :: "char \<Rightarrow> bool" where
  "is_lower c = (97 \<le> byte c \<and> byte c \<le> 122)"

definition is_digit :: "char \<Rightarrow> bool" where
  "is_digit c = (48 \<le> byte c \<and> byte c \<le> 57)"

definition is_letter :: "char \<Rightarrow> bool" where
  "is_letter c = (is_upper c \<or> is_lower c)"

text \<open>Go's \<open>c - 'a' + 'A'\<close> on a lower-case ASCII letter.\<close>

definition to_upper_byte :: "char \<Rightarrow> char" where
  "to_upper_byte c = char_of (byte c - 32)"

definition fold_byte :: "char \<Rightarrow> char" where
  "fold_byte c = (if is_lower c then to_upper_byte c else c)"

definition lower_byte :: "char \<Rightarrow> char" where
  "lower_byte c = (if is_upper c then char_of (byte c + 32) else c)"

lemma fold_byte_fixed: "\<not> is_lower c \<Longrightarrow> fold_byte c = c"
  by (simp add: fold_byte_def)

lemma byte_to_upper: "is_lower c \<Longrightarrow> byte (to_upper_byte c) = byte c - 32"
proof -
  assume "is_lower c"
  then have "byte c - 32 < 256" unfolding is_lower_def by linarith
  then have "(byte c - 32) mod 256 = byte c - 32" by (rule mod_less)
  then show "byte (to_upper_byte c) = byte c - 32" by (simp add: to_upper_byte_def)
qed

lemma byte_inject: "byte c = byte d \<longleftrightarrow> c = d"
  by (metis char_of_char)

lemma fold_byte_eq_nonletter:
  assumes "\<not> is_letter d" and "fold_byte c = d"
  shows "c = d"
proof (cases "is_lower c")
  case True
  then have "is_upper (to_upper_byte c)"
    using byte_to_upper [of c] by (auto simp: is_upper_def is_lower_def)
  then show ?thesis
    using assms True by (simp add: fold_byte_def is_letter_def)
next
  case False
  then show ?thesis using assms(2) by (simp add: fold_byte_def)
qed

section \<open>The strings package\<close>

definition has_prefix :: "string \<Rightarrow> string \<Rightarrow> bool" where
  "has_prefix s p = (take (length p) s = p)"

definition has_suffix :: "string \<Rightarrow> string \<Rightarrow> bool" where
  "has_suffix s p = has_prefix (rev s) (rev p)"

definition trim_prefix :: "string \<Rightarrow> string \<Rightarrow> string" where
  "trim_prefix s p = (if has_prefix s p then drop (length p) s else s)"

definition trim_suffix :: "string \<Rightarrow> string \<Rightarrow> string" where
  "trim_suffix s p = rev (trim_prefix (rev s) (rev p))"

text \<open>\<open>strings.Trim\<close>, \<open>TrimLeft\<close> and \<open>TrimRight\<close> with a cutset of ASCII characters.\<close>

definition trim_left :: "string \<Rightarrow> string \<Rightarrow> string" where
  "trim_left s cutset = dropWhile (\<lambda>c. c \<in> set cutset) s"

definition trim_right :: "string \<Rightarrow> string \<Rightarrow> string" where
  "trim_right s cutset = rev (trim_left (rev s) cutset)"

definition trim_set :: "string \<Rightarrow> string \<Rightarrow> string" where
  "trim_set s cutset = trim_right (trim_left s cutset) cutset"

fun contains :: "string \<Rightarrow> string \<Rightarrow> bool" where
  "contains [] p = (p = [])"
| "contains (c # s) p = (has_prefix (c # s) p \<or> contains s p)"

text \<open>\<open>strings.ReplaceAll\<close> with a non-empty pattern: left to right, without overlaps.\<close>

function replace_all :: "string \<Rightarrow> string \<Rightarrow> string \<Rightarrow> string" where
  "replace_all s old new =
     (if s = [] \<or> old = [] then s
      else if has_prefix s old then new @ replace_all (drop (length old) s) old new
      else hd s # replace_all (tl s) old new)"
  by pat_completeness auto
termination
  by (relation "measure (\<lambda>(s, old, new). length s)") (auto simp: neq_Nil_conv)

declare replace_all.simps [simp del]

text \<open>
  \<open>strings.EqualFold\<close> for arguments of equal byte length one of which is ASCII: it is then
  equality up to ASCII case, since a rune outside ASCII takes more bytes than the ASCII
  rune it may fold to.
\<close>

definition equal_fold :: "string \<Rightarrow> string \<Rightarrow> bool" where
  "equal_fold s t = (map fold_byte s = map fold_byte t)"

text \<open>\<open>strings.TrimSpace\<close> removes the runes of Unicode's White\_Space, in UTF-8.\<close>

definition space_runes :: "string list" where
  "space_runes =
     [[CHR 0x09], [CHR 0x0A], [CHR 0x0B], [CHR 0x0C], [CHR 0x0D], [CHR 0x20],
      [CHR 0xC2, CHR 0x85], [CHR 0xC2, CHR 0xA0], [CHR 0xE1, CHR 0x9A, CHR 0x80],
      [CHR 0xE2, CHR 0x80, CHR 0xA8], [CHR 0xE2, CHR 0x80, CHR 0xA9],
      [CHR 0xE2, CHR 0x80, CHR 0xAF], [CHR 0xE2, CHR 0x81, CHR 0x9F],
      [CHR 0xE3, CHR 0x80, CHR 0x80]]
     @ map (\<lambda>c. [CHR 0xE2, CHR 0x80, c])
         [CHR 0x80, CHR 0x81, CHR 0x82, CHR 0x83, CHR 0x84, CHR 0x85, CHR 0x86, CHR 0x87,
          CHR 0x88, CHR 0x89, CHR 0x8A]"

function trim_left_runes :: "string list \<Rightarrow> string \<Rightarrow> string" where
  "trim_left_runes runes s =
     (case find (\<lambda>r. r \<noteq> [] \<and> has_prefix s r) runes of
        None \<Rightarrow> s
      | Some r \<Rightarrow> if s = [] then s else trim_left_runes runes (drop (length r) s))"
  by pat_completeness auto
termination
  by (relation "measure (\<lambda>(runes, s). length s)") (auto simp: find_Some_iff)

declare trim_left_runes.simps [simp del]

definition trim_space :: "string \<Rightarrow> string" where
  "trim_space s =
     rev (trim_left_runes (map rev space_runes) (rev (trim_left_runes space_runes s)))"

text \<open>\<open>strings.LastIndexByte\<close>, with \<open>None\<close> for -1.\<close>

definition last_index_byte :: "string \<Rightarrow> char \<Rightarrow> nat option" where
  "last_index_byte s c =
     (if c \<in> set s then Some (length s - 1 - length (takeWhile (\<lambda>d. d \<noteq> c) (rev s))) else None)"

definition to_lower :: "string \<Rightarrow> string" where
  "to_lower s = map lower_byte s"

definition contains_any :: "string \<Rightarrow> string \<Rightarrow> bool" where
  "contains_any s chars = list_ex (\<lambda>c. c \<in> set chars) s"

lemma tl_dropWhile_less: "length (dropWhile P s) - Suc 0 < Suc (length s)"
  using length_dropWhile_le [of P s] by linarith

lemma find_SomeD: "find P xs = Some x \<Longrightarrow> x \<in> set xs \<and> P x"
  by (auto simp: find_Some_iff)

lemma map_filter_eqI:
  "(\<And>x. x \<in> set xs \<Longrightarrow> f x = g x) \<Longrightarrow> List.map_filter f xs = List.map_filter g xs"
  by (induction xs) (simp_all add: map_filter_simps split: option.splits)

lemma take_drop_cat: "take k s @ (drop k s @ t) = s @ t"
  by (metis append.assoc append_take_drop_id)

lemma takeWhile_dropWhile_none [simp]: "takeWhile P (dropWhile P s) = []"
  by (induction s) auto

section \<open>UTF-8\<close>

definition cont_byte :: "char \<Rightarrow> bool" where
  "cont_byte c = (128 \<le> byte c \<and> byte c \<le> 191)"

text \<open>
  The width of the valid rune a string starts with, as \<open>utf8.DecodeRuneInString\<close> accepts
  it: no overlong forms, no surrogates, nothing above U+10FFFF.
\<close>

definition rune_width :: "string \<Rightarrow> nat option" where
  "rune_width s =
     (case s of [] \<Rightarrow> None
      | c # t \<Rightarrow>
         (let b = byte c;
              b1 = (case t of [] \<Rightarrow> 0 | d # _ \<Rightarrow> byte d);
              c2 = (case t of _ # d # _ \<Rightarrow> cont_byte d | _ \<Rightarrow> False);
              c3 = (case t of _ # _ # d # _ \<Rightarrow> cont_byte d | _ \<Rightarrow> False)
          in if b < 128 then Some 1
             else if 194 \<le> b \<and> b \<le> 223 then
               (if 128 \<le> b1 \<and> b1 \<le> 191 then Some 2 else None)
             else if 224 \<le> b \<and> b \<le> 239 then
               (if (if b = 224 then 160 else 128) \<le> b1 \<and> b1 \<le> (if b = 237 then 159 else 191) \<and> c2
                then Some 3 else None)
             else if 240 \<le> b \<and> b \<le> 244 then
               (if (if b = 240 then 144 else 128) \<le> b1 \<and> b1 \<le> (if b = 244 then 143 else 191) \<and> c2 \<and> c3
                then Some 4 else None)
             else None))"

lemma rune_width_pos: "rune_width s = Some n \<Longrightarrow> 0 < n \<and> s \<noteq> []"
  by (auto simp: rune_width_def Let_def split: list.splits if_splits)

lemma rune_width_ascii: "byte c < 128 \<Longrightarrow> rune_width (c # s) = Some 1"
  by (simp add: rune_width_def Let_def)

text \<open>\<open>utf8.ValidString\<close>.\<close>

function utf8_valid :: "string \<Rightarrow> bool" where
  "utf8_valid s =
     (if s = [] then True
      else case rune_width s of None \<Rightarrow> False | Some n \<Rightarrow> utf8_valid (drop n s))"
  by pat_completeness auto
termination
  by (relation "measure length") (auto dest: rune_width_pos)

declare utf8_valid.simps [simp del]

lemma utf8_valid_Nil [simp]: "utf8_valid []"
  by (simp add: utf8_valid.simps)

lemma utf8_valid_ascii: "(\<And>c. c \<in> set s \<Longrightarrow> byte c < 128) \<Longrightarrow> utf8_valid s"
  by (induction s) (simp_all add: utf8_valid.simps rune_width_ascii)

text \<open>
  \<open>range\<close> over a string visits the byte index of every rune start; an invalid byte is a
  rune of width 1. \<open>rune_starts i s\<close> lists them for the string \<open>s\<close> that starts at index \<open>i\<close>.
\<close>

function rune_starts :: "nat \<Rightarrow> string \<Rightarrow> nat list" where
  "rune_starts i s =
     (if s = [] then []
      else let n = (case rune_width s of None \<Rightarrow> 1 | Some n \<Rightarrow> n)
           in i # rune_starts (i + n) (drop n s))"
  by pat_completeness auto
termination
  by (relation "measure (\<lambda>(i, s). length s)") (auto dest: rune_width_pos split: option.splits)

declare rune_starts.simps [simp del]

section \<open>Decimal numerals\<close>

definition digit_char :: "nat \<Rightarrow> char" where
  "digit_char d = char_of (48 + d)"

text \<open>\<open>strconv.Itoa\<close> and \<open>%d\<close> of a number that is not negative.\<close>

fun itoa :: "nat \<Rightarrow> string" where
  "itoa n = (if n < 10 then [digit_char n] else itoa (n div 10) @ [digit_char (n mod 10)])"

declare itoa.simps [simp del]

definition itoa_int :: "int \<Rightarrow> string" where
  "itoa_int i = (if i < 0 then ''-'' @ itoa (nat (- i)) else itoa (nat i))"

fun atoi_acc :: "nat \<Rightarrow> string \<Rightarrow> nat" where
  "atoi_acc a [] = a"
| "atoi_acc a (c # s) = atoi_acc (10 * a + (byte c - 48)) s"

lemma byte_digit_char: "d < 10 \<Longrightarrow> byte (digit_char d) = 48 + d"
  by (simp add: digit_char_def)

lemma is_digit_digit_char: "d < 10 \<Longrightarrow> is_digit (digit_char d)"
  by (simp add: is_digit_def byte_digit_char)

lemma atoi_acc_append: "atoi_acc a (s @ t) = atoi_acc (atoi_acc a s) t"
  by (induction s arbitrary: a) auto

lemma atoi_acc_itoa: "atoi_acc 0 (itoa n) = n"
proof (induction n rule: itoa.induct)
  case (1 n)
  show ?case
    using 1 by (cases "n < 10") (auto simp: itoa.simps [of n] atoi_acc_append byte_digit_char)
qed

lemma itoa_inject: "itoa m = itoa n \<longleftrightarrow> m = n"
  by (metis atoi_acc_itoa)

lemma itoa_digits: "c \<in> set (itoa n) \<Longrightarrow> is_digit c"
proof (induction n rule: itoa.induct)
  case (1 n)
  then show ?case
    by (cases "n < 10") (auto simp: itoa.simps [of n] is_digit_digit_char)
qed

lemma itoa_not_Nil [simp]: "itoa n \<noteq> []"
  by (subst itoa.simps) simp

section \<open>Evaluation\<close>

text \<open>
  Code equations that read the classes of a byte off its bits, so that evaluating the model
  needs no arithmetic on character codes.
\<close>

lemma of_char_bits: "byte (Char b0 b1 b2 b3 b4 b5 b6 b7) =
    of_bool b0 + 2 * of_bool b1 + 4 * of_bool b2 + 8 * of_bool b3 + 16 * of_bool b4
    + 32 * of_bool b5 + 64 * of_bool b6 + 128 * of_bool b7"
  by (simp add: of_char_def)

lemma is_digit_code [code]: "is_digit (Char b0 b1 b2 b3 b4 b5 b6 b7) =
    (\<not> b7 \<and> \<not> b6 \<and> b5 \<and> b4 \<and> \<not> (b3 \<and> (b2 \<or> b1)))"
  unfolding is_digit_def of_char_bits
  by (cases b7; cases b6; cases b5; cases b4; cases b3; cases b2; cases b1; cases b0) simp_all

lemma is_upper_code [code]: "is_upper (Char b0 b1 b2 b3 b4 b5 b6 b7) =
    (\<not> b7 \<and> b6 \<and> \<not> b5 \<and> (b0 \<or> b1 \<or> b2 \<or> b3 \<or> b4) \<and> \<not> (b4 \<and> b3 \<and> (b2 \<or> b1 \<and> b0)))"
  unfolding is_upper_def of_char_bits
  by (cases b7; cases b6; cases b5; cases b4; cases b3; cases b2; cases b1; cases b0) simp_all

lemma is_lower_code [code]: "is_lower (Char b0 b1 b2 b3 b4 b5 b6 b7) =
    (\<not> b7 \<and> b6 \<and> b5 \<and> (b0 \<or> b1 \<or> b2 \<or> b3 \<or> b4) \<and> \<not> (b4 \<and> b3 \<and> (b2 \<or> b1 \<and> b0)))"
  unfolding is_lower_def of_char_bits
  by (cases b7; cases b6; cases b5; cases b4; cases b3; cases b2; cases b1; cases b0) simp_all

lemma to_upper_byte_bits:
  assumes "is_lower (Char b0 b1 b2 b3 b4 b5 b6 b7)"
  shows "to_upper_byte (Char b0 b1 b2 b3 b4 b5 b6 b7) = Char b0 b1 b2 b3 b4 False b6 b7"
proof -
  have b: "b5" "b6" "\<not> b7" using assms by (simp_all add: is_lower_code)
  have "byte (to_upper_byte (Char b0 b1 b2 b3 b4 b5 b6 b7)) = byte (Char b0 b1 b2 b3 b4 False b6 b7)"
    unfolding byte_to_upper [OF assms] of_char_bits using b by simp
  then show ?thesis by (simp only: byte_inject)
qed

lemma to_upper_byte_code [code]: "to_upper_byte (Char b0 b1 b2 b3 b4 b5 b6 b7) =
    (if is_lower (Char b0 b1 b2 b3 b4 b5 b6 b7) then Char b0 b1 b2 b3 b4 False b6 b7
     else char_of (byte (Char b0 b1 b2 b3 b4 b5 b6 b7) - 32))"
  using to_upper_byte_bits by (simp add: to_upper_byte_def)

lemma digit_char_code [code]:
  "digit_char d = (if d < 10 then ''0123456789'' ! d else char_of (48 + d))"
proof -
  have "\<forall>d \<in> {..<10}. digit_char d = ''0123456789'' ! d"
    by (simp add: lessThan_nat_numeral lessThan_Suc digit_char_def char_of_def bit_0)
  then show ?thesis by (simp add: digit_char_def)
qed

end
