(* ===== verification/Domain.thy ===== *)
theory Domain
  imports GoBase "HOL-Library.Word"
begin

text \<open>
  The data of \<open>pkg/domain\<close>: accounts and API keys, requests and results, models, routers,
  proofs, usage, and the gateway's error type with its constructors. Strings that Go uses
  as enumerations stay strings, since other services send them. A nil pointer is \<open>None\<close>.
  A \<open>float32\<close> or \<open>float64\<close> that the gateway carries or compares with zero is kept as its
  IEEE bits. Prices are of the third-party type \<open>decimal.Decimal\<close>, the type variable
  \<open>'d\<close> of the model record.
\<close>

type_synonym float32 = "32 word"
type_synonym float64 = "64 word"

text \<open>\<open>x > 0\<close> on a \<open>float64\<close>: sign bit clear, not zero, not a NaN.\<close>

definition f64_positive :: "float64 \<Rightarrow> bool" where
  "f64_positive x = (0 < x \<and> x \<le> 0x7FF0000000000000)"

section \<open>Accounts and API keys\<close>

definition AccountStatusActive :: string where "AccountStatusActive = ''active''"
definition AccountStatusInactive :: string where "AccountStatusInactive = ''inactive''"

record account =
  acc_ID :: string
  acc_AuthgearSubjectID :: "string option"
  acc_ExternalCustomerID :: "string option"
  acc_Email :: "string option"
  acc_Name :: "string option"
  acc_Status :: string
  acc_Plan :: string
  acc_SubscriptionCancelAtPeriodEnd :: bool
  acc_SubscriptionCancelAt :: "time option"
  acc_CreatedAt :: time
  acc_UpdatedAt :: time
  acc_LastUsedAt :: "time option"
  acc_IsGuest :: bool

definition IsActive :: "account \<Rightarrow> bool" where
  "IsActive a = (acc_Status a = AccountStatusActive)"

record api_key =
  key_ID :: string
  key_AccountID :: string
  key_Name :: "string option"
  key_KeyPrefix :: string
  key_KeyHash :: string
  key_Active :: bool
  key_PIIMode :: string
  key_LastUsedAt :: "time option"
  key_ExpiresAt :: "time option"
  key_RevokedAt :: "time option"
  key_CreatedAt :: time

definition IsKeyActive :: "api_key \<Rightarrow> bool" where
  "IsKeyActive k = key_Active k"

definition APIKeyPIIModeOff :: string where "APIKeyPIIModeOff = ''off''"
definition APIKeyPIIModeLow :: string where "APIKeyPIIModeLow = ''low''"
definition APIKeyPIIModeBalanced :: string where "APIKeyPIIModeBalanced = ''balanced''"
definition APIKeyPIIModeHigh :: string where "APIKeyPIIModeHigh = ''high''"

definition DefaultAPIKeyPIIMode :: string where "DefaultAPIKeyPIIMode = APIKeyPIIModeOff"

definition NormalizeAPIKeyPIIMode :: "string \<Rightarrow> string \<times> bool" where
  "NormalizeAPIKeyPIIMode mode =
     (if mode = '''' then (DefaultAPIKeyPIIMode, True)
      else if mode \<in> set [APIKeyPIIModeOff, APIKeyPIIModeLow, APIKeyPIIModeBalanced, APIKeyPIIModeHigh]
      then (mode, True)
      else ('''', False))"

record auth_context =
  auth_Account :: account
  auth_APIKey :: api_key

section \<open>Routing\<close>

record routing_category_score =
  rcs_Category :: string
  rcs_Score :: float32
  rcs_Threshold :: float32
  rcs_PassedThreshold :: bool
  rcs_Selected :: bool

record route_decision =
  dec_PublicModelID :: string
  dec_Category :: "string option"
  dec_Score :: "float32 option"
  dec_CategoryScores :: "routing_category_score list"
  dec_FallbackUsed :: bool
  dec_Reason :: string

record router_entry =
  router_ID :: string
  router_RouterID :: string
  router_DisplayName :: string
  router_Description :: "string option"
  router_FallbackPublicModelID :: string
  router_StrategyType :: string
  router_StrategyConfig :: string
  router_Active :: bool
  router_CreatedAt :: time
  router_UpdatedAt :: time

section \<open>Requests, results and usage\<close>

definition EndpointChatCompletions :: string where
  "EndpointChatCompletions = ''chat_completions''"
definition EndpointSystemOne :: string where
  "EndpointSystemOne = ''systemone''"

record input_item =
  item_Role :: "string option"
  item_Content :: "string option"

record tool_definition =
  tool_Name :: string

record generate_request =
  req_PublicModelID :: string
  req_RequestedModelID :: string
  req_RouterID :: "string option"
  req_RoutedPublicModelID :: "string option"
  req_MatchedCategory :: "string option"
  req_RoutingScore :: "float32 option"
  req_RoutingCategoryScores :: "routing_category_score list"
  req_DecisionReason :: "string option"
  req_FallbackUsed :: "bool option"
  req_Input :: "input_item list"
  req_Tools :: "tool_definition list"
  req_Stream :: bool
  req_MaxOutputTokens :: "int option"
  req_EstimatedInputTokens :: "int option"
  req_ServiceTier :: "string option"
  req_ParallelToolCalls :: "bool option"
  req_StructuredOutput :: bool

record route_request =
  route_RouterID :: string
  route_Request :: generate_request

record usage =
  PromptTokens :: int
  CompletionTokens :: int
  TotalTokens :: int
  CacheCreationTokens :: int
  CacheReadTokens :: int

definition ProofStatusVerified :: string where "ProofStatusVerified = ''verified''"

record tinfoil_proof =
  proof_ID :: string
  proof_AccountID :: string
  proof_APIKeyID :: string
  proof_Provider :: string
  proof_PublicModelID :: string
  proof_UpstreamModelID :: string
  proof_ProviderResponseID :: string
  proof_EnclaveHost :: "string option"
  proof_ConfigRepo :: "string option"
  proof_Digest :: "string option"
  proof_CodeFingerprint :: "string option"
  proof_EnclaveFingerprint :: "string option"
  proof_TLSPublicKey :: "string option"
  proof_HPKEPublicKey :: "string option"
  proof_TransportMode :: "string option"
  proof_SDKVersion :: "string option"
  proof_Status :: string
  proof_FailureReason :: "string option"
  proof_VerificationEvidenceJSON :: string
  proof_CreatedAt :: time
  proof_VerifiedAt :: "time option"

record generate_result =
  res_ID :: string
  res_PublicModelID :: string
  res_ProviderName :: string
  res_ProviderModelID :: string
  res_FinishReason :: "string option"
  res_Usage :: "usage option"
  res_TinfoilProof :: "tinfoil_proof option"

section \<open>Models\<close>

definition ProofModeNone :: string where "ProofModeNone = ''none''"
definition ProofModeTinfoilAttestedTransport :: string where
  "ProofModeTinfoilAttestedTransport = ''tinfoil_attested_transport''"

record provider_config =
  pc_ID :: string
  pc_ProviderName :: string
  pc_BaseURL :: string
  pc_APIKeySecretRef :: string
  pc_OrganizationRef :: "string option"
  pc_Active :: bool

record provider_target =
  target_ProviderModelID :: string
  target_UpstreamModelName :: string
  target_ServiceTier :: "string option"
  target_ProviderConfig :: provider_config

record 'd public_model =
  m_ID :: string
  m_PublicModelID :: string
  m_DisplayName :: string
  m_Description :: "string option"
  m_ProviderModelID :: string
  m_UpstreamModelName :: string
  m_ServiceTier :: "string option"
  m_ProviderConfig :: provider_config
  m_Fallback :: "provider_target option"
  m_SupportsChatCompletions :: bool
  m_Capabilities :: string
  m_ProofMode :: string
  m_MaxContextWindow :: int
  m_MaxOutputTokens :: int
  m_InputPricePerMillion :: 'd
  m_OutputPricePerMillion :: 'd
  m_CacheReadPricePerMillion :: "'d option"
  m_CacheWritePricePerMillion :: "'d option"
  m_Currency :: string
  m_Active :: bool
  m_GuestAllowed :: bool

definition EffectiveProofMode :: "'d public_model \<Rightarrow> string" where
  "EffectiveProofMode m =
     (if m_ProofMode m \<noteq> '''' \<and> m_ProofMode m \<noteq> ProofModeNone then m_ProofMode m else ProofModeNone)"

definition ProofModeEnabled :: "string \<Rightarrow> bool" where
  "ProofModeEnabled mode = (mode \<noteq> '''' \<and> mode \<noteq> ProofModeNone)"

definition SupportsEndpoint :: "'d public_model \<Rightarrow> string \<Rightarrow> bool" where
  "SupportsEndpoint m endpoint =
     (if pc_ProviderName (m_ProviderConfig m) = ''typesafe'' then endpoint = EndpointSystemOne
      else if endpoint = EndpointChatCompletions then m_SupportsChatCompletions m
      else False)"

lemmas endpoint_defs = EndpointChatCompletions_def EndpointSystemOne_def

text \<open>No model serves both protocols, and SystemOne is served by typesafe only.\<close>

lemma SupportsEndpoint_exclusive:
  "\<not> (SupportsEndpoint m EndpointChatCompletions \<and> SupportsEndpoint m EndpointSystemOne)"
  by (simp add: SupportsEndpoint_def endpoint_defs)

lemma SupportsEndpoint_other:
  "endpoint \<noteq> EndpointChatCompletions \<Longrightarrow> endpoint \<noteq> EndpointSystemOne \<Longrightarrow> \<not> SupportsEndpoint m endpoint"
  by (simp add: SupportsEndpoint_def)

lemma ProofModeEnabled_Effective:
  "ProofModeEnabled (EffectiveProofMode m) \<longleftrightarrow> EffectiveProofMode m \<noteq> ProofModeNone"
  by (simp add: ProofModeEnabled_def EffectiveProofMode_def ProofModeNone_def)

text \<open>The catalog entries that mix models and routers.\<close>

datatype catalog_kind = CatalogKindPublicModel | CatalogKindRouter

record 'd model_catalog_entry =
  entry_Kind :: catalog_kind
  entry_PublicModel :: "'d public_model option"
  entry_Router :: "router_entry option"
  entry_EURToUSDRate :: float64

end
