(* ===== verification/Errors.thy ===== *)
theory Errors
  imports Domain
begin

text \<open>
  The gateway's errors (\<open>pkg/domain/error.go\<close>) and their classification
  (\<open>pkg/domain/error_class.go\<close>): which party is at fault, and which diagnostic fields
  may be logged. \<open>go_error\<close> collects the error values the modelled code passes around;
  \<open>as_gateway\<close> is \<open>errors.As\<close> with a \<open>GatewayError\<close> target, which looks through wrappers.
\<close>

section \<open>Types and codes\<close>

abbreviation ErrTypeInvalidRequest :: string where "ErrTypeInvalidRequest \<equiv> ''invalid_request_error''"
abbreviation ErrTypeAuthentication :: string where "ErrTypeAuthentication \<equiv> ''authentication_error''"
abbreviation ErrTypePermission :: string where "ErrTypePermission \<equiv> ''permission_error''"
abbreviation ErrTypeProvider :: string where "ErrTypeProvider \<equiv> ''provider_error''"
abbreviation ErrTypeInternal :: string where "ErrTypeInternal \<equiv> ''internal_error''"
abbreviation ErrTypeRateLimit :: string where "ErrTypeRateLimit \<equiv> ''rate_limit_error''"

abbreviation ErrCodeInvalidAPIKey :: string where "ErrCodeInvalidAPIKey \<equiv> ''invalid_api_key''"
abbreviation ErrCodeInactiveAPIKey :: string where "ErrCodeInactiveAPIKey \<equiv> ''inactive_api_key''"
abbreviation ErrCodeInactiveAccount :: string where "ErrCodeInactiveAccount \<equiv> ''inactive_account''"
abbreviation ErrCodeUnsupportedModel :: string where "ErrCodeUnsupportedModel \<equiv> ''unsupported_model''"
abbreviation ErrCodeUnsupportedEndpoint :: string where "ErrCodeUnsupportedEndpoint \<equiv> ''unsupported_endpoint''"
abbreviation ErrCodeUnsupportedFeature :: string where "ErrCodeUnsupportedFeature \<equiv> ''unsupported_feature''"
abbreviation ErrCodeContextLengthExceeded :: string where
  "ErrCodeContextLengthExceeded \<equiv> ''context_length_exceeded''"
abbreviation ErrCodeProviderUnavailable :: string where "ErrCodeProviderUnavailable \<equiv> ''provider_unavailable''"
abbreviation ErrCodeProviderRejectedRequest :: string where
  "ErrCodeProviderRejectedRequest \<equiv> ''provider_rejected_request''"
abbreviation ErrCodeProviderConfiguration :: string where
  "ErrCodeProviderConfiguration \<equiv> ''provider_configuration_error''"
abbreviation ErrCodeProviderRateLimited :: string where "ErrCodeProviderRateLimited \<equiv> ''provider_rate_limited''"
abbreviation ErrCodeProviderError :: string where "ErrCodeProviderError \<equiv> ''provider_error''"
abbreviation ErrCodeProviderTimeout :: string where "ErrCodeProviderTimeout \<equiv> ''provider_timeout''"
abbreviation ErrCodeToolSchemaInvalid :: string where "ErrCodeToolSchemaInvalid \<equiv> ''tool_schema_invalid''"
abbreviation ErrCodeToolMessageInvalid :: string where "ErrCodeToolMessageInvalid \<equiv> ''tool_message_invalid''"
abbreviation ErrCodeInvalidField :: string where "ErrCodeInvalidField \<equiv> ''invalid_field''"
abbreviation ErrCodeUnknownField :: string where "ErrCodeUnknownField \<equiv> ''unknown_field''"
abbreviation ErrCodeInsufficientBalance :: string where "ErrCodeInsufficientBalance \<equiv> ''insufficient_balance''"
abbreviation ErrCodeDailyTokenLimit :: string where "ErrCodeDailyTokenLimit \<equiv> ''daily_token_limit_exceeded''"
abbreviation ErrCodeGuestModelNotAllowed :: string where "ErrCodeGuestModelNotAllowed \<equiv> ''guest_model_not_allowed''"
abbreviation ErrCodeConfidentialLimit :: string where
  "ErrCodeConfidentialLimit \<equiv> ''confidential_request_limit_exceeded''"
abbreviation ErrCodeClientCanceled :: string where "ErrCodeClientCanceled \<equiv> ''client_canceled''"
abbreviation ErrCodeInternalError :: string where "ErrCodeInternalError \<equiv> ''internal_error''"
abbreviation ErrCodeNotFound :: string where "ErrCodeNotFound \<equiv> ''not_found''"
abbreviation ErrCodeForbidden :: string where "ErrCodeForbidden \<equiv> ''forbidden''"
abbreviation ErrCodeConflict :: string where "ErrCodeConflict \<equiv> ''conflict''"
abbreviation ErrCodeAlreadyExists :: string where "ErrCodeAlreadyExists \<equiv> ''already_exists''"

section \<open>Error values\<close>

text \<open>
  Metadata values (Go's \<open>any\<close>): the dynamic types the gateway stores or inspects. \<open>MOther\<close>
  is a value of any other type.
\<close>

datatype meta =
    MInt int
  | MInt64 int
  | MStr string
  | MStrs "string list"
  | MList "meta list"
  | MBool bool
  | MMap "(string \<times> meta) list"
  | MMaps "(string \<times> meta) list list"
  | MOther

record gateway_error =
  ge_HTTPStatus :: int
  ge_Type :: string
  ge_Code :: string
  ge_Message :: string
  ge_RetryAfter :: string
  ge_Metadata :: "string \<rightharpoonup> meta"

definition GatewayError_Error :: "gateway_error \<Rightarrow> string" where
  "GatewayError_Error e = ge_Type e @ '': '' @ ge_Code e @ '': '' @ ge_Message e"

text \<open>The upstream HTTP error of the OpenAI-compatible client (\<open>openai/client.go\<close>).\<close>

record provider_http_error =
  phe_RetryAfter :: string
  phe_StatusCode :: int
  phe_Body :: string
  phe_RawBody :: string
  phe_Type :: string
  phe_Code :: string
  phe_Reason :: string
  phe_TraceID :: string

datatype go_error =
    GwErr gateway_error
  | HttpErr provider_http_error
  | RetryableErr go_error
  | WrapErr string go_error   \<comment> \<open>\<open>fmt.Errorf\<close> with \<open>%w\<close>: prefix and cause\<close>
  | CtxCanceled               \<comment> \<open>\<open>context.Canceled\<close>\<close>
  | CtxDeadline               \<comment> \<open>\<open>context.DeadlineExceeded\<close>\<close>
  | NetErr string bool        \<comment> \<open>a \<open>net.Error\<close>: message and \<open>Timeout()\<close>\<close>
  | PlainErr string

fun as_gateway :: "go_error \<Rightarrow> gateway_error option" where
  "as_gateway (GwErr e) = Some e"
| "as_gateway (RetryableErr e) = as_gateway e"
| "as_gateway (WrapErr p e) = as_gateway e"
| "as_gateway _ = None"

fun as_http :: "go_error \<Rightarrow> provider_http_error option" where
  "as_http (HttpErr e) = Some e"
| "as_http (RetryableErr e) = as_http e"
| "as_http (WrapErr p e) = as_http e"
| "as_http _ = None"

text \<open>\<open>errors.Is\<close>, used with the two context errors as targets only.\<close>

fun same_sentinel :: "go_error \<Rightarrow> go_error \<Rightarrow> bool" where
  "same_sentinel CtxCanceled CtxCanceled = True"
| "same_sentinel CtxDeadline CtxDeadline = True"
| "same_sentinel target e = False"

fun is_err :: "go_error \<Rightarrow> go_error \<Rightarrow> bool" where
  "is_err target (RetryableErr e) = is_err target e"
| "is_err target (WrapErr p e) = is_err target e"
| "is_err target e = same_sentinel target e"

text \<open>\<open>Error()\<close>, the text of an error.\<close>

fun error_text :: "go_error \<Rightarrow> string" where
  "error_text (GwErr e) = GatewayError_Error e"
| "error_text (HttpErr e) = ''provider error ('' @ itoa_int (phe_StatusCode e) @ ''): '' @ phe_Body e"
| "error_text (RetryableErr e) = error_text e"
| "error_text (WrapErr p e) = p @ error_text e"
| "error_text CtxCanceled = ''context canceled''"
| "error_text CtxDeadline = ''context deadline exceeded''"
| "error_text (NetErr msg t) = msg"
| "error_text (PlainErr msg) = msg"

definition with_meta_pair :: "(string \<rightharpoonup> meta) \<Rightarrow> meta \<Rightarrow> meta \<Rightarrow> (string \<rightharpoonup> meta)" where
  "with_meta_pair m k v = (case k of MStr key \<Rightarrow> m(key \<mapsto> v) | _ \<Rightarrow> m)"

fun with_meta_fields :: "(string \<rightharpoonup> meta) \<Rightarrow> meta list \<Rightarrow> (string \<rightharpoonup> meta)" where
  "with_meta_fields m (k # v # rest) = with_meta_fields (with_meta_pair m k v) rest"
| "with_meta_fields m _ = m"

text \<open>
  \<open>WithMeta\<close> copies the error and its metadata; the model's maps are values, so the copy is
  the update. A nil map and an empty one are the same map here: no code tells them apart.
\<close>

definition WithMeta :: "gateway_error \<Rightarrow> meta list \<Rightarrow> gateway_error" where
  "WithMeta e fs = e\<lparr>ge_Metadata := with_meta_fields (ge_Metadata e) fs\<rparr>"

definition Annotate :: "go_error \<Rightarrow> meta list \<Rightarrow> go_error" where
  "Annotate err fs =
     (case as_gateway err of None \<Rightarrow> err | Some e \<Rightarrow> GwErr (WithMeta e fs))"

section \<open>Constructors\<close>

definition new_error :: "int \<Rightarrow> string \<Rightarrow> string \<Rightarrow> string \<Rightarrow> gateway_error" where
  "new_error status ty code msg =
     \<lparr>ge_HTTPStatus = status, ge_Type = ty, ge_Code = code, ge_Message = msg,
      ge_RetryAfter = '''', ge_Metadata = Map.empty\<rparr>"

definition ErrInvalidAPIKey :: "string \<Rightarrow> gateway_error" where
  "ErrInvalidAPIKey msg = new_error 401 ErrTypeAuthentication ErrCodeInvalidAPIKey msg"

definition ErrGuestModelNotAllowed :: "string \<Rightarrow> gateway_error" where
  "ErrGuestModelNotAllowed model =
     new_error 403 ErrTypePermission ErrCodeGuestModelNotAllowed
       (''Guest chat can'' @ [CHR 0x27] @ ''t use '' @ [CHR 0x27] @ model @ [CHR 0x27]
        @ ''. Sign up for free to use every model.'')"

definition quoted :: "string \<Rightarrow> string" where
  "quoted s = [CHR 0x27] @ s @ [CHR 0x27]"

definition ErrUnsupportedModel :: "string \<Rightarrow> gateway_error" where
  "ErrUnsupportedModel model =
     new_error 404 ErrTypeInvalidRequest ErrCodeUnsupportedModel
       (''Model '' @ quoted model @ '' is not available'')"

definition ErrUnsupportedEndpoint :: "string \<Rightarrow> string \<Rightarrow> gateway_error" where
  "ErrUnsupportedEndpoint model endpoint =
     new_error 422 ErrTypeInvalidRequest ErrCodeUnsupportedEndpoint
       (''Model '' @ quoted model @ '' does not support endpoint '' @ quoted endpoint)"

definition ErrUnsupportedFeature :: "string \<Rightarrow> gateway_error" where
  "ErrUnsupportedFeature feature =
     new_error 422 ErrTypeInvalidRequest ErrCodeUnsupportedFeature
       (''Feature '' @ quoted feature @ '' is not supported by the selected model'')"

definition ErrProviderUnavailable :: "string \<Rightarrow> gateway_error" where
  "ErrProviderUnavailable provider =
     new_error 503 ErrTypeProvider ErrCodeProviderUnavailable
       (''Provider '' @ quoted provider @ '' is unavailable'')"

definition ErrProviderTimeout :: "string \<Rightarrow> gateway_error" where
  "ErrProviderTimeout provider =
     new_error 504 ErrTypeProvider ErrCodeProviderTimeout
       (''Provider '' @ quoted provider @ '' timed out'')"

definition ErrClientCanceled :: gateway_error where
  "ErrClientCanceled =
     new_error 499 ErrTypeInvalidRequest ErrCodeClientCanceled ''Client canceled the request''"

definition ErrInvalidField :: "string \<Rightarrow> gateway_error" where
  "ErrInvalidField msg = new_error 400 ErrTypeInvalidRequest ErrCodeInvalidField msg"

definition ErrToolMessageInvalid :: "string \<Rightarrow> gateway_error" where
  "ErrToolMessageInvalid msg = new_error 400 ErrTypeInvalidRequest ErrCodeToolMessageInvalid msg"

definition ErrInternal :: "string \<Rightarrow> gateway_error" where
  "ErrInternal msg = new_error 500 ErrTypeInternal ErrCodeInternalError msg"

definition ErrProviderError :: "int \<Rightarrow> string \<Rightarrow> gateway_error" where
  "ErrProviderError status msg = new_error status ErrTypeProvider ErrCodeProviderError msg"

definition ErrConflict :: "string \<Rightarrow> gateway_error" where
  "ErrConflict msg = new_error 409 ErrTypeInvalidRequest ErrCodeConflict msg"

definition ErrNotFound :: "string \<Rightarrow> string \<Rightarrow> gateway_error" where
  "ErrNotFound resource ident =
     new_error 404 ErrTypeInvalidRequest ErrCodeNotFound
       (resource @ '' '' @ quoted ident @ '' not found'')"

definition ErrInsufficientBalance :: gateway_error where
  "ErrInsufficientBalance =
     new_error 402 ErrTypePermission ErrCodeInsufficientBalance ''Account has no spendable balance''"

lemmas error_constructors =
  new_error_def ErrInvalidAPIKey_def ErrGuestModelNotAllowed_def ErrUnsupportedModel_def
  ErrUnsupportedEndpoint_def ErrUnsupportedFeature_def ErrProviderUnavailable_def
  ErrProviderTimeout_def ErrClientCanceled_def ErrInvalidField_def ErrToolMessageInvalid_def
  ErrInternal_def ErrProviderError_def ErrConflict_def ErrNotFound_def ErrInsufficientBalance_def

lemma WithMeta_fields [simp]:
  "ge_HTTPStatus (WithMeta e fs) = ge_HTTPStatus e" "ge_Type (WithMeta e fs) = ge_Type e"
  "ge_Code (WithMeta e fs) = ge_Code e" "ge_Message (WithMeta e fs) = ge_Message e"
  "ge_RetryAfter (WithMeta e fs) = ge_RetryAfter e"
  "ge_Metadata (WithMeta e fs) = with_meta_fields (ge_Metadata e) fs"
  by (simp_all add: WithMeta_def)

lemma with_meta_fields_other:
  "MStr key \<notin> set fs \<Longrightarrow> with_meta_fields m fs key = m key"
  by (induction m fs rule: with_meta_fields.induct)
     (auto simp: with_meta_pair_def split: meta.splits)

section \<open>Fault classification\<close>

abbreviation FaultCaller :: string where "FaultCaller \<equiv> ''caller''"
abbreviation FaultProvider :: string where "FaultProvider \<equiv> ''provider''"
abbreviation FaultNexus :: string where "FaultNexus \<equiv> ''nexus''"
abbreviation FaultUnclear :: string where "FaultUnclear \<equiv> ''unclear''"

definition faults :: "string list" where
  "faults = [FaultCaller, FaultProvider, FaultNexus, FaultUnclear]"

definition faultByCode :: "string \<rightharpoonup> string" where
  "faultByCode = map_of
    [(ErrCodeInvalidAPIKey, FaultCaller), (ErrCodeConfidentialLimit, FaultCaller),
     (ErrCodeInactiveAPIKey, FaultCaller), (ErrCodeInactiveAccount, FaultCaller),
     (ErrCodeUnsupportedModel, FaultCaller), (ErrCodeUnsupportedEndpoint, FaultCaller),
     (ErrCodeUnsupportedFeature, FaultCaller), (ErrCodeContextLengthExceeded, FaultCaller),
     (ErrCodeToolSchemaInvalid, FaultCaller), (ErrCodeToolMessageInvalid, FaultCaller),
     (ErrCodeInvalidField, FaultCaller), (ErrCodeUnknownField, FaultCaller),
     (ErrCodeInsufficientBalance, FaultCaller), (ErrCodeClientCanceled, FaultCaller),
     (ErrCodeNotFound, FaultCaller), (ErrCodeForbidden, FaultCaller),
     (ErrCodeConflict, FaultCaller), (ErrCodeAlreadyExists, FaultCaller),
     (ErrCodeProviderRateLimited, FaultProvider), (ErrCodeProviderUnavailable, FaultProvider),
     (ErrCodeProviderTimeout, FaultProvider), (ErrCodeProviderError, FaultProvider),
     (ErrCodeProviderRejectedRequest, FaultUnclear),
     (ErrCodeProviderConfiguration, FaultNexus), (ErrCodeInternalError, FaultNexus)]"

definition fault_meta :: "gateway_error \<Rightarrow> string" where
  "fault_meta e = (case ge_Metadata e ''fault'' of Some (MStr f) \<Rightarrow> f | _ \<Rightarrow> '''')"

definition FaultOf :: "go_error \<Rightarrow> string" where
  "FaultOf err =
     (case as_gateway err of
        None \<Rightarrow> FaultNexus
      | Some e \<Rightarrow>
          if fault_meta e \<in> set faults then fault_meta e
          else case faultByCode (ge_Code e) of Some f \<Rightarrow> f | None \<Rightarrow> FaultNexus)"

section \<open>Log-safe diagnostics\<close>

definition maxLogValue :: nat where "maxLogValue = 128"
definition RedactedValue :: string where "RedactedValue = ''[redacted]''"

definition logSafeMeta :: "(string \<times> bool) list" where
  "logSafeMeta =
    [(''dependency'', False), (''cause'', False), (''contract'', False),
     (''metering_status'', False), (''metering_code'', True),
     (''router_status'', False), (''router_code'', True),
     (''upstream_status'', False), (''upstream_type'', True), (''upstream_code'', True),
     (''compatibility_note'', False), (''retry_reason'', False), (''attempt'', False),
     (''account_id'', True), (''model'', True), (''provider'', True), (''requested_model'', True)]"

definition identifier_byte :: "char \<Rightarrow> bool" where
  "identifier_byte c = (is_lower c \<or> is_upper c \<or> is_digit c \<or> c \<in> set ''-_./:@+'')"

text \<open>Every byte of a rune outside ASCII fails the test, so testing bytes tests runes.\<close>

definition isIdentifier :: "string \<Rightarrow> bool" where
  "isIdentifier s = (length s \<le> maxLogValue \<and> list_all identifier_byte s)"

function drop_invalid_tail :: "string \<Rightarrow> string" where
  "drop_invalid_tail s = (if utf8_valid s then s else drop_invalid_tail (butlast s))"
  by pat_completeness auto
termination
  by (relation "measure length") (auto simp: length_butlast intro: diff_less)

declare drop_invalid_tail.simps [simp del]

definition truncate_value :: "string \<Rightarrow> nat \<Rightarrow> string" where
  "truncate_value s n = (if length s \<le> n then s else drop_invalid_tail (take n s))"

definition diag_value :: "bool \<Rightarrow> meta option \<Rightarrow> meta option" where
  "diag_value external v =
     (case v of
        Some (MInt i) \<Rightarrow> Some (MInt i)
      | Some (MInt64 i) \<Rightarrow> Some (MInt64 i)
      | Some (MStr s) \<Rightarrow>
          if s = '''' then None
          else Some (MStr (truncate_value
                 (if external \<and> \<not> isIdentifier s then RedactedValue else s) maxLogValue))
      | _ \<Rightarrow> None)"

text \<open>The key-value slice is a list of pairs.\<close>

definition DiagnosticFields :: "go_error \<Rightarrow> (string \<times> meta) list" where
  "DiagnosticFields err =
     (''fault'', MStr (FaultOf err)) #
     (case as_gateway err of
        None \<Rightarrow> []
      | Some e \<Rightarrow>
          [(''error_code'', MStr (ge_Code e)), (''gateway_status'', MInt (ge_HTTPStatus e))]
          @ List.map_filter (\<lambda>(key, external).
              map_option (Pair key) (diag_value external (ge_Metadata e key))) logSafeMeta)"

definition UpstreamStatus :: "go_error \<Rightarrow> int" where
  "UpstreamStatus err =
     (case as_gateway err of
        Some e \<Rightarrow> (case ge_Metadata e ''upstream_status'' of Some (MInt s) \<Rightarrow> s | _ \<Rightarrow> 0)
      | None \<Rightarrow> 0)"

section \<open>Lemmas\<close>

lemma faultByCode_range: "faultByCode c = Some f \<Longrightarrow> f \<in> set faults"
  unfolding faultByCode_def faults_def by (drule map_of_SomeD) auto

lemma FaultOf_in_faults: "FaultOf err \<in> set faults"
proof -
  have "FaultNexus \<in> set faults" by (simp add: faults_def)
  then show ?thesis
    unfolding FaultOf_def by (auto split: option.splits dest: faultByCode_range)
qed

lemma drop_invalid_tail_props:
  "utf8_valid (drop_invalid_tail s) \<and> length (drop_invalid_tail s) \<le> length s
   \<and> take (length (drop_invalid_tail s)) s = drop_invalid_tail s"
proof (induction s rule: drop_invalid_tail.induct)
  case (1 s)
  show ?case
  proof (cases "utf8_valid s")
    case True
    then show ?thesis by (simp add: drop_invalid_tail.simps [of s])
  next
    case False
    let ?t = "drop_invalid_tail (butlast s)"
    have IH: "utf8_valid ?t" "length ?t \<le> length (butlast s)" "take (length ?t) (butlast s) = ?t"
      using "1" False by auto
    have "length ?t \<le> length s - 1" using IH(2) by simp
    then have "take (length ?t) s = ?t"
      using IH(3) by (simp add: butlast_conv_take min_def)
    then show ?thesis
      using False IH by (simp add: drop_invalid_tail.simps [of s])
  qed
qed

lemma truncate_value_length: "length (truncate_value s n) \<le> n"
  using drop_invalid_tail_props [of "take n s"] by (auto simp: truncate_value_def)

lemma truncate_value_short: "length s \<le> n \<Longrightarrow> truncate_value s n = s"
  by (simp add: truncate_value_def)

lemma RedactedValue_short: "length RedactedValue \<le> maxLogValue"
  by (simp add: RedactedValue_def maxLogValue_def)

lemma diag_value_external:
  assumes "diag_value True v = Some (MStr s)"
  shows "isIdentifier s \<or> s = RedactedValue"
proof -
  from assms obtain t where "v = Some (MStr t)"
    and t: "s = truncate_value (if \<not> isIdentifier t then RedactedValue else t) maxLogValue"
    by (cases v; simp add: diag_value_def split: meta.splits if_split_asm)
  show ?thesis
  proof (cases "isIdentifier t")
    case True
    then have "length t \<le> maxLogValue" by (simp add: isIdentifier_def)
    then show ?thesis using t True by (simp add: truncate_value_short)
  next
    case False
    then show ?thesis using t by (simp add: truncate_value_short RedactedValue_short)
  qed
qed

lemma diag_value_length: "diag_value ext v = Some (MStr s) \<Longrightarrow> length s \<le> maxLogValue"
  by (auto simp: diag_value_def truncate_value_length split: option.splits meta.splits if_splits)

end
