(* ===== verification/PiiMapping.thy ===== *)
theory PiiMapping
  imports Errors
begin

text \<open>
  The request-scoped placeholder mapping of \<open>pkg/domain/pii.go\<close>: \<open>Token\<close> assigns the
  placeholder of a value, \<open>Original\<close> resolves one, with the aliases a model may rewrite it
  to. Go's maps are association lists, so that loops over them can be written; \<open>map_of\<close> is
  the lookup, \<open>AList.update\<close> the store. The interface \<open>placeholder_store\<close> states what
  masking and restoring rely on; its interpretation discharges the laws for this mapping.
\<close>

section \<open>Data\<close>

record pii_entity =
  ent_Type :: string
  ent_Start :: int
  ent_End :: int
  ent_Score :: float32

record pii_mapping =
  tokenToOriginal :: "(string \<times> string) list"
  tokenAliases :: "(string \<times> string) list"
  normalizedTokenAliases :: "(string \<times> string) list"
  originalToToken :: "(string \<times> string) list"
  pii_counters :: "(string \<times> nat) list"

definition NewPIIMapping :: pii_mapping where
  "NewPIIMapping =
     \<lparr>tokenToOriginal = [], tokenAliases = [], normalizedTokenAliases = [],
      originalToToken = [], pii_counters = []\<rparr>"

definition counter_of :: "pii_mapping \<Rightarrow> string \<Rightarrow> nat" where
  "counter_of m ty = (case map_of (pii_counters m) ty of None \<Rightarrow> 0 | Some n \<Rightarrow> n)"

section \<open>Normalisation\<close>

fun normalize_loop :: "string \<Rightarrow> string \<Rightarrow> bool \<Rightarrow> string option" where
  "normalize_loop [] b lastWasSep = Some b"
| "normalize_loop (c # s) b lastWasSep =
     (if is_lower c then normalize_loop s (b @ [to_upper_byte c]) False
      else if is_upper c \<or> is_digit c then normalize_loop s (b @ [c]) False
      else if c = CHR ''_'' \<or> c = CHR ''-'' \<or> c = CHR '' '' then
        (if b \<noteq> [] \<and> \<not> lastWasSep then normalize_loop s (b @ ''_'') True
         else normalize_loop s b lastWasSep)
      else None)"

definition normalizePlaceholderToken :: "string \<Rightarrow> string" where
  "normalizePlaceholderToken token =
     (let t = trim_space (trim_suffix (trim_prefix (trim_space token) ''['') '']'')
      in if t = '''' then ''''
         else case normalize_loop t '''' False of
                None \<Rightarrow> ''''
              | Some b \<Rightarrow> trim_set b ''_'')"

definition placeholderTypeAlias :: "string \<Rightarrow> string" where
  "placeholderTypeAlias ty =
     (if ty = ''EMAIL_ADDRESS'' then ''EMAIL''
      else if ty = ''PHONE_NUMBER'' then ''PHONE''
      else if ty = ''CREDIT_CARD'' then ''CARD''
      else if ty = ''IBAN_CODE'' then ''IBAN''
      else if ty = ''IP_ADDRESS'' then ''IP''
      else if ty = ''US_SSN'' then ''SSN''
      else if ty = ''US_DRIVER_LICENSE'' then ''DRIVER_LICENSE''
      else ty)"

section \<open>Assigning tokens\<close>

definition registerNormalized :: "pii_mapping \<Rightarrow> string \<Rightarrow> string \<Rightarrow> pii_mapping" where
  "registerNormalized m normalized canonical =
     (if normalized = [] then m
      else if map_of (normalizedTokenAliases m) normalized \<notin> {None, Some canonical} then m
      else m\<lparr>normalizedTokenAliases :=
                AList.update normalized canonical (normalizedTokenAliases m)\<rparr>)"

definition registerTokenAlias :: "pii_mapping \<Rightarrow> string \<Rightarrow> string \<Rightarrow> pii_mapping" where
  "registerTokenAlias m alias canonical =
     (if alias = [] \<or> alias = canonical then m
      else if map_of (tokenAliases m) alias \<notin> {None, Some canonical} then m
      else registerNormalized
             (m\<lparr>tokenAliases := AList.update alias canonical (tokenAliases m)\<rparr>)
             (normalizePlaceholderToken alias) canonical)"

text \<open>\<open>fmt.Sprintf("%s_%d", ty, n)\<close> and \<open>fmt.Sprintf("[%s_%d]", ty, n)\<close>.\<close>

definition bare_text :: "string \<Rightarrow> nat \<Rightarrow> string" where
  "bare_text ty n = ty @ ''_'' @ itoa n"

definition token_text :: "string \<Rightarrow> nat \<Rightarrow> string" where
  "token_text ty n = ''['' @ bare_text ty n @ '']''"

definition registerTokenAliases :: "pii_mapping \<Rightarrow> string \<Rightarrow> string \<Rightarrow> nat \<Rightarrow> pii_mapping" where
  "registerTokenAliases m canonical ty n =
     (let m1 = registerTokenAlias m (trim_set canonical ''[]'') canonical;
          short = placeholderTypeAlias ty
      in if short \<noteq> [] \<and> short \<noteq> ty then
           registerTokenAlias (registerTokenAlias m1 (token_text short n) canonical)
             (bare_text short n) canonical
         else m1)"

definition token_key :: "string \<Rightarrow> string \<Rightarrow> string" where
  "token_key ty v = ty @ ''|'' @ v"

definition Token :: "pii_mapping \<Rightarrow> string \<Rightarrow> string \<Rightarrow> pii_mapping \<times> string" where
  "Token m ty v =
     (case map_of (originalToToken m) (token_key ty v) of
        Some tok \<Rightarrow> (m, tok)
      | None \<Rightarrow>
          (let n = counter_of m ty + 1;
               tok = token_text ty n;
               m1 = m\<lparr>pii_counters := AList.update ty n (pii_counters m),
                      originalToToken := AList.update (token_key ty v) tok (originalToToken m),
                      tokenToOriginal := AList.update tok v (tokenToOriginal m)\<rparr>
           in (registerTokenAliases m1 tok ty n, tok)))"

text \<open>On a nil receiver \<open>Token\<close> returns the value itself, and \<open>Len\<close> is 0.\<close>

definition Token_ptr :: "pii_mapping option \<Rightarrow> string \<Rightarrow> string \<Rightarrow> pii_mapping option \<times> string" where
  "Token_ptr p ty v =
     (case p of None \<Rightarrow> (None, v) | Some m \<Rightarrow> (let (m', tok) = Token m ty v in (Some m', tok)))"

definition mapping_Len :: "pii_mapping option \<Rightarrow> nat" where
  "mapping_Len p = (case p of None \<Rightarrow> 0 | Some m \<Rightarrow> length (tokenToOriginal m))"

definition Original :: "pii_mapping \<Rightarrow> string \<Rightarrow> string option" where
  "Original m token =
     (case map_of (tokenToOriginal m) token of
        Some v \<Rightarrow> Some v
      | None \<Rightarrow>
          (case map_of (tokenAliases m) token of
             Some canonical \<Rightarrow> map_of (tokenToOriginal m) canonical
           | None \<Rightarrow>
               (case map_of (normalizedTokenAliases m) (normalizePlaceholderToken token) of
                  None \<Rightarrow> None
                | Some canonical \<Rightarrow> map_of (tokenToOriginal m) canonical)))"

section \<open>The interface of a placeholder store\<close>

text \<open>
  Masking asks the store for tokens one value after the other and restoring looks them up
  later. A client needs four things: a known token is given again unchanged, it resolves to
  its value, later assignments never change it, and two values never share one.
\<close>

primrec run_tokens :: "('m \<Rightarrow> string \<Rightarrow> string \<Rightarrow> 'm \<times> string) \<Rightarrow> 'm \<Rightarrow> (string \<times> string) list
    \<Rightarrow> 'm \<times> string list" where
  "run_tokens tok m [] = (m, [])"
| "run_tokens tok m (r # rs) =
     (let (m1, t) = tok m (fst r) (snd r); (m2, ts) = run_tokens tok m1 rs in (m2, t # ts))"

locale placeholder_store =
  fixes tok :: "'m \<Rightarrow> string \<Rightarrow> string \<Rightarrow> 'm \<times> string"
    and orig :: "'m \<Rightarrow> string \<Rightarrow> string option"
    and known :: "'m \<Rightarrow> string \<Rightarrow> string \<Rightarrow> string \<Rightarrow> bool"
    and inv :: "'m \<Rightarrow> bool"
    and ok :: "string \<Rightarrow> bool"
  assumes inv_tok: "\<lbrakk>inv m; ok ty\<rbrakk> \<Longrightarrow> inv (fst (tok m ty v))"
    and tok_known: "\<lbrakk>inv m; ok ty\<rbrakk> \<Longrightarrow> known (fst (tok m ty v)) ty v (snd (tok m ty v))"
    and known_tok: "known m ty v t \<Longrightarrow> tok m ty v = (m, t)"
    and known_keep: "\<lbrakk>inv m; ok ty'; known m ty v t\<rbrakk> \<Longrightarrow> known (fst (tok m ty' v')) ty v t"
    and known_orig: "\<lbrakk>inv m; ok ty; known m ty v t\<rbrakk> \<Longrightarrow> orig m t = Some v"
    and known_inj: "\<lbrakk>inv m; ok ty; ok ty'; known m ty v t; known m ty' v' t\<rbrakk>
      \<Longrightarrow> ty = ty' \<and> v = v'"
begin

abbreviation run where "run \<equiv> run_tokens tok"

lemma run_Cons:
  "run m (r # rs) =
     (fst (run (fst (tok m (fst r) (snd r))) rs),
      snd (tok m (fst r) (snd r)) # snd (run (fst (tok m (fst r) (snd r))) rs))"
  by (simp add: case_prod_unfold Let_def)

lemma run_length: "length (snd (run m rs)) = length rs"
  by (induction rs arbitrary: m) (simp_all add: case_prod_unfold Let_def)

lemma run_inv: "\<lbrakk>inv m; \<forall>r \<in> set rs. ok (fst r)\<rbrakk> \<Longrightarrow> inv (fst (run m rs))"
proof (induction rs arbitrary: m)
  case Nil
  then show ?case by simp
next
  case (Cons r rs)
  show ?case
    unfolding run_Cons fst_conv by (rule Cons.IH) (use Cons.prems inv_tok in auto)
qed

lemma run_known_keep:
  "\<lbrakk>inv m; \<forall>r \<in> set rs. ok (fst r); known m ty v t\<rbrakk> \<Longrightarrow> known (fst (run m rs)) ty v t"
proof (induction rs arbitrary: m)
  case Nil
  then show ?case by simp
next
  case (Cons r rs)
  show ?case
    unfolding run_Cons fst_conv by (rule Cons.IH) (use Cons.prems inv_tok known_keep in auto)
qed

lemma run_known:
  "\<lbrakk>inv m; \<forall>r \<in> set rs. ok (fst r); i < length rs\<rbrakk>
    \<Longrightarrow> known (fst (run m rs)) (fst (rs ! i)) (snd (rs ! i)) (snd (run m rs) ! i)"
proof (induction rs arbitrary: m i)
  case Nil
  then show ?case by simp
next
  case (Cons r rs)
  let ?m1 = "fst (tok m (fst r) (snd r))"
  have inv1: "inv ?m1" using Cons.prems inv_tok by simp
  show ?case
  proof (cases i)
    case 0
    have "known ?m1 (fst r) (snd r) (snd (tok m (fst r) (snd r)))"
      using Cons.prems tok_known by simp
    then show ?thesis
      using 0 run_known_keep [OF inv1] Cons.prems by (simp only: run_Cons) simp
  next
    case (Suc j)
    then show ?thesis
      using Cons.IH [OF inv1] Cons.prems by (simp only: run_Cons) simp
  qed
qed

lemma run_orig:
  "\<lbrakk>inv m; \<forall>r \<in> set rs. ok (fst r); i < length rs\<rbrakk>
    \<Longrightarrow> orig (fst (run m rs)) (snd (run m rs) ! i) = Some (snd (rs ! i))"
  by (rule known_orig [OF run_inv _ run_known]) auto

lemma run_same_token_iff:
  assumes "inv m" and "\<forall>r \<in> set rs. ok (fst r)" and "i < length rs" and "j < length rs"
  shows "snd (run m rs) ! i = snd (run m rs) ! j \<longleftrightarrow> rs ! i = rs ! j"
proof
  assume eq: "snd (run m rs) ! i = snd (run m rs) ! j"
  have "fst (rs ! i) = fst (rs ! j) \<and> snd (rs ! i) = snd (rs ! j)"
    by (rule known_inj [OF run_inv [OF assms(1,2)]])
       (use run_known [OF assms(1,2)] eq assms in \<open>auto simp: eq\<close>)
  then show "rs ! i = rs ! j" by (simp add: prod_eq_iff)
next
  assume eq: "rs ! i = rs ! j"
  have "known (fst (run m rs)) (fst (rs ! i)) (snd (rs ! i)) (snd (run m rs) ! i)"
    "known (fst (run m rs)) (fst (rs ! i)) (snd (rs ! i)) (snd (run m rs) ! j)"
    using run_known [OF assms(1,2,3)] run_known [OF assms(1,2,4)] eq by simp_all
  then show "snd (run m rs) ! i = snd (run m rs) ! j"
    using known_tok by (metis prod.inject)
qed

lemma run_reuse:
  assumes "inv m" and "\<forall>r \<in> set rs. ok (fst r)" and "i < length rs"
  shows "tok (fst (run m rs)) (fst (rs ! i)) (snd (rs ! i)) = (fst (run m rs), snd (run m rs) ! i)"
  by (rule known_tok) (rule run_known [OF assms])

end

section \<open>Texts of placeholders\<close>

text \<open>
  The types of the analyzer: names without \<open>|\<close> and brackets, which the keys and the
  placeholders are read apart by.
\<close>

definition type_ok :: "string \<Rightarrow> bool" where
  "type_ok ty = (CHR ''|'' \<notin> set ty \<and> CHR ''['' \<notin> set ty \<and> CHR '']'' \<notin> set ty)"

lemma not_digit_chars: "\<not> is_digit CHR ''_''" "\<not> is_digit CHR ''[''" "\<not> is_digit CHR '']''"
  by (simp_all add: is_digit_def)

lemma itoa_no_char: "\<not> is_digit c \<Longrightarrow> c \<notin> set (itoa n)"
  using itoa_digits by blast

lemma split_last_sep:
  assumes "a @ c # x = b @ c # y" and "c \<notin> set x" and "c \<notin> set y"
  shows "a = b \<and> x = y"
proof -
  have "takeWhile (\<lambda>d. d \<noteq> c) (rev (a @ c # x)) = rev x"
    using assms(2) by (auto simp: takeWhile_tail)
  moreover have "takeWhile (\<lambda>d. d \<noteq> c) (rev (b @ c # y)) = rev y"
    using assms(3) by (auto simp: takeWhile_tail)
  ultimately have "rev x = rev y" using assms(1) by simp
  then show ?thesis using assms(1) by simp
qed

lemma split_first_sep:
  assumes "a @ c # x = b @ c # y" and "c \<notin> set a" and "c \<notin> set b"
  shows "a = b \<and> x = y"
  using split_last_sep [of "rev x" c "rev a" "rev y" "rev b"] assms
  by (metis append.assoc append_Cons append_Nil rev.simps(2) rev_append rev_rev_ident set_rev)

lemma bare_text_inject: "bare_text a m = bare_text b n \<longleftrightarrow> a = b \<and> m = n"
  unfolding bare_text_def
  using split_last_sep [of a "CHR ''_''" "itoa m" b "itoa n"]
  by (auto simp: itoa_inject itoa_no_char not_digit_chars)

lemma token_text_inject: "token_text a m = token_text b n \<longleftrightarrow> a = b \<and> m = n"
  by (simp add: token_text_def bare_text_inject)

lemma token_key_inject:
  assumes "type_ok a" and "type_ok b"
  shows "token_key a v = token_key b w \<longleftrightarrow> a = b \<and> v = w"
  using split_first_sep [of a "CHR ''|''" v b w] assms
  by (auto simp: token_key_def type_ok_def)

lemma trim_set_keeps:
  assumes "s \<noteq> []" and "hd s \<notin> set cutset" and "last s \<notin> set cutset"
  shows "trim_set s cutset = s"
proof -
  have l: "dropWhile (\<lambda>c. c \<in> set cutset) s = s" using assms(1,2) by (cases s) auto
  have r: "dropWhile (\<lambda>c. c \<in> set cutset) (rev s) = rev s"
    using assms(1,3) by (cases s rule: rev_cases) auto
  show ?thesis by (simp add: trim_set_def trim_left_def trim_right_def l r)
qed

lemma bare_text_not_Nil [simp]: "bare_text ty n \<noteq> []" "[] \<noteq> bare_text ty n"
  by (simp_all add: bare_text_def)

lemma underscore_in_bare [simp]: "CHR ''_'' \<in> set (bare_text ty n)"
  by (simp add: bare_text_def)

lemma underscore_in_token [simp]: "CHR ''_'' \<in> set (token_text ty n)"
  by (simp add: token_text_def)

lemma bracket_not_in_bare:
  assumes "type_ok ty"
  shows "CHR ''['' \<notin> set (bare_text ty n)" "CHR '']'' \<notin> set (bare_text ty n)"
  using assms by (auto simp: bare_text_def type_ok_def itoa_no_char not_digit_chars)

lemma trim_token_text:
  assumes "type_ok ty"
  shows "trim_set (token_text ty n) ''[]'' = bare_text ty n"
proof -
  have h: "hd (bare_text ty n) \<noteq> CHR ''[''" "hd (bare_text ty n) \<noteq> CHR '']''"
    using bracket_not_in_bare [OF assms] hd_in_set [of "bare_text ty n"] by fastforce+
  have l: "last (bare_text ty n) \<noteq> CHR ''[''" "last (bare_text ty n) \<noteq> CHR '']''"
    using bracket_not_in_bare [OF assms] last_in_set [of "bare_text ty n"] by fastforce+
  have dl: "dropWhile (\<lambda>c. c \<in> set ''[]'') (token_text ty n) = bare_text ty n @ '']''"
    using h by (cases "bare_text ty n") (auto simp: token_text_def)
  have dr: "dropWhile (\<lambda>c. c \<in> set ''[]'') (rev (bare_text ty n @ '']'')) = rev (bare_text ty n)"
    using l by (cases "bare_text ty n" rule: rev_cases) auto
  show ?thesis unfolding trim_set_def trim_left_def trim_right_def dl dr by simp
qed

section \<open>The invariant of the mapping\<close>

text \<open>
  Every placeholder of \<open>originalToToken\<close> stands in \<open>tokenToOriginal\<close> with its value and the
  other way round, carries an index the counter of its type has reached, and every alias
  names a placeholder that is there.
\<close>

definition entry_ok :: "pii_mapping \<Rightarrow> string \<Rightarrow> string \<Rightarrow> string \<Rightarrow> bool" where
  "entry_ok m ty v tok =
     (type_ok ty \<and> map_of (originalToToken m) (token_key ty v) = Some tok \<and>
      map_of (tokenToOriginal m) tok = Some v \<and>
      (\<exists>n \<in> {1..counter_of m ty}. tok = token_text ty n))"

definition alias_ok :: "string \<Rightarrow> bool" where
  "alias_ok a = (CHR ''_'' \<in> set a \<and> (has_prefix a ''['' \<or> CHR ''['' \<notin> set a))"

definition mapping_inv :: "pii_mapping \<Rightarrow> bool" where
  "mapping_inv m =
     (distinct (map fst (tokenToOriginal m)) \<and>
      (\<forall>key tok. map_of (originalToToken m) key = Some tok \<longrightarrow>
         (\<exists>ty v. key = token_key ty v \<and> entry_ok m ty v tok)) \<and>
      (\<forall>tok v. map_of (tokenToOriginal m) tok = Some v \<longrightarrow> (\<exists>ty. entry_ok m ty v tok)) \<and>
      (\<forall>a c. map_of (tokenAliases m) a = Some c \<longrightarrow>
         alias_ok a \<and> map_of (tokenToOriginal m) c \<noteq> None) \<and>
      (\<forall>a c. map_of (normalizedTokenAliases m) a = Some c \<longrightarrow>
         map_of (tokenToOriginal m) c \<noteq> None))"

lemma registerNormalized_other [simp]:
  "tokenToOriginal (registerNormalized m a c) = tokenToOriginal m"
  "originalToToken (registerNormalized m a c) = originalToToken m"
  "pii_counters (registerNormalized m a c) = pii_counters m"
  "tokenAliases (registerNormalized m a c) = tokenAliases m"
  by (simp_all add: registerNormalized_def)

lemma registerTokenAlias_other [simp]:
  "tokenToOriginal (registerTokenAlias m a c) = tokenToOriginal m"
  "originalToToken (registerTokenAlias m a c) = originalToToken m"
  "pii_counters (registerTokenAlias m a c) = pii_counters m"
  by (simp_all add: registerTokenAlias_def)

lemma registerTokenAliases_other [simp]:
  "tokenToOriginal (registerTokenAliases m c ty n) = tokenToOriginal m"
  "originalToToken (registerTokenAliases m c ty n) = originalToToken m"
  "pii_counters (registerTokenAliases m c ty n) = pii_counters m"
  by (simp_all add: registerTokenAliases_def Let_def)

lemma registerTokenAlias_alias:
  "map_of (tokenAliases (registerTokenAlias m a c)) x = Some y
    \<Longrightarrow> map_of (tokenAliases m) x = Some y \<or> x = a \<and> y = c"
  by (auto simp: registerTokenAlias_def update_conv' split: if_splits)

lemma registerTokenAlias_normalized:
  "map_of (normalizedTokenAliases (registerTokenAlias m a c)) x = Some y
    \<Longrightarrow> map_of (normalizedTokenAliases m) x = Some y \<or> y = c"
  by (auto simp: registerTokenAlias_def registerNormalized_def update_conv' split: if_splits)

lemma registerTokenAliases_alias:
  assumes "map_of (tokenAliases (registerTokenAliases m c ty n)) x = Some y"
  shows "map_of (tokenAliases m) x = Some y \<or>
    y = c \<and> x \<in> {trim_set c ''[]'', token_text (placeholderTypeAlias ty) n,
                   bare_text (placeholderTypeAlias ty) n}"
  using assms
  by (auto simp: registerTokenAliases_def Let_def split: if_splits
      dest!: registerTokenAlias_alias)

lemma registerTokenAliases_normalized:
  assumes "map_of (normalizedTokenAliases (registerTokenAliases m c ty n)) x = Some y"
  shows "map_of (normalizedTokenAliases m) x = Some y \<or> y = c"
  using assms
  by (auto simp: registerTokenAliases_def Let_def split: if_splits
      dest!: registerTokenAlias_normalized)

lemma counter_of_Token:
  "counter_of (fst (Token m ty v)) ty' =
     (if ty' = ty \<and> map_of (originalToToken m) (token_key ty v) = None
      then counter_of m ty + 1 else counter_of m ty')"
  by (auto simp: Token_def Let_def counter_of_def update_conv' split: option.splits)

text \<open>What assigning a fresh token leaves in the two main maps.\<close>

lemma Token_fresh:
  assumes "map_of (originalToToken m) (token_key ty v) = None"
  shows "snd (Token m ty v) = token_text ty (counter_of m ty + 1)"
    and "map_of (originalToToken (fst (Token m ty v))) =
      (map_of (originalToToken m))(token_key ty v \<mapsto> token_text ty (counter_of m ty + 1))"
    and "map_of (tokenToOriginal (fst (Token m ty v))) =
      (map_of (tokenToOriginal m))(token_text ty (counter_of m ty + 1) \<mapsto> v)"
  using assms by (simp_all add: Token_def Let_def update_conv')

lemma Token_known: "map_of (originalToToken m) (token_key ty v) = Some t \<Longrightarrow> Token m ty v = (m, t)"
  by (simp add: Token_def)

lemma entry_ok_Token:
  assumes ok: "entry_ok m ty' v' tok" and inv: "mapping_inv m" and ty: "type_ok ty"
  shows "entry_ok (fst (Token m ty v)) ty' v' tok"
proof (cases "map_of (originalToToken m) (token_key ty v)")
  case (Some t)
  then show ?thesis using ok by (simp add: Token_known)
next
  case None
  have tok: "\<exists>n \<in> {1..counter_of m ty'}. tok = token_text ty' n"
    and ty': "type_ok ty'" using ok by (auto simp: entry_ok_def)
  have "tok \<noteq> token_text ty (counter_of m ty + 1)"
    using tok by (auto simp: token_text_inject)
  moreover have "token_key ty' v' \<noteq> token_key ty v"
    using None ok by (auto simp: entry_ok_def)
  moreover have "counter_of m ty' \<le> counter_of (fst (Token m ty v)) ty'"
    by (simp add: counter_of_Token)
  ultimately show ?thesis
    using ok tok by (fastforce simp: entry_ok_def Token_fresh(2,3) [OF None])
qed

lemma entry_ok_new:
  assumes "map_of (originalToToken m) (token_key ty v) = None" and "type_ok ty"
  shows "entry_ok (fst (Token m ty v)) ty v (snd (Token m ty v))"
  using assms by (auto simp: entry_ok_def Token_fresh counter_of_Token)

lemma type_ok_alias: "type_ok ty \<Longrightarrow> type_ok (placeholderTypeAlias ty)"
  by (simp add: placeholderTypeAlias_def type_ok_def)

lemma alias_ok_texts:
  assumes "type_ok ty"
  shows "alias_ok (bare_text ty n)" and "alias_ok (bare_text (placeholderTypeAlias ty) n)"
    and "alias_ok (token_text (placeholderTypeAlias ty) n)"
  using bracket_not_in_bare(1) [OF assms] bracket_not_in_bare(1) [OF type_ok_alias [OF assms]]
  by (simp_all add: alias_ok_def) (simp add: token_text_def has_prefix_def)

lemma Token_distinct:
  "distinct (map fst (tokenToOriginal m)) \<Longrightarrow> distinct (map fst (tokenToOriginal (fst (Token m ty v))))"
  by (auto simp: Token_def Let_def distinct_update split: option.splits)

lemma Token_alias:
  assumes "map_of (tokenAliases (fst (Token m ty v))) x = Some c" and "type_ok ty"
  shows "map_of (tokenAliases m) x = Some c \<or>
    c = snd (Token m ty v) \<and> map_of (originalToToken m) (token_key ty v) = None \<and>
    alias_ok x"
  using assms
  by (auto simp: Token_def Let_def trim_token_text alias_ok_texts split: option.splits
      dest!: registerTokenAliases_alias)

lemma Token_normalized:
  assumes "map_of (normalizedTokenAliases (fst (Token m ty v))) x = Some c"
  shows "map_of (normalizedTokenAliases m) x = Some c \<or>
    c = snd (Token m ty v) \<and> map_of (originalToToken m) (token_key ty v) = None"
  using assms
  by (auto simp: Token_def Let_def split: option.splits dest!: registerTokenAliases_normalized)

lemma mapping_inv_o2t:
  "\<lbrakk>mapping_inv m; map_of (originalToToken m) key = Some tok\<rbrakk>
    \<Longrightarrow> \<exists>ty v. key = token_key ty v \<and> entry_ok m ty v tok"
  unfolding mapping_inv_def by blast

lemma mapping_inv_t2o:
  "\<lbrakk>mapping_inv m; map_of (tokenToOriginal m) tok = Some v\<rbrakk> \<Longrightarrow> \<exists>ty. entry_ok m ty v tok"
  unfolding mapping_inv_def by blast

lemma mapping_inv_alias:
  "\<lbrakk>mapping_inv m; map_of (tokenAliases m) a = Some c\<rbrakk>
    \<Longrightarrow> alias_ok a \<and> map_of (tokenToOriginal m) c \<noteq> None"
  unfolding mapping_inv_def by blast

lemma mapping_inv_normalized:
  "\<lbrakk>mapping_inv m; map_of (normalizedTokenAliases m) a = Some c\<rbrakk>
    \<Longrightarrow> map_of (tokenToOriginal m) c \<noteq> None"
  unfolding mapping_inv_def by blast

lemma mapping_inv_New: "mapping_inv NewPIIMapping"
  by (simp add: mapping_inv_def NewPIIMapping_def)

lemma mapping_inv_Token:
  assumes inv: "mapping_inv m" and ty: "type_ok ty"
  shows "mapping_inv (fst (Token m ty v))"
proof (cases "map_of (originalToToken m) (token_key ty v)")
  case (Some t)
  then show ?thesis using inv by (simp add: Token_known)
next
  case None
  note fresh = Token_fresh [OF None]
  let ?m = "fst (Token m ty v)"
  have keep: "entry_ok m ty' v' tok \<Longrightarrow> entry_ok ?m ty' v' tok" for ty' v' tok
    by (rule entry_ok_Token [OF _ inv ty])
  have new: "entry_ok ?m ty v (snd (Token m ty v))" by (rule entry_ok_new [OF None ty])
  have o2t: "\<exists>ty v. key = token_key ty v \<and> entry_ok ?m ty v tok"
    if "map_of (originalToToken ?m) key = Some tok" for key tok
  proof (cases "key = token_key ty v")
    case True
    then show ?thesis using that new [unfolded fresh(1)] by (auto simp: fresh)
  next
    case False
    then have "map_of (originalToToken m) key = Some tok" using that by (simp add: fresh)
    then show ?thesis using mapping_inv_o2t [OF inv] keep by blast
  qed
  have t2o: "\<exists>ty. entry_ok ?m ty v' tok" if "map_of (tokenToOriginal ?m) tok = Some v'" for v' tok
  proof (cases "tok = snd (Token m ty v)")
    case True
    then show ?thesis using that new [unfolded fresh(1)] by (auto simp: fresh)
  next
    case False
    then have "map_of (tokenToOriginal m) tok = Some v'" using that by (simp add: fresh)
    then show ?thesis using mapping_inv_t2o [OF inv] keep by blast
  qed
  have als: "alias_ok a \<and> map_of (tokenToOriginal ?m) c \<noteq> None"
    if "map_of (tokenAliases ?m) a = Some c" for a c
    using Token_alias [OF that ty] mapping_inv_alias [OF inv] by (auto simp: fresh)
  have norm: "map_of (tokenToOriginal ?m) c \<noteq> None"
    if "map_of (normalizedTokenAliases ?m) a = Some c" for a c
    using Token_normalized [OF that] mapping_inv_normalized [OF inv] by (auto simp: fresh)
  show ?thesis
    unfolding mapping_inv_def [of ?m]
    using Token_distinct inv [unfolded mapping_inv_def] o2t t2o als norm by blast
qed

definition known_token :: "pii_mapping \<Rightarrow> string \<Rightarrow> string \<Rightarrow> string \<Rightarrow> bool" where
  "known_token m ty v t = (map_of (originalToToken m) (token_key ty v) = Some t)"

lemma known_entry:
  assumes "mapping_inv m" and "type_ok ty" and "known_token m ty v t"
  shows "entry_ok m ty v t"
proof -
  obtain ty' v' where e: "token_key ty v = token_key ty' v'" "entry_ok m ty' v' t"
    using assms(1,3) unfolding mapping_inv_def known_token_def by blast
  then have "type_ok ty'" by (simp add: entry_ok_def)
  then show ?thesis using e token_key_inject [OF assms(2)] by auto
qed

lemma Token_gives_known: "known_token (fst (Token m ty v)) ty v (snd (Token m ty v))"
  by (cases "map_of (originalToToken m) (token_key ty v)")
     (simp_all add: known_token_def Token_fresh Token_known)

lemma known_token_keep:
  assumes "mapping_inv m" and "type_ok ty'" and "known_token m ty v t"
  shows "known_token (fst (Token m ty' v')) ty v t"
  using assms(3)
  by (cases "map_of (originalToToken m) (token_key ty' v')")
     (auto simp: known_token_def Token_fresh Token_known)

lemma Original_known: "entry_ok m ty v t \<Longrightarrow> Original m t = Some v"
  by (simp add: entry_ok_def Original_def)

lemma entry_ok_inject:
  assumes "entry_ok m ty v t" and "entry_ok m ty' v' t"
  shows "ty = ty' \<and> v = v'"
  using assms by (auto simp: entry_ok_def token_text_inject)

interpretation pm: placeholder_store Token Original known_token mapping_inv type_ok
proof
  show "known_token m ty v t \<Longrightarrow> Token m ty v = (m, t)" for m ty v t
    by (simp add: known_token_def Token_known)
  show "\<lbrakk>mapping_inv m; type_ok ty; known_token m ty v t\<rbrakk> \<Longrightarrow> Original m t = Some v" for m ty v t
    using known_entry Original_known by blast
  show "ty = ty' \<and> v = v'"
    if "mapping_inv m" "type_ok ty" "type_ok ty'" "known_token m ty v t" "known_token m ty' v' t"
    for m ty ty' v v' t
    by (rule entry_ok_inject [OF known_entry known_entry]) (rule that)+
qed (simp_all add: mapping_inv_Token Token_gives_known known_token_keep)

lemmas Token_laws = mapping_inv_Token Token_gives_known known_token_keep known_entry Original_known

section \<open>Facts on the mapping a request ends with\<close>

lemma Original_None:
  assumes "mapping_inv m" and "Original m t = None"
  shows "map_of (tokenToOriginal m) t = None" and "map_of (tokenAliases m) t = None"
  using assms by (auto simp: Original_def split: option.splits dest: mapping_inv_alias)

text \<open>An alias the mapping holds always resolves, to the value of some placeholder.\<close>

lemma Original_alias:
  assumes "mapping_inv m" and "map_of (tokenAliases m) a = Some c"
  shows "\<exists>v. Original m a = Some v \<and> v \<in> snd ` set (tokenToOriginal m)"
  using mapping_inv_alias [OF assms] assms(2)
  by (force simp: Original_def split: option.splits dest: map_of_SomeD)

lemma Original_value:
  assumes "Original m t = Some v"
  shows "v \<in> snd ` set (tokenToOriginal m)"
  using assms by (force simp: Original_def dest: map_of_SomeD split: option.splits)

lemma Token_never_empty: "mapping_Len (Some (fst (Token m ty v))) \<noteq> 0 \<or> map_of (originalToToken m) (token_key ty v) \<noteq> None"
  by (auto simp: mapping_Len_def Token_def Let_def update_nonempty split: option.splits)

end
