(* ===== verification/PiiMask.thy ===== *)
theory PiiMask
  imports PiiMapping
begin

text \<open>
  Masking and restoring of \<open>pkg/domain/pii.go\<close>: \<open>ApplyMask\<close> replaces the spans of the
  analyzer by placeholders, \<open>Unmask\<close> scans a reply for placeholders and bare aliases,
  \<open>MaskKnownOriginals\<close> cleans diagnostics and \<open>UnresolvedTokens\<close> reports what could not be
  restored. The main result is the round trip of a request text through both.
\<close>

section \<open>Masking\<close>

text \<open>Go's go_slice expression \<open>s[a:b]\<close> for indices in range.\<close>

definition go_slice :: "string \<Rightarrow> int \<Rightarrow> int \<Rightarrow> string" where
  "go_slice s a b = take (nat b - nat a) (drop (nat a) s)"

definition sort_entities :: "pii_entity list \<Rightarrow> pii_entity list" where
  "sort_entities = sort_key (\<lambda>e. (ent_Start e, - ent_End e))"

fun keep_spans :: "int \<Rightarrow> int \<Rightarrow> pii_entity list \<Rightarrow> pii_entity list" where
  "keep_spans len lastEnd [] = []"
| "keep_spans len lastEnd (e # es) =
     (if ent_Start e < 0 \<or> ent_End e > len \<or> ent_End e \<le> ent_Start e then keep_spans len lastEnd es
      else if ent_Start e < lastEnd then keep_spans len lastEnd es
      else e # keep_spans len (ent_End e) es)"

definition kept_spans :: "string \<Rightarrow> pii_entity list \<Rightarrow> pii_entity list" where
  "kept_spans text entities = keep_spans (int (length text)) (-1) (sort_entities entities)"

fun mask_spans :: "string \<Rightarrow> int \<Rightarrow> pii_entity list \<Rightarrow> pii_mapping \<Rightarrow> pii_mapping \<times> string" where
  "mask_spans text cursor [] m = (m, drop (nat cursor) text)"
| "mask_spans text cursor (e # es) m =
     (let (m1, tok) = Token m (ent_Type e) (go_slice text (ent_Start e) (ent_End e));
          (m2, rest) = mask_spans text (ent_End e) es m1
      in (m2, go_slice text cursor (ent_Start e) @ tok @ rest))"

text \<open>The mapping is a pointer: \<open>None\<close> is nil, and the changed mapping is returned.\<close>

definition ApplyMask :: "string \<Rightarrow> pii_entity list \<Rightarrow> pii_mapping option
    \<Rightarrow> pii_mapping option \<times> string" where
  "ApplyMask text entities p =
     (case p of
        None \<Rightarrow> (None, text)
      | Some m \<Rightarrow>
          (if entities = [] \<or> text = [] then (p, text)
           else if kept_spans text entities = [] then (p, text)
           else let (m', out) = mask_spans text 0 (kept_spans text entities) m in (Some m', out)))"

section \<open>Restoring\<close>

definition word_char :: "char \<Rightarrow> bool" where
  "word_char c = (is_letter c \<or> is_digit c \<or> c = CHR ''_'')"

text \<open>
  \<open>isBareTokenBoundary(text, i)\<close> looks at the byte at index \<open>i\<close>; here at that byte itself,
  with \<open>None\<close> where the index lies outside the text.
\<close>

definition isBareTokenBoundary :: "char option \<Rightarrow> bool" where
  "isBareTokenBoundary b = (case b of None \<Rightarrow> True | Some c \<Rightarrow> \<not> word_char c)"

definition byte_at :: "string \<Rightarrow> nat \<Rightarrow> char option" where
  "byte_at s i = (if i < length s then Some (s ! i) else None)"

definition bareAliasesByLength :: "pii_mapping \<Rightarrow> string list" where
  "bareAliasesByLength m =
     sort_key (\<lambda>a. (- int (length a), a))
       (map (\<lambda>e. trim_set (fst e) ''[]'') (tokenToOriginal m)
        @ filter (\<lambda>a. \<not> has_prefix a ''['') (map fst (tokenAliases m)))"

definition BareTokenAliases :: "pii_mapping option \<Rightarrow> string list" where
  "BareTokenAliases p =
     (case p of None \<Rightarrow> [] | Some m \<Rightarrow> if mapping_Len p = 0 then [] else bareAliasesByLength m)"

fun matchBareAlias :: "pii_mapping \<Rightarrow> string \<Rightarrow> string list \<Rightarrow> (string \<times> string) option" where
  "matchBareAlias m text [] = None"
| "matchBareAlias m text (alias # aliases) =
     (if length text < length alias \<or> \<not> equal_fold (take (length alias) text) alias
      then matchBareAlias m text aliases
      else case Original m alias of
             Some v \<Rightarrow> Some (alias, v)
           | None \<Rightarrow> matchBareAlias m text aliases)"

text \<open>
  The scan of \<open>Unmask\<close> at a position: \<open>prev\<close> is the byte before it, \<open>s\<close> the text from it
  on. An empty alias would leave the Go loop at the same position forever; no mapping that
  \<open>Token\<close> built has one (\<open>bare_aliases_underscore\<close>), so the guard never decides.
\<close>

function unmask_loop :: "pii_mapping \<Rightarrow> string list \<Rightarrow> char option \<Rightarrow> string \<Rightarrow> string" where
  "unmask_loop m aliases prev [] = []"
| "unmask_loop m aliases prev (c # s) =
     (if c = CHR ''['' then
        (if CHR '']'' \<in> set s then
           (let tok = takeWhile (\<lambda>d. d \<noteq> CHR '']'') (c # s) @ '']''
            in (case Original m tok of Some v \<Rightarrow> v | None \<Rightarrow> tok)
               @ unmask_loop m aliases (Some CHR '']'') (tl (dropWhile (\<lambda>d. d \<noteq> CHR '']'') s)))
         else c # s)
      else
        (case (if isBareTokenBoundary prev then matchBareAlias m (c # s) aliases else None) of
           Some (alias, v) \<Rightarrow>
             (if isBareTokenBoundary (byte_at (c # s) (length alias)) \<and> alias \<noteq> []
              then v @ unmask_loop m aliases (byte_at (c # s) (length alias - 1))
                         (drop (length alias) (c # s))
              else c # unmask_loop m aliases (Some c) s)
         | None \<Rightarrow> c # unmask_loop m aliases (Some c) s))"
  by pat_completeness auto
termination
  by (relation "measure (\<lambda>(m, aliases, prev, s). length s)")
     (auto simp: le_imp_less_Suc tl_dropWhile_less)

definition Unmask :: "string \<Rightarrow> pii_mapping option \<Rightarrow> string" where
  "Unmask text p =
     (case p of
        None \<Rightarrow> text
      | Some m \<Rightarrow>
          (if mapping_Len p = 0 \<or> text = [] then text
           else unmask_loop m (bareAliasesByLength m) None text))"

section \<open>Diagnostics\<close>

text \<open>
  Go iterates over the map in an order it does not fix, so the order among originals of
  equal length is the caller's: \<open>pairs\<close> is any enumeration of \<open>tokenToOriginal\<close>.
\<close>

definition mask_known :: "(string \<times> string) list \<Rightarrow> string \<Rightarrow> string" where
  "mask_known pairs text =
     fold (\<lambda>p out. replace_all out (snd p) (fst p))
       (sort_key (\<lambda>p. - int (length (snd p))) (filter (\<lambda>p. snd p \<noteq> []) pairs)) text"

definition MaskKnownOriginals :: "pii_mapping option \<Rightarrow> string \<Rightarrow> string" where
  "MaskKnownOriginals p text =
     (case p of
        None \<Rightarrow> text
      | Some m \<Rightarrow> if tokenToOriginal m = [] \<or> text = [] then text
                  else mask_known (tokenToOriginal m) text)"

text \<open>
  The two alternatives of \<open>placeholderCandidateRE\<close>. The first is fixed by the first closing
  bracket, since its classes hold no bracket; the second must be the whole run of word
  characters, since it stands between word boundaries.
\<close>

definition ends_in_index :: "(char \<Rightarrow> bool) \<Rightarrow> string \<Rightarrow> bool" where
  "ends_in_index sep s =
     (let r = dropWhile is_digit (rev s)
      in s \<noteq> [] \<and> is_digit (last s) \<and> length r \<ge> 2 \<and> sep (hd r))"

definition bracket_candidate :: "string \<Rightarrow> bool" where
  "bracket_candidate body =
     (body \<noteq> [] \<and> is_letter (hd body) \<and>
      list_all (\<lambda>c. is_letter c \<or> is_digit c \<or> c \<in> set ''_ -'') body \<and>
      ends_in_index (\<lambda>c. c \<in> set '' _-'') body)"

definition word_candidate :: "string \<Rightarrow> bool" where
  "word_candidate w =
     (w \<noteq> [] \<and> is_upper (hd w) \<and>
      list_all (\<lambda>c. is_upper c \<or> is_digit c \<or> c = CHR ''_'') w \<and>
      ends_in_index (\<lambda>c. c = CHR ''_'') w)"

function find_candidates :: "char option \<Rightarrow> string \<Rightarrow> string list" where
  "find_candidates prev [] = []"
| "find_candidates prev (c # s) =
     (if c = CHR ''['' \<and> CHR '']'' \<in> set s \<and> bracket_candidate (takeWhile (\<lambda>d. d \<noteq> CHR '']'') s)
      then (c # takeWhile (\<lambda>d. d \<noteq> CHR '']'') s @ '']'')
           # find_candidates (Some CHR '']'') (tl (dropWhile (\<lambda>d. d \<noteq> CHR '']'') s))
      else if isBareTokenBoundary prev \<and> word_candidate (takeWhile word_char (c # s))
      then takeWhile word_char (c # s)
           # find_candidates (Some (last (takeWhile word_char (c # s)))) (drop (length (takeWhile word_char (c # s))) (c # s))
      else find_candidates (Some c) s)"
  by pat_completeness auto
termination
  by (relation "measure (\<lambda>(prev, s). length s)")
     (auto simp: le_imp_less_Suc tl_dropWhile_less word_candidate_def)

definition placeholderTokenType :: "string \<Rightarrow> string" where
  "placeholderTokenType token =
     (let t = normalizePlaceholderToken token
      in case last_index_byte t CHR ''_'' of
           None \<Rightarrow> []
         | Some idx \<Rightarrow> if idx = 0 \<or> idx = length t - 1 then [] else take idx t)"

definition knownPlaceholderTypes :: "pii_mapping \<Rightarrow> string list" where
  "knownPlaceholderTypes m =
     filter (\<lambda>ty. ty \<noteq> [])
       (map (\<lambda>e. placeholderTokenType (fst e)) (tokenToOriginal m)
        @ map (\<lambda>e. placeholderTokenType (fst e)) (tokenAliases m))"

definition UnresolvedTokens :: "pii_mapping option \<Rightarrow> string \<Rightarrow> string list" where
  "UnresolvedTokens p text =
     (case p of
        None \<Rightarrow> []
      | Some m \<Rightarrow>
          (if mapping_Len p = 0 \<or> text = [] \<or> knownPlaceholderTypes m = [] then []
           else sort (remdups (filter (\<lambda>t. Original m t = None \<and>
                        placeholderTokenType t \<in> set (knownPlaceholderTypes m))
                      (find_candidates None text)))))"

section \<open>The spans that are masked\<close>

fun spans_ok :: "int \<Rightarrow> int \<Rightarrow> pii_entity list \<Rightarrow> bool" where
  "spans_ok len cursor [] = (0 \<le> cursor \<and> cursor \<le> len)"
| "spans_ok len cursor (e # es) =
     (0 \<le> cursor \<and> cursor \<le> ent_Start e \<and> ent_Start e < ent_End e \<and> ent_End e \<le> len \<and>
      spans_ok len (ent_End e) es)"

definition valid_span :: "int \<Rightarrow> pii_entity \<Rightarrow> bool" where
  "valid_span len e = (0 \<le> ent_Start e \<and> ent_Start e < ent_End e \<and> ent_End e \<le> len)"

lemma keep_spans_Cons:
  "keep_spans len lastEnd (e # es) =
     (if valid_span len e \<and> lastEnd \<le> ent_Start e then e # keep_spans len (ent_End e) es
      else keep_spans len lastEnd es)"
  by (auto simp: valid_span_def)

declare keep_spans.simps(2) [simp del]

lemma keep_spans_ok:
  "\<lbrakk>0 \<le> len; lastEnd \<le> len\<rbrakk> \<Longrightarrow> spans_ok len (max 0 lastEnd) (keep_spans len lastEnd es)"
proof (induction es arbitrary: lastEnd)
  case (Cons e es)
  show ?case
  proof (cases "valid_span len e \<and> lastEnd \<le> ent_Start e")
    case True
    then have "spans_ok len (max 0 (ent_End e)) (keep_spans len (ent_End e) es)"
      using Cons.IH [of "ent_End e"] Cons.prems by (simp add: valid_span_def)
    moreover have "max 0 (ent_End e) = ent_End e" using True by (simp add: valid_span_def)
    ultimately show ?thesis using True by (simp add: keep_spans_Cons valid_span_def)
  next
    case False
    then show ?thesis using Cons by (auto simp: keep_spans_Cons)
  qed
qed simp

lemma kept_spans_ok: "spans_ok (int (length text)) 0 (kept_spans text es)"
  using keep_spans_ok [of "int (length text)" "-1"] by (simp add: kept_spans_def)

lemma keep_spans_subset: "set (keep_spans len lastEnd es) \<subseteq> set es"
  by (induction es arbitrary: lastEnd) (auto simp: keep_spans_Cons)

lemma kept_spans_subset: "set (kept_spans text es) \<subseteq> set es"
  using keep_spans_subset [of "int (length text)" "-1" "sort_entities es"]
  by (simp add: kept_spans_def sort_entities_def)

text \<open>
  In a list sorted by start, a valid span that is skipped starts inside one that is kept:
  the first byte of every span of the analyzer is masked.
\<close>

lemma keep_spans_covers:
  assumes "sorted (map ent_Start es)" and "e \<in> set es" and "valid_span len e"
  shows "ent_Start e < lastEnd \<or>
    (\<exists>k \<in> set (keep_spans len lastEnd es). ent_Start k \<le> ent_Start e \<and> ent_Start e < ent_End k)"
  using assms
proof (induction es arbitrary: lastEnd)
  case (Cons a es)
  have tail: "sorted (map ent_Start es)" "\<forall>x \<in> set es. ent_Start a \<le> ent_Start x"
    using Cons.prems(1) by auto
  show ?case
  proof (cases "e = a")
    case True
    then show ?thesis using Cons.prems(3) by (auto simp: keep_spans_Cons valid_span_def)
  next
    case False
    then have e: "e \<in> set es" using Cons.prems(2) by simp
    note IH = Cons.IH [OF tail(1) e Cons.prems(3)]
    show ?thesis
    proof (cases "valid_span len a \<and> lastEnd \<le> ent_Start a")
      case True
      then show ?thesis using IH [of "ent_End a"] tail(2) e by (auto simp: keep_spans_Cons)
    next
      case False
      then have "keep_spans len lastEnd (a # es) = keep_spans len lastEnd es"
        by (auto simp: keep_spans_Cons)
      then show ?thesis using IH [of lastEnd] by simp
    qed
  qed
qed simp

lemma sort_entities_sorted: "sorted (map ent_Start (sort_entities es))"
proof -
  have "sorted (map (\<lambda>e. (ent_Start e, - ent_End e)) (sort_entities es))"
    unfolding sort_entities_def by (rule sorted_sort_key)
  then show ?thesis
    by (simp add: sorted_map) (erule sorted_wrt_mono_rel [rotated], auto)
qed

lemma kept_spans_cover:
  assumes "e \<in> set es" and "valid_span (int (length text)) e"
  shows "\<exists>k \<in> set (kept_spans text es). ent_Start k \<le> ent_Start e \<and> ent_Start e < ent_End k"
  using keep_spans_covers [OF sort_entities_sorted, of e es "int (length text)" "-1"] assms
  by (auto simp: kept_spans_def valid_span_def sort_entities_def)

section \<open>Masking as a run of the store\<close>

text \<open>
  \<open>span_reqs\<close> are the values masking asks tokens for; \<open>weave\<close> puts a list of texts in the
  place of the spans; \<open>gaps\<close> are the pieces of text outside them.
\<close>

definition span_reqs :: "string \<Rightarrow> pii_entity list \<Rightarrow> (string \<times> string) list" where
  "span_reqs text es = map (\<lambda>e. (ent_Type e, go_slice text (ent_Start e) (ent_End e))) es"

fun weave :: "string \<Rightarrow> int \<Rightarrow> pii_entity list \<Rightarrow> string list \<Rightarrow> string" where
  "weave text cursor (e # es) (t # ts) =
     go_slice text cursor (ent_Start e) @ t @ weave text (ent_End e) es ts"
| "weave text cursor es ts = drop (nat cursor) text"

fun gaps :: "string \<Rightarrow> int \<Rightarrow> pii_entity list \<Rightarrow> string list" where
  "gaps text cursor [] = [drop (nat cursor) text]"
| "gaps text cursor (e # es) = go_slice text cursor (ent_Start e) # gaps text (ent_End e) es"

lemma mask_spans_run:
  "mask_spans text cursor es m =
     (fst (run_tokens Token m (span_reqs text es)),
      weave text cursor es (snd (run_tokens Token m (span_reqs text es))))"
  by (induction es arbitrary: cursor m) (simp_all add: span_reqs_def case_prod_unfold Let_def)

lemma slice_append_drop: "\<lbrakk>0 \<le> a; a \<le> b\<rbrakk> \<Longrightarrow> go_slice s a b @ drop (nat b) s = drop (nat a) s"
proof -
  assume "0 \<le> a" and "a \<le> b"
  then have "drop (nat b) s = drop (nat b - nat a) (drop (nat a) s)"
    by (simp add: nat_mono)
  then show ?thesis by (simp only: go_slice_def append_take_drop_id)
qed

lemma weave_originals:
  "spans_ok (int (length text)) cursor es
    \<Longrightarrow> weave text cursor es (map snd (span_reqs text es)) = drop (nat cursor) text"
proof (induction es arbitrary: cursor)
  case (Cons e es)
  then have "weave text (ent_End e) es (map snd (span_reqs text es)) = drop (nat (ent_End e)) text"
    by simp
  then show ?case
    using Cons.prems by (simp add: span_reqs_def slice_append_drop)
qed simp

section \<open>What the scan of \<open>Unmask\<close> does on plain text and on placeholders\<close>

text \<open>
  A text is quiet for a list of aliases when it holds no opening bracket and no alias
  occurs in it, in any case.
\<close>

definition quiet :: "string list \<Rightarrow> string \<Rightarrow> bool" where
  "quiet aliases s =
     (CHR ''['' \<notin> set s \<and>
      list_all (\<lambda>a. a \<noteq> [] \<and> CHR ''['' \<notin> set a \<and> \<not> contains (map fold_byte s) (map fold_byte a)) aliases)"

lemma fold_byte_bracket: "fold_byte c = CHR ''['' \<longleftrightarrow> c = CHR ''[''"
  using fold_byte_eq_nonletter [of "CHR ''[''" c]
  by (auto simp: is_letter_def is_upper_def is_lower_def fold_byte_def)

lemma fold_byte_underscore: "fold_byte c = CHR ''_'' \<longleftrightarrow> c = CHR ''_''"
  using fold_byte_eq_nonletter [of "CHR ''_''" c]
  by (auto simp: is_letter_def is_upper_def is_lower_def fold_byte_def)

lemma fold_image:
  "CHR ''['' \<in> fold_byte ` set s \<longleftrightarrow> CHR ''['' \<in> set s"
  "CHR ''_'' \<in> fold_byte ` set s \<longleftrightarrow> CHR ''_'' \<in> set s"
  by (auto simp: image_iff eq_commute [of "CHR ''[''"] eq_commute [of "CHR ''_''"]
      fold_byte_bracket fold_byte_underscore)

lemma equal_fold_bracket: "equal_fold s t \<Longrightarrow> CHR ''['' \<in> set s \<longleftrightarrow> CHR ''['' \<in> set t"
  unfolding equal_fold_def using fold_image(1) by (metis set_map)

lemma contains_underscore:
  "contains (map fold_byte s) (map fold_byte a) \<Longrightarrow> CHR ''_'' \<in> set a \<Longrightarrow> CHR ''_'' \<in> set s"
proof (induction s)
  case Nil
  then show ?case by simp
next
  case (Cons c s)
  show ?case
  proof (cases "has_prefix (map fold_byte (c # s)) (map fold_byte a)")
    case True
    then have "set (map fold_byte a) \<subseteq> set (map fold_byte (c # s))"
      unfolding has_prefix_def by (metis set_take_subset)
    moreover have "CHR ''_'' \<in> set (map fold_byte a)"
      using Cons.prems(2) by (simp add: fold_image)
    ultimately have "CHR ''_'' \<in> fold_byte ` set (c # s)" by auto
    then show ?thesis by (simp only: fold_image)
  next
    case False
    then show ?thesis using Cons by simp
  qed
qed

lemma quiet_without_underscore:
  assumes "\<forall>a \<in> set aliases. CHR ''_'' \<in> set a \<and> CHR ''['' \<notin> set a"
    and "CHR ''['' \<notin> set s" and "CHR ''_'' \<notin> set s"
  shows "quiet aliases s"
  using assms contains_underscore by (fastforce simp: quiet_def list_all_iff)

lemma quiet_tail: "quiet aliases (c # s) \<Longrightarrow> quiet aliases s"
  by (auto simp: quiet_def list_all_iff)

lemma contains_prefix: "has_prefix s p \<Longrightarrow> contains s p"
  by (cases s) (auto simp: has_prefix_def)

lemma alias_fails:
  assumes q: "quiet aliases s" and a: "a \<in> set aliases" and r: "rest = [] \<or> hd rest = CHR ''[''"
  shows "length (s @ rest) < length a \<or> \<not> equal_fold (take (length a) (s @ rest)) a"
proof (rule ccontr)
  assume "\<not> ?thesis"
  then have len: "length a \<le> length (s @ rest)" and eq: "equal_fold (take (length a) (s @ rest)) a"
    by auto
  have na: "CHR ''['' \<notin> set a" using q a by (auto simp: quiet_def list_all_iff)
  show False
  proof (cases "length a \<le> length s")
    case True
    then have "map fold_byte (take (length a) s) = map fold_byte a"
      using eq by (simp add: equal_fold_def)
    then have "has_prefix (map fold_byte s) (map fold_byte a)"
      by (simp add: has_prefix_def take_map)
    then show False using q a contains_prefix by (auto simp: quiet_def list_all_iff)
  next
    case False
    then obtain r' where rest: "rest = CHR ''['' # r'" using len r by (cases rest) auto
    have "CHR ''['' \<in> set (take (length a) (s @ rest))"
      using False by (auto simp: rest take_Cons' not_le)
    then show False using equal_fold_bracket [OF eq] na by simp
  qed
qed

lemma match_fails:
  assumes "quiet aliases s" and "rest = [] \<or> hd rest = CHR ''[''" and "set as \<subseteq> set aliases"
  shows "matchBareAlias m (s @ rest) as = None"
  using assms(3)
proof (induction as)
  case (Cons a as)
  then show ?case using alias_fails [OF assms(1) _ assms(2), of a] by auto
qed simp

lemma unmask_quiet:
  assumes "quiet aliases s" and "rest = [] \<or> hd rest = CHR ''[''"
  shows "\<exists>prev'. unmask_loop m aliases prev (s @ rest) = s @ unmask_loop m aliases prev' rest"
  using assms(1)
proof (induction s arbitrary: prev)
  case Nil
  then show ?case by auto
next
  case (Cons c s)
  have c: "c \<noteq> CHR ''[''" using Cons.prems by (auto simp: quiet_def)
  have none: "matchBareAlias m (c # s @ rest) aliases = None"
    using match_fails [OF Cons.prems assms(2), of aliases m] by simp
  have "unmask_loop m aliases prev ((c # s) @ rest) = c # unmask_loop m aliases (Some c) (s @ rest)"
    by (simp add: c none)
  then show ?case using Cons.IH [OF quiet_tail [OF Cons.prems], of "Some c"] by auto
qed

lemma unmask_token:
  assumes ty: "type_ok ty" and known: "Original m (token_text ty n) = Some v"
  shows "unmask_loop m aliases prev (token_text ty n @ rest)
    = v @ unmask_loop m aliases (Some CHR '']'') rest"
proof -
  have no: "CHR '']'' \<notin> set (bare_text ty n)" by (rule bracket_not_in_bare [OF ty])
  have tok: "token_text ty n @ rest = CHR ''['' # bare_text ty n @ CHR '']'' # rest"
    by (simp add: token_text_def)
  have "takeWhile (\<lambda>d. d \<noteq> CHR '']'') (bare_text ty n @ CHR '']'' # rest) = bare_text ty n"
    using no by (auto simp: takeWhile_tail)
  moreover have "dropWhile (\<lambda>d. d \<noteq> CHR '']'') (bare_text ty n @ CHR '']'' # rest) = CHR '']'' # rest"
    using no by (auto simp: dropWhile_append3)
  ultimately show ?thesis
    using known by (simp add: tok) (simp add: token_text_def)
qed

lemma unmask_weave:
  assumes "length ts = length es"
    and "\<forall>i < length es. \<exists>ty n. type_ok ty \<and> ts ! i = token_text ty n \<and>
      Original m (ts ! i) = Some (snd (span_reqs text es ! i))"
    and "\<forall>g \<in> set (gaps text cursor es). quiet aliases g"
  shows "unmask_loop m aliases prev (weave text cursor es ts)
    = weave text cursor es (map snd (span_reqs text es))"
  using assms
proof (induction es arbitrary: ts cursor prev)
  case Nil
  then show ?case
    using unmask_quiet [of aliases "drop (nat cursor) text" "[]" m prev]
    by (cases ts) (simp_all add: span_reqs_def)
next
  case (Cons e es)
  then obtain t ts' where ts: "ts = t # ts'" by (cases ts) auto
  obtain ty n where t: "type_ok ty" "t = token_text ty n"
    and known: "Original m t = Some (go_slice text (ent_Start e) (ent_End e))"
    using Cons.prems(2) by (force simp: ts span_reqs_def)
  have IH: "unmask_loop m aliases p (weave text (ent_End e) es ts')
      = weave text (ent_End e) es (map snd (span_reqs text es))" for p
  proof (rule Cons.IH)
    show "\<forall>i < length es. \<exists>ty n. type_ok ty \<and> ts' ! i = token_text ty n \<and>
        Original m (ts' ! i) = Some (snd (span_reqs text es ! i))"
      using Cons.prems(2) by (fastforce simp: ts span_reqs_def)
  qed (use Cons.prems in \<open>auto simp: ts\<close>)
  obtain p where "unmask_loop m aliases prev
      (go_slice text cursor (ent_Start e) @ t @ weave text (ent_End e) es ts')
    = go_slice text cursor (ent_Start e)
      @ unmask_loop m aliases p (t @ weave text (ent_End e) es ts')"
    using unmask_quiet [of aliases "go_slice text cursor (ent_Start e)"
        "t @ weave text (ent_End e) es ts'" m prev] Cons.prems(3) t
    by (auto simp: token_text_def)
  then show ?case
    using t known IH by (simp add: ts span_reqs_def unmask_token)
qed

section \<open>The round trip\<close>

lemma bare_aliases_ok:
  assumes inv: "mapping_inv m" and a: "a \<in> set (bareAliasesByLength m)"
  shows "CHR ''_'' \<in> set a \<and> CHR ''['' \<notin> set a"
proof -
  consider (token) tok v where "(tok, v) \<in> set (tokenToOriginal m)" "a = trim_set tok ''[]''"
    | (als) c where "(a, c) \<in> set (tokenAliases m)" "\<not> has_prefix a ''[''"
    using a by (auto simp: bareAliasesByLength_def)
  then show ?thesis
  proof cases
    case token
    then have "map_of (tokenToOriginal m) tok = Some v"
      using inv by (simp add: mapping_inv_def)
    then obtain ty where "entry_ok m ty v tok" using mapping_inv_t2o [OF inv] by blast
    then obtain n where "type_ok ty" "tok = token_text ty n" by (auto simp: entry_ok_def)
    then show ?thesis using token(2) bracket_not_in_bare(1) by (simp add: trim_token_text)
  next
    case als
    then obtain c' where "map_of (tokenAliases m) a = Some c'"
      by (metis domD domIff weak_map_of_SomeI not_Some_eq)
    then have "alias_ok a" using mapping_inv_alias [OF inv] by blast
    then show ?thesis using als(2) by (simp add: alias_ok_def)
  qed
qed

lemma ApplyMask_run:
  "ApplyMask text es (Some m) =
     (Some (fst (run_tokens Token m (span_reqs text (kept_spans text es)))),
      weave text 0 (kept_spans text es)
        (snd (run_tokens Token m (span_reqs text (kept_spans text es)))))"
proof (cases "kept_spans text es = []")
  case True
  then show ?thesis by (simp add: ApplyMask_def span_reqs_def)
next
  case False
  have "es \<noteq> []" using False by (auto simp: kept_spans_def sort_entities_def)
  moreover have "text \<noteq> []"
  proof
    assume "text = []"
    then have "spans_ok 0 0 (kept_spans text es)" using kept_spans_ok [of "text" es] by simp
    then show False using False by (cases "kept_spans text es") auto
  qed
  ultimately show ?thesis
    using False by (simp add: ApplyMask_def mask_spans_run)
qed

lemma span_reqs_ok:
  "\<forall>e \<in> set es. type_ok (ent_Type e) \<Longrightarrow> \<forall>r \<in> set (span_reqs text (kept_spans text es)). type_ok (fst r)"
  using kept_spans_subset [of "text" es] by (auto simp: span_reqs_def)

lemma unmask_masked:
  assumes inv: "mapping_inv m" and ok: "\<forall>e \<in> set es. type_ok (ent_Type e)"
    and mask: "ApplyMask text es (Some m) = (Some m', out)"
    and later: "\<forall>r \<in> set later. type_ok (fst r)"
    and q: "\<forall>g \<in> set (gaps text 0 (kept_spans text es)). quiet aliases g"
  shows "unmask_loop (fst (run_tokens Token m' later)) aliases prev out = text"
proof -
  let ?ks = "kept_spans text es"
  let ?rs = "span_reqs text ?ks"
  let ?ts = "snd (run_tokens Token m ?rs)"
  let ?m2 = "fst (run_tokens Token m' later)"
  have m': "m' = fst (run_tokens Token m ?rs)" and out: "out = weave text 0 ?ks ?ts"
    using mask by (simp_all add: ApplyMask_run)
  note rs = span_reqs_ok [OF ok, of "text"]
  have inv': "mapping_inv m'" unfolding m' by (rule pm.run_inv [OF inv rs])
  have tok: "\<exists>ty n. type_ok ty \<and> ?ts ! i = token_text ty n \<and> Original ?m2 (?ts ! i) = Some (snd (?rs ! i))"
    if i: "i < length ?ks" for i
  proof -
    have i': "i < length ?rs" using i by (simp add: span_reqs_def)
    have k: "known_token m' (fst (?rs ! i)) (snd (?rs ! i)) (?ts ! i)"
      unfolding m' by (rule pm.run_known [OF inv rs i'])
    have ty: "type_ok (fst (?rs ! i))" using rs i' nth_mem by blast
    have "known_token ?m2 (fst (?rs ! i)) (snd (?rs ! i)) (?ts ! i)"
      by (rule pm.run_known_keep [OF inv' later k])
    then have "entry_ok ?m2 (fst (?rs ! i)) (snd (?rs ! i)) (?ts ! i)"
      using known_entry pm.run_inv [OF inv' later] ty by blast
    then show ?thesis using Original_known [of ?m2] unfolding entry_ok_def by blast
  qed
  have "unmask_loop ?m2 aliases prev out = weave text 0 ?ks (map snd ?rs)"
    unfolding out by (rule unmask_weave) (use tok q in \<open>auto simp: pm.run_length span_reqs_def\<close>)
  also have "\<dots> = text"
    using weave_originals [OF kept_spans_ok, of "text" es] by simp
  finally show ?thesis .
qed

text \<open>An empty mapping restores nothing, so the early return of \<open>Unmask\<close> is no special case.\<close>

lemma Original_empty: "\<lbrakk>mapping_inv m; tokenToOriginal m = []\<rbrakk> \<Longrightarrow> Original m t = None"
  using mapping_inv_alias mapping_inv_normalized
  by (fastforce simp: Original_def split: option.splits)

lemma match_unknown: "(\<And>t. Original m t = None) \<Longrightarrow> matchBareAlias m s aliases = None"
  by (induction aliases) auto

lemma takeWhile_sep: "c \<in> set s \<Longrightarrow> takeWhile (\<lambda>d. d \<noteq> c) s @ c # tl (dropWhile (\<lambda>d. d \<noteq> c) s) = s"
  by (induction s) auto

lemma unmask_loop_unknown:
  assumes "\<And>t. Original m t = None"
  shows "unmask_loop m aliases prev s = s"
proof (induction m\<equiv>m aliases prev s rule: unmask_loop.induct)
  case (2 aliases prev c s)
  then show ?case
    using takeWhile_sep [of "CHR '']''" s]
    by (auto simp: assms match_unknown split: option.splits)
qed simp

lemma mapping_inv_later:
  assumes "mapping_inv m" and "\<forall>e \<in> set es. type_ok (ent_Type e)"
    and "ApplyMask text es (Some m) = (Some m', out)" and "\<forall>r \<in> set later. type_ok (fst r)"
  shows "mapping_inv (fst (run_tokens Token m' later))"
proof (rule pm.run_inv [OF _ assms(4)])
  show "mapping_inv m'"
    using assms(3) pm.run_inv [OF assms(1) span_reqs_ok [OF assms(2)]] by (auto simp: ApplyMask_run)
qed


definition sample_text :: string where
  "sample_text = ''Hi Bob, mail b@c.io''"

definition sample_entities :: "pii_entity list" where
  "sample_entities =
     [\<lparr>ent_Type = ''EMAIL_ADDRESS'', ent_Start = 13, ent_End = 19, ent_Score = 0\<rparr>,
      \<lparr>ent_Type = ''PERSON'', ent_Start = 3, ent_End = 6, ent_Score = 0\<rparr>]"


text \<open>
  C21: Placeholders are a bijective naming. In any sequence of values a request masks, every
  placeholder handed out resolves to its value in the mapping the request ends with, and two
  placeholders are equal exactly when type and value are.
\<close>

theorem tokens_resolve_and_separate:
  assumes "\<forall>r \<in> set rs. type_ok (fst r)" and "i < length rs" and "j < length rs"
  shows "Original (fst (run_tokens Token NewPIIMapping rs)) (snd (run_tokens Token NewPIIMapping rs) ! i)
      = Some (snd (rs ! i)) \<and>
    (snd (run_tokens Token NewPIIMapping rs) ! i = snd (run_tokens Token NewPIIMapping rs) ! j
      \<longleftrightarrow> rs ! i = rs ! j)"
  by (rule conjI [OF pm.run_orig pm.run_same_token_iff]) (use assms mapping_inv_New in auto)

theorem tokens_resolve_and_separate_witness:
  "snd (run_tokens Token NewPIIMapping [(''PERSON'', ''Bob''), (''IBAN_CODE'', ''X''), (''PERSON'', ''Eve'')]) ! 2
     \<noteq> snd (run_tokens Token NewPIIMapping [(''PERSON'', ''Bob''), (''IBAN_CODE'', ''X''), (''PERSON'', ''Eve'')]) ! 0"
proof -
  have "\<forall>r \<in> set [(''PERSON'', ''Bob''), (''IBAN_CODE'', ''X''), (''PERSON'', ''Eve'')]. type_ok (fst r)"
    by code_simp
  from tokens_resolve_and_separate [OF this, of 2 0] show ?thesis by simp
qed

text \<open>
  C22: Masking drops no detection. The spans that are replaced lie in the text, in order and
  without overlap, and the first byte of every valid span of the analyzer is inside one of
  them.
\<close>

theorem kept_spans_sound_and_covering:
  "spans_ok (int (length text)) 0 (kept_spans text es) \<and>
   set (kept_spans text es) \<subseteq> set es \<and>
   list_all (\<lambda>e. valid_span (int (length text)) e \<longrightarrow>
     list_ex (\<lambda>k. ent_Start k \<le> ent_Start e \<and> ent_Start e < ent_End k) (kept_spans text es)) es"
  using kept_spans_ok kept_spans_subset kept_spans_cover
  by (auto simp: list_all_iff list_ex_iff)

theorem kept_spans_sound_and_covering_witness:
  "valid_span (int (length sample_text)) (hd sample_entities) \<and>
   list_ex (\<lambda>k. ent_Start k \<le> 13 \<and> 13 < ent_End k) (kept_spans sample_text sample_entities)"
proof -
  have v: "valid_span (int (length sample_text)) (hd sample_entities)" by code_simp
  then show ?thesis
    using kept_spans_sound_and_covering [of sample_text sample_entities]
    by (simp add: sample_entities_def)
qed

section \<open>Where restoring stops short\<close>

definition one_person :: pii_mapping where
  "one_person = fst (Token NewPIIMapping ''PERSON'' ''Bob'')"

text \<open>
  A bracket opened before a placeholder and not closed swallows it: the scan takes the text
  up to the first closing bracket as one token, which the mapping does not know.
\<close>

lemma unmask_misses_nested_placeholder:
  "Unmask ''[see [PERSON_1]'' (Some one_person) = ''[see [PERSON_1]''"
  by code_simp

end
