(* ===== verification/PiiStream.thy ===== *)
theory PiiStream
  imports PiiMask
begin

text \<open>
  Restoring streamed text (\<open>feedPIIStreamBuffer\<close>, \<open>bareAliasHoldStart\<close> and
  \<open>flushPIIStreamBuffer\<close> of \<open>application/services/pii.go\<close>). Text that may be the start of a
  placeholder is held back until the next chunk. \<open>restore\<close> is the abstract reading of
  \<open>Unmask\<close>, word by word and bracket by bracket; \<open>Unmask\<close> refines it, and the streamed
  reading of a text agrees with the whole-text one however the text is cut.
\<close>

section \<open>The code\<close>

text \<open>The index of the last bracket when it is an opening one, else the length.\<close>

definition bracket_cut :: "string \<Rightarrow> nat" where
  "bracket_cut full =
     (let tail = takeWhile (\<lambda>c. c \<noteq> CHR ''['' \<and> c \<noteq> CHR '']'') (rev full);
          i = length full - length tail
      in if i > 0 \<and> full ! (i - 1) = CHR ''['' then i - 1 else length full)"

definition max_length :: "string list \<Rightarrow> nat" where
  "max_length as = fold (\<lambda>a n. max n (length a)) as 0"

definition starts_alias :: "string list \<Rightarrow> string \<Rightarrow> bool" where
  "starts_alias aliases suffix =
     list_ex (\<lambda>a. length suffix \<le> length a \<and> equal_fold (take (length suffix) a) suffix) aliases"

text \<open>The loop from \<open>start = len - 1\<close> down to \<open>startAt\<close>: the first hit is the result.\<close>

definition hold_start :: "string list \<Rightarrow> string \<Rightarrow> nat option" where
  "hold_start aliases text =
     find (\<lambda>start. isBareTokenBoundary (if start = 0 then None else byte_at text (start - 1)) \<and>
             starts_alias aliases (drop start text))
       (rev [length text - max_length aliases..<length text])"

definition bareAliasHoldStart :: "string \<Rightarrow> pii_mapping option \<Rightarrow> nat option" where
  "bareAliasHoldStart text p =
     (if mapping_Len p = 0 \<or> text = [] then None
      else if BareTokenAliases p = [] then None
      else hold_start (BareTokenAliases p) text)"

text \<open>The new content of the buffer and the text to emit.\<close>

definition feedPIIStreamBuffer :: "string \<Rightarrow> string \<Rightarrow> pii_mapping option \<Rightarrow> string \<times> string" where
  "feedPIIStreamBuffer buf delta p =
     (let full = buf @ delta;
          cut = (case bareAliasHoldStart full p of
                   None \<Rightarrow> bracket_cut full
                 | Some b \<Rightarrow> if b < bracket_cut full then b else bracket_cut full)
      in (drop cut full, Unmask (take cut full) p))"

definition flushPIIStreamBuffer :: "string \<Rightarrow> pii_mapping option \<Rightarrow> string" where
  "flushPIIStreamBuffer buf p = (if buf = [] then [] else Unmask buf p)"

text \<open>What a client receives of one field: every chunk fed, then the rest flushed.\<close>

fun stream_text :: "pii_mapping option \<Rightarrow> string \<Rightarrow> string list \<Rightarrow> string" where
  "stream_text p buf [] = flushPIIStreamBuffer buf p"
| "stream_text p buf (d # ds) =
     (let (buf', out) = feedPIIStreamBuffer buf d p in out @ stream_text p buf' ds)"

section \<open>The abstract reading of a text\<close>

definition lookup_word :: "pii_mapping \<Rightarrow> string list \<Rightarrow> string \<Rightarrow> string option" where
  "lookup_word m aliases r =
     (case find (\<lambda>a. equal_fold r a \<and> Original m a \<noteq> None) aliases of
        None \<Rightarrow> None
      | Some a \<Rightarrow> Original m a)"

definition restore_word :: "pii_mapping \<Rightarrow> string list \<Rightarrow> string \<Rightarrow> string" where
  "restore_word m aliases r = (case lookup_word m aliases r of Some v \<Rightarrow> v | None \<Rightarrow> r)"

function restore :: "pii_mapping \<Rightarrow> string list \<Rightarrow> string \<Rightarrow> string" where
  "restore m aliases [] = []"
| "restore m aliases (c # s) =
     (if c = CHR ''['' then
        (if CHR '']'' \<in> set s then
           (case Original m (takeWhile (\<lambda>d. d \<noteq> CHR '']'') (c # s) @ '']'') of
              Some v \<Rightarrow> v | None \<Rightarrow> takeWhile (\<lambda>d. d \<noteq> CHR '']'') (c # s) @ '']'')
           @ restore m aliases (tl (dropWhile (\<lambda>d. d \<noteq> CHR '']'') s))
         else c # s)
      else if word_char c then
        restore_word m aliases (takeWhile word_char (c # s))
        @ restore m aliases (dropWhile word_char s)
      else c # restore m aliases s)"
  by pat_completeness auto
termination
  by (relation "measure (\<lambda>(m, aliases, s). length s)")
     (auto simp: le_imp_less_Suc tl_dropWhile_less length_dropWhile_le)

text \<open>The aliases a scan needs: words, longest first.\<close>

definition word_aliases :: "string list \<Rightarrow> bool" where
  "word_aliases aliases =
     (list_all (\<lambda>a. a \<noteq> [] \<and> list_all word_char a) aliases \<and>
      sorted_wrt (\<lambda>a b. length b \<le> length a) aliases)"

lemma word_char_fold: "word_char (fold_byte c) = word_char c"
proof (cases "is_lower c")
  case True
  then have "is_upper (to_upper_byte c)"
    using byte_to_upper [of c] by (auto simp: is_upper_def is_lower_def)
  then show ?thesis using True by (simp add: fold_byte_def word_char_def is_letter_def)
qed (simp add: fold_byte_def)

lemma equal_fold_words: "equal_fold s t \<Longrightarrow> list_all word_char s = list_all word_char t"
proof -
  assume "equal_fold s t"
  then have "list_all word_char (map fold_byte s) = list_all word_char (map fold_byte t)"
    by (simp only: equal_fold_def)
  then show ?thesis by (simp add: list.pred_map comp_def word_char_fold)
qed

lemma equal_fold_length: "equal_fold s t \<Longrightarrow> length s = length t"
  unfolding equal_fold_def by (rule map_eq_imp_length_eq)

lemma words_within_run:
  assumes "n \<le> length s" and "list_all word_char (take n s)"
  shows "n \<le> length (takeWhile word_char s)"
  using assms
proof (induction s arbitrary: n)
  case (Cons c s)
  then show ?case by (cases n) auto
qed simp

text \<open>At a boundary, the alias the scan accepts is the whole run of word characters.\<close>

lemma word_run_take: "length a = length (takeWhile P s) \<Longrightarrow> take (length a) s = takeWhile P s"
  by (metis takeWhile_eq_take)

lemma match_run_shorter:
  assumes "word_aliases aliases" and "\<forall>a \<in> set aliases. length a < length (takeWhile word_char s)"
  shows "lookup_word m aliases (takeWhile word_char s) = None"
proof -
  have "find (\<lambda>a. equal_fold (takeWhile word_char s) a \<and> Original m a \<noteq> None) aliases = None"
    using assms(2) by (fastforce simp: find_None_iff dest: equal_fold_length)
  then show ?thesis by (simp add: lookup_word_def)
qed

lemma match_run:
  assumes "word_aliases aliases"
  shows "(case lookup_word m aliases (takeWhile word_char s) of
       Some v \<Rightarrow> \<exists>a. matchBareAlias m s aliases = Some (a, v) \<and> length a = length (takeWhile word_char s)
     | None \<Rightarrow> \<forall>a v. matchBareAlias m s aliases = Some (a, v) \<longrightarrow> length a < length (takeWhile word_char s))"
  using assms
proof (induction aliases)
  case Nil
  then show ?case by (simp add: lookup_word_def)
next
  case (Cons a as)
  let ?r = "takeWhile word_char s"
  have ws: "word_aliases as" and wa: "list_all word_char a" and le: "\<forall>b \<in> set as. length b \<le> length a"
    using Cons.prems by (auto simp: word_aliases_def)
  note IH = Cons.IH [OF ws]
  show ?case
  proof (cases "length a \<le> length s \<and> equal_fold (take (length a) s) a \<and> Original m a \<noteq> None")
    case False
    then have m: "matchBareAlias m s (a # as) = matchBareAlias m s as" by auto
    have "\<not> (equal_fold ?r a \<and> Original m a \<noteq> None)"
    proof
      assume r: "equal_fold ?r a \<and> Original m a \<noteq> None"
      then have l: "length a = length ?r" using equal_fold_length by metis
      then have "length a \<le> length s" by (simp add: length_takeWhile_le)
      then show False using False r word_run_take [OF l] by simp
    qed
    then have "lookup_word m (a # as) ?r = lookup_word m as ?r" by (auto simp: lookup_word_def)
    show ?thesis unfolding \<open>lookup_word m (a # as) ?r = lookup_word m as ?r\<close> m by (rule IH)
  next
    case True
    then obtain v where v: "Original m a = Some v" by auto
    have m: "matchBareAlias m s (a # as) = Some (a, v)" using True v by auto
    have "list_all word_char (take (length a) s)" using True wa equal_fold_words by blast
    then have len: "length a \<le> length ?r" using words_within_run True by blast
    show ?thesis
    proof (cases "length a = length ?r")
      case eq: True
      then have "equal_fold ?r a" using True word_run_take [OF eq] by simp
      then have "lookup_word m (a # as) ?r = Some v" by (simp add: lookup_word_def v)
      then show ?thesis using m eq by simp
    next
      case False
      then have "\<forall>b \<in> set (a # as). length b < length ?r" using len le by auto
      then have "lookup_word m (a # as) ?r = None" by (rule match_run_shorter [OF Cons.prems])
      then show ?thesis using m len False by simp
    qed
  qed
qed

lemma byte_after_run: "isBareTokenBoundary (byte_at s (length (takeWhile word_char s)))"
  by (auto simp: byte_at_def isBareTokenBoundary_def dest: nth_length_takeWhile)

lemma byte_in_run:
  assumes "n < length (takeWhile word_char s)"
  shows "\<not> isBareTokenBoundary (byte_at s n)"
proof -
  have "s ! n = takeWhile word_char s ! n" using assms by (simp add: takeWhile_nth)
  moreover have "word_char (takeWhile word_char s ! n)" using assms by (metis nth_mem set_takeWhileD)
  moreover have "n < length s" using assms length_takeWhile_le [of word_char s] by linarith
  ultimately show ?thesis by (simp add: byte_at_def isBareTokenBoundary_def)
qed

lemma restore_split:
  "takeWhile word_char s = [] \<Longrightarrow> restore m aliases s = restore m aliases (dropWhile word_char s)"
  by (cases s) (auto split: if_splits)

lemma not_word_bracket [simp]: "\<not> word_char CHR ''[''" "\<not> word_char CHR '']''"
  by (simp_all add: word_char_def is_letter_def is_upper_def is_lower_def is_digit_def)

lemma dropWhile_as_drop: "drop (length (takeWhile P s)) s = dropWhile P s"
  by (metis append_eq_conv_conj takeWhile_dropWhile_id)

lemma lookup_word_Nil: "word_aliases aliases \<Longrightarrow> lookup_word m aliases [] = None"
  by (auto simp: lookup_word_def word_aliases_def find_None_iff list_all_iff equal_fold_def
      split: option.splits dest!: find_Some_iff [THEN iffD1] nth_mem)

lemma unmask_step_word:
  assumes "word_aliases aliases" and "word_char c" and "isBareTokenBoundary prev"
  shows "unmask_loop m aliases prev (c # s) =
    (case lookup_word m aliases (takeWhile word_char (c # s)) of
       Some v \<Rightarrow> v @ unmask_loop m aliases (byte_at (c # s) (length (takeWhile word_char s)))
                        (dropWhile word_char s)
     | None \<Rightarrow> c # unmask_loop m aliases (Some c) s)"
proof -
  let ?r = "takeWhile word_char (c # s)"
  have c: "c \<noteq> CHR ''[''" using assms(2) by auto
  show ?thesis
  proof (cases "lookup_word m aliases ?r")
    case (Some v)
    then obtain a where a: "matchBareAlias m (c # s) aliases = Some (a, v)" "length a = length ?r"
      using match_run [OF assms(1), of m "c # s"] by auto
    have "a \<noteq> []" using a(2) assms(2) by auto
    moreover have "isBareTokenBoundary (byte_at (c # s) (length a))"
      using byte_after_run [of "c # s"] a(2) by simp
    moreover have "drop (length a) (c # s) = dropWhile word_char s"
      using dropWhile_as_drop [of word_char "c # s"] assms(2) a(2) by simp
    moreover have "length a - 1 = length (takeWhile word_char s)" using a(2) assms(2) by simp
    ultimately show ?thesis using Some a(1) assms(3) c by simp
  next
    case None
    then have short: "length a < length ?r" if "matchBareAlias m (c # s) aliases = Some (a, v)" for a v
      using match_run [OF assms(1), of m "c # s"] that by auto
    have "\<not> isBareTokenBoundary (byte_at (c # s) (length a))"
      if "matchBareAlias m (c # s) aliases = Some (a, v)" for a v
      using byte_in_run [OF short [OF that]] .
    then show ?thesis using None c by (auto split: option.splits)
  qed
qed

lemma unmask_step_other:
  assumes "word_aliases aliases" and "\<not> word_char c" and "c \<noteq> CHR ''[''"
  shows "unmask_loop m aliases prev (c # s) = c # unmask_loop m aliases (Some c) s"
proof -
  have "takeWhile word_char (c # s) = []" using assms(2) by simp
  then have "matchBareAlias m (c # s) aliases = None"
    using match_run [OF assms(1), of m "c # s"] lookup_word_Nil [OF assms(1), of m]
    by (cases "matchBareAlias m (c # s) aliases") auto
  then show ?thesis using assms(3) by simp
qed

text \<open>The scan of the code is the abstract reading, from any position.\<close>

lemma unmask_restore:
  assumes wa: "word_aliases aliases"
  shows "unmask_loop m aliases prev s =
    (if isBareTokenBoundary prev then restore m aliases s
     else takeWhile word_char s @ restore m aliases (dropWhile word_char s))"
proof (induction s arbitrary: prev rule: length_induct)
  case (1 s)
  then have IH: "length t < length s \<Longrightarrow> unmask_loop m aliases p t =
      (if isBareTokenBoundary p then restore m aliases t
       else takeWhile word_char t @ restore m aliases (dropWhile word_char t))" for p t
    by blast
  show ?case
  proof (cases s)
    case (Cons c t)
    consider (br) "c = CHR ''[''" | (word) "word_char c" | (other) "\<not> word_char c" "c \<noteq> CHR ''[''"
      by blast
    then show ?thesis
    proof cases
      case br
      have "unmask_loop m aliases (Some CHR '']'') (tl (dropWhile (\<lambda>d. d \<noteq> CHR '']'') t))
          = restore m aliases (tl (dropWhile (\<lambda>d. d \<noteq> CHR '']'') t))"
        by (subst IH) (auto simp: Cons le_imp_less_Suc tl_dropWhile_less isBareTokenBoundary_def)
      then show ?thesis by (simp add: Cons br Let_def split: option.split)
    next
      case word
      then have c: "c \<noteq> CHR ''[''" by auto
      have step: "unmask_loop m aliases (Some c) t
          = takeWhile word_char t @ restore m aliases (dropWhile word_char t)"
        by (subst IH) (simp_all add: Cons isBareTokenBoundary_def word)
      have prev: "\<not> isBareTokenBoundary (byte_at (c # t) (length (takeWhile word_char t)))"
        by (rule byte_in_run) (simp add: word)
      have after: "unmask_loop m aliases (byte_at (c # t) (length (takeWhile word_char t)))
            (dropWhile word_char t) = restore m aliases (dropWhile word_char t)"
        by (subst IH) (simp_all add: Cons prev length_dropWhile_le le_imp_less_Suc)
      show ?thesis
      proof (cases "isBareTokenBoundary prev")
        case True
        then show ?thesis
          by (simp add: Cons unmask_step_word [OF wa word] after step c word restore_word_def
              split: option.splits del: unmask_loop.simps)
      next
        case False
        then show ?thesis using step c word by (simp add: Cons)
      qed
    next
      case other
      have "unmask_loop m aliases (Some c) t = restore m aliases t"
        by (subst IH) (simp_all add: Cons isBareTokenBoundary_def other)
      then show ?thesis
        using other by (simp add: Cons unmask_step_other [OF wa other] del: unmask_loop.simps)
    qed
  qed simp
qed

section \<open>Where a text may be cut\<close>

text \<open>
  \<open>closed\<close>: every opening bracket has a closing one after it. \<open>flat\<close>: no bracket is
  opened inside another. \<open>sep_ok s t\<close>: no word that runs over the cut is an alias, in any
  of its readings.
\<close>

fun closed :: "string \<Rightarrow> bool" where
  "closed [] = True"
| "closed (c # s) = ((c = CHR ''['' \<longrightarrow> CHR '']'' \<in> set s) \<and> closed s)"

fun flat :: "bool \<Rightarrow> string \<Rightarrow> bool" where
  "flat opened [] = True"
| "flat opened (c # s) =
     (if c = CHR ''['' then \<not> opened \<and> flat True s
      else if c = CHR '']'' then flat False s else flat opened s)"

text \<open>No alias stands at the end of a longer word.\<close>

fun no_buried :: "pii_mapping \<Rightarrow> string list \<Rightarrow> char option \<Rightarrow> string \<Rightarrow> bool" where
  "no_buried m aliases prev [] = True"
| "no_buried m aliases prev (c # s) =
     ((isBareTokenBoundary prev \<or> lookup_word m aliases (takeWhile word_char (c # s)) = None) \<and>
      no_buried m aliases (Some c) s)"

definition sep_ok :: "pii_mapping \<Rightarrow> string list \<Rightarrow> string \<Rightarrow> string \<Rightarrow> bool" where
  "sep_ok m aliases s t =
     (takeWhile word_char t = [] \<or>
      (\<forall>u w. s = u @ w \<and> w \<noteq> [] \<and> list_all word_char w \<and> (u = [] \<or> \<not> word_char (last u)) \<longrightarrow>
         lookup_word m aliases w = None \<and>
         lookup_word m aliases (w @ takeWhile word_char t) = None \<and>
         lookup_word m aliases (takeWhile word_char t) = None))"

lemma closed_suffix: "closed (u @ v) \<Longrightarrow> closed v"
  by (induction u) auto

lemma closed_prefix: "\<lbrakk>closed (u @ v); CHR '']'' \<notin> set v\<rbrakk> \<Longrightarrow> closed u"
  by (induction u) auto

lemma flat_weaken: "flat True s \<Longrightarrow> flat False s"
  by (induction s) (auto split: if_splits)

lemma flat_suffix: "flat opened (u @ v) \<Longrightarrow> flat False v"
proof (induction u arbitrary: opened)
  case Nil
  then show ?case using flat_weaken by (cases opened) auto
qed (auto split: if_splits)

lemma flat_prefix: "flat opened (u @ v) \<Longrightarrow> flat opened u"
  by (induction u arbitrary: opened) (auto split: if_splits)

lemma flat_closed_before:
  "flat opened (u @ CHR ''['' # v) \<Longrightarrow> closed u \<and> (opened \<longrightarrow> CHR '']'' \<in> set u)"
  by (induction u arbitrary: opened) (auto split: if_splits)

lemma no_buried_weaken: "no_buried m aliases prev s \<Longrightarrow> no_buried m aliases None s"
  by (cases s) (auto simp: isBareTokenBoundary_def)

lemma no_buried_suffix: "no_buried m aliases prev (u @ v) \<Longrightarrow> no_buried m aliases None v"
proof (induction u arbitrary: prev)
  case Nil
  then show ?case using no_buried_weaken by simp
qed auto

lemma no_buried_last: "\<lbrakk>no_buried m aliases prev (u @ v); u \<noteq> []\<rbrakk> \<Longrightarrow> no_buried m aliases (Some (last u)) v"
proof (induction u arbitrary: prev)
  case (Cons c u)
  then show ?case by (cases "u = []") auto
qed simp

lemma no_buried_after:
  assumes "no_buried m aliases prev (u @ v)" and "u \<noteq> []" and "word_char (last u)" and "v \<noteq> []"
  shows "lookup_word m aliases (takeWhile word_char v) = None"
  using no_buried_last [OF assms(1,2)] assms(3,4) by (cases v) (auto simp: isBareTokenBoundary_def)

lemma sep_ok_suffix:
  assumes "sep_ok m aliases (p @ s) t" and "p \<noteq> []" and "\<not> word_char (last p) \<or> \<not> word_char (hd s)"
  shows "sep_ok m aliases s t"
  unfolding sep_ok_def
proof (cases "takeWhile word_char t = []", blast, rule disjI2, intro allI impI)
  fix u w
  assume run: "takeWhile word_char t \<noteq> []"
    and w: "s = u @ w \<and> w \<noteq> [] \<and> list_all word_char w \<and> (u = [] \<or> \<not> word_char (last u))"
  have "p @ u = [] \<or> \<not> word_char (last (p @ u))"
    using w assms(3) by (cases "u = []"; cases w) auto
  moreover have "p @ s = (p @ u) @ w" using w by simp
  ultimately show "lookup_word m aliases w = None \<and>
      lookup_word m aliases (w @ takeWhile word_char t) = None \<and>
      lookup_word m aliases (takeWhile word_char t) = None"
    using assms(1) run w unfolding sep_ok_def by blast
qed

lemma restore_word_None: "lookup_word m aliases r = None \<Longrightarrow> restore_word m aliases r = r"
  by (simp add: restore_word_def)

lemma restore_run:
  "s \<noteq> [] \<Longrightarrow> word_char (hd s) \<Longrightarrow> restore m aliases s
    = restore_word m aliases (takeWhile word_char s) @ restore m aliases (dropWhile word_char s)"
  by (cases s) auto

lemma restore_append_word:
  assumes "s \<noteq> []" and "list_all word_char s" and "sep_ok m aliases s t"
  shows "restore m aliases (s @ t) = restore m aliases s @ restore m aliases t"
proof -
  let ?x = "takeWhile word_char t"
  have hd: "word_char (hd (s @ t))" "s @ t \<noteq> []" using assms(1,2) by (cases s; simp)+
  have runs: "takeWhile word_char (s @ t) = s @ ?x" "dropWhile word_char (s @ t) = dropWhile word_char t"
    "takeWhile word_char s = s" "dropWhile word_char s = []"
    using assms(2) by (simp_all add: list_all_iff)
  have st: "restore m aliases (s @ t) = restore_word m aliases (s @ ?x) @ restore m aliases (dropWhile word_char t)"
    using restore_run [OF hd(2,1)] runs by simp
  have s: "restore m aliases s = restore_word m aliases s"
    using restore_run [of s m aliases] assms(1) hd(1) by (simp add: runs)
  show ?thesis
  proof (cases "?x = []")
    case True
    show ?thesis using restore_split [OF True, of m aliases] by (simp only: st True s append_Nil2)
  next
    case False
    have none: "lookup_word m aliases s = None" "lookup_word m aliases (s @ ?x) = None"
        "lookup_word m aliases ?x = None"
      using assms False unfolding sep_ok_def by (metis append_Nil)+
    have "restore m aliases t = ?x @ restore m aliases (dropWhile word_char t)"
      using False restore_run [of t m aliases] none(3)
      by (cases t) (auto simp: restore_word_None split: if_splits)
    then show ?thesis using st s none(1,2) by (simp add: restore_word_None)
  qed
qed

text \<open>A text cut where nothing is open reads as its two parts.\<close>

lemma restore_append:
  assumes "closed s" and "sep_ok m aliases s t"
  shows "restore m aliases (s @ t) = restore m aliases s @ restore m aliases t"
  using assms
proof (induction s rule: length_induct)
  case (1 s)
  then have IH: "\<lbrakk>length u < length s; closed u; sep_ok m aliases u t\<rbrakk>
      \<Longrightarrow> restore m aliases (u @ t) = restore m aliases u @ restore m aliases t" for u
    by blast
  show ?case
  proof (cases s)
    case (Cons c s')
    consider (br) "c = CHR ''[''" | (word) "word_char c" | (other) "\<not> word_char c" "c \<noteq> CHR ''[''"
      by blast
    then show ?thesis
    proof cases
      case br
      then have in_s: "CHR '']'' \<in> set s'" using 1(2) Cons by simp
      obtain b u where u: "s' = b @ CHR '']'' # u" "CHR '']'' \<notin> set b"
        using split_list_first [OF in_s] by blast
      have p: "s = (c # b @ '']'') @ u" by (simp add: Cons u)
      have "restore m aliases (u @ t) = restore m aliases u @ restore m aliases t"
        using closed_suffix [of "c # b @ '']''" u] sep_ok_suffix [of m aliases "c # b @ '']''" u t] 1(2,3)
        by (intro IH) (simp_all add: p)
      moreover have "takeWhile (\<lambda>d. d \<noteq> CHR '']'') (b @ CHR '']'' # x) = b"
        "dropWhile (\<lambda>d. d \<noteq> CHR '']'') (b @ CHR '']'' # x) = CHR '']'' # x" for x
        using u(2) by (auto simp: takeWhile_tail dropWhile_append3)
      ultimately show ?thesis by (simp add: Cons br u(1) split: option.split)
    next
      case word
      show ?thesis
      proof (cases "dropWhile word_char s = []")
        case True
        then show ?thesis
          using restore_append_word [of s] 1(3) Cons by (auto simp: dropWhile_eq_Nil_conv list_all_iff)
      next
        case False
        let ?u = "dropWhile word_char s"
        have p: "s = takeWhile word_char s @ ?u" by simp
        have hdu: "\<not> word_char (hd ?u)" using hd_dropWhile [OF False] .
        have "restore m aliases (?u @ t) = restore m aliases ?u @ restore m aliases t"
        proof (rule IH)
          show "length ?u < length s"
            using word by (simp add: Cons le_imp_less_Suc length_dropWhile_le)
          show "closed ?u" using 1(2) closed_suffix p by metis
          show "sep_ok m aliases ?u t"
            by (rule sep_ok_suffix [of _ _ "takeWhile word_char s"]) (use 1(3) hdu word Cons in auto)
        qed
        moreover obtain x where x: "x \<in> set s" "\<not> word_char x"
          using False by (auto simp: dropWhile_eq_Nil_conv)
        moreover have h: "s \<noteq> []" "word_char (hd s)" "s @ t \<noteq> []" "word_char (hd (s @ t))"
          using word by (simp_all add: Cons)
        moreover have "takeWhile word_char (s @ t) = takeWhile word_char s"
          "dropWhile word_char (s @ t) = ?u @ t"
          using x by simp_all
        ultimately show ?thesis
          using restore_run [OF h(1,2), of m aliases] restore_run [OF h(3,4), of m aliases]
          by (metis append.assoc)
      qed
    next
      case other
      have "restore m aliases (s' @ t) = restore m aliases s' @ restore m aliases t"
        by (rule IH) (use 1(2,3) Cons other sep_ok_suffix [of m aliases "[c]" s' t] in auto)
      then show ?thesis using other Cons by simp
    qed
  qed simp
qed

section \<open>The cuts the stream chooses\<close>

lemma closed_without_open: "CHR ''['' \<notin> set v \<Longrightarrow> closed v"
  by (induction v) auto

lemma closed_by_close: "CHR ''['' \<notin> set v \<Longrightarrow> closed (u @ CHR '']'' # v)"
  by (induction u) (auto simp: closed_without_open)

lemma bracket_cut_cases:
  obtains (pending) u v where "full = u @ CHR ''['' # v" and "CHR ''['' \<notin> set v" and "CHR '']'' \<notin> set v"
      and "bracket_cut full = length u"
    | (clear) "closed full" and "bracket_cut full = length full"
proof -
  let ?P = "\<lambda>c. c \<noteq> CHR ''['' \<and> c \<noteq> CHR '']''"
  define v where "v = rev (takeWhile ?P (rev full))"
  define x where "x = rev (dropWhile ?P (rev full))"
  have full: "full = x @ v" unfolding v_def x_def by (metis rev_append rev_rev_ident takeWhile_dropWhile_id)
  have v: "CHR ''['' \<notin> set v" "CHR '']'' \<notin> set v" by (auto simp: v_def dest: set_takeWhileD)
  have len: "length full - length (takeWhile ?P (rev full)) = length x"
    using arg_cong [OF full, of length] by (simp add: v_def)
  have bc: "bracket_cut full = (if length x > 0 \<and> full ! (length x - 1) = CHR ''['' then length x - 1 else length full)"
    unfolding bracket_cut_def Let_def len by (rule refl)
  show thesis
  proof (cases x rule: rev_cases)
    case Nil
    then have "full = v" and "bracket_cut full = length full" using full bc by simp_all
    then show ?thesis using clear closed_without_open [OF v(1)] by blast
  next
    case (snoc y b)
    then have "dropWhile ?P (rev full) = b # rev y"
      using snoc by (simp add: x_def rev_swap)
    then have "\<not> ?P b" unfolding dropWhile_eq_Cons_conv by blast
    moreover have nth: "full ! (length x - 1) = b" by (simp add: full snoc nth_append)
    ultimately consider "b = CHR ''[''" | "b = CHR '']''" by auto
    then show ?thesis
    proof cases
      case 1
      then have "full = y @ CHR ''['' # v" and "bracket_cut full = length y"
        using full nth bc by (simp_all add: snoc)
      then show ?thesis using pending v by blast
    next
      case 2
      then have "full = y @ CHR '']'' # v" and "bracket_cut full = length full"
        using full nth bc by (simp_all add: snoc)
      then show ?thesis using clear closed_by_close [OF v(1), of y] by simp
    qed
  qed
qed

lemma max_length_upper: "a \<in> set as \<Longrightarrow> length a \<le> max_length as"
proof -
  have "n \<le> fold (\<lambda>a n. max n (length a)) as n \<and>
      (\<forall>a \<in> set as. length a \<le> fold (\<lambda>a n. max n (length a)) as n)" for n
  proof (induction as arbitrary: n)
    case (Cons a as)
    then have "max n (length a) \<le> fold (\<lambda>a n. max n (length a)) as (max n (length a))" by blast
    then have "n \<le> fold (\<lambda>a n. max n (length a)) as (max n (length a))"
      "length a \<le> fold (\<lambda>a n. max n (length a)) as (max n (length a))" by simp_all
    then show ?case using Cons.IH by simp
  qed simp
  then show "a \<in> set as \<Longrightarrow> length a \<le> max_length as" by (simp add: max_length_def)
qed

lemma starts_alias_word:
  assumes "word_aliases aliases" and "starts_alias aliases w"
  shows "list_all word_char w"
proof -
  obtain a where a: "a \<in> set aliases" "equal_fold (take (length w) a) w"
    using assms(2) by (auto simp: starts_alias_def list_ex_iff)
  then have "list_all word_char (take (length w) a)"
    using assms(1) by (auto simp: word_aliases_def list_all_iff dest: in_set_takeD)
  then show ?thesis using equal_fold_words [OF a(2)] by simp
qed

lemma lookup_starts_alias:
  assumes "lookup_word m aliases (w @ x) \<noteq> None"
  shows "starts_alias aliases w"
proof -
  obtain a where a: "a \<in> set aliases" "equal_fold (w @ x) a"
    using assms by (auto simp: lookup_word_def dest: find_SomeD split: option.splits)
  have l: "length (w @ x) = length a" using a(2) by (rule equal_fold_length)
  have "map fold_byte (take (length w) a) = map fold_byte w"
    using a(2) by (metis append_eq_conv_conj equal_fold_def length_map map_append take_map)
  moreover have "length w \<le> length a" using l by simp
  ultimately show ?thesis using a(1) unfolding starts_alias_def list_ex_iff equal_fold_def by blast
qed

lemma hold_start_Some:
  assumes "hold_start aliases full = Some b"
  shows "b < length full" and "b = 0 \<or> \<not> word_char (full ! (b - 1))"
    and "starts_alias aliases (drop b full)"
proof -
  have "b \<in> set (rev [length full - max_length aliases..<length full]) \<and>
      isBareTokenBoundary (if b = 0 then None else byte_at full (b - 1)) \<and>
      starts_alias aliases (drop b full)"
    using find_SomeD [OF assms [unfolded hold_start_def]] by simp
  then show "b < length full" "b = 0 \<or> \<not> word_char (full ! (b - 1))" "starts_alias aliases (drop b full)"
    by (auto simp: isBareTokenBoundary_def byte_at_def split: if_splits)
qed

lemma hold_start_None:
  assumes "hold_start aliases (u @ w) = None" and "w \<noteq> []" and "u = [] \<or> \<not> word_char (last u)"
  shows "\<not> starts_alias aliases w"
proof
  assume st: "starts_alias aliases w"
  then obtain a where "a \<in> set aliases" "length w \<le> length a"
    by (auto simp: starts_alias_def list_ex_iff)
  then have "length w \<le> max_length aliases" using max_length_upper le_trans by blast
  then have "length u \<in> set [length (u @ w) - max_length aliases..<length (u @ w)]"
    using assms(2) by simp
  moreover have "isBareTokenBoundary (if length u = 0 then None else byte_at (u @ w) (length u - 1))"
    using assms(3) by (auto simp: isBareTokenBoundary_def byte_at_def nth_append last_conv_nth)
  moreover have "drop (length u) (u @ w) = w" by simp
  ultimately show False
    using assms(1) st unfolding hold_start_def find_None_iff set_rev by metis
qed

section \<open>The streamed text is the restored text\<close>

definition feed_cut :: "string list \<Rightarrow> string \<Rightarrow> nat" where
  "feed_cut aliases full =
     (case hold_start aliases full of
        None \<Rightarrow> bracket_cut full
      | Some b \<Rightarrow> if b < bracket_cut full then b else bracket_cut full)"

text \<open>Every cut leaves a closed text and separates no word that could be an alias.\<close>

lemma feed_cut_ok:
  assumes wa: "word_aliases aliases" and fl: "flat False full"
    and nb: "no_buried m aliases None (full @ rest)"
  shows "closed (take (feed_cut aliases full) full) \<and>
    sep_ok m aliases (take (feed_cut aliases full) full) (drop (feed_cut aliases full) full @ rest)"
proof (cases "\<exists>b. hold_start aliases full = Some b \<and> b < bracket_cut full")
  case True
  then obtain b where b: "hold_start aliases full = Some b" "b < bracket_cut full" by blast
  note h = hold_start_Some [OF b(1)]
  have words: "list_all word_char (drop b full)" by (rule starts_alias_word [OF wa h(3)])
  then have no: "CHR ''['' \<notin> set (drop b full)" "CHR '']'' \<notin> set (drop b full)"
    by (auto simp: list_all_iff)
  have "closed full"
  proof (cases rule: bracket_cut_cases [of full])
    case (pending u v)
    then show ?thesis using b(2) no(1) by (auto simp: drop_append)
  qed
  then have "closed (take b full)" using closed_prefix [of "take b full" "drop b full"] no(2) by simp
  moreover have "sep_ok m aliases (take b full) (drop b full @ rest)"
    unfolding sep_ok_def
  proof (intro disjI2 allI impI, elim conjE)
    fix u w assume w: "take b full = u @ w" "w \<noteq> []" "list_all word_char w"
    then have "word_char (last (take b full))" by (simp add: list_all_iff)
    moreover have "b > 0" using w(1,2) by (cases b) simp_all
    moreover have "last (take b full) = full ! (b - 1)"
      using h(1) \<open>b > 0\<close> by (subst last_conv_nth) auto
    ultimately have "word_char (full ! (b - 1))" by simp
    then show "lookup_word m aliases w = None \<and>
        lookup_word m aliases (w @ takeWhile word_char (drop b full @ rest)) = None \<and>
        lookup_word m aliases (takeWhile word_char (drop b full @ rest)) = None"
      using h(2) \<open>b > 0\<close> by simp
  qed
  ultimately show ?thesis using b by (simp add: feed_cut_def)
next
  case False
  then have cut: "feed_cut aliases full = bracket_cut full"
    by (auto simp: feed_cut_def split: option.splits)
  show ?thesis
  proof (cases rule: bracket_cut_cases [of full])
    case (pending u v)
    then show ?thesis
      using cut flat_closed_before [of False u v] fl by (simp add: sep_ok_def)
  next
    case clear
    have none: "hold_start aliases full = None"
      using False hold_start_Some(1) clear(2) by (cases "hold_start aliases full") auto
    have "sep_ok m aliases full rest"
      unfolding sep_ok_def
    proof (cases "takeWhile word_char rest = []", blast, intro disjI2 allI impI, elim conjE)
      fix u w assume rest: "takeWhile word_char rest \<noteq> []"
        and w: "full = u @ w" "w \<noteq> []" "list_all word_char w" "u = [] \<or> \<not> word_char (last u)"
      have st: "\<not> starts_alias aliases w" using hold_start_None none w by blast
      have "word_char (last full)" "full \<noteq> []" using w by (auto simp: list_all_iff)
      then have "lookup_word m aliases (takeWhile word_char rest) = None"
        using no_buried_after [OF nb] rest by (cases rest) auto
      moreover have "lookup_word m aliases (w @ x) = None" for x
        using st lookup_starts_alias [of m aliases w x] by blast
      from this this [of "[]"]
      show "lookup_word m aliases w = None \<and>
          lookup_word m aliases (w @ takeWhile word_char rest) = None \<and>
          lookup_word m aliases (takeWhile word_char rest) = None"
        using calculation by simp
    qed
    then show ?thesis using cut clear by simp
  qed
qed

lemma Unmask_restore:
  assumes "tokenToOriginal m \<noteq> []" and "word_aliases (bareAliasesByLength m)"
  shows "Unmask s (Some m) = restore m (bareAliasesByLength m) s"
  using assms by (simp add: Unmask_def mapping_Len_def unmask_restore isBareTokenBoundary_def)

lemma BareTokenAliases_nonempty:
  "tokenToOriginal m \<noteq> [] \<Longrightarrow> BareTokenAliases (Some m) = bareAliasesByLength m \<and> bareAliasesByLength m \<noteq> []"
proof -
  assume "tokenToOriginal m \<noteq> []"
  then obtain e es where "tokenToOriginal m = e # es" by (cases "tokenToOriginal m") auto
  then have "trim_set (fst e) ''[]'' \<in> set (bareAliasesByLength m)"
    by (simp add: bareAliasesByLength_def del: sort_key_simps)
  then show ?thesis using \<open>tokenToOriginal m \<noteq> []\<close> by (auto simp: BareTokenAliases_def mapping_Len_def)
qed

lemma feed_is_cut:
  assumes "tokenToOriginal m \<noteq> []"
  shows "feedPIIStreamBuffer buf d (Some m) =
    (drop (feed_cut (bareAliasesByLength m) (buf @ d)) (buf @ d),
     Unmask (take (feed_cut (bareAliasesByLength m) (buf @ d)) (buf @ d)) (Some m))"
  using assms BareTokenAliases_nonempty [OF assms]
  by (auto simp: feedPIIStreamBuffer_def bareAliasHoldStart_def feed_cut_def mapping_Len_def Let_def
      hold_start_def bracket_cut_def)

lemma stream_restore:
  assumes ne: "tokenToOriginal m \<noteq> []" and wa: "word_aliases (bareAliasesByLength m)"
  shows "\<lbrakk>flat False (buf @ concat ds); no_buried m (bareAliasesByLength m) None (buf @ concat ds)\<rbrakk>
    \<Longrightarrow> stream_text (Some m) buf ds = restore m (bareAliasesByLength m) (buf @ concat ds)"
proof (induction ds arbitrary: buf)
  case Nil
  then show ?case by (simp add: flushPIIStreamBuffer_def Unmask_restore [OF ne wa])
next
  case (Cons d ds)
  let ?al = "bareAliasesByLength m"
  let ?full = "buf @ d"
  let ?k = "feed_cut ?al ?full"
  have whole: "buf @ concat (d # ds) = take ?k ?full @ (drop ?k ?full @ concat ds)"
    by (simp add: take_drop_cat del: take_append drop_append)
  have "flat False ?full" using Cons.prems(1) flat_prefix [of False ?full "concat ds"] by simp
  then have ok: "closed (take ?k ?full)" "sep_ok m ?al (take ?k ?full) (drop ?k ?full @ concat ds)"
    using feed_cut_ok [OF wa, of ?full m "concat ds"] Cons.prems(2) by simp_all
  have "flat False (drop ?k ?full @ concat ds)" "no_buried m ?al None (drop ?k ?full @ concat ds)"
    using Cons.prems flat_suffix no_buried_suffix unfolding whole by blast+
  then have "stream_text (Some m) (drop ?k ?full) ds = restore m ?al (drop ?k ?full @ concat ds)"
    by (rule Cons.IH)
  then show ?case
    unfolding whole using restore_append [OF ok]
    by (simp only: stream_text.simps feed_is_cut [OF ne] Unmask_restore [OF ne wa] Let_def prod.case)
qed

lemma bareAliases_sorted: "sorted_wrt (\<lambda>a b. length b \<le> length a) (bareAliasesByLength m)"
proof -
  let ?k = "\<lambda>a :: string. (- int (length a), a)"
  have "sorted (map ?k (bareAliasesByLength m))"
    unfolding bareAliasesByLength_def by (rule sorted_sort_key)
  then show ?thesis
    unfolding sorted_map by (rule sorted_wrt_mono_rel [rotated]) auto
qed

text \<open>
  Streaming restores what the whole text would. For a mapping whose aliases are words
  and a text that opens no bracket inside another and has no alias at the end of a longer
  word, the pieces the client receives, for any way the provider cuts the text into events,
  concatenate to \<open>Unmask\<close> of the whole text.
\<close>

lemma stream_text_is_unmask:
  assumes "mapping_inv m" and "list_all (list_all word_char) (bareAliasesByLength m)"
    and "flat False (concat chunks)"
    and "no_buried m (bareAliasesByLength m) None (concat chunks)"
  shows "stream_text (Some m) [] chunks = Unmask (concat chunks) (Some m)"
proof (cases "tokenToOriginal m = []")
  case True
  have "stream_text (Some m) buf chunks = buf @ concat chunks" for buf
    using True
    by (induction chunks arbitrary: buf)
       (simp_all add: flushPIIStreamBuffer_def Unmask_def mapping_Len_def feedPIIStreamBuffer_def
          bareAliasHoldStart_def Let_def take_drop_cat del: take_append drop_append)
  then show ?thesis using True by (simp add: Unmask_def mapping_Len_def)
next
  case False
  have "word_aliases (bareAliasesByLength m)"
    using assms(2) bareAliases_sorted bare_aliases_ok [OF assms(1)]
    by (fastforce simp: word_aliases_def list_all_iff)
  then show ?thesis
    using stream_restore [OF False, of "[]" chunks] assms(3,4) Unmask_restore [OF False] by simp
qed

definition mail_mapping :: pii_mapping where
  "mail_mapping = fst (Token (fst (Token NewPIIMapping ''PERSON'' ''Bob'')) ''EMAIL_ADDRESS'' ''b@c.io'')"

lemma mail_mapping_inv: "mapping_inv mail_mapping"
  unfolding mail_mapping_def
  by (intro mapping_inv_Token mapping_inv_New) (simp_all add: type_ok_def)

text \<open>
  Both conditions are needed: after a word that the stream let go, an alias in the next
  event is restored although the whole text has it inside a longer word; and a placeholder
  behind a bracket that is opened and never closed is restored only when the event ends
  in between.
\<close>

lemma stream_restores_inside_word:
  "stream_text (Some mail_mapping) [] [''X'', ''EMAIL_1 ''] = ''Xb@c.io '' \<and>
   Unmask ''XEMAIL_1 '' (Some mail_mapping) = ''XEMAIL_1 ''"
  by code_simp

lemma stream_restores_nested:
  "stream_text (Some mail_mapping) [] [''[see ['', ''PERSON_1]''] = ''[see Bob'' \<and>
   stream_text (Some mail_mapping) [] [''[see [PERSON_1]''] = ''[see [PERSON_1]''"
  by code_simp

end
