(* ===== verification/GoJson.thy ===== *)
theory GoJson
  imports GoBase
begin

text \<open>
  Decoded JSON, as \<open>encoding/json\<close> gives it with \<open>UseNumber\<close>: numbers keep their text, an
  object is a \<open>map[string]any\<close>, here its list of entries with distinct keys (Go fixes no
  order, so nothing may depend on it). The type assertions of the code are the selectors
  below: a value of another type, or no value, gives \<open>None\<close>.
\<close>

datatype json =
    JNull
  | JBool bool
  | JNum string
  | JStr string
  | JArr "json list"
  | JObj "(string \<times> json) list"

type_synonym jobject = "(string \<times> json) list"

definition as_str :: "json option \<Rightarrow> string option" where
  "as_str v = (case v of Some (JStr s) \<Rightarrow> Some s | _ \<Rightarrow> None)"

definition as_num :: "json option \<Rightarrow> string option" where
  "as_num v = (case v of Some (JNum n) \<Rightarrow> Some n | _ \<Rightarrow> None)"

definition as_bool :: "json option \<Rightarrow> bool option" where
  "as_bool v = (case v of Some (JBool b) \<Rightarrow> Some b | _ \<Rightarrow> None)"

definition as_arr :: "json option \<Rightarrow> json list option" where
  "as_arr v = (case v of Some (JArr xs) \<Rightarrow> Some xs | _ \<Rightarrow> None)"

definition as_obj :: "json option \<Rightarrow> jobject option" where
  "as_obj v = (case v of Some (JObj o1) \<Rightarrow> Some o1 | _ \<Rightarrow> None)"

text \<open>\<open>x, _ := v.([]any)\<close> and \<open>x, _ := v.(map[string]any)\<close>: nil reads as empty.\<close>

definition arr_or_nil :: "json option \<Rightarrow> json list" where
  "arr_or_nil v = (case as_arr v of Some xs \<Rightarrow> xs | None \<Rightarrow> [])"

definition obj_or_nil :: "json option \<Rightarrow> jobject" where
  "obj_or_nil v = (case as_obj v of Some o1 \<Rightarrow> o1 | None \<Rightarrow> [])"

definition str_or_empty :: "json option \<Rightarrow> string" where
  "str_or_empty v = (case as_str v of Some s \<Rightarrow> s | None \<Rightarrow> [])"

text \<open>\<open>v != nil\<close> on a value read from a map.\<close>

definition not_nil :: "json option \<Rightarrow> bool" where
  "not_nil v = (v \<noteq> None \<and> v \<noteq> Some JNull)"

lemmas json_selectors = as_str_def as_num_def as_bool_def as_arr_def as_obj_def arr_or_nil_def
  obj_or_nil_def str_or_empty_def not_nil_def

lemma as_str_Some: "as_str v = Some s \<longleftrightarrow> v = Some (JStr s)"
  by (auto simp: as_str_def split: option.splits json.splits)

lemma as_obj_Some: "as_obj v = Some fs \<longleftrightarrow> v = Some (JObj fs)"
  by (auto simp: as_obj_def split: option.splits json.splits)

lemma as_arr_Some: "as_arr v = Some xs \<longleftrightarrow> v = Some (JArr xs)"
  by (auto simp: as_arr_def split: option.splits json.splits)

text \<open>The keys of an object do not change when an entry that is there is replaced.\<close>

lemma keys_update_present:
  "k \<in> fst ` set fs \<Longrightarrow> map fst (AList.update k v fs) = map fst fs"
  by (induction fs) auto

section \<open>Decoding into structs\<close>

text \<open>
  \<open>json.Unmarshal\<close> into a struct reads the entries of an object in order; an entry sets the
  field whose name it has, in any case. The entries here are those of the text, so a key may
  occur more than once. A decoder gives \<open>None\<close> for a value of the wrong type, which makes the
  whole call fail. A null resets a pointer field and leaves any other field as it is. (The
  two non-ASCII letters that fold to \<open>s\<close> and \<open>k\<close> are left out.)
\<close>

definition values_named :: "string \<Rightarrow> jobject \<Rightarrow> json list" where
  "values_named name obj = map snd (filter (\<lambda>e. equal_fold (fst e) name) obj)"

fun set_pointer :: "(json \<Rightarrow> 'a option) \<Rightarrow> 'a option \<Rightarrow> json list \<Rightarrow> 'a option option" where
  "set_pointer d acc [] = Some acc"
| "set_pointer d acc (v # vs) =
     (if v = JNull then set_pointer d None vs
      else case d v of None \<Rightarrow> None | Some x \<Rightarrow> set_pointer d (Some x) vs)"

fun set_value :: "(json \<Rightarrow> 'a option) \<Rightarrow> 'a \<Rightarrow> json list \<Rightarrow> 'a option" where
  "set_value d acc [] = Some acc"
| "set_value d acc (v # vs) =
     (if v = JNull then set_value d acc vs
      else case d v of None \<Rightarrow> None | Some x \<Rightarrow> set_value d x vs)"

definition pointer_field :: "(json \<Rightarrow> 'a option) \<Rightarrow> string \<Rightarrow> jobject \<Rightarrow> 'a option option" where
  "pointer_field d name obj = set_pointer d None (values_named name obj)"

definition value_field :: "(json \<Rightarrow> 'a option) \<Rightarrow> 'a \<Rightarrow> string \<Rightarrow> jobject \<Rightarrow> 'a option" where
  "value_field d zero name obj = set_value d zero (values_named name obj)"

text \<open>A \<open>json.RawMessage\<close> field keeps the last value, null included; \<open>None\<close> when absent.\<close>

definition raw_field :: "string \<Rightarrow> jobject \<Rightarrow> json option" where
  "raw_field name obj = (case rev (values_named name obj) of [] \<Rightarrow> None | v # vs \<Rightarrow> Some v)"

definition dec_str :: "json \<Rightarrow> string option" where
  "dec_str v = (case v of JStr s \<Rightarrow> Some s | _ \<Rightarrow> None)"

definition dec_bool :: "json \<Rightarrow> bool option" where
  "dec_bool v = (case v of JBool b \<Rightarrow> Some b | _ \<Rightarrow> None)"

text \<open>An integer literal in the range of \<open>int64\<close>; a fraction or an exponent is refused.\<close>

definition parse_digits :: "string \<Rightarrow> nat option" where
  "parse_digits s = (if s \<noteq> [] \<and> list_all is_digit s then Some (atoi_acc 0 s) else None)"

definition parse_int64 :: "string \<Rightarrow> int option" where
  "parse_int64 s =
     (let v = (if has_prefix s ''-'' then map_option (\<lambda>n. - int n) (parse_digits (drop 1 s))
               else map_option int (parse_digits s))
      in case v of None \<Rightarrow> None
         | Some i \<Rightarrow> if - (2 ^ 63) \<le> i \<and> i < 2 ^ 63 then Some i else None)"

definition dec_int :: "json \<Rightarrow> int option" where
  "dec_int v = (case v of JNum n \<Rightarrow> parse_int64 n | _ \<Rightarrow> None)"

text \<open>A slice: every element decoded, a null element giving the zero value.\<close>

fun dec_items :: "(json \<Rightarrow> 'a option) \<Rightarrow> 'a \<Rightarrow> json list \<Rightarrow> 'a list option" where
  "dec_items d zero [] = Some []"
| "dec_items d zero (v # vs) =
     (case (if v = JNull then Some zero else d v, dec_items d zero vs) of
        (Some x, Some xs) \<Rightarrow> Some (x # xs)
      | _ \<Rightarrow> None)"

definition dec_list :: "(json \<Rightarrow> 'a option) \<Rightarrow> 'a \<Rightarrow> json \<Rightarrow> 'a list option" where
  "dec_list d zero v = (case v of JArr vs \<Rightarrow> dec_items d zero vs | _ \<Rightarrow> None)"

definition dec_struct :: "(jobject \<Rightarrow> 'a option) \<Rightarrow> json \<Rightarrow> 'a option" where
  "dec_struct d v = (case v of JObj fs \<Rightarrow> d fs | _ \<Rightarrow> None)"

text \<open>The entries of a whole text decoded into a struct: a null changes nothing.\<close>

definition body_fields :: "json option \<Rightarrow> jobject option" where
  "body_fields raw = (case raw of Some JNull \<Rightarrow> Some [] | Some (JObj fs) \<Rightarrow> Some fs | _ \<Rightarrow> None)"

text \<open>A struct of many fields is read one field after the other, into its zero value.\<close>

definition into :: "'a option \<Rightarrow> (('a \<Rightarrow> 'a) \<Rightarrow> 'r \<Rightarrow> 'r) \<Rightarrow> 'r \<Rightarrow> 'r option" where
  "into v upd r = map_option (\<lambda>x. upd (\<lambda>_. x) r) v"

definition read_fields :: "('r \<Rightarrow> 'r option) list \<Rightarrow> 'r \<Rightarrow> 'r option" where
  "read_fields steps zero = fold (\<lambda>f acc. Option.bind acc f) steps (Some zero)"

text \<open>The entries of a nested struct: of every object of that name; a null changes nothing.\<close>

definition nested_fields :: "string \<Rightarrow> jobject \<Rightarrow> jobject option" where
  "nested_fields name fs =
     (let vs = values_named name fs
      in if list_all (\<lambda>v. v = JNull \<or> as_obj (Some v) \<noteq> None) vs
         then Some (concat (map (\<lambda>v. obj_or_nil (Some v)) vs)) else None)"

text \<open>Decoding into a \<open>map[string]any\<close>: the last entry of a key wins.\<close>

definition to_map :: "jobject \<Rightarrow> jobject" where
  "to_map obj = fold (\<lambda>e m. AList.update (fst e) (snd e) m) obj []"

lemma map_of_to_map_aux:
  "map_of (fold (\<lambda>e m. AList.update (fst e) (snd e) m) obj acc) k
    = (case map_of (rev obj) k of Some v \<Rightarrow> Some v | None \<Rightarrow> map_of acc k)"
  by (induction obj arbitrary: acc) (auto simp: update_conv' map_add_def split: option.splits)

lemma map_of_to_map: "map_of (to_map obj) k = map_of (rev obj) k"
  by (simp add: to_map_def map_of_to_map_aux split: option.splits)

text \<open>Decoding a text into \<open>any\<close>: every object becomes a map.\<close>

fun decode_any :: "json \<Rightarrow> json" where
  "decode_any (JArr vs) = JArr (map decode_any vs)"
| "decode_any (JObj fs) = JObj (to_map (map (\<lambda>(k, v). (k, decode_any v)) fs))"
| "decode_any v = v"

definition decode_map :: "jobject \<Rightarrow> jobject" where
  "decode_map fs = to_map (map (\<lambda>(k, v). (k, decode_any v)) fs)"

lemma map_of_decode_map: "map_of (decode_map fs) k = map_option decode_any (map_of (rev fs) k)"
proof -
  have "map_of (map (\<lambda>(k, v). (k, decode_any v)) es) k = map_option decode_any (map_of es k)" for es
    by (induction es) auto
  then show ?thesis by (simp add: decode_map_def map_of_to_map rev_map)
qed

lemma to_map_distinct: "distinct (map fst (to_map obj))"
proof -
  have "distinct (map fst (fold (\<lambda>e m. AList.update (fst e) (snd e) m) es acc))" if "distinct (map fst acc)"
    for es :: jobject and acc
    using that by (induction es arbitrary: acc) (auto intro: distinct_update)
  then show ?thesis by (simp add: to_map_def)
qed

lemma decode_map_distinct: "distinct (map fst (decode_map fs))"
  by (simp add: decode_map_def to_map_distinct)

lemma map_of_rev_distinct: "distinct (map fst xs) \<Longrightarrow> map_of (rev xs) k = map_of xs k"
proof -
  assume "distinct (map fst xs)"
  then have "distinct (map fst (rev xs))" "distinct (map fst xs)"
    by (simp_all flip: rev_map)
  then have "map_of (rev xs) = map_of xs" by (subst map_of_inject_set) simp_all
  then show ?thesis by simp
qed

text \<open>A tree with its strings replaced.\<close>

fun map_strings :: "(string \<Rightarrow> string) \<Rightarrow> json \<Rightarrow> json" where
  "map_strings f (JStr s) = JStr (f s)"
| "map_strings f (JArr vs) = JArr (map (map_strings f) vs)"
| "map_strings f (JObj fs) = JObj (map (\<lambda>(k, v). (k, map_strings f v)) fs)"
| "map_strings f v = v"

text \<open>Numbers as the code writes them: \<open>limit\<close> of type \<open>int\<close>.\<close>

lemma parse_digits_itoa: "parse_digits (itoa n) = Some n"
  using itoa_digits by (auto simp: parse_digits_def list_all_iff atoi_acc_itoa)

lemma itoa_no_minus: "\<not> has_prefix (itoa n) ''-''"
proof
  assume "has_prefix (itoa n) ''-''"
  then obtain s where "itoa n = CHR ''-'' # s" by (cases "itoa n") (auto simp: has_prefix_def)
  then have "is_digit CHR ''-''" using itoa_digits [of "CHR ''-''" n] by simp
  then show False by (simp add: is_digit_def)
qed

lemma parse_int64_itoa: "- (2 ^ 63) \<le> i \<Longrightarrow> i < 2 ^ 63 \<Longrightarrow> parse_int64 (itoa_int i) = Some i"
proof -
  assume "- (2 ^ 63) \<le> i" and "i < 2 ^ 63"
  moreover have "take (Suc 0) (itoa n) \<noteq> ''-''" for n
    using itoa_no_minus [of n] by (simp add: has_prefix_def)
  ultimately show ?thesis
    by (simp add: parse_int64_def itoa_int_def has_prefix_def parse_digits_itoa Let_def)
qed

end
