(* ===== verification/PiiBody.thy ===== *)
theory PiiBody
  imports PiiStream GoJson
begin

text \<open>
  Masking of request bodies (\<open>maskBody\<close> and \<open>requestPIIMasker\<close> of
  \<open>application/services/pii.go\<close>). The analyzer is the PII service, a parameter: it gives
  the entities of a text or an error. The JSON codec is a parameter too: \<open>dec\<close> decodes a
  text that is exactly one JSON value, \<open>enc\<close> encodes one.
\<close>

type_synonym analyzer = "string \<Rightarrow> string \<Rightarrow> go_error + pii_entity list"

record masker =
  mk_mapping :: pii_mapping
  mk_cache :: "(string \<times> string) list"
  mk_entityCounts :: "(string \<times> nat) list"
  mk_surfaceCounts :: "(string \<times> nat) list"

definition new_masker :: masker where
  "new_masker = \<lparr>mk_mapping = NewPIIMapping, mk_cache = [], mk_entityCounts = [], mk_surfaceCounts = []\<rparr>"

definition count_up :: "string \<Rightarrow> (string \<times> nat) list \<Rightarrow> (string \<times> nat) list" where
  "count_up k cs = AList.update k ((case map_of cs k of None \<Rightarrow> 0 | Some n \<Rightarrow> n) + 1) cs"

definition trackEntities :: "string \<Rightarrow> pii_entity list \<Rightarrow> masker \<Rightarrow> masker" where
  "trackEntities surface es mk =
     fold (\<lambda>e mk. mk\<lparr>mk_entityCounts := count_up (ent_Type e) (mk_entityCounts mk),
                     mk_surfaceCounts := (if surface \<noteq> [] then count_up surface (mk_surfaceCounts mk)
                                          else mk_surfaceCounts mk)\<rparr>) es mk"

definition maskText :: "analyzer \<Rightarrow> string \<Rightarrow> string \<Rightarrow> string \<Rightarrow> masker \<Rightarrow> go_error + (string \<times> masker)" where
  "maskText an mode surface txt mk =
     (if txt = [] then Inr (txt, mk)
      else case map_of (mk_cache mk) txt of
             Some masked \<Rightarrow> Inr (masked, mk)
           | None \<Rightarrow>
               (case an mode txt of
                  Inl e \<Rightarrow> Inl e
                | Inr es \<Rightarrow>
                    (let mk1 = trackEntities surface es mk;
                         (p, masked) = ApplyMask txt es (Some (mk_mapping mk1))
                     in Inr (masked, mk1\<lparr>mk_mapping := the p,
                                         mk_cache := AList.update txt masked (mk_cache mk1)\<rparr>))))"

fun maskAny :: "analyzer \<Rightarrow> string \<Rightarrow> string \<Rightarrow> json \<Rightarrow> masker \<Rightarrow> go_error + (json \<times> bool \<times> masker)"
  and maskItems :: "analyzer \<Rightarrow> string \<Rightarrow> string \<Rightarrow> json list \<Rightarrow> masker
    \<Rightarrow> go_error + (json list \<times> bool \<times> masker)"
  and maskEntries :: "analyzer \<Rightarrow> string \<Rightarrow> string \<Rightarrow> jobject \<Rightarrow> masker
    \<Rightarrow> go_error + (jobject \<times> bool \<times> masker)" where
  "maskAny an mode surface (JStr s) mk =
     (case maskText an mode surface s mk of
        Inl e \<Rightarrow> Inl e
      | Inr (masked, mk') \<Rightarrow> Inr (JStr masked, masked \<noteq> s, mk'))"
| "maskAny an mode surface (JArr vs) mk =
     (case maskItems an mode surface vs mk of
        Inl e \<Rightarrow> Inl e
      | Inr (out, changed, mk') \<Rightarrow> Inr (JArr out, changed, mk'))"
| "maskAny an mode surface (JObj fs) mk =
     (case maskEntries an mode surface fs mk of
        Inl e \<Rightarrow> Inl e
      | Inr (out, changed, mk') \<Rightarrow> Inr (JObj out, changed, mk'))"
| "maskAny an mode surface v mk = Inr (v, False, mk)"
| "maskItems an mode surface [] mk = Inr ([], False, mk)"
| "maskItems an mode surface (v # vs) mk =
     (case maskAny an mode surface v mk of
        Inl e \<Rightarrow> Inl e
      | Inr (masked, c, mk1) \<Rightarrow>
          (case maskItems an mode surface vs mk1 of
             Inl e \<Rightarrow> Inl e
           | Inr (out, changed, mk2) \<Rightarrow> Inr (masked # out, c \<or> changed, mk2)))"
| "maskEntries an mode surface [] mk = Inr ([], False, mk)"
| "maskEntries an mode surface ((k, v) # fs) mk =
     (case maskAny an mode surface v mk of
        Inl e \<Rightarrow> Inl e
      | Inr (masked, c, mk1) \<Rightarrow>
          (case maskEntries an mode surface fs mk1 of
             Inl e \<Rightarrow> Inl e
           | Inr (out, changed, mk2) \<Rightarrow> Inr ((k, masked) # out, c \<or> changed, mk2)))"

definition maskJSONAwareString :: "(string \<Rightarrow> json option) \<Rightarrow> (json \<Rightarrow> string) \<Rightarrow> analyzer \<Rightarrow> string
    \<Rightarrow> string \<Rightarrow> string \<Rightarrow> masker \<Rightarrow> go_error + (string \<times> masker)" where
  "maskJSONAwareString dec enc an mode surface raw mk =
     (if raw = [] then Inr (raw, mk)
      else case dec raw of
             None \<Rightarrow> maskText an mode surface raw mk
           | Some v \<Rightarrow>
               (case maskAny an mode surface v mk of
                  Inl e \<Rightarrow> Inl e
                | Inr (masked, changed, mk') \<Rightarrow> Inr (if changed then enc masked else raw, mk')))"

text \<open>\<open>if s, ok := obj[key].(string); ok\<close> with the masked text stored back.\<close>

definition mask_field :: "(string \<Rightarrow> masker \<Rightarrow> go_error + (string \<times> masker)) \<Rightarrow> string \<Rightarrow> jobject
    \<Rightarrow> masker \<Rightarrow> go_error + (jobject \<times> masker)" where
  "mask_field f key obj mk =
     (case as_str (map_of obj key) of
        None \<Rightarrow> Inr (obj, mk)
      | Some s \<Rightarrow>
          (case f s mk of
             Inl e \<Rightarrow> Inl e
           | Inr (masked, mk') \<Rightarrow> Inr (AList.update key (JStr masked) obj, mk')))"

text \<open>A loop over a list of values that threads the masker and stops at the first error.\<close>

fun mask_each :: "(json \<Rightarrow> masker \<Rightarrow> go_error + (json \<times> masker)) \<Rightarrow> json list \<Rightarrow> masker
    \<Rightarrow> go_error + (json list \<times> masker)" where
  "mask_each f [] mk = Inr ([], mk)"
| "mask_each f (v # vs) mk =
     (case f v mk of
        Inl e \<Rightarrow> Inl e
      | Inr (v', mk1) \<Rightarrow>
          (case mask_each f vs mk1 of
             Inl e \<Rightarrow> Inl e
           | Inr (vs', mk2) \<Rightarrow> Inr (v' # vs', mk2)))"

section \<open>Bodies of the chat protocol\<close>

text \<open>The \<open>text\<close> of a content part; anything that is not an object is left alone.\<close>

definition mask_part :: "(string \<Rightarrow> masker \<Rightarrow> go_error + (string \<times> masker)) \<Rightarrow> json \<Rightarrow> masker
    \<Rightarrow> go_error + (json \<times> masker)" where
  "mask_part f p mk =
     (case p of
        JObj part \<Rightarrow> (case mask_field f ''text'' part mk of
                        Inl e \<Rightarrow> Inl e | Inr (part', mk') \<Rightarrow> Inr (JObj part', mk'))
      | _ \<Rightarrow> Inr (p, mk))"

definition mask_content :: "(string \<Rightarrow> masker \<Rightarrow> go_error + (string \<times> masker)) \<Rightarrow> jobject \<Rightarrow> masker
    \<Rightarrow> go_error + (jobject \<times> masker)" where
  "mask_content f msg mk =
     (case map_of msg ''content'' of
        Some (JStr s) \<Rightarrow> mask_field f ''content'' msg mk
      | Some (JArr parts) \<Rightarrow>
          (case mask_each (mask_part f) parts mk of
             Inl e \<Rightarrow> Inl e
           | Inr (parts', mk') \<Rightarrow> Inr (AList.update ''content'' (JArr parts') msg, mk'))
      | _ \<Rightarrow> Inr (msg, mk))"

text \<open>
  The arguments of a tool call. A call without a \<open>function\<close> object has nothing to mask:
  the code then reads from nil maps, which have no entries.
\<close>

definition mask_call :: "(string \<Rightarrow> masker \<Rightarrow> go_error + (string \<times> masker)) \<Rightarrow> json \<Rightarrow> masker
    \<Rightarrow> go_error + (json \<times> masker)" where
  "mask_call f c mk =
     (case c of
        JObj call \<Rightarrow>
          (case as_obj (map_of call ''function'') of
             None \<Rightarrow> Inr (c, mk)
           | Some fn \<Rightarrow>
               (case mask_field f ''arguments'' fn mk of
                  Inl e \<Rightarrow> Inl e
                | Inr (fn', mk') \<Rightarrow> Inr (JObj (AList.update ''function'' (JObj fn') call), mk')))
      | _ \<Rightarrow> Inr (c, mk))"

definition mask_calls :: "(string \<Rightarrow> masker \<Rightarrow> go_error + (string \<times> masker)) \<Rightarrow> jobject \<Rightarrow> masker
    \<Rightarrow> go_error + (jobject \<times> masker)" where
  "mask_calls f msg mk =
     (case as_arr (map_of msg ''tool_calls'') of
        None \<Rightarrow> Inr (msg, mk)
      | Some calls \<Rightarrow>
          (case mask_each (mask_call f) calls mk of
             Inl e \<Rightarrow> Inl e
           | Inr (calls', mk') \<Rightarrow> Inr (AList.update ''tool_calls'' (JArr calls') msg, mk')))"

definition bind_mask :: "go_error + ('a \<times> masker) \<Rightarrow> ('a \<Rightarrow> masker \<Rightarrow> go_error + ('b \<times> masker))
    \<Rightarrow> go_error + ('b \<times> masker)" where
  "bind_mask r k = (case r of Inl e \<Rightarrow> Inl e | Inr (a, mk) \<Rightarrow> k a mk)"

definition mask_message :: "(string \<Rightarrow> json option) \<Rightarrow> (json \<Rightarrow> string) \<Rightarrow> analyzer \<Rightarrow> string \<Rightarrow> json
    \<Rightarrow> masker \<Rightarrow> go_error + (json \<times> masker)" where
  "mask_message dec enc an mode item mk =
     (case item of
        JObj msg \<Rightarrow>
          (let f = (if as_str (map_of msg ''role'') = Some ''tool''
                    then maskJSONAwareString dec enc an mode ''tool_result_content''
                    else maskText an mode ''message_content'');
               reasoning = maskText an mode ''assistant_reasoning_content'';
               args = maskJSONAwareString dec enc an mode ''assistant_tool_call_arguments''
           in bind_mask (bind_mask (bind_mask (bind_mask (mask_content f msg mk)
                (mask_field reasoning ''reasoning_content''))
                (mask_field reasoning ''reasoning''))
                (mask_calls args))
                (\<lambda>msg' mk'. Inr (JObj msg', mk')))
      | _ \<Rightarrow> Inr (item, mk))"

definition mask_chat :: "(string \<Rightarrow> json option) \<Rightarrow> (json \<Rightarrow> string) \<Rightarrow> analyzer \<Rightarrow> string \<Rightarrow> jobject
    \<Rightarrow> masker \<Rightarrow> go_error + (jobject \<times> masker)" where
  "mask_chat dec enc an mode body mk =
     bind_mask (mask_field (maskText an mode ''user'') ''user'' body mk)
       (\<lambda>body mk. case as_arr (map_of body ''messages'') of
          None \<Rightarrow> Inr (body, mk)
        | Some messages \<Rightarrow>
            bind_mask (mask_each (mask_message dec enc an mode) messages mk)
              (\<lambda>ms mk'. Inr (AList.update ''messages'' (JArr ms) body, mk')))"

section \<open>Bodies of the SystemOne protocol\<close>

definition mask_value_field :: "analyzer \<Rightarrow> string \<Rightarrow> string \<Rightarrow> jobject \<Rightarrow> masker
    \<Rightarrow> go_error + (jobject \<times> masker)" where
  "mask_value_field an mode field obj mk =
     (case map_of obj field of
        None \<Rightarrow> Inr (obj, mk)
      | Some v \<Rightarrow>
          (case maskAny an mode field v mk of
             Inl e \<Rightarrow> Inl e
           | Inr (masked, c, mk') \<Rightarrow> Inr (AList.update field masked obj, mk')))"

definition mask_question :: "analyzer \<Rightarrow> string \<Rightarrow> json \<Rightarrow> masker \<Rightarrow> go_error + (json \<times> masker)" where
  "mask_question an mode item mk =
     (case item of
        JObj q \<Rightarrow>
          bind_mask (bind_mask (mask_value_field an mode ''instructions'' q mk)
            (mask_value_field an mode ''criteria''))
            (\<lambda>q' mk'. Inr (JObj q', mk'))
      | _ \<Rightarrow> Inr (item, mk))"

text \<open>\<open>body["state"]\<close> is stored back even when it is absent, as JSON null.\<close>

definition mask_systemone :: "analyzer \<Rightarrow> string \<Rightarrow> jobject \<Rightarrow> masker \<Rightarrow> go_error + (jobject \<times> masker)" where
  "mask_systemone an mode body mk =
     (case maskAny an mode ''state'' (case map_of body ''state'' of Some v \<Rightarrow> v | None \<Rightarrow> JNull) mk of
        Inl e \<Rightarrow> Inl e
      | Inr (masked, c, mk1) \<Rightarrow>
          (let body1 = AList.update ''state'' masked body
           in case as_obj (map_of body1 ''questions'') of
                None \<Rightarrow> Inr (body1, mk1)
              | Some qs \<Rightarrow>
                  (case mask_each (mask_question an mode) (map snd qs) mk1 of
                     Inl e \<Rightarrow> Inl e
                   | Inr (qs', mk2) \<Rightarrow>
                       Inr (AList.update ''questions'' (JObj (zip (map fst qs) qs')) body1, mk2))))"

definition masker_maskBody :: "(string \<Rightarrow> json option) \<Rightarrow> (json \<Rightarrow> string) \<Rightarrow> analyzer \<Rightarrow> string
    \<Rightarrow> string \<Rightarrow> jobject \<Rightarrow> masker \<Rightarrow> go_error + (jobject \<times> masker)" where
  "masker_maskBody dec enc an mode endpoint body mk =
     (if endpoint = EndpointSystemOne then mask_systemone an mode body mk
      else mask_chat dec enc an mode body mk)"

section \<open>The service\<close>

abbreviation CausePIIFilterTimeout :: string where "CausePIIFilterTimeout \<equiv> ''pii_filter_timeout''"
abbreviation CausePIIFilterFailed :: string where "CausePIIFilterFailed \<equiv> ''pii_filter_failed''"

fun net_timeout :: "go_error \<Rightarrow> bool" where
  "net_timeout (NetErr msg t) = t"
| "net_timeout CtxDeadline = True"
| "net_timeout (RetryableErr e) = net_timeout e"
| "net_timeout (WrapErr p e) = net_timeout e"
| "net_timeout _ = False"

definition piiFailureCause :: "go_error \<Rightarrow> string" where
  "piiFailureCause err =
     (if is_err CtxDeadline err \<or> net_timeout err then CausePIIFilterTimeout else CausePIIFilterFailed)"

text \<open>
  What \<open>maskBody\<close> reads of the service and the request: whether a filter is set and
  enabled, whether it fails open, and whether the client has left by the time of an error.
\<close>

record pii_env =
  pii_on :: bool
  pii_fail_open :: bool
  pii_client_left :: bool

definition maskBody :: "pii_env \<Rightarrow> (string \<Rightarrow> jobject option) \<Rightarrow> (string \<Rightarrow> json option)
    \<Rightarrow> (json \<Rightarrow> string) \<Rightarrow> analyzer \<Rightarrow> string \<Rightarrow> string \<Rightarrow> string
    \<Rightarrow> go_error + (string \<times> pii_mapping option)" where
  "maskBody env decodeObject dec enc an raw piiMode endpoint =
     (let (mode, ok) = NormalizeAPIKeyPIIMode piiMode
      in if \<not> ok \<or> mode = APIKeyPIIModeOff \<or> \<not> pii_on env then Inr (raw, None)
         else case decodeObject raw of
                None \<Rightarrow> Inr (raw, None)
              | Some body \<Rightarrow>
                  (case masker_maskBody dec enc an mode endpoint body new_masker of
                     Inl err \<Rightarrow>
                       (if pii_client_left env then Inl (GwErr ErrClientCanceled)
                        else if pii_fail_open env then Inr (raw, None)
                        else Inl (GwErr (WithMeta (ErrInternal ''an internal error occurred'')
                               [MStr ''dependency'', MStr ''pii'', MStr ''cause'',
                                MStr (piiFailureCause err)])))
                   | Inr (body', mk) \<Rightarrow>
                       (if tokenToOriginal (mk_mapping mk) = [] then Inr (raw, None)
                        else Inr (enc (JObj body'), Some (mk_mapping mk)))))"

section \<open>Masked trees can be restored\<close>

definition extends :: "pii_mapping \<Rightarrow> pii_mapping \<Rightarrow> bool" where
  "extends m m' = (\<exists>later. (\<forall>r \<in> set later. type_ok (fst r)) \<and> m' = fst (run_tokens Token m later))"

lemma run_tokens_append:
  "fst (run_tokens tok m (xs @ ys)) = fst (run_tokens tok (fst (run_tokens tok m xs)) ys)"
  by (induction xs arbitrary: m) (simp_all add: case_prod_unfold Let_def)

lemma extends_refl: "extends m m"
  unfolding extends_def by (rule exI [of _ "[]"]) simp

lemma extends_trans: "extends a b \<Longrightarrow> extends b c \<Longrightarrow> extends a c"
  unfolding extends_def by (metis (no_types, lifting) Un_iff run_tokens_append set_append)

lemma extends_inv: "extends m m' \<Longrightarrow> mapping_inv m \<Longrightarrow> mapping_inv m'"
  unfolding extends_def using pm.run_inv by blast

lemma ApplyMask_extends:
  assumes "ApplyMask txt es (Some m) = (Some m', out)" and "\<forall>e \<in> set es. type_ok (ent_Type e)"
  shows "extends m m'"
  using assms span_reqs_ok [OF assms(2), of "txt"] by (auto simp: extends_def ApplyMask_run)

text \<open>\<open>out\<close> is what masking gave for \<open>txt\<close> at some point before the mapping became \<open>m\<close>.\<close>

definition masks_to :: "analyzer \<Rightarrow> string \<Rightarrow> pii_mapping \<Rightarrow> string \<Rightarrow> string \<Rightarrow> bool" where
  "masks_to an mode m txt out =
     (txt = [] \<and> out = [] \<or>
      (\<exists>es m0 m1. an mode txt = Inr es \<and> mapping_inv m0 \<and>
         ApplyMask txt es (Some m0) = (Some m1, out) \<and> extends m1 m))"

definition analyzer_ok :: "analyzer \<Rightarrow> string \<Rightarrow> bool" where
  "analyzer_ok an mode = (\<forall>txt es. an mode txt = Inr es \<longrightarrow> (\<forall>e \<in> set es. type_ok (ent_Type e)))"

definition masker_inv :: "analyzer \<Rightarrow> string \<Rightarrow> masker \<Rightarrow> bool" where
  "masker_inv an mode mk =
     (mapping_inv (mk_mapping mk) \<and>
      (\<forall>txt out. map_of (mk_cache mk) txt = Some out \<longrightarrow> masks_to an mode (mk_mapping mk) txt out))"

lemma masks_to_extends: "masks_to an mode m txt out \<Longrightarrow> extends m m' \<Longrightarrow> masks_to an mode m' txt out"
  unfolding masks_to_def using extends_trans by blast

lemma masker_inv_new: "masker_inv an mode new_masker"
  by (simp add: masker_inv_def new_masker_def mapping_inv_New)

lemma trackEntities_other [simp]:
  "mk_mapping (trackEntities surface es mk) = mk_mapping mk"
  "mk_cache (trackEntities surface es mk) = mk_cache mk"
  by (induction es arbitrary: mk) (simp_all add: trackEntities_def)

lemma maskText_step:
  assumes ok: "analyzer_ok an mode" and inv: "masker_inv an mode mk"
    and run: "maskText an mode surface txt mk = Inr (out, mk')"
  shows "masker_inv an mode mk' \<and> extends (mk_mapping mk) (mk_mapping mk') \<and>
    masks_to an mode (mk_mapping mk') txt out"
proof (cases "txt = [] \<or> map_of (mk_cache mk) txt \<noteq> None")
  case True
  then show ?thesis
    using run inv extends_refl
    by (auto simp: maskText_def masker_inv_def masks_to_def split: if_splits option.splits)
next
  case False
  then obtain es where es: "an mode txt = Inr es"
    using run by (auto simp: maskText_def split: sum.splits)
  obtain m1 where app: "ApplyMask txt es (Some (mk_mapping mk)) = (Some m1, out)"
    and mk': "mk_mapping mk' = m1" "mk_cache mk' = AList.update txt out (mk_cache mk)"
    using run False es by (auto simp: maskText_def Let_def ApplyMask_run)
  have ext: "extends (mk_mapping mk) m1"
    using ApplyMask_extends [OF app] ok es by (simp add: analyzer_ok_def)
  have inv0: "mapping_inv (mk_mapping mk)" using inv by (simp add: masker_inv_def)
  have new: "masks_to an mode m1 txt out"
    unfolding masks_to_def using es inv0 app extends_refl by blast
  have "masker_inv an mode mk'"
    using inv masks_to_extends [OF _ ext] new extends_inv [OF ext inv0]
    by (auto simp: masker_inv_def mk' update_conv')
  then show ?thesis using ext new mk' by simp
qed

text \<open>Two trees of one shape whose strings are related.\<close>

fun tree_rel :: "(string \<Rightarrow> string \<Rightarrow> bool) \<Rightarrow> json \<Rightarrow> json \<Rightarrow> bool"
  and items_rel :: "(string \<Rightarrow> string \<Rightarrow> bool) \<Rightarrow> json list \<Rightarrow> json list \<Rightarrow> bool"
  and entries_rel :: "(string \<Rightarrow> string \<Rightarrow> bool) \<Rightarrow> jobject \<Rightarrow> jobject \<Rightarrow> bool" where
  "tree_rel P (JStr s) w = (\<exists>t. w = JStr t \<and> P s t)"
| "tree_rel P (JArr vs) w = (\<exists>ws. w = JArr ws \<and> items_rel P vs ws)"
| "tree_rel P (JObj fs) w = (\<exists>gs. w = JObj gs \<and> entries_rel P fs gs)"
| "tree_rel P v w = (v = w)"
| "items_rel P [] ws = (ws = [])"
| "items_rel P (v # vs) ws = (\<exists>w ws'. ws = w # ws' \<and> tree_rel P v w \<and> items_rel P vs ws')"
| "entries_rel P [] gs = (gs = [])"
| "entries_rel P ((k, v) # fs) gs = (\<exists>w gs'. gs = (k, w) # gs' \<and> tree_rel P v w \<and> entries_rel P fs gs')"

lemma tree_rel_mono:
  "(\<And>s t. P s t \<Longrightarrow> Q s t) \<Longrightarrow> tree_rel P v w \<Longrightarrow> tree_rel Q v w"
  "(\<And>s t. P s t \<Longrightarrow> Q s t) \<Longrightarrow> items_rel P vs ws \<Longrightarrow> items_rel Q vs ws"
  "(\<And>s t. P s t \<Longrightarrow> Q s t) \<Longrightarrow> entries_rel P fs gs \<Longrightarrow> entries_rel Q fs gs"
  by (induction P v w and P vs ws and P fs gs rule: tree_rel_items_rel_entries_rel.induct) auto

lemma tree_rel_extends:
  "tree_rel (masks_to an mode m) v w \<Longrightarrow> extends m m' \<Longrightarrow> tree_rel (masks_to an mode m') v w"
  using tree_rel_mono(1) [of "masks_to an mode m" "masks_to an mode m'" v w] masks_to_extends by blast

lemma maskAny_step:
  "\<lbrakk>analyzer_ok an mode; masker_inv an mode mk; maskAny an mode surface v mk = Inr (w, c, mk')\<rbrakk> \<Longrightarrow>
    masker_inv an mode mk' \<and> extends (mk_mapping mk) (mk_mapping mk') \<and>
    tree_rel (masks_to an mode (mk_mapping mk')) v w"
  "\<lbrakk>analyzer_ok an mode; masker_inv an mode mk; maskItems an mode surface vs mk = Inr (ws, c, mk')\<rbrakk> \<Longrightarrow>
    masker_inv an mode mk' \<and> extends (mk_mapping mk) (mk_mapping mk') \<and>
    items_rel (masks_to an mode (mk_mapping mk')) vs ws"
  "\<lbrakk>analyzer_ok an mode; masker_inv an mode mk; maskEntries an mode surface fs mk = Inr (gs, c, mk')\<rbrakk> \<Longrightarrow>
    masker_inv an mode mk' \<and> extends (mk_mapping mk) (mk_mapping mk') \<and>
    entries_rel (masks_to an mode (mk_mapping mk')) fs gs"
proof (induction an mode surface v mk and an mode surface vs mk and an mode surface fs mk
    arbitrary: w c mk' and ws c mk' and gs c mk'
    rule: maskAny_maskItems_maskEntries.induct)
  case (1 an mode surface s mk)
  from 1(3) obtain t where "maskText an mode surface s mk = Inr (t, mk')" "w = JStr t"
    by (auto split: sum.splits)
  then show ?case using maskText_step [OF 1(1,2)] by simp
next
  case (6 an mode surface v vs mk)
  from 6(5) obtain w1 c1 mk1 ws1 c2 where v: "maskAny an mode surface v mk = Inr (w1, c1, mk1)"
    and vs: "maskItems an mode surface vs mk1 = Inr (ws1, c2, mk')" and ws: "ws = w1 # ws1"
    by (auto split: sum.splits prod.splits)
  note 1 = 6(1) [OF 6(3,4) v]
  then have inv1: "masker_inv an mode mk1" by blast
  note 2 = 6(2) [OF v refl refl 6(3) inv1 vs]
  have "tree_rel (masks_to an mode (mk_mapping mk')) v w1"
    using tree_rel_extends 1 2 by blast
  then show ?case using 1 2 ws extends_trans by auto
next
  case (8 an mode surface k v fs mk)
  from 8(5) obtain w1 c1 mk1 gs1 c2 where v: "maskAny an mode surface v mk = Inr (w1, c1, mk1)"
    and fs: "maskEntries an mode surface fs mk1 = Inr (gs1, c2, mk')" and gs: "gs = (k, w1) # gs1"
    by (auto split: sum.splits prod.splits)
  note 1 = 8(1) [OF 8(3,4) v]
  then have inv1: "masker_inv an mode mk1" by blast
  note 2 = 8(2) [OF v refl refl 8(3) inv1 fs]
  have "tree_rel (masks_to an mode (mk_mapping mk')) v w1"
    using tree_rel_extends 1 2 by blast
  then show ?case using 1 2 gs extends_trans by auto
qed (auto simp: extends_refl split: sum.splits prod.splits)

text \<open>Restoring every string of a tree, and the condition under which that undoes masking.\<close>

definition text_quiet :: "analyzer \<Rightarrow> string \<Rightarrow> string list \<Rightarrow> string \<Rightarrow> bool" where
  "text_quiet an mode aliases s =
     (case an mode s of
        Inl e \<Rightarrow> True
      | Inr es \<Rightarrow> list_all (quiet aliases) (gaps s 0 (kept_spans s es)))"

fun tree_all :: "(string \<Rightarrow> bool) \<Rightarrow> json \<Rightarrow> bool" where
  "tree_all P (JStr s) = P s"
| "tree_all P (JArr vs) = list_all (tree_all P) vs"
| "tree_all P (JObj fs) = list_all (\<lambda>(k, v). tree_all P v) fs"
| "tree_all P v = True"

lemma Unmask_masks_to:
  assumes ok: "analyzer_ok an mode" and m: "masks_to an mode m s t" and q: "text_quiet an mode (bareAliasesByLength m) s"
  shows "Unmask t (Some m) = s"
proof (cases "s = [] \<and> t = []")
  case False
  then obtain es m0 m1 where an: "an mode s = Inr es" and inv: "mapping_inv m0"
    and app: "ApplyMask s es (Some m0) = (Some m1, t)" and ext: "extends m1 m"
    using m by (auto simp: masks_to_def)
  obtain later where l: "\<forall>r \<in> set later. type_ok (fst r)" "m = fst (run_tokens Token m1 later)"
    using ext by (auto simp: extends_def)
  have loop: "unmask_loop m (bareAliasesByLength m) None t = s"
    unfolding l(2)
    by (rule unmask_masked [OF inv _ app l(1)])
       (use ok an q l(2) in \<open>auto simp: analyzer_ok_def text_quiet_def list_all_iff\<close>)
  have "mapping_inv m" unfolding l(2)
    by (rule mapping_inv_later [OF inv _ app l(1)]) (use ok an in \<open>auto simp: analyzer_ok_def\<close>)
  then show ?thesis
    using loop unmask_loop_unknown [of m] by (auto simp: Unmask_def mapping_Len_def Original_empty)
qed (simp add: Unmask_def)

lemma tree_restored:
  assumes P: "\<And>s t. P s t \<Longrightarrow> Q s \<Longrightarrow> f t = s"
  shows "tree_rel P v w \<Longrightarrow> tree_all Q v \<Longrightarrow> map_strings f w = v"
    and "items_rel P vs ws \<Longrightarrow> list_all (tree_all Q) vs \<Longrightarrow> map (map_strings f) ws = vs"
    and "entries_rel P fs gs \<Longrightarrow> list_all (\<lambda>(k, v). tree_all Q v) fs
      \<Longrightarrow> map (\<lambda>(k, v). (k, map_strings f v)) gs = fs"
  using P by (induction P v w and P vs ws and P fs gs rule: tree_rel_items_rel_entries_rel.induct) auto

text \<open>
  Masking a JSON tree is undone by restoring its strings. The tree that \<open>maskAny\<close> gives
  for the \<open>state\<close>, instructions and criteria of a SystemOne body and for the JSON arguments
  and results of tools has the shape and the keys of the original, and with the mapping
  the request ends with (\<open>extends\<close>) every string is restored, under the conditions of the
  text round trip for each string. Repeated texts come from the cache.
\<close>

theorem maskAny_roundtrip:
  assumes "analyzer_ok an mode" and "masker_inv an mode mk"
    and "maskAny an mode surface v mk = Inr (w, c, mk')" and "extends (mk_mapping mk') m"
    and "tree_all (text_quiet an mode (bareAliasesByLength m)) v"
  shows "map_strings (\<lambda>t. Unmask t (Some m)) w = v"
proof -
  have "tree_rel (masks_to an mode (mk_mapping mk')) v w"
    using maskAny_step(1) [OF assms(1-3)] by blast
  then have "tree_rel (masks_to an mode m) v w"
    using assms(4) by (rule tree_rel_extends)
  then show ?thesis
    using tree_restored(1) [of "masks_to an mode m" "text_quiet an mode (bareAliasesByLength m)"
        "\<lambda>t. Unmask t (Some m)" v w] Unmask_masks_to [OF assms(1)] assms(5) by blast
qed

definition toy_analyzer :: analyzer where
  "toy_analyzer mode s =
     (if s = ''Bob'' then Inr [\<lparr>ent_Type = ''PERSON'', ent_Start = 0, ent_End = 3, ent_Score = 0\<rparr>]
      else Inr [])"

lemma toy_analyzer_ok: "analyzer_ok toy_analyzer mode"
  by (auto simp: analyzer_ok_def toy_analyzer_def type_ok_def)

definition toy_tree :: json where
  "toy_tree = JObj [(''a'', JStr ''Bob''), (''b'', JArr [JStr ''hi'', JNum ''1''])]"

theorem maskAny_roundtrip_witness:
  "\<exists>w mk'. maskAny toy_analyzer ''low'' ''state'' toy_tree new_masker = Inr (w, True, mk') \<and>
     w = JObj [(''a'', JStr ''[PERSON_1]''), (''b'', JArr [JStr ''hi'', JNum ''1''])] \<and>
     map_strings (\<lambda>t. Unmask t (Some (mk_mapping mk'))) w = toy_tree"
proof -
  let ?r = "maskAny toy_analyzer ''low'' ''state'' toy_tree new_masker"
  let ?w = "JObj [(''a'', JStr ''[PERSON_1]''), (''b'', JArr [JStr ''hi'', JNum ''1''])]"
  let ?mk = "(case ?r of Inl e \<Rightarrow> new_masker | Inr (w, c, mk') \<Rightarrow> mk')"
  have 1: "(case ?r of Inl e \<Rightarrow> False | Inr (w, c, mk') \<Rightarrow> w = ?w \<and> c)" by code_simp
  then have 2: "?r = Inr (?w, True, ?mk)" by (auto split: sum.splits)
  have 3: "tree_all (text_quiet toy_analyzer ''low'' (bareAliasesByLength (mk_mapping ?mk))) toy_tree"
    by code_simp
  show ?thesis
    using 2 maskAny_roundtrip [OF toy_analyzer_ok masker_inv_new 2 extends_refl 3] by blast
qed


definition broken_analyzer :: analyzer where
  "broken_analyzer mode s = Inl CtxDeadline"


section \<open>Which fields of a chat body change\<close>

definition good_step :: "analyzer \<Rightarrow> string \<Rightarrow> masker \<Rightarrow> masker \<Rightarrow> bool" where
  "good_step an mode mk mk' = (masker_inv an mode mk' \<and> extends (mk_mapping mk) (mk_mapping mk'))"

text \<open>\<open>f\<close> keeps the masker's invariant and relates input and output by \<open>R\<close>.\<close>

definition masks_ok :: "analyzer \<Rightarrow> string \<Rightarrow> ('a \<Rightarrow> masker \<Rightarrow> go_error + ('b \<times> masker))
    \<Rightarrow> (pii_mapping \<Rightarrow> 'a \<Rightarrow> 'b \<Rightarrow> bool) \<Rightarrow> bool" where
  "masks_ok an mode f R =
     (\<forall>v mk v' mk'. masker_inv an mode mk \<longrightarrow> f v mk = Inr (v', mk') \<longrightarrow>
        good_step an mode mk mk' \<and> R (mk_mapping mk') v v')"

definition grows :: "(pii_mapping \<Rightarrow> 'a \<Rightarrow> 'b \<Rightarrow> bool) \<Rightarrow> bool" where
  "grows R = (\<forall>m m' a b. extends m m' \<longrightarrow> R m a b \<longrightarrow> R m' a b)"

lemma good_step_trans: "\<lbrakk>good_step an mode a b; good_step an mode b c\<rbrakk> \<Longrightarrow> good_step an mode a c"
  by (auto simp: good_step_def intro: extends_trans)

lemma good_step_refl: "masker_inv an mode mk \<Longrightarrow> good_step an mode mk mk"
  by (simp add: good_step_def extends_refl)

lemma good_step_inv: "good_step an mode mk mk' \<Longrightarrow> masker_inv an mode mk'"
  by (simp add: good_step_def)

lemma masks_okD:
  "\<lbrakk>masks_ok an mode f R; masker_inv an mode mk; f v mk = Inr (v', mk')\<rbrakk>
    \<Longrightarrow> good_step an mode mk mk' \<and> R (mk_mapping mk') v v'"
  unfolding masks_ok_def by blast

lemma maskText_ok: "analyzer_ok an mode \<Longrightarrow> masks_ok an mode (maskText an mode surface) (masks_to an mode)"
  using maskText_step by (auto simp: masks_ok_def good_step_def)

lemma masks_to_grows: "grows (masks_to an mode)"
  using masks_to_extends by (auto simp: grows_def)

lemma maskJSON_ok:
  "analyzer_ok an mode \<Longrightarrow> masks_ok an mode (maskJSONAwareString dec enc an mode surface) (\<lambda>m s t. True)"
  unfolding masks_ok_def maskJSONAwareString_def
  by (auto simp: good_step_refl good_step_def extends_refl dest: maskText_step maskAny_step(1)
      split: if_splits option.splits sum.splits prod.splits)

definition field_rel :: "(pii_mapping \<Rightarrow> string \<Rightarrow> string \<Rightarrow> bool) \<Rightarrow> string \<Rightarrow> pii_mapping
    \<Rightarrow> jobject \<Rightarrow> jobject \<Rightarrow> bool" where
  "field_rel R key m obj obj' =
     ((\<forall>k. k \<noteq> key \<longrightarrow> map_of obj' k = map_of obj k) \<and>
      (\<forall>s. map_of obj key = Some (JStr s) \<longrightarrow> (\<exists>t. map_of obj' key = Some (JStr t) \<and> R m s t)) \<and>
      ((\<forall>s. map_of obj key \<noteq> Some (JStr s)) \<longrightarrow> obj' = obj))"

lemma mask_field_ok:
  assumes "masks_ok an mode f R"
  shows "masks_ok an mode (mask_field f key) (field_rel R key)"
  unfolding masks_ok_def mask_field_def
  using masks_okD [OF assms] good_step_refl
  by (fastforce simp: field_rel_def as_str_Some update_conv' as_str_def split: option.splits sum.splits json.splits)

lemma mask_each_ok:
  assumes f: "masks_ok an mode f R" and g: "grows R"
  shows "masks_ok an mode (mask_each f) (\<lambda>m. list_all2 (R m))"
  unfolding masks_ok_def
proof (intro allI impI)
  fix vs mk vs' mk'
  assume "masker_inv an mode mk" and "mask_each f vs mk = Inr (vs', mk')"
  then show "good_step an mode mk mk' \<and> list_all2 (R (mk_mapping mk')) vs vs'"
  proof (induction vs arbitrary: mk vs')
    case Nil
    then show ?case by (simp add: good_step_refl)
  next
    case (Cons v vs)
    from Cons.prems(2) obtain w mk1 ws where v: "f v mk = Inr (w, mk1)"
      and vs: "mask_each f vs mk1 = Inr (ws, mk')" and vs': "vs' = w # ws"
      by (auto split: sum.splits prod.splits)
    have 1: "good_step an mode mk mk1" "R (mk_mapping mk1) v w"
      using masks_okD [OF f Cons.prems(1) v] by blast+
    have 2: "good_step an mode mk1 mk'" "list_all2 (R (mk_mapping mk')) vs ws"
      using Cons.IH [OF good_step_inv [OF 1(1)] vs] by blast+
    have "R (mk_mapping mk') v w" using 1(2) 2(1) g unfolding grows_def good_step_def by blast
    then show ?case using 1(1) 2 vs' good_step_trans by auto
  qed
qed

lemma bind_ok:
  assumes "masks_ok an mode f R" and "masks_ok an mode g S" and "grows R"
    and "\<And>m a b c. R m a b \<Longrightarrow> S m b c \<Longrightarrow> T m a c"
  shows "masks_ok an mode (\<lambda>v mk. bind_mask (f v mk) g) T"
  unfolding masks_ok_def
proof (intro allI impI)
  fix v mk w mk'
  assume inv: "masker_inv an mode mk" and run: "bind_mask (f v mk) g = Inr (w, mk')"
  then obtain u mk1 where u: "f v mk = Inr (u, mk1)" "g u mk1 = Inr (w, mk')"
    by (auto simp: bind_mask_def split: sum.splits prod.splits)
  have 1: "good_step an mode mk mk1" "R (mk_mapping mk1) v u" using masks_okD [OF assms(1) inv u(1)] by blast+
  have 2: "good_step an mode mk1 mk'" "S (mk_mapping mk') u w"
    using masks_okD [OF assms(2) good_step_inv [OF 1(1)] u(2)] by blast+
  have "R (mk_mapping mk') v u" using 1(2) 2(1) assms(3) unfolding grows_def good_step_def by blast
  then show "good_step an mode mk mk' \<and> T (mk_mapping mk') v w"
    using assms(4) 2 good_step_trans [OF 1(1)] by blast
qed

lemma true_grows: "grows (\<lambda>m a b. True)"
  by (simp add: grows_def)

lemma map_ok:
  assumes "masks_ok an mode f R" and "\<And>m a b. R m a b \<Longrightarrow> T m a (h b)"
  shows "masks_ok an mode (\<lambda>v mk. case f v mk of Inl e \<Rightarrow> Inl e | Inr (u, mk') \<Rightarrow> Inr (h u, mk')) T"
  using assms unfolding masks_ok_def by (auto split: sum.splits prod.splits)

text \<open>
  The relation of a message and its masked form: the four fields with model-bound text may
  differ, all others are the same, and text content is the masked text.
\<close>

definition masked_fields :: "string list" where
  "masked_fields = [''content'', ''reasoning_content'', ''reasoning'', ''tool_calls'']"

definition frame_rel :: "jobject \<Rightarrow> jobject \<Rightarrow> bool" where
  "frame_rel msg msg' = (\<forall>k. k \<notin> set masked_fields \<longrightarrow> map_of msg' k = map_of msg k)"

definition content_rel :: "analyzer \<Rightarrow> string \<Rightarrow> pii_mapping \<Rightarrow> jobject \<Rightarrow> jobject \<Rightarrow> bool" where
  "content_rel an mode m msg msg' =
     (\<forall>s. map_of msg ''content'' = Some (JStr s) \<and> as_str (map_of msg ''role'') \<noteq> Some ''tool''
        \<longrightarrow> (\<exists>t. map_of msg' ''content'' = Some (JStr t) \<and> masks_to an mode m s t))"

definition message_rel :: "analyzer \<Rightarrow> string \<Rightarrow> pii_mapping \<Rightarrow> json \<Rightarrow> json \<Rightarrow> bool" where
  "message_rel an mode m item item' =
     (case item of
        JObj msg \<Rightarrow> (\<exists>msg'. item' = JObj msg' \<and> frame_rel msg msg' \<and> content_rel an mode m msg msg')
      | _ \<Rightarrow> item' = item)"

lemma message_rel_grows: "grows (message_rel an mode)"
  using masks_to_extends by (fastforce simp: grows_def message_rel_def content_rel_def split: json.splits)

definition content_by :: "(pii_mapping \<Rightarrow> string \<Rightarrow> string \<Rightarrow> bool) \<Rightarrow> pii_mapping \<Rightarrow> jobject \<Rightarrow> jobject \<Rightarrow> bool" where
  "content_by R m msg msg' =
     (frame_rel msg msg' \<and>
      (\<forall>s. map_of msg ''content'' = Some (JStr s) \<longrightarrow>
         (\<exists>t. map_of msg' ''content'' = Some (JStr t) \<and> R m s t)))"

definition keeps_content :: "pii_mapping \<Rightarrow> jobject \<Rightarrow> jobject \<Rightarrow> bool" where
  "keeps_content m msg msg' =
     (frame_rel msg msg' \<and> map_of msg' ''content'' = map_of msg ''content'')"

lemma masks_ok_mono:
  "\<lbrakk>masks_ok an mode f R; \<And>m a b. R m a b \<Longrightarrow> S m a b\<rbrakk> \<Longrightarrow> masks_ok an mode f S"
  unfolding masks_ok_def by blast

lemma masks_ok_true: "masks_ok an mode f R \<Longrightarrow> masks_ok an mode f (\<lambda>m a b. True)"
  by (rule masks_ok_mono) simp_all

lemma mask_part_ok:
  assumes "masks_ok an mode f R"
  shows "masks_ok an mode (mask_part f) (\<lambda>m a b. True)"
  unfolding masks_ok_def mask_part_def
  using masks_okD [OF mask_field_ok [OF assms]] good_step_refl
  by (auto split: json.splits sum.splits prod.splits)

lemma mask_call_ok:
  assumes "masks_ok an mode f R"
  shows "masks_ok an mode (mask_call f) (\<lambda>m a b. True)"
  unfolding masks_ok_def mask_call_def
  using masks_okD [OF mask_field_ok [OF assms]] good_step_refl
  by (auto split: json.splits sum.splits prod.splits option.splits)

lemma mask_content_ok:
  assumes "masks_ok an mode f R"
  shows "masks_ok an mode (mask_content f) (content_by R)"
  unfolding masks_ok_def
proof (intro allI impI)
  fix msg mk msg' mk'
  assume inv: "masker_inv an mode mk" and run: "mask_content f msg mk = Inr (msg', mk')"
  show "good_step an mode mk mk' \<and> content_by R (mk_mapping mk') msg msg'"
  proof (cases "\<exists>s. map_of msg ''content'' = Some (JStr s)")
    case True
    then have "mask_field f ''content'' msg mk = Inr (msg', mk')" using run by (auto simp: mask_content_def)
    then show ?thesis
      using masks_okD [OF mask_field_ok [OF assms] inv]
      by (fastforce simp: content_by_def field_rel_def frame_rel_def masked_fields_def)
  next
    case False
    then show ?thesis
      using run masks_okD [OF mask_each_ok [OF mask_part_ok [OF assms] true_grows] inv] good_step_refl [OF inv]
      by (auto simp: mask_content_def content_by_def frame_rel_def masked_fields_def update_conv'
          split: option.splits json.splits sum.splits prod.splits)
  qed
qed

lemma mask_calls_ok:
  assumes "masks_ok an mode f R"
  shows "masks_ok an mode (mask_calls f) keeps_content"
  unfolding masks_ok_def mask_calls_def
  using masks_okD [OF mask_each_ok [OF mask_call_ok [OF assms] true_grows]] good_step_refl
  by (auto simp: keeps_content_def frame_rel_def masked_fields_def update_conv'
      split: option.splits json.splits sum.splits prod.splits)

lemma mask_reasoning_ok:
  assumes "masks_ok an mode f R" and "key \<in> {''reasoning_content'', ''reasoning''}"
  shows "masks_ok an mode (mask_field f key) keeps_content"
  using assms(2)
  by (intro masks_ok_mono [OF mask_field_ok [OF assms(1)]])
     (auto simp: field_rel_def keeps_content_def frame_rel_def masked_fields_def)

lemma content_chain:
  "\<lbrakk>content_by R m a b; keeps_content m b c\<rbrakk> \<Longrightarrow> content_by R m a c"
  by (auto simp: content_by_def keeps_content_def frame_rel_def)

lemma content_by_grows: "grows R \<Longrightarrow> grows (content_by R)"
  unfolding grows_def content_by_def by blast

lemma message_steps:
  assumes ok: "analyzer_ok an mode" and f: "masks_ok an mode f R" and g: "grows R"
  shows "masks_ok an mode (\<lambda>v mk. bind_mask (bind_mask (bind_mask (mask_content f v mk)
      (mask_field (maskText an mode ''assistant_reasoning_content'') ''reasoning_content''))
      (mask_field (maskText an mode ''assistant_reasoning_content'') ''reasoning''))
      (mask_calls (maskJSONAwareString dec enc an mode ''assistant_tool_call_arguments''))) (content_by R)"
proof -
  note cg = content_by_grows [OF g]
  have r: "masks_ok an mode (mask_field (maskText an mode ''assistant_reasoning_content'') key) keeps_content"
    if "key \<in> {''reasoning_content'', ''reasoning''}" for key
    by (rule mask_reasoning_ok [OF maskText_ok [OF ok] that])
  note c = mask_calls_ok [OF maskJSON_ok [OF ok], of dec enc "''assistant_tool_call_arguments''"]
  have 1: "masks_ok an mode (\<lambda>v mk. bind_mask (mask_content f v mk)
      (mask_field (maskText an mode ''assistant_reasoning_content'') ''reasoning_content'')) (content_by R)"
    by (rule bind_ok [OF mask_content_ok [OF f] r cg content_chain]) simp_all
  have 2: "masks_ok an mode (\<lambda>v mk. bind_mask (bind_mask (mask_content f v mk)
      (mask_field (maskText an mode ''assistant_reasoning_content'') ''reasoning_content''))
      (mask_field (maskText an mode ''assistant_reasoning_content'') ''reasoning'')) (content_by R)"
    by (rule bind_ok [OF 1 r cg content_chain]) simp_all
  show ?thesis by (rule bind_ok [OF 2 c cg content_chain])
qed

lemma mask_message_ok:
  assumes ok: "analyzer_ok an mode"
  shows "masks_ok an mode (mask_message dec enc an mode) (message_rel an mode)"
  unfolding masks_ok_def
proof (intro allI impI)
  fix item mk item' mk'
  assume inv: "masker_inv an mode mk" and run: "mask_message dec enc an mode item mk = Inr (item', mk')"
  show "good_step an mode mk mk' \<and> message_rel an mode (mk_mapping mk') item item'"
  proof (cases "\<exists>msg. item = JObj msg")
    case False
    then show ?thesis
      using run good_step_refl [OF inv] by (auto simp: mask_message_def message_rel_def split: json.splits)
  next
    case True
    then obtain msg where msg: "item = JObj msg" by blast
    let ?tool = "as_str (map_of msg ''role'') = Some ''tool''"
    obtain f and R :: "pii_mapping \<Rightarrow> string \<Rightarrow> string \<Rightarrow> bool" where f: "masks_ok an mode f R" "grows R"
      and R: "\<not> ?tool \<Longrightarrow> R = masks_to an mode"
      and f_def: "f = (if ?tool then maskJSONAwareString dec enc an mode ''tool_result_content''
                       else maskText an mode ''message_content'')"
    proof (cases ?tool)
      case True
      then show ?thesis
        using that [of "maskJSONAwareString dec enc an mode ''tool_result_content''" "\<lambda>m s t. True"]
          maskJSON_ok [OF ok] true_grows by simp
    next
      case False
      then show ?thesis
        using that [of "maskText an mode ''message_content''" "masks_to an mode"]
          maskText_ok [OF ok] masks_to_grows by simp
    qed
    define run_msg where "run_msg = (\<lambda>v mk. bind_mask (bind_mask (bind_mask (mask_content f v mk)
      (mask_field (maskText an mode ''assistant_reasoning_content'') ''reasoning_content''))
      (mask_field (maskText an mode ''assistant_reasoning_content'') ''reasoning''))
      (mask_calls (maskJSONAwareString dec enc an mode ''assistant_tool_call_arguments'')))"
    have st: "masks_ok an mode run_msg (content_by R)"
      unfolding run_msg_def by (rule message_steps [OF ok f])
    have "mask_message dec enc an mode item mk = bind_mask (run_msg msg mk) (\<lambda>msg' mk'. Inr (JObj msg', mk'))"
      unfolding mask_message_def msg f_def run_msg_def by (simp add: Let_def)
    then obtain msg' where m: "run_msg msg mk = Inr (msg', mk')" and item': "item' = JObj msg'"
      using run by (auto simp: bind_mask_def split: sum.splits prod.splits)
    have "good_step an mode mk mk'" "content_by R (mk_mapping mk') msg msg'"
      using masks_okD [OF st inv m] by blast+
    then show ?thesis
      using R by (auto simp: message_rel_def msg item' content_by_def content_rel_def)
  qed
qed

text \<open>
  Masking a chat body reaches every message and nothing else. The masked body has one
  message per message of the request, in order; in each, only the content, the two reasoning
  fields and the tool calls may differ, and a text content is replaced by its masked form
  (which the round trip restores); of the body itself only \<open>user\<close> and \<open>messages\<close> change.
\<close>

theorem mask_chat_masks_every_message:
  assumes ok: "analyzer_ok an mode" and run: "mask_chat dec enc an mode body new_masker = Inr (body', mk')"
    and ms: "map_of body ''messages'' = Some (JArr ms)"
  shows "mapping_inv (mk_mapping mk') \<and>
    (\<forall>k. k \<notin> {''user'', ''messages''} \<longrightarrow> map_of body' k = map_of body k) \<and>
    (\<exists>ms'. map_of body' ''messages'' = Some (JArr ms') \<and>
       list_all2 (message_rel an mode (mk_mapping mk')) ms ms')"
proof -
  obtain b1 mk1 where u: "mask_field (maskText an mode ''user'') ''user'' body new_masker = Inr (b1, mk1)"
    using run by (auto simp: mask_chat_def bind_mask_def split: sum.splits prod.splits)
  have s1: "good_step an mode new_masker mk1"
    and f: "field_rel (masks_to an mode) ''user'' (mk_mapping mk1) body b1"
    using masks_okD [OF mask_field_ok [OF maskText_ok [OF ok]], OF masker_inv_new u] by blast+
  have b1: "map_of b1 ''messages'' = Some (JArr ms)" using f ms by (simp add: field_rel_def)
  obtain ms' where e: "mask_each (mask_message dec enc an mode) ms mk1 = Inr (ms', mk')"
    and b': "body' = AList.update ''messages'' (JArr ms') b1"
    using run b1 unfolding mask_chat_def u
    by (auto simp: bind_mask_def as_arr_def split: sum.splits prod.splits)
  have s2: "good_step an mode mk1 mk'" and l: "list_all2 (message_rel an mode (mk_mapping mk')) ms ms'"
    using masks_okD [OF mask_each_ok [OF mask_message_ok [OF ok] message_rel_grows], OF good_step_inv [OF s1] e]
    by blast+
  have "mapping_inv (mk_mapping mk')" using s2 by (simp add: good_step_def masker_inv_def)
  then show ?thesis using l f by (auto simp: b' update_conv' field_rel_def)
qed

definition toy_body :: jobject where
  "toy_body = [(''model'', JStr ''m''), (''messages'', JArr [JObj [(''role'', JStr ''user''), (''content'', JStr ''Bob'')]])]"

theorem mask_chat_masks_every_message_witness:
  "\<exists>body' mk'. mask_chat (\<lambda>s. None) (\<lambda>v. []) toy_analyzer ''low'' toy_body new_masker = Inr (body', mk') \<and>
     map_of body' ''model'' = Some (JStr ''m'')"
proof -
  let ?r = "mask_chat (\<lambda>s. None) (\<lambda>v. []) toy_analyzer ''low'' toy_body new_masker"
  have "(case ?r of Inl e \<Rightarrow> False | Inr (b, mk) \<Rightarrow> True)" by code_simp
  then obtain body' mk' where r: "?r = Inr (body', mk')" by (auto split: sum.splits)
  have ms: "map_of toy_body ''messages'' = Some (JArr [JObj [(''role'', JStr ''user''), (''content'', JStr ''Bob'')]])"
    by (simp add: toy_body_def)
  have "map_of body' ''model'' = map_of toy_body ''model''"
    using mask_chat_masks_every_message [OF toy_analyzer_ok r ms] by simp
  then show ?thesis using r by (simp add: toy_body_def)
qed

end
