(* ===== verification/PiiRestore.thy ===== *)
theory PiiRestore
  imports PiiBody
begin

text \<open>
  Restoring responses (\<open>unmasker\<close> of \<open>application/services/pii.go\<close>): streamed events, the
  text held per choice and field, the release at the finish reason or in a final event, and
  bodies that are not streamed; the report of placeholders that could not be restored, and
  the masking of errors. The JSON codec of events is a parameter, as in \<open>PiiBody\<close>.
\<close>

definition generated :: "(string \<times> string) list" where
  "generated =
     [(''content'', ''assistant_content''),
      (''reasoning_content'', ''assistant_reasoning_content''),
      (''reasoning'', ''assistant_reasoning_content'')]"

definition toolArgsSurface :: string where
  "toolArgsSurface = ''assistant_tool_call_arguments''"

record held_choice =
  hc_text :: "(string \<times> string) list"
  hc_tools :: "(string \<times> string) list"

record unmasker =
  um_mapping :: pii_mapping
  um_held :: "(string \<times> held_choice) list"
  um_restored :: "(string \<times> string) list"

definition newUnmasker :: "pii_mapping option \<Rightarrow> unmasker option" where
  "newUnmasker p =
     (case p of
        None \<Rightarrow> None
      | Some m \<Rightarrow> if mapping_Len p = 0 then None
                  else Some \<lparr>um_mapping = m, um_held = [], um_restored = []\<rparr>)"

definition buf_get :: "(string \<times> string) list \<Rightarrow> string \<Rightarrow> string" where
  "buf_get bs key = (case map_of bs key of Some s \<Rightarrow> s | None \<Rightarrow> [])"

definition held_of :: "unmasker \<Rightarrow> string \<Rightarrow> held_choice" where
  "held_of u index =
     (case map_of (um_held u) index of Some h \<Rightarrow> h | None \<Rightarrow> \<lparr>hc_text = [], hc_tools = []\<rparr>)"

definition put_held :: "string \<Rightarrow> held_choice \<Rightarrow> unmasker \<Rightarrow> unmasker" where
  "put_held index h u = u\<lparr>um_held := AList.update index h (um_held u)\<rparr>"

definition track :: "string \<Rightarrow> string \<Rightarrow> unmasker \<Rightarrow> unmasker" where
  "track surface t u =
     u\<lparr>um_restored := AList.update surface (buf_get (um_restored u) surface @ t) (um_restored u)\<rparr>"

definition choiceIndex :: "json option \<Rightarrow> nat \<Rightarrow> string" where
  "choiceIndex v pos = (case as_num v of Some n \<Rightarrow> n | None \<Rightarrow> itoa pos)"

text \<open>One generated field of a delta: fed to its buffer, and replaced by what may be sent.\<close>

definition event_field :: "string \<Rightarrow> string \<times> string \<Rightarrow> unmasker \<times> jobject \<times> bool
    \<Rightarrow> unmasker \<times> jobject \<times> bool" where
  "event_field index g st =
     (let (field, surface) = g; (u, delta, changed) = st
      in case as_str (map_of delta field) of
           Some t \<Rightarrow>
             (if t = [] then st
              else let h = held_of u index;
                       (b, out) = feedPIIStreamBuffer (buf_get (hc_text h) field) t (Some (um_mapping u))
                   in (track surface out
                         (put_held index (h\<lparr>hc_text := AList.update field b (hc_text h)\<rparr>) u),
                       AList.update field (JStr out) delta, True))
         | None \<Rightarrow> st)"

text \<open>The arguments of one tool call of a delta; a value that is no object is skipped.\<close>

definition event_call :: "string \<Rightarrow> json \<Rightarrow> unmasker \<Rightarrow> json \<times> unmasker \<times> bool" where
  "event_call index c u =
     (case c of
        JObj call \<Rightarrow>
          (case as_obj (map_of call ''function'') of
             None \<Rightarrow> (c, u, False)
           | Some fn \<Rightarrow>
               (case as_str (map_of fn ''arguments'') of
                  None \<Rightarrow> (c, u, False)
                | Some args \<Rightarrow>
                    (if args = [] then (c, u, False)
                     else let key = choiceIndex (map_of call ''index'') 0;
                              h = held_of u index;
                              (b, out) = feedPIIStreamBuffer (buf_get (hc_tools h) key) args (Some (um_mapping u))
                          in (JObj (AList.update ''function''
                                (JObj (AList.update ''arguments'' (JStr out) fn)) call),
                              track toolArgsSurface out
                                (put_held index (h\<lparr>hc_tools := AList.update key b (hc_tools h)\<rparr>) u),
                              True))))
      | _ \<Rightarrow> (c, u, False))"

fun event_calls :: "string \<Rightarrow> json list \<Rightarrow> unmasker \<Rightarrow> json list \<times> unmasker \<times> bool" where
  "event_calls index [] u = ([], u, False)"
| "event_calls index (c # cs) u =
     (let (c', u1, ch1) = event_call index c u; (cs', u2, ch2) = event_calls index cs u1
      in (c' # cs', u2, ch1 \<or> ch2))"

section \<open>Release\<close>

definition release_field :: "held_choice \<Rightarrow> string \<times> string \<Rightarrow> unmasker \<times> jobject \<times> bool
    \<Rightarrow> unmasker \<times> jobject \<times> bool" where
  "release_field held g st =
     (let (field, surface) = g; (u, delta, released) = st
      in case map_of (hc_text held) field of
           None \<Rightarrow> st
         | Some b \<Rightarrow>
             (let tail = flushPIIStreamBuffer b (Some (um_mapping u))
              in if tail = [] then st
                 else (track surface tail u,
                       AList.update field (JStr (str_or_empty (map_of delta field) @ tail)) delta, True)))"

text \<open>The tail is appended to every call of the delta that has the index.\<close>

definition append_args :: "string \<Rightarrow> string \<Rightarrow> json \<Rightarrow> json \<times> bool" where
  "append_args key tail c =
     (case c of
        JObj call \<Rightarrow>
          (if choiceIndex (map_of call ''index'') 0 = key then
             (let fn = obj_or_nil (map_of call ''function'')
              in (JObj (AList.update ''function''
                    (JObj (AList.update ''arguments'' (JStr (str_or_empty (map_of fn ''arguments'') @ tail)) fn)) call),
                  True))
           else (c, False))
      | _ \<Rightarrow> (c, False))"

definition release_tool :: "held_choice \<Rightarrow> string \<Rightarrow> unmasker \<times> jobject \<times> bool
    \<Rightarrow> unmasker \<times> jobject \<times> bool" where
  "release_tool held key st =
     (let (u, delta, released) = st;
          tail = flushPIIStreamBuffer (buf_get (hc_tools held) key) (Some (um_mapping u))
      in if tail = [] then st
         else let calls = arr_or_nil (map_of delta ''tool_calls'');
                  done = map (append_args key tail) calls;
                  calls' = (if list_ex snd done then map fst done
                            else calls @ [JObj [(''index'', JNum key),
                                                (''function'', JObj [(''arguments'', JStr tail)])]])
              in (track toolArgsSurface tail u, AList.update ''tool_calls'' (JArr calls') delta, True))"

definition release :: "unmasker \<Rightarrow> string \<Rightarrow> jobject \<Rightarrow> unmasker \<times> jobject \<times> bool" where
  "release u index choice =
     (case map_of (um_held u) index of
        None \<Rightarrow> (u, choice, False)
      | Some held \<Rightarrow>
          (let u1 = u\<lparr>um_held := AList.delete index (um_held u)\<rparr>;
               st1 = fold (release_field held) generated
                       (u1, obj_or_nil (map_of choice ''delta''), False);
               (u2, delta, released) = fold (release_tool held) (sort (map fst (hc_tools held))) st1
           in (u2, if released then AList.update ''delta'' (JObj delta) choice else choice, released)))"

section \<open>Events\<close>

text \<open>
  The fields and calls of a choice's delta. Without a delta object there is nothing to read,
  and the choice is left as it is.
\<close>

definition event_delta :: "string \<Rightarrow> jobject \<Rightarrow> unmasker \<Rightarrow> jobject \<times> unmasker \<times> bool" where
  "event_delta index delta u =
     (let (u1, d1, ch1) = fold (event_field index) generated (u, delta, False)
      in case as_arr (map_of d1 ''tool_calls'') of
           None \<Rightarrow> (d1, u1, ch1)
         | Some calls \<Rightarrow>
             (let (calls', u2, ch2) = event_calls index calls u1
              in (AList.update ''tool_calls'' (JArr calls') d1, u2, ch1 \<or> ch2)))"

definition event_choice :: "nat \<Rightarrow> json \<Rightarrow> unmasker \<Rightarrow> json \<times> unmasker \<times> bool" where
  "event_choice pos item u =
     (case item of
        JObj choice \<Rightarrow>
          (let index = choiceIndex (map_of choice ''index'') pos;
               u0 = put_held index (held_of u index) u;
               (choice1, u1, ch1) =
                 (case as_obj (map_of choice ''delta'') of
                    None \<Rightarrow> (choice, u0, False)
                  | Some delta \<Rightarrow>
                      (let (d, u', ch) = event_delta index delta u0
                       in (AList.update ''delta'' (JObj d) choice, u', ch)))
           in if not_nil (map_of choice1 ''finish_reason'') then
                (let (u2, choice2, released) = release u1 index choice1
                 in (JObj choice2, u2, ch1 \<or> released))
              else (JObj choice1, u1, ch1))
      | _ \<Rightarrow> (item, u, False))"

fun event_choices :: "nat \<Rightarrow> json list \<Rightarrow> unmasker \<Rightarrow> json list \<times> unmasker \<times> bool" where
  "event_choices pos [] u = ([], u, False)"
| "event_choices pos (c # cs) u =
     (let (c', u1, ch1) = event_choice pos c u; (cs', u2, ch2) = event_choices (pos + 1) cs u1
      in (c' # cs', u2, ch1 \<or> ch2))"

definition unmask_event :: "(string \<Rightarrow> jobject option) \<Rightarrow> (json \<Rightarrow> string) \<Rightarrow> string \<Rightarrow> unmasker
    \<Rightarrow> unmasker \<times> string" where
  "unmask_event decodeObject enc data u =
     (case decodeObject data of
        None \<Rightarrow> (u, data)
      | Some obj \<Rightarrow>
          (case as_arr (map_of obj ''choices'') of
             None \<Rightarrow> (u, data)
           | Some choices \<Rightarrow>
               (let (choices', u', changed) = event_choices 0 choices u
                in (u', if changed then enc (JObj (AList.update ''choices'' (JArr choices') obj)) else data))))"

text \<open>The final event for choices the provider never finished; \<open>None\<close> is nil.\<close>

fun tail_choices :: "string list \<Rightarrow> unmasker \<Rightarrow> json list \<times> unmasker" where
  "tail_choices [] u = ([], u)"
| "tail_choices (index # rest) u =
     (let (u1, choice, released) =
            release u index [(''index'', JNum index), (''delta'', JObj []), (''finish_reason'', JNull)];
          (cs, u2) = tail_choices rest u1
      in (if released then JObj choice # cs else cs, u2))"

definition unmask_tail :: "(json \<Rightarrow> string) \<Rightarrow> string \<Rightarrow> string \<Rightarrow> unmasker \<Rightarrow> unmasker \<times> string option" where
  "unmask_tail enc ident model u =
     (let (choices, u') = tail_choices (sort (map fst (um_held u))) u
      in if choices = [] then (u', None)
         else (u', Some (enc (JObj [(''id'', JStr ident), (''object'', JStr ''chat.completion.chunk''),
                                    (''model'', JStr model), (''choices'', JArr choices)]))))"

section \<open>Bodies that are not streamed\<close>

definition restore_str_field :: "bool \<Rightarrow> string \<times> string \<Rightarrow> unmasker \<times> jobject \<Rightarrow> unmasker \<times> jobject" where
  "restore_str_field keep_empty g st =
     (let (field, surface) = g; (u, obj) = st
      in case as_str (map_of obj field) of
           None \<Rightarrow> st
         | Some t \<Rightarrow>
             (if t = [] \<and> \<not> keep_empty then st
              else let r = Unmask t (Some (um_mapping u))
                   in (track surface r u, AList.update field (JStr r) obj)))"

text \<open>Every answer's \<open>legend\<close> object has its string values restored.\<close>

definition restore_answer :: "json \<Rightarrow> unmasker \<Rightarrow> json \<times> unmasker" where
  "restore_answer item u =
     (case item of
        JObj answer \<Rightarrow>
          (case as_obj (map_of answer ''legend'') of
             None \<Rightarrow> (item, u)
           | Some legend \<Rightarrow>
               (let (u', legend') =
                      fold (\<lambda>key st. restore_str_field True (key, ''legend'') st) (map fst legend) (u, legend)
                in (JObj (AList.update ''legend'' (JObj legend') answer), u')))
      | _ \<Rightarrow> (item, u))"

definition restore_call :: "json \<Rightarrow> unmasker \<Rightarrow> json \<times> unmasker" where
  "restore_call c u =
     (case c of
        JObj call \<Rightarrow>
          (case as_obj (map_of call ''function'') of
             None \<Rightarrow> (c, u)
           | Some fn \<Rightarrow>
               (let (u', fn') = restore_str_field False (''arguments'', toolArgsSurface) (u, fn)
                in (JObj (AList.update ''function'' (JObj fn') call), u')))
      | _ \<Rightarrow> (c, u))"

fun thread_map :: "(json \<Rightarrow> unmasker \<Rightarrow> json \<times> unmasker) \<Rightarrow> json list \<Rightarrow> unmasker \<Rightarrow> json list \<times> unmasker" where
  "thread_map f [] u = ([], u)"
| "thread_map f (v # vs) u =
     (let (w, u1) = f v u; (ws, u2) = thread_map f vs u1 in (w # ws, u2))"

definition restore_choice :: "json \<Rightarrow> unmasker \<Rightarrow> json \<times> unmasker" where
  "restore_choice item u =
     (case item of
        JObj choice \<Rightarrow>
          (case as_obj (map_of choice ''message'') of
             None \<Rightarrow> (item, u)
           | Some msg \<Rightarrow>
               (let (u1, msg1) = fold (restore_str_field False) generated (u, msg)
                in case as_arr (map_of msg1 ''tool_calls'') of
                     None \<Rightarrow> (JObj (AList.update ''message'' (JObj msg1) choice), u1)
                   | Some calls \<Rightarrow>
                       (let (calls', u2) = thread_map restore_call calls u1
                        in (JObj (AList.update ''message''
                              (JObj (AList.update ''tool_calls'' (JArr calls') msg1)) choice), u2))))
      | _ \<Rightarrow> (item, u))"

definition restore_object :: "jobject \<Rightarrow> unmasker \<Rightarrow> jobject \<times> unmasker" where
  "restore_object obj u =
     (let (obj1, u1) =
            (case as_obj (map_of obj ''answers'') of
               None \<Rightarrow> (obj, u)
             | Some answers \<Rightarrow>
                 (let (vs, u') = thread_map restore_answer (map snd answers) u
                  in (AList.update ''answers'' (JObj (zip (map fst answers) vs)) obj, u')))
      in case as_arr (map_of obj1 ''choices'') of
           None \<Rightarrow> (obj1, u1)
         | Some choices \<Rightarrow>
             (let (cs, u2) = thread_map restore_choice choices u1
              in (AList.update ''choices'' (JArr cs) obj1, u2)))"

definition unmask_body :: "(string \<Rightarrow> jobject option) \<Rightarrow> (json \<Rightarrow> string) \<Rightarrow> string \<Rightarrow> unmasker
    \<Rightarrow> unmasker \<times> string" where
  "unmask_body decodeObject enc data u =
     (case decodeObject data of
        None \<Rightarrow> (u, data)
      | Some obj \<Rightarrow> (let (obj', u') = restore_object obj u in (u', enc (JObj obj'))))"

section \<open>Reports and errors\<close>

definition mergeStringSets :: "string list \<Rightarrow> string list \<Rightarrow> string list" where
  "mergeStringSets existing incoming = rev (remdups (rev (existing @ incoming)))"

definition trackUnresolvedPIITokens :: "pii_mapping option \<Rightarrow> string \<times> string
    \<Rightarrow> (string \<times> string list) list \<Rightarrow> (string \<times> string list) list" where
  "trackUnresolvedPIITokens p g groups =
     (let (surface, t) = g; tokens = UnresolvedTokens p t
      in if mapping_Len p = 0 \<or> t = [] \<or> tokens = [] then groups
         else AList.update surface
                (mergeStringSets (case map_of groups surface of Some ts \<Rightarrow> ts | None \<Rightarrow> []) tokens) groups)"

text \<open>The warnings of the report: a surface with its tokens, both in order.\<close>

definition unmask_report :: "unmasker \<Rightarrow> (string \<times> string list) list" where
  "unmask_report u =
     (let groups = fold (trackUnresolvedPIITokens (Some (um_mapping u))) (um_restored u) []
      in map (\<lambda>s. (s, sort (the (map_of groups s)))) (sort (map fst groups)))"

fun sanitizePIILogValue :: "pii_mapping option \<Rightarrow> meta \<Rightarrow> meta" where
  "sanitizePIILogValue p (MStr s) = MStr (MaskKnownOriginals p s)"
| "sanitizePIILogValue p (MList vs) = MList (map (sanitizePIILogValue p) vs)"
| "sanitizePIILogValue p (MStrs ss) = MStrs (map (MaskKnownOriginals p) ss)"
| "sanitizePIILogValue p (MMap fs) = MMap (map (\<lambda>(k, v). (k, sanitizePIILogValue p v)) fs)"
| "sanitizePIILogValue p v = v"

definition sanitizeErrorWithPIIMapping :: "go_error option \<Rightarrow> pii_mapping option \<Rightarrow> go_error option" where
  "sanitizeErrorWithPIIMapping err p =
     (case err of
        None \<Rightarrow> None
      | Some e \<Rightarrow>
          (if mapping_Len p = 0 then err
           else case as_gateway e of
                  None \<Rightarrow> Some (PlainErr (MaskKnownOriginals p (error_text e)))
                | Some g \<Rightarrow>
                    Some (GwErr (g\<lparr>ge_Message := MaskKnownOriginals p (ge_Message g),
                                   ge_Metadata := map_option (sanitizePIILogValue p) \<circ> ge_Metadata g\<rparr>))))"

section \<open>Streams of several choices\<close>

text \<open>
  The events of a chat stream, reduced to what one content delta of a choice needs: its
  index, the text, and no finish reason. \<open>finish_event\<close> is the event that ends a choice.
\<close>

definition chunk_event :: "string \<Rightarrow> string \<Rightarrow> json" where
  "chunk_event i t = JObj [(''index'', JNum i), (''delta'', JObj [(''content'', JStr t)]), (''finish_reason'', JNull)]"

definition finish_event :: "string \<Rightarrow> json" where
  "finish_event i = JObj [(''index'', JNum i), (''delta'', JObj []), (''finish_reason'', JStr ''stop'')]"

definition event_content :: "json \<Rightarrow> string" where
  "event_content v =
     (case v of JObj c \<Rightarrow> str_or_empty (map_of (obj_or_nil (map_of c ''delta'')) ''content'') | _ \<Rightarrow> [])"

text \<open>Events are \<open>(index, text)\<close>; the outputs are what the client gets, in the same form.\<close>

fun run_chunks :: "(string \<times> string) list \<Rightarrow> unmasker \<Rightarrow> (string \<times> string) list \<times> unmasker" where
  "run_chunks [] u = ([], u)"
| "run_chunks ((i, t) # evs) u =
     (let (v, u1, ch) = event_choice 0 (chunk_event i t) u; (outs, u2) = run_chunks evs u1
      in ((i, event_content v) # outs, u2))"

definition texts_of :: "string \<Rightarrow> (string \<times> string) list \<Rightarrow> string list" where
  "texts_of i evs = map snd (filter (\<lambda>e. fst e = i) evs)"

definition content_buf :: "unmasker \<Rightarrow> string \<Rightarrow> string" where
  "content_buf u i = buf_get (hc_text (held_of u i)) ''content''"

text \<open>The buffer and the text sent after feeding a list of chunks.\<close>

fun feed_list :: "pii_mapping option \<Rightarrow> string \<Rightarrow> string list \<Rightarrow> string \<times> string" where
  "feed_list p buf [] = (buf, [])"
| "feed_list p buf (d # ds) =
     (let (b1, out) = feedPIIStreamBuffer buf d p; (b2, rest) = feed_list p b1 ds in (b2, out @ rest))"

lemma stream_text_feed: "stream_text p buf ds = snd (feed_list p buf ds) @ flushPIIStreamBuffer (fst (feed_list p buf ds)) p"
  by (induction ds arbitrary: buf) (simp_all add: case_prod_unfold Let_def)

lemma track_other [simp]:
  "um_mapping (track s t u) = um_mapping u" "um_held (track s t u) = um_held u"
  "held_of (track s t u) i = held_of u i"
  by (simp_all add: track_def held_of_def)

lemma put_held_simps [simp]:
  "um_mapping (put_held i h u) = um_mapping u"
  "held_of (put_held i h u) j = (if j = i then h else held_of u j)"
  by (simp_all add: put_held_def held_of_def update_conv')

lemma event_chunk:
  assumes "t \<noteq> []"
  shows "\<exists>u'. event_choice 0 (chunk_event i t) u =
      (JObj [(''index'', JNum i),
             (''delta'', JObj [(''content'', JStr (snd (feedPIIStreamBuffer (content_buf u i) t (Some (um_mapping u)))))]),
             (''finish_reason'', JNull)], u', True) \<and>
    um_mapping u' = um_mapping u \<and>
    content_buf u' i = fst (feedPIIStreamBuffer (content_buf u i) t (Some (um_mapping u))) \<and>
    (\<forall>j. j \<noteq> i \<longrightarrow> content_buf u' j = content_buf u j)"
  using assms
  by (simp add: event_choice_def chunk_event_def choiceIndex_def event_delta_def generated_def event_field_def
      json_selectors content_buf_def Let_def case_prod_unfold buf_get_def update_conv')

lemma run_chunks_feed:
  assumes "\<forall>e \<in> set evs. snd e \<noteq> []"
  shows "concat (texts_of i (fst (run_chunks evs u))) =
      snd (feed_list (Some (um_mapping u)) (content_buf u i) (texts_of i evs)) \<and>
    content_buf (snd (run_chunks evs u)) i =
      fst (feed_list (Some (um_mapping u)) (content_buf u i) (texts_of i evs)) \<and>
    um_mapping (snd (run_chunks evs u)) = um_mapping u"
  using assms
proof (induction evs arbitrary: u)
  case Nil
  then show ?case by (simp add: texts_of_def)
next
  case (Cons e evs)
  obtain j t where e: "e = (j, t)" by (cases e)
  then have t: "t \<noteq> []" using Cons.prems by simp
  obtain u' where u': "event_choice 0 (chunk_event j t) u =
      (JObj [(''index'', JNum j),
             (''delta'', JObj [(''content'', JStr (snd (feedPIIStreamBuffer (content_buf u j) t (Some (um_mapping u)))))]),
             (''finish_reason'', JNull)], u', True)" "um_mapping u' = um_mapping u"
    "content_buf u' j = fst (feedPIIStreamBuffer (content_buf u j) t (Some (um_mapping u)))"
    "\<forall>k. k \<noteq> j \<longrightarrow> content_buf u' k = content_buf u k"
    using event_chunk [OF t] by blast
  have "event_content (JObj [(''index'', JNum j),
             (''delta'', JObj [(''content'', JStr x)]), (''finish_reason'', JNull)]) = x" for x
    by (simp add: event_content_def json_selectors)
  then show ?case
    using Cons.IH [of u'] Cons.prems u'
    by (cases "i = j") (auto simp: e texts_of_def case_prod_unfold Let_def)
qed

lemma release_field_content:
  "fst g \<noteq> ''content'' \<Longrightarrow>
    map_of (fst (snd (release_field held g st))) ''content'' = map_of (fst (snd st)) ''content''"
  by (auto simp: release_field_def case_prod_unfold Let_def update_conv' split: option.splits)

lemma release_tool_content:
  "map_of (fst (snd (fold (release_tool held) keys st))) ''content'' = map_of (fst (snd st)) ''content''"
proof (induction keys arbitrary: st)
  case (Cons k keys)
  have "map_of (fst (snd (release_tool held k st))) ''content'' = map_of (fst (snd st)) ''content''"
    by (auto simp: release_tool_def case_prod_unfold Let_def update_conv')
  then show ?case using Cons by simp
qed simp

lemma release_flag:
  "snd (snd st) \<Longrightarrow> snd (snd (release_field held g st))"
  "snd (snd st) \<Longrightarrow> snd (snd (release_tool held key st))"
  by (auto simp: release_field_def release_tool_def case_prod_unfold Let_def split: option.splits)

lemma release_flag_fields: "snd (snd st) \<Longrightarrow> snd (snd (fold (release_field held) gs st))"
  by (induction gs arbitrary: st) (simp_all add: release_flag del: split_paired_All)

lemma release_flag_tools: "snd (snd st) \<Longrightarrow> snd (snd (fold (release_tool held) keys st))"
  by (induction keys arbitrary: st) (simp_all add: release_flag del: split_paired_All)

lemma release_content:
  assumes "as_obj (map_of choice ''delta'') = Some []"
  shows "str_or_empty (map_of (obj_or_nil (map_of (fst (snd (release u i choice))) ''delta'')) ''content'')
    = flushPIIStreamBuffer (content_buf u i) (Some (um_mapping u))"
proof (cases "map_of (um_held u) i")
  case None
  then show ?thesis
    using assms by (simp add: release_def content_buf_def held_of_def buf_get_def flushPIIStreamBuffer_def
        json_selectors as_obj_Some split: option.splits)
next
  case (Some held)
  let ?u1 = "u\<lparr>um_held := AList.delete i (um_held u)\<rparr>"
  let ?st0 = "(?u1, [], False)"
  let ?g = "(''content'', ''assistant_content'')"
  let ?stc = "release_field held ?g ?st0"
  let ?rest = "[(''reasoning_content'', ''assistant_reasoning_content''),
      (''reasoning'', ''assistant_reasoning_content'')]"
  let ?st1 = "fold (release_field held) ?rest ?stc"
  let ?st2 = "fold (release_tool held) (sort (map fst (hc_tools held))) ?st1"
  let ?flush = "flushPIIStreamBuffer (content_buf u i) (Some (um_mapping u))"
  have choice: "obj_or_nil (map_of choice ''delta'') = []" using assms by (simp add: json_selectors split: option.splits json.splits)
  have rel: "release u i choice = (fst ?st2,
      if snd (snd ?st2) then AList.update ''delta'' (JObj (fst (snd ?st2))) choice else choice, snd (snd ?st2))"
    by (simp add: release_def Some Let_def case_prod_unfold generated_def choice)
  have "content_buf u i = buf_get (hc_text held) ''content''"
    by (simp add: content_buf_def held_of_def Some)
  then have c: "map_of (fst (snd ?stc)) ''content'' = (if ?flush = [] then None else Some (JStr ?flush))"
      "snd (snd ?stc) = (?flush \<noteq> [])"
    by (auto simp: release_field_def buf_get_def flushPIIStreamBuffer_def Let_def json_selectors update_conv'
        split: option.splits)
  have "map_of (fst (snd ?st1)) ''content'' = map_of (fst (snd ?stc)) ''content''"
    by (simp add: release_field_content)
  then have c2: "map_of (fst (snd ?st2)) ''content'' = map_of (fst (snd ?stc)) ''content''"
    using release_tool_content by simp
  show ?thesis
  proof (cases "?flush = []")
    case True
    then show ?thesis using c(1) c2 choice by (simp add: rel json_selectors update_conv' split: option.splits)
  next
    case False
    then have "snd (snd ?stc)" using c(2) by simp
    then have "snd (snd ?st2)" by (intro release_flag_tools release_flag_fields)
    then show ?thesis using False c(1) c2 by (simp add: rel json_selectors update_conv')
  qed
qed

lemma event_finish:
  "event_content (fst (event_choice 0 (finish_event i) u)) = flushPIIStreamBuffer (content_buf u i) (Some (um_mapping u))"
proof -
  let ?u0 = "put_held i (held_of u i) u"
  let ?ch = "[(''index'', JNum i), (''delta'', JObj []), (''finish_reason'', JStr ''stop'')]"
  have "fst (event_choice 0 (finish_event i) u) = JObj (fst (snd (release ?u0 i ?ch)))"
    by (simp add: event_choice_def finish_event_def choiceIndex_def event_delta_def generated_def event_field_def
        json_selectors Let_def case_prod_unfold)
  moreover have "content_buf ?u0 i = content_buf u i" by (simp add: content_buf_def)
  ultimately show ?thesis
    using release_content [of ?ch ?u0 i] by (simp add: event_content_def as_obj_def)
qed



end
