(* ===== verification/Replay.thy ===== *)
theory Replay
  imports Errors
begin

text \<open>
  Replay protection of confidential requests (\<open>confidentialReplayCache\<close> in
  \<open>handlers/confidential_chat_completions_handler.go\<close>): a bounded cache of request ids per
  account with one lifetime, expired in insertion order. The interface \<open>replay_guard\<close> is
  what the handler relies on; the cache is its interpretation.
\<close>

section \<open>The code\<close>

type_synonym replay_key = "string \<times> string"   \<comment> \<open>account id, request id\<close>

datatype replay_result =
    ReplayAccepted | ReplayDuplicate | ReplayCapacityReached | ReplayAccountCapacityReached

record replay_cache =
  rc_ttl :: duration
  rc_capacity :: nat
  rc_accountCapacity :: nat
  rc_entries :: "replay_key list"
  rc_accounts :: "(string \<times> int) list"
  rc_expirations :: "(replay_key \<times> time) list"

definition confidentialMaxAge :: duration where "confidentialMaxAge = 2 * minute"
definition confidentialFutureSkew :: duration where "confidentialFutureSkew = 30 * second"
definition confidentialReplayTTL :: duration where "confidentialReplayTTL = 3 * minute"
definition confidentialReplayCapacity :: nat where "confidentialReplayCapacity = 100000"
definition confidentialReplayAccountCapacity :: nat where "confidentialReplayAccountCapacity = 10000"

definition newConfidentialReplayCache :: "duration \<Rightarrow> nat \<Rightarrow> replay_cache" where
  "newConfidentialReplayCache ttl capacity =
     \<lparr>rc_ttl = ttl, rc_capacity = capacity,
      rc_accountCapacity = min capacity confidentialReplayAccountCapacity,
      rc_entries = [], rc_accounts = [], rc_expirations = []\<rparr>"

definition account_count :: "replay_cache \<Rightarrow> string \<Rightarrow> int" where
  "account_count c a = (case map_of (rc_accounts c) a of None \<Rightarrow> 0 | Some n \<Rightarrow> n)"

text \<open>One entry leaves: the set, the account's counter (deleted at 0) and the list.\<close>

definition drop_front :: "replay_key \<Rightarrow> (replay_key \<times> time) list \<Rightarrow> replay_cache \<Rightarrow> replay_cache" where
  "drop_front key rest c =
     (let n = account_count c (fst key) - 1
      in c\<lparr>rc_entries := removeAll key (rc_entries c),
          rc_accounts := (if n = 0 then AList.delete (fst key) (rc_accounts c)
                          else AList.update (fst key) n (rc_accounts c)),
          rc_expirations := rest\<rparr>)"

text \<open>The loop over the front of the list; \<open>es\<close> is the list of the cache.\<close>

fun expire_loop :: "time \<Rightarrow> (replay_key \<times> time) list \<Rightarrow> replay_cache \<Rightarrow> replay_cache" where
  "expire_loop now [] c = c"
| "expire_loop now ((key, expiresAt) # es) c =
     (if now < expiresAt then c else expire_loop now es (drop_front key es c))"

definition expire :: "time \<Rightarrow> replay_cache \<Rightarrow> replay_cache" where
  "expire now c = expire_loop now (rc_expirations c) c"

definition checkAndStore :: "string \<Rightarrow> string \<Rightarrow> time \<Rightarrow> replay_cache \<Rightarrow> replay_cache \<times> replay_result" where
  "checkAndStore accountID requestID now c0 =
     (let c = expire now c0; key = (accountID, requestID)
      in if key \<in> set (rc_entries c) then (c, ReplayDuplicate)
         else if account_count c accountID \<ge> int (rc_accountCapacity c) then (c, ReplayAccountCapacityReached)
         else if length (rc_entries c) \<ge> rc_capacity c then (c, ReplayCapacityReached)
         else (c\<lparr>rc_entries := rc_entries c @ [key],
                rc_accounts := AList.update accountID (account_count c accountID + 1) (rc_accounts c),
                rc_expirations := rc_expirations c @ [(key, now + rc_ttl c)]\<rparr>, ReplayAccepted))"

section \<open>The interface of a replay guard\<close>

text \<open>
  A guard is asked for a key at a time and accepts it or not; it remembers until when an
  accepted key is protected. The client may conclude that no key is accepted twice within
  the lifetime, in any sequence of requests with a clock that does not go back.
\<close>

primrec run_guard :: "('c \<Rightarrow> 'k \<Rightarrow> time \<Rightarrow> 'c \<times> bool) \<Rightarrow> 'c \<Rightarrow> ('k \<times> time) list \<Rightarrow> bool list" where
  "run_guard check c [] = []"
| "run_guard check c (r # rs) =
     snd (check c (fst r) (snd r)) # run_guard check (fst (check c (fst r) (snd r))) rs"

locale replay_guard =
  fixes check :: "'c \<Rightarrow> 'k \<Rightarrow> time \<Rightarrow> 'c \<times> bool"
    and expiry :: "'c \<Rightarrow> 'k \<Rightarrow> time option"
    and inv :: "'c \<Rightarrow> bool"
    and ttl :: duration
  assumes inv_check: "inv c \<Longrightarrow> inv (fst (check c k t))"
    and expiry_accept: "\<lbrakk>inv c; snd (check c k t)\<rbrakk> \<Longrightarrow> expiry (fst (check c k t)) k = Some (t + ttl)"
    and expiry_keep: "\<lbrakk>inv c; expiry c k = Some e; t < e\<rbrakk> \<Longrightarrow> expiry (fst (check c k' t)) k = Some e"
    and live_reject: "\<lbrakk>inv c; expiry c k = Some e; t < e\<rbrakk> \<Longrightarrow> \<not> snd (check c k t)"
begin

lemma run_length: "length (run_guard check c rs) = length rs"
  by (induction rs arbitrary: c) simp_all

lemma run_take: "run_guard check c (take n rs) = take n (run_guard check c rs)"
proof (induction rs arbitrary: c n)
  case (Cons r rs)
  then show ?case by (cases n) simp_all
qed simp

lemma live_rejected_later:
  "\<lbrakk>inv c; expiry c k = Some e; \<forall>r \<in> set rs. snd r < e; j < length rs; fst (rs ! j) = k\<rbrakk>
    \<Longrightarrow> \<not> run_guard check c rs ! j"
proof (induction rs arbitrary: c j)
  case (Cons r rs)
  show ?case
  proof (cases j)
    case 0
    then show ?thesis using Cons.prems live_reject by auto
  next
    case (Suc i)
    have "expiry (fst (check c (fst r) (snd r))) k = Some e"
      using Cons.prems by (intro expiry_keep) auto
    then show ?thesis
      using Cons.IH [of "fst (check c (fst r) (snd r))" i] Cons.prems Suc inv_check by simp
  qed
qed simp

lemma no_double_accept:
  "\<lbrakk>inv c; sorted (map snd rs); i < j; j < length rs; fst (rs ! i) = fst (rs ! j);
     run_guard check c rs ! i; run_guard check c rs ! j\<rbrakk>
    \<Longrightarrow> snd (rs ! i) + ttl \<le> snd (rs ! j)"
proof (induction rs arbitrary: c i j)
  case (Cons r rs)
  obtain j' where j: "j = Suc j'" using Cons.prems(3) by (cases j) auto
  let ?c = "fst (check c (fst r) (snd r))"
  show ?case
  proof (cases i)
    case (Suc i')
    then show ?thesis
      using Cons.IH [of ?c i' j'] Cons.prems inv_check j by simp
  next
    case 0
    show ?thesis
    proof (rule ccontr)
      assume early: "\<not> ?thesis"
      have "expiry ?c (fst r) = Some (snd r + ttl)"
        using expiry_accept Cons.prems(1,6) 0 by simp
      moreover have "\<forall>x \<in> set (take (Suc j') rs). snd x < snd r + ttl"
      proof
        fix x assume "x \<in> set (take (Suc j') rs)"
        then obtain l where l: "l \<le> j'" "l < length rs" "x = rs ! l"
          by (auto simp: in_set_conv_nth less_Suc_eq_le)
        then have "snd (rs ! l) \<le> snd (rs ! j')"
          using Cons.prems(2,4) j sorted_nth_mono [of "map snd rs" l j'] by simp
        then show "snd x < snd r + ttl" using early 0 j l(3) by simp
      qed
      moreover have "run_guard check ?c (take (Suc j') rs) ! j' = run_guard check ?c rs ! j'"
        using run_take [of ?c "Suc j'" rs] Cons.prems(4) j by (simp add: run_length)
      ultimately show False
        using live_rejected_later [of ?c "fst r" "snd r + ttl" "take (Suc j') rs" j']
          inv_check [OF Cons.prems(1)] Cons.prems j 0 by simp
    qed
  qed
qed simp

end

section \<open>The cache is a replay guard\<close>

definition live_of :: "(replay_key \<times> time) list \<Rightarrow> string \<Rightarrow> int" where
  "live_of es a = int (length (filter (\<lambda>e. fst (fst e) = a) es))"

definition replay_inv :: "replay_cache \<Rightarrow> bool" where
  "replay_inv c =
     (set (rc_entries c) = fst ` set (rc_expirations c) \<and>
      distinct (map fst (rc_expirations c)) \<and> distinct (rc_entries c) \<and>
      (\<forall>a. account_count c a = live_of (rc_expirations c) a) \<and>
      length (rc_entries c) \<le> rc_capacity c \<and>
      (\<forall>a. account_count c a \<le> int (rc_accountCapacity c)))"

lemma account_count_drop:
  "account_count (drop_front key rest c) a =
     (if a = fst key then account_count c a - 1 else account_count c a)"
  by (auto simp: drop_front_def account_count_def Let_def update_conv' delete_conv'
      split: option.splits)

lemma drop_front_fields [simp]:
  "rc_expirations (drop_front key rest c) = rest" "rc_ttl (drop_front key rest c) = rc_ttl c"
  "rc_entries (drop_front key rest c) = removeAll key (rc_entries c)"
  "rc_capacity (drop_front key rest c) = rc_capacity c"
  "rc_accountCapacity (drop_front key rest c) = rc_accountCapacity c"
  by (simp_all add: drop_front_def Let_def)

lemma live_of_Cons: "live_of (e # es) a = live_of es a + (if fst (fst e) = a then 1 else 0)"
  by (simp add: live_of_def)

lemma drop_front_inv:
  assumes inv: "replay_inv c" and es: "rc_expirations c = (key, t) # es"
  shows "replay_inv (drop_front key es c)"
proof -
  have counts: "account_count (drop_front key es c) a = live_of es a" for a
    using inv by (auto simp: replay_inv_def es account_count_drop live_of_Cons)
  have "account_count (drop_front key es c) a \<le> int (rc_accountCapacity c)" for a
  proof -
    have "account_count c a \<le> int (rc_accountCapacity c)" using inv unfolding replay_inv_def by blast
    then show ?thesis by (auto simp: account_count_drop)
  qed
  moreover have "length (rc_entries c) \<le> rc_capacity c" using inv unfolding replay_inv_def by blast
  then have "length (removeAll key (rc_entries c)) \<le> rc_capacity c"
    by (rule le_trans [OF length_removeAll_less_eq])
  ultimately show ?thesis
    using inv counts by (auto simp: replay_inv_def es distinct_removeAll)
qed

lemma expire_loop_props:
  assumes "replay_inv c" and "rc_expirations c = es"
  shows "replay_inv (expire_loop now es c) \<and> rc_ttl (expire_loop now es c) = rc_ttl c \<and>
    rc_accountCapacity (expire_loop now es c) = rc_accountCapacity c \<and>
    rc_capacity (expire_loop now es c) = rc_capacity c \<and>
    (\<forall>k e. map_of es k = Some e \<and> now < e \<longrightarrow> map_of (rc_expirations (expire_loop now es c)) k = Some e)"
  using assms
proof (induction now es c rule: expire_loop.induct)
  case (2 now key t es c)
  show ?case
  proof (cases "now < t")
    case True
    then show ?thesis using 2 by auto
  next
    case False
    have "key \<notin> fst ` set es" using 2(2,3) by (auto simp: replay_inv_def)
    then show ?thesis
      using 2(1) [OF False drop_front_inv [OF 2(2,3)]] False by auto
  qed
qed simp

lemma expire_props:
  assumes "replay_inv c"
  shows "replay_inv (expire now c)" "rc_ttl (expire now c) = rc_ttl c"
    "rc_capacity (expire now c) = rc_capacity c"
    "rc_accountCapacity (expire now c) = rc_accountCapacity c"
    "map_of (rc_expirations c) k = Some e \<Longrightarrow> now < e \<Longrightarrow> map_of (rc_expirations (expire now c)) k = Some e"
  using expire_loop_props [OF assms refl, of now] by (cases k; simp add: expire_def)+

lemma checkAndStore_inv:
  assumes "replay_inv c"
  shows "replay_inv (fst (checkAndStore a r now c))" "rc_ttl (fst (checkAndStore a r now c)) = rc_ttl c"
    "rc_capacity (fst (checkAndStore a r now c)) = rc_capacity c"
    "rc_accountCapacity (fst (checkAndStore a r now c)) = rc_accountCapacity c"
proof -
  let ?e = "expire now c"
  note e = expire_props [OF assms, where now = now]
  have counts: "account_count (?e\<lparr>rc_entries := x, rc_accounts := AList.update a n (rc_accounts ?e),
      rc_expirations := y\<rparr>) b = (if b = a then n else account_count ?e b)" for x y n b
    by (simp add: account_count_def update_conv')
  show "replay_inv (fst (checkAndStore a r now c))"
    using e(1) unfolding checkAndStore_def Let_def
    by (auto simp: replay_inv_def counts live_of_def e(3,4))
qed (use expire_props [OF assms] in \<open>simp_all add: checkAndStore_def Let_def\<close>)

definition replay_check :: "replay_cache \<Rightarrow> replay_key \<Rightarrow> time \<Rightarrow> replay_cache \<times> bool" where
  "replay_check c k t =
     (let (c', r) = checkAndStore (fst k) (snd k) t c in (c', r = ReplayAccepted))"

definition replay_expiry :: "replay_cache \<Rightarrow> replay_key \<Rightarrow> time option" where
  "replay_expiry c k = map_of (rc_expirations c) k"

lemma fst_replay_check: "fst (replay_check c k t) = fst (checkAndStore (fst k) (snd k) t c)"
  by (simp add: replay_check_def case_prod_unfold Let_def)

lemma accepted_new:
  assumes "replay_inv c" and "snd (checkAndStore a r t c) = ReplayAccepted"
  shows "rc_expirations (fst (checkAndStore a r t c)) = rc_expirations (expire t c) @ [((a, r), t + rc_ttl c)]"
    and "(a, r) \<notin> fst ` set (rc_expirations (expire t c))"
  using assms expire_props(1,2) [OF assms(1), where now = t]
  by (auto simp: checkAndStore_def Let_def replay_inv_def split: if_splits)

lemma expirations_keep:
  assumes "replay_inv c" and "map_of (rc_expirations c) k = Some e" and "t < e"
  shows "map_of (rc_expirations (fst (checkAndStore a r t c))) k = Some e"
  using expire_props(5) [OF assms] by (auto simp: checkAndStore_def Let_def map_add_def)

lemma live_duplicate:
  assumes "replay_inv c" and "map_of (rc_expirations c) (a, r) = Some e" and "t < e"
  shows "snd (checkAndStore a r t c) = ReplayDuplicate"
proof -
  have "(a, r) \<in> fst ` set (rc_expirations (expire t c))"
    using expire_props(5) [OF assms] by (metis fst_conv image_eqI map_of_SomeD)
  then have "(a, r) \<in> set (rc_entries (expire t c))"
    using expire_props(1) [OF assms(1), where now = t] by (simp add: replay_inv_def)
  then show ?thesis by (simp add: checkAndStore_def)
qed

interpretation rg: replay_guard replay_check replay_expiry
  "\<lambda>c. replay_inv c \<and> rc_ttl c = ttl" ttl for ttl
proof
  fix c k t k' e
  assume inv: "replay_inv c \<and> rc_ttl c = ttl"
  show "replay_inv (fst (replay_check c k t)) \<and> rc_ttl (fst (replay_check c k t)) = ttl"
    using inv checkAndStore_inv by (simp add: fst_replay_check)
  show "replay_expiry (fst (replay_check c k t)) k = Some (t + ttl)" if acc: "snd (replay_check c k t)"
  proof -
    obtain a r where k: "k = (a, r)" by (cases k)
    have "snd (checkAndStore a r t c) = ReplayAccepted"
      using acc by (simp add: replay_check_def k case_prod_unfold Let_def)
    note n = accepted_new [OF conjunct1 [OF inv] this]
    have "map_of (rc_expirations (expire t c)) (a, r) = None" using n(2) by (simp add: map_of_eq_None_iff)
    then show ?thesis using n(1) inv by (simp add: replay_expiry_def fst_replay_check k map_add_def)
  qed
  assume e: "replay_expiry c k = Some e" "t < e"
  show "replay_expiry (fst (replay_check c k' t)) k = Some e"
    using inv e expirations_keep [of c k e t] by (simp add: replay_expiry_def fst_replay_check)
  show "\<not> snd (replay_check c k t)"
    using inv e live_duplicate [of c "fst k" "snd k" e t]
    by (simp add: replay_check_def replay_expiry_def case_prod_unfold Let_def)
qed

section \<open>Properties\<close>

lemma new_cache_inv: "replay_inv (newConfidentialReplayCache ttl cap)"
  by (simp add: replay_inv_def newConfidentialReplayCache_def account_count_def live_of_def)

text \<open>A sequence of requests: account, request id, and the clock at the cache.\<close>

fun run_cache :: "replay_cache \<Rightarrow> (replay_key \<times> time) list \<Rightarrow> replay_cache \<times> replay_result list" where
  "run_cache c [] = (c, [])"
| "run_cache c ((k, t) # rs) =
     (let (c1, res) = checkAndStore (fst k) (snd k) t c; (c2, rest) = run_cache c1 rs in (c2, res # rest))"

lemma run_cache_guard:
  "map (\<lambda>r. r = ReplayAccepted) (snd (run_cache c rs)) = run_guard replay_check c rs"
  by (induction rs arbitrary: c) (auto simp: replay_check_def case_prod_unfold Let_def)

lemma run_cache_length: "length (snd (run_cache c rs)) = length rs"
  by (induction rs arbitrary: c) (auto simp: case_prod_unfold Let_def)

lemma run_cache_inv:
  "replay_inv c \<Longrightarrow> replay_inv (fst (run_cache c rs)) \<and> rc_capacity (fst (run_cache c rs)) = rc_capacity c \<and>
    rc_accountCapacity (fst (run_cache c rs)) = rc_accountCapacity c"
  by (induction rs arbitrary: c) (auto simp: case_prod_unfold Let_def checkAndStore_inv)

text \<open>
  No confidential request is processed twice. In any sequence of requests with a clock
  that does not go back, two requests of one account with the same id are both accepted only
  if the cache's lifetime passed between them.
\<close>

theorem replay_never_accepted_twice:
  assumes "sorted (map snd rs)" and "i < j" and "j < length rs" and "fst (rs ! i) = fst (rs ! j)"
    and "snd (run_cache (newConfidentialReplayCache ttl cap) rs) ! i = ReplayAccepted"
    and "snd (run_cache (newConfidentialReplayCache ttl cap) rs) ! j = ReplayAccepted"
  shows "snd (rs ! i) + ttl \<le> snd (rs ! j)"
proof (rule rg.no_double_accept [of "newConfidentialReplayCache ttl cap"])
  show "replay_inv (newConfidentialReplayCache ttl cap) \<and> rc_ttl (newConfidentialReplayCache ttl cap) = ttl"
    by (simp add: new_cache_inv) (simp add: newConfidentialReplayCache_def)
qed (use assms run_cache_guard [of "newConfidentialReplayCache ttl cap" rs] run_cache_length in
      \<open>auto simp flip: run_cache_guard\<close>)

theorem replay_never_accepted_twice_witness:
  "snd (run_cache (newConfidentialReplayCache 180 10)
      [((''a'', ''1''), 5), ((''a'', ''1''), 184), ((''a'', ''1''), 185)])
     = [ReplayAccepted, ReplayDuplicate, ReplayAccepted] \<and> (5::int) + 180 \<le> 185"
proof -
  let ?rs = "[((''a'', ''1''), 5), ((''a'', ''1''), 184), ((''a'', ''1''), 185 :: int)]"
  have r: "snd (run_cache (newConfidentialReplayCache 180 10) ?rs)
      = [ReplayAccepted, ReplayDuplicate, ReplayAccepted]"
    by (simp add: checkAndStore_def expire_def newConfidentialReplayCache_def account_count_def
        confidentialReplayAccountCapacity_def drop_front_def Let_def)
  have "snd (?rs ! 0) + 180 \<le> snd (?rs ! 2)"
    by (rule replay_never_accepted_twice [where cap = 10]) (simp_all add: r del: run_cache.simps)
  then show ?thesis using r by simp
qed

text \<open>
  The cache stays bounded. After any sequence of requests it holds at most its capacity
  of entries, no account holds more than its share, and the counters are exact: an account's
  counter is the number of its live entries.
\<close>

theorem replay_cache_bounded:
  "length (rc_entries (fst (run_cache (newConfidentialReplayCache ttl cap) rs))) \<le> cap \<and>
   live_of (rc_expirations (fst (run_cache (newConfidentialReplayCache ttl cap) rs))) a
     \<le> int (min cap confidentialReplayAccountCapacity) \<and>
   account_count (fst (run_cache (newConfidentialReplayCache ttl cap) rs)) a
     = live_of (rc_expirations (fst (run_cache (newConfidentialReplayCache ttl cap) rs))) a"
proof -
  let ?c = "fst (run_cache (newConfidentialReplayCache ttl cap) rs)"
  note i = run_cache_inv [OF new_cache_inv, of ttl cap rs]
  have caps: "rc_capacity ?c = cap" "rc_accountCapacity ?c = min cap confidentialReplayAccountCapacity"
    using i by (simp_all add: newConfidentialReplayCache_def)
  have "account_count ?c a = live_of (rc_expirations ?c) a" "length (rc_entries ?c) \<le> rc_capacity ?c"
    "account_count ?c a \<le> int (rc_accountCapacity ?c)"
    using i unfolding replay_inv_def by blast+
  then show ?thesis using caps by simp
qed

end
