(* ===== verification/Confidential.thy ===== *)
theory Confidential
  imports Replay "HOL-Library.Word"
begin

text \<open>
  The confidential chat endpoint (\<open>handlers/confidential_chat_completions_handler.go\<close>):
  the guards before the encrypted-body middleware, the framing check on the encrypted body,
  and the handler of the decrypted envelope with its freshness and replay checks. The
  middleware itself, the authentication service, the JSON codec and the parsers of times
  and UUIDs are parameters. Also \<open>ExtractBearerToken\<close> of \<open>handlers/common.go\<close>.
\<close>

section \<open>Bearer tokens\<close>

definition ExtractBearerToken :: "string \<Rightarrow> gateway_error + string" where
  "ExtractBearerToken auth =
     (if auth = [] then Inl (ErrInvalidAPIKey ''missing Authorization header'')
      else if length auth < 8 \<or> take 7 auth \<noteq> ''Bearer '' then
        Inl (ErrInvalidAPIKey (''malformed Authorization header, expected '' @ quoted ''Bearer <token>''))
      else if drop 7 auth = [] then Inl (ErrInvalidAPIKey ''empty bearer token'')
      else Inr (drop 7 auth))"

lemma ExtractBearerToken_iff:
  "ExtractBearerToken auth = Inr token \<longleftrightarrow> auth = ''Bearer '' @ token \<and> token \<noteq> []"
proof
  assume "ExtractBearerToken auth = Inr token"
  then have t: "take 7 auth = ''Bearer ''" "drop 7 auth = token" "token \<noteq> []"
    by (auto simp: ExtractBearerToken_def split: if_splits)
  then show "auth = ''Bearer '' @ token \<and> token \<noteq> []" using append_take_drop_id [of 7 auth] by simp
next
  assume "auth = ''Bearer '' @ token \<and> token \<noteq> []"
  then show "ExtractBearerToken auth = Inr token"
    by (cases token) (auto simp: ExtractBearerToken_def)
qed

section \<open>The key header\<close>

definition hex_val :: "char \<Rightarrow> nat option" where
  "hex_val c =
     (if is_digit c then Some (byte c - 48)
      else if 97 \<le> byte c \<and> byte c \<le> 102 then Some (byte c - 87)
      else if 65 \<le> byte c \<and> byte c \<le> 70 then Some (byte c - 55)
      else None)"

definition hex_digit :: "nat \<Rightarrow> char" where
  "hex_digit n = (if n < 10 then char_of (48 + n) else char_of (87 + n))"

text \<open>\<open>hex.DecodeString\<close> and \<open>hex.EncodeToString\<close>; a byte is its two digits.\<close>

fun hex_decode :: "string \<Rightarrow> (nat \<times> nat) list option" where
  "hex_decode [] = Some []"
| "hex_decode [c] = None"
| "hex_decode (c # d # s) =
     (case (hex_val c, hex_val d, hex_decode s) of
        (Some a, Some b, Some bs) \<Rightarrow> Some ((a, b) # bs)
      | _ \<Rightarrow> None)"

definition hex_encode :: "(nat \<times> nat) list \<Rightarrow> string" where
  "hex_encode bs = concat (map (\<lambda>(a, b). [hex_digit a, hex_digit b]) bs)"

definition isCanonicalEHBPKey :: "string \<Rightarrow> bool" where
  "isCanonicalEHBPKey encoded =
     (length encoded = 64 \<and>
      (case hex_decode encoded of
         None \<Rightarrow> False
       | Some decoded \<Rightarrow> length decoded = 32 \<and> hex_encode decoded = encoded))"

definition lower_hex :: "char \<Rightarrow> bool" where
  "lower_hex c = (is_digit c \<or> 97 \<le> byte c \<and> byte c \<le> 102)"

lemma hex_digit_val: "hex_val c = Some n \<Longrightarrow> (hex_digit n = c) = lower_hex c"
proof -
  assume h: "hex_val c = Some n"
  have lt: "byte c < 256" by simp
  consider (d) "48 \<le> byte c" "byte c \<le> 57" "n = byte c - 48"
    | (l) "97 \<le> byte c" "byte c \<le> 102" "n = byte c - 87"
    | (u) "65 \<le> byte c" "byte c \<le> 70" "n = byte c - 55"
    using h by (auto simp: hex_val_def is_digit_def split: if_splits)
  then show ?thesis
  proof cases
    case d
    then have "n < 10" "48 + n = byte c" by simp_all
    then have "hex_digit n = char_of (byte c)" by (simp add: hex_digit_def)
    then show ?thesis using d by (simp add: lower_hex_def is_digit_def)
  next
    case l
    then have "\<not> n < 10" "87 + n = byte c" by simp_all
    then have "hex_digit n = char_of (byte c)" by (simp add: hex_digit_def)
    then show ?thesis using l by (simp add: lower_hex_def)
  next
    case u
    then have "\<not> n < 10" "87 + n = byte c + 32" by simp_all
    then have "hex_digit n = char_of (byte c + 32)" by (simp only: hex_digit_def if_False)
    moreover have "byte (char_of (byte c + 32) :: char) = byte c + 32" using u by simp
    ultimately have "hex_digit n \<noteq> c" by (metis add_eq_self_zero zero_neq_numeral)
    moreover have "\<not> lower_hex c" using u by (simp add: lower_hex_def is_digit_def)
    ultimately show ?thesis by simp
  qed
qed

lemma hex_roundtrip:
  "(case hex_decode s of None \<Rightarrow> False | Some bs \<Rightarrow> hex_encode bs = s)
    \<longleftrightarrow> even (length s) \<and> list_all lower_hex s"
proof (induction s rule: hex_decode.induct)
  case (3 c d s)
  have lower: "lower_hex x \<Longrightarrow> hex_val x \<noteq> None" for x
    by (auto simp: lower_hex_def hex_val_def)
  show ?case
    using 3 lower [of c] lower [of d]
    by (auto simp: hex_encode_def hex_digit_val split: option.splits)
qed (simp_all add: hex_encode_def)

lemma hex_decode_length: "hex_decode s = Some bs \<Longrightarrow> length s = 2 * length bs"
  by (induction s arbitrary: bs rule: hex_decode.induct) (auto split: option.splits)

lemma isCanonicalEHBPKey_iff: "isCanonicalEHBPKey s \<longleftrightarrow> length s = 64 \<and> list_all lower_hex s"
  using hex_roundtrip [of s] hex_decode_length [of s]
  by (auto simp: isCanonicalEHBPKey_def split: option.splits)

section \<open>Guards before decryption\<close>

definition confidentialMaxEHBPFrame :: nat where "confidentialMaxEHBPFrame = 1 * 1024 * 1024 + 16"
definition confidentialMaxEHBPBody :: nat where "confidentialMaxEHBPBody = 16 * 1024 * 1024"
definition maxRequestBodySize :: nat where "maxRequestBodySize = 10 * 1024 * 1024"
definition confidentialEnvelopeLimit :: nat where
  "confidentialEnvelopeLimit = maxRequestBodySize + 64 * 1024"

text \<open>
  \<open>Handle\<close>: an error, or the request goes on to the middleware behind the framing check.
  The arguments are whether there is a body, its declared length and the key headers.
\<close>

definition confidential_Handle :: "bool \<Rightarrow> int \<Rightarrow> string list \<Rightarrow> gateway_error option" where
  "confidential_Handle has_body contentLength encapsulatedKeys =
     (if \<not> has_body \<or> contentLength = 0 then Some (ErrInvalidField ''confidential request body is required'')
      else if encapsulatedKeys = [] then
        Some (ErrInvalidField ''confidential endpoint requires an EHBP-encrypted body'')
      else if length encapsulatedKeys \<noteq> 1 \<or> \<not> isCanonicalEHBPKey (encapsulatedKeys ! 0) then
        Some (ErrInvalidField ''invalid EHBP encapsulated key header'')
      else if contentLength > int confidentialMaxEHBPBody then
        Some (ErrInvalidField ''encrypted request body exceeds the maximum size'')
      else None)"

text \<open>Plaintext never reaches the middleware, which would pass it on.\<close>

lemma confidential_Handle_strict:
  "confidential_Handle has_body len keys = None \<longleftrightarrow>
     has_body \<and> len \<noteq> 0 \<and> len \<le> int confidentialMaxEHBPBody \<and>
     (\<exists>k. keys = [k] \<and> length k = 64 \<and> list_all lower_hex k)"
  by (auto simp: confidential_Handle_def isCanonicalEHBPKey_iff length_Suc_conv split: if_splits)

section \<open>Framing of the encrypted body\<close>

text \<open>
  \<open>validatedEHBPBody\<close> checks the length prefix of every frame before the middleware reads
  it. The source is an \<open>io.Reader\<close>: the pieces in which its data arrives, each with the error
  it returns along with the piece; at the end it returns EOF.
\<close>

datatype read_err = EOF | UnexpectedEOF | NoProgress | ReadErr string

type_synonym source = "(string \<times> read_err option) list"

fun src_read :: "nat \<Rightarrow> source \<Rightarrow> string \<times> read_err option \<times> source" where
  "src_read limit [] = ([], Some EOF, [])"
| "src_read limit ((d, e) # rest) =
     (if length d \<le> limit then (d, e, rest) else (take limit d, None, (drop limit d, e) # rest))"

text \<open>\<open>io.ReadFull\<close> of \<open>n\<close> bytes: an EOF after some bytes is unexpected.\<close>

fun read_full :: "nat \<Rightarrow> string \<Rightarrow> source \<Rightarrow> string \<times> read_err option \<times> source" where
  "read_full n got [] = (if n \<le> length got then (got, None, []) else (got, Some (if got = [] then EOF else UnexpectedEOF), []))"
| "read_full n got ((d, e) # rest) =
     (if n \<le> length got then (got, None, (d, e) # rest)
      else if length d \<ge> n - length got then
        (got @ take (n - length got) d, None,
         if drop (n - length got) d = [] \<and> e = None then rest else (drop (n - length got) d, e) # rest)
      else case e of
             None \<Rightarrow> read_full n (got @ d) rest
           | Some EOF \<Rightarrow> (got @ d, Some (if got @ d = [] then EOF else UnexpectedEOF), rest)
           | Some err \<Rightarrow> (got @ d, Some err, rest))"

record ehbp_body =
  eb_source :: source
  eb_maxFrame :: "32 word"
  eb_maxBody :: "64 word"
  eb_wireSize :: "64 word"
  eb_prefix :: string
  eb_prefixOffset :: nat
  eb_frameRemaining :: "32 word"

definition newValidatedEHBPBody :: "source \<Rightarrow> nat \<Rightarrow> nat \<Rightarrow> ehbp_body" where
  "newValidatedEHBPBody source maxFrame maxBody =
     \<lparr>eb_source = source, eb_maxFrame = of_nat maxFrame, eb_maxBody = of_nat maxBody,
      eb_wireSize = 0, eb_prefix = replicate 4 (CHR 0x00), eb_prefixOffset = 4, eb_frameRemaining = 0\<rparr>"

text \<open>\<open>binary.BigEndian.Uint32\<close>.\<close>

definition be_uint32 :: "string \<Rightarrow> 32 word" where
  "be_uint32 s = of_nat (foldl (\<lambda>n c. n * 256 + byte c) 0 s)"

definition ehbp_Read :: "nat \<Rightarrow> ehbp_body \<Rightarrow> ehbp_body \<times> string \<times> read_err option" where
  "ehbp_Read plen r =
     (if plen = 0 then (r, [], None)
      else if eb_prefixOffset r < 4 then
        (let out = take plen (drop (eb_prefixOffset r) (eb_prefix r))
         in (r\<lparr>eb_prefixOffset := eb_prefixOffset r + length out\<rparr>, out, None))
      else if eb_frameRemaining r > 0 then
        (let limit = min plen (unat (eb_frameRemaining r));
             (d, err, src) = src_read limit (eb_source r);
             left = eb_frameRemaining r - of_nat (length d);
             r' = r\<lparr>eb_source := src, eb_frameRemaining := left\<rparr>
         in if d = [] \<and> err = None then (r', [], Some NoProgress)
            else if err = Some EOF \<and> left > 0 then (r', d, Some UnexpectedEOF)
            else (r', d, err))
      else
        (let (p, err, src) = read_full 4 [] (eb_source r)
         in case err of
              Some e \<Rightarrow> (r\<lparr>eb_source := src, eb_prefix := p @ drop (length p) (eb_prefix r)\<rparr>, [], Some e)
            | None \<Rightarrow>
                (let r1 = r\<lparr>eb_source := src, eb_prefix := p\<rparr>;
                     frameSize = be_uint32 p;
                     declared = 4 + ucast frameSize
                 in if frameSize = 0 then (r1, [], Some (ReadErr ''EHBP frame must not be empty''))
                    else if frameSize > eb_maxFrame r then
                      (r1, [], Some (ReadErr ''EHBP frame exceeds the maximum size''))
                    else if declared > eb_maxBody r - eb_wireSize r then
                      (r1, [], Some (ReadErr ''EHBP body exceeds the maximum size''))
                    else (r1\<lparr>eb_wireSize := eb_wireSize r + declared,
                             eb_frameRemaining := frameSize,
                             eb_prefixOffset := min plen 4\<rparr>,
                          take plen p, None))))"

text \<open>The bytes a sequence of reads returns, with buffers of the given sizes.\<close>

fun ehbp_reads :: "nat list \<Rightarrow> ehbp_body \<Rightarrow> ehbp_body \<times> string" where
  "ehbp_reads [] r = (r, [])"
| "ehbp_reads (n # ns) r =
     (let (r1, out, err) = ehbp_Read n r; (r2, rest) = ehbp_reads ns r1 in (r2, out @ rest))"

definition ehbp_inv :: "nat \<Rightarrow> ehbp_body \<Rightarrow> bool" where
  "ehbp_inv delivered r =
     (unat (eb_wireSize r) \<le> unat (eb_maxBody r) \<and> eb_prefixOffset r \<le> 4 \<and> length (eb_prefix r) = 4 \<and>
      delivered + (4 - eb_prefixOffset r) + unat (eb_frameRemaining r) = unat (eb_wireSize r))"

lemma src_read_length: "src_read limit src = (d, e, src') \<Longrightarrow> length d \<le> limit"
  by (cases src) (auto split: if_splits)

lemma read_full_length:
  "length got \<le> n \<Longrightarrow> read_full n got src = (p, e, src') \<Longrightarrow>
    length p \<le> n \<and> (e = None \<longrightarrow> length p = n)"
proof (induction src arbitrary: got)
  case Nil
  then show ?case by (auto split: if_splits)
next
  case (Cons x src)
  obtain d f where x: "x = (d, f)" by (cases x)
  show ?case
  proof (cases "n \<le> length got \<or> n - length got \<le> length d")
    case True
    then show ?thesis using Cons.prems by (auto simp: x split: if_splits)
  next
    case False
    then have "length got + length d \<le> n" by linarith
    then have len: "length (got @ d) \<le> n" by simp
    show ?thesis
    proof (cases f)
      case None
      then show ?thesis using Cons.IH [OF len] Cons.prems False by (simp add: x)
    next
      case (Some err)
      then show ?thesis using Cons.prems False len by (cases err) (auto simp: x split: if_splits)
    qed
  qed
qed

lemma word32_bound: "unat (w :: 32 word) < 2 ^ 32"
  using unsigned_less [of w] by simp

lemma word64_bound: "unat (w :: 64 word) < 2 ^ 64"
  using unsigned_less [of w] by simp

lemma unat_declared: "unat (4 + ucast (w :: 32 word) :: 64 word) = 4 + unat w"
proof -
  have "unat w < 2 ^ 32" using word32_bound [of w] by simp
  then show ?thesis by (simp add: unat_word_ariths unsigned_ucast_eq take_bit_nat_eq_self)
qed

lemma unat_take_frame:
  assumes "length d \<le> unat (w :: 32 word)"
  shows "unat (w - of_nat (length d)) = unat w - length d"
proof -
  have "length d < 2 ^ 32" using assms word32_bound [of w] by simp
  then have "unat (of_nat (length d) :: 32 word) = length d" by (simp add: unsigned_of_nat take_bit_nat_eq_self)
  then show ?thesis using assms by (simp add: unat_sub word_le_nat_alt)
qed

lemma ehbp_Read_inv:
  assumes inv: "ehbp_inv n r" and read: "ehbp_Read plen r = (r', out, err)"
  shows "ehbp_inv (n + length out) r' \<and> eb_maxBody r' = eb_maxBody r"
proof -
  consider (none) "plen = 0" | (prefix) "plen > 0" "eb_prefixOffset r < 4"
    | (data) "plen > 0" "eb_prefixOffset r = 4" "eb_frameRemaining r > 0"
    | (frame) "plen > 0" "eb_prefixOffset r = 4" "eb_frameRemaining r = 0"
    using inv by (auto simp: ehbp_inv_def word_gt_0 le_less)
  then show ?thesis
  proof cases
    case prefix
    then show ?thesis using inv read by (auto simp: ehbp_Read_def ehbp_inv_def Let_def)
  next
    case data
    obtain d e src where s: "src_read (min plen (unat (eb_frameRemaining r))) (eb_source r) = (d, e, src)"
      by (cases "src_read (min plen (unat (eb_frameRemaining r))) (eb_source r)") auto
    have len: "length d \<le> unat (eb_frameRemaining r)" using src_read_length [OF s] by simp
    have "r' = r\<lparr>eb_source := src, eb_frameRemaining := eb_frameRemaining r - of_nat (length d)\<rparr> \<and> out = d"
      using read data s by (auto simp: ehbp_Read_def Let_def split: if_splits)
    then show ?thesis
      using inv data len by (auto simp: ehbp_inv_def unat_take_frame)
  next
    case frame
    obtain p e src where s: "read_full 4 [] (eb_source r) = (p, e, src)"
      by (cases "read_full 4 [] (eb_source r)") auto
    note len = read_full_length [OF _ s, simplified]
    show ?thesis
    proof (cases e)
      case (Some x)
      then show ?thesis
        using read frame s len inv by (auto simp: ehbp_Read_def ehbp_inv_def Let_def)
    next
      case None
      then have p: "length p = 4" using len by simp
      let ?d = "4 + ucast (be_uint32 p) :: 64 word"
      consider (bad) e' where "r' = r\<lparr>eb_source := src, eb_prefix := p\<rparr>" "out = []" "err = Some e'"
        | (ok) "?d \<le> eb_maxBody r - eb_wireSize r" "out = take plen p"
          "r' = r\<lparr>eb_source := src, eb_prefix := p, eb_wireSize := eb_wireSize r + ?d,
                  eb_frameRemaining := be_uint32 p, eb_prefixOffset := min plen 4\<rparr>"
        using read frame s None by (auto simp: ehbp_Read_def Let_def not_less split: if_splits)
      then show ?thesis
      proof cases
        case bad
        then show ?thesis using inv frame p by (simp add: ehbp_inv_def)
      next
        case ok
        have "unat ?d \<le> unat (eb_maxBody r) - unat (eb_wireSize r)"
          using ok(1) inv by (simp add: word_le_nat_alt unat_sub ehbp_inv_def)
        moreover have "unat (eb_wireSize r) \<le> unat (eb_maxBody r)" using inv by (simp add: ehbp_inv_def)
        ultimately have sum: "unat (eb_wireSize r) + unat ?d \<le> unat (eb_maxBody r)" by linarith
        then have "unat (eb_wireSize r) + unat ?d < 2 ^ 64"
          using word64_bound [of "eb_maxBody r"] by simp
        then have "unat (eb_wireSize r + ?d) = unat (eb_wireSize r) + unat ?d"
          by (simp add: unat_word_ariths)
        then show ?thesis
          using inv frame ok(2,3) p sum by (auto simp: ehbp_inv_def unat_declared)
      qed
    qed
  qed (use inv read in \<open>simp add: ehbp_Read_def\<close>)
qed

lemma ehbp_reads_inv:
  "ehbp_inv n r \<Longrightarrow> ehbp_inv (n + length (snd (ehbp_reads ns r))) (fst (ehbp_reads ns r)) \<and>
    eb_maxBody (fst (ehbp_reads ns r)) = eb_maxBody r"
proof (induction ns arbitrary: n r)
  case (Cons k ns)
  obtain r1 out err where r: "ehbp_Read k r = (r1, out, err)" by (cases "ehbp_Read k r") auto
  have inv: "ehbp_inv (n + length out) r1" "eb_maxBody r1 = eb_maxBody r"
    using ehbp_Read_inv [OF Cons.prems r] by blast+
  show ?case using Cons.IH [OF inv(1)] inv(2) by (simp add: r case_prod_unfold Let_def add.assoc)
qed simp

text \<open>
  The encrypted body is bounded before it is decrypted. Whatever the client sends and
  however the middleware reads it, the framing check passes on at most
  \<open>confidentialMaxEHBPBody\<close> bytes, with frame headers and payload counted in 64-bit words
  that do not wrap.
\<close>

theorem ehbp_body_bounded:
  "length (snd (ehbp_reads ns (newValidatedEHBPBody src confidentialMaxEHBPFrame confidentialMaxEHBPBody)))
    \<le> confidentialMaxEHBPBody"
proof -
  let ?r = "newValidatedEHBPBody src confidentialMaxEHBPFrame confidentialMaxEHBPBody"
  have max: "unat (eb_maxBody ?r) = confidentialMaxEHBPBody"
    by (simp add: newValidatedEHBPBody_def confidentialMaxEHBPBody_def)
  have "ehbp_inv 0 ?r" by (simp add: ehbp_inv_def newValidatedEHBPBody_def)
  then have "ehbp_inv (length (snd (ehbp_reads ns ?r))) (fst (ehbp_reads ns ?r))"
    "eb_maxBody (fst (ehbp_reads ns ?r)) = eb_maxBody ?r"
    using ehbp_reads_inv [of 0 ?r ns] by simp_all
  then show ?thesis using max by (simp add: ehbp_inv_def)
qed

section \<open>The decrypted envelope\<close>

record envelope =
  env_SchemaVersion :: int
  env_RequestID :: string
  env_IssuedAt :: string
  env_Request :: string

text \<open>
  What the handler calls: authentication, the strict decoder of the envelope (\<open>None\<close> for a
  syntax error, an unknown field or trailing data), \<open>json.Valid\<close>, \<open>time.Parse(RFC3339)\<close>, and
  \<open>uuid.Parse\<close> with the canonical text of the parsed id.
\<close>

record confidential_env =
  ce_authenticate :: "string \<Rightarrow> go_error + auth_context"
  ce_decode :: "string \<Rightarrow> envelope option"
  ce_json_valid :: "string \<Rightarrow> bool"
  ce_parse_time :: "string \<Rightarrow> time option"
  ce_parse_uuid :: "string \<Rightarrow> string option"

definition uuid_Nil :: string where
  "uuid_Nil = ''00000000-0000-0000-0000-000000000000''"

definition decodeConfidentialEnvelope :: "confidential_env \<Rightarrow> string \<Rightarrow> string + envelope" where
  "decodeConfidentialEnvelope ce body =
     (case ce_decode ce body of
        None \<Rightarrow> Inl ''invalid confidential request envelope''
      | Some e \<Rightarrow>
          (if env_SchemaVersion e \<noteq> 1 then Inl ''unsupported confidential request schema_version''
           else let t = trim_space (env_Request e)
                in if length t < 2 \<or> t ! 0 \<noteq> CHR 0x7B \<or> t ! (length t - 1) \<noteq> CHR 0x7D \<or> \<not> ce_json_valid ce t
                   then Inl ''request must be a JSON object''
                   else Inr (e\<lparr>env_Request := t\<rparr>)))"

text \<open>The age window, at the handler's reading \<open>now\<close> of the clock.\<close>

definition fresh_error :: "time \<Rightarrow> time \<Rightarrow> string option" where
  "fresh_error issuedAt now =
     (if issuedAt < now - confidentialMaxAge then Some ''confidential request is stale''
      else if issuedAt > now + confidentialFutureSkew then
        Some ''confidential request timestamp is in the future''
      else None)"

text \<open>
  \<open>handleDecrypted\<close>: an error, or the nested request that is passed on. \<open>body\<close> is the result
  of reading at most one byte over the limit (\<open>None\<close> when reading fails), \<open>now\<close> the handler's
  clock and \<open>clock\<close> its reading under the cache's lock.
\<close>

definition handleDecrypted :: "confidential_env \<Rightarrow> string \<Rightarrow> string option \<Rightarrow> time \<Rightarrow> time
    \<Rightarrow> replay_cache \<Rightarrow> replay_cache \<times> (go_error + string)" where
  "handleDecrypted ce authHeader body now clock c =
     (case ExtractBearerToken authHeader of
        Inl e \<Rightarrow> (c, Inl (GwErr e))
      | Inr token \<Rightarrow>
     (case ce_authenticate ce token of
        Inl e \<Rightarrow> (c, Inl e)
      | Inr auth \<Rightarrow>
     (if acc_ID (auth_Account auth) = [] then (c, Inl (GwErr (ErrInternal ''authentication returned no account'')))
      else case body of
        None \<Rightarrow> (c, Inl (GwErr (ErrInvalidField ''failed to read confidential request'')))
      | Some b \<Rightarrow>
     (if length b > confidentialEnvelopeLimit then
        (c, Inl (GwErr (ErrInvalidField ''confidential request body exceeds the maximum size'')))
      else case decodeConfidentialEnvelope ce b of
        Inl msg \<Rightarrow> (c, Inl (GwErr (ErrInvalidField msg)))
      | Inr e \<Rightarrow>
     (case ce_parse_time ce (env_IssuedAt e) of
        None \<Rightarrow> (c, Inl (GwErr (ErrInvalidField ''issued_at must be an RFC3339 timestamp'')))
      | Some issuedAt \<Rightarrow>
     (case fresh_error issuedAt now of
        Some msg \<Rightarrow> (c, Inl (GwErr (ErrInvalidField msg)))
      | None \<Rightarrow>
     (if ce_parse_uuid ce (env_RequestID e) \<noteq> Some (env_RequestID e) \<or> env_RequestID e = uuid_Nil then
        (c, Inl (GwErr (ErrInvalidField ''request_id must be a canonical UUID'')))
      else let (c', r) = checkAndStore (acc_ID (auth_Account auth)) (env_RequestID e) clock c
           in (c', case r of
                ReplayDuplicate \<Rightarrow> Inl (GwErr (ErrConflict ''confidential request was already processed''))
              | ReplayAccountCapacityReached \<Rightarrow> Inl (GwErr (new_error 429 ErrTypeRateLimit ErrCodeConfidentialLimit
                  ''Account confidential request limit reached; retry after replay entries expire''))
              | ReplayCapacityReached \<Rightarrow> Inl (GwErr (WithMeta (ErrProviderUnavailable ''confidential replay protection'')
                  [MStr ''fault'', MStr FaultNexus, MStr ''dependency'', MStr ''replay_store'',
                   MStr ''cause'', MStr ''replay_store_full'']))
              | ReplayAccepted \<Rightarrow> Inr (env_Request e)))))))))"

lemma handleDecrypted_cache:
  "fst (handleDecrypted ce h body now clock c) = c \<or>
   (\<exists>a r. fst (handleDecrypted ce h body now clock c) = fst (checkAndStore a r clock c))"
  unfolding handleDecrypted_def
  by (auto simp: case_prod_unfold Let_def split: sum.split option.split)

definition admitted :: "confidential_env \<Rightarrow> string \<Rightarrow> string \<Rightarrow> time \<Rightarrow> string \<Rightarrow> string \<Rightarrow> string \<Rightarrow> time \<Rightarrow> bool" where
  "admitted ce h body now account rid req issuedAt =
     (\<exists>token auth e. h = ''Bearer '' @ token \<and> token \<noteq> [] \<and> ce_authenticate ce token = Inr auth \<and>
        account = acc_ID (auth_Account auth) \<and> account \<noteq> [] \<and> length body \<le> confidentialEnvelopeLimit \<and>
        decodeConfidentialEnvelope ce body = Inr e \<and> rid = env_RequestID e \<and> req = env_Request e \<and>
        ce_parse_uuid ce rid = Some rid \<and> rid \<noteq> uuid_Nil \<and>
        ce_parse_time ce (env_IssuedAt e) = Some issuedAt \<and>
        now - confidentialMaxAge \<le> issuedAt \<and> issuedAt \<le> now + confidentialFutureSkew)"

lemma handleDecrypted_forward:
  assumes "handleDecrypted ce h body now clock c = (c', Inr req)"
  shows "\<exists>b account rid issuedAt. body = Some b \<and> admitted ce h b now account rid req issuedAt \<and>
    checkAndStore account rid clock c = (c', ReplayAccepted)"
proof -
  obtain token where t: "ExtractBearerToken h = Inr token"
    using assms by (auto simp: handleDecrypted_def split: sum.splits)
  obtain auth where a: "ce_authenticate ce token = Inr auth"
    using assms t by (auto simp: handleDecrypted_def split: sum.splits)
  have acc: "acc_ID (auth_Account auth) \<noteq> []"
    using assms t a by (auto simp: handleDecrypted_def)
  obtain b where b: "body = Some b" "length b \<le> confidentialEnvelopeLimit"
    using assms t a acc by (auto simp: handleDecrypted_def not_less split: option.splits if_splits)
  obtain e where e: "decodeConfidentialEnvelope ce b = Inr e"
    using assms t a acc b by (auto simp: handleDecrypted_def split: sum.splits if_splits)
  obtain issuedAt where i: "ce_parse_time ce (env_IssuedAt e) = Some issuedAt"
    using assms t a acc b e by (auto simp: handleDecrypted_def split: option.splits)
  have f: "fresh_error issuedAt now = None"
    using assms t a acc b e i by (auto simp: handleDecrypted_def split: option.splits)
  have u: "ce_parse_uuid ce (env_RequestID e) = Some (env_RequestID e)" "env_RequestID e \<noteq> uuid_Nil"
    using assms t a acc b e i f by (auto simp: handleDecrypted_def split: if_splits)
  obtain r where r: "checkAndStore (acc_ID (auth_Account auth)) (env_RequestID e) clock c = (c', r)"
    "(case r of ReplayAccepted \<Rightarrow> Inr (env_Request e) | _ \<Rightarrow> Inl (GwErr ErrClientCanceled)) = Inr req"
    using assms t a acc b e i f u
    by (auto simp: handleDecrypted_def case_prod_unfold Let_def split: replay_result.splits)
      (metis prod.collapse replay_result.simps(13))
  have "r = ReplayAccepted" "req = env_Request e" using r(2) by (auto split: replay_result.splits)
  moreover have "now - confidentialMaxAge \<le> issuedAt" "issuedAt \<le> now + confidentialFutureSkew"
    using f by (auto simp: fresh_error_def split: if_splits)
  ultimately show ?thesis
    using t a acc b e i u r(1) unfolding admitted_def ExtractBearerToken_iff by blast
qed

text \<open>Requests in the order of the cache's lock: header, body, handler clock, cache clock.\<close>

fun run_confidential :: "confidential_env \<Rightarrow> (string \<times> string option \<times> time \<times> time) list
    \<Rightarrow> replay_cache \<Rightarrow> (go_error + string) list" where
  "run_confidential ce [] c = []"
| "run_confidential ce ((h, body, now, clock) # rs) c =
     (let (c', res) = handleDecrypted ce h body now clock c in res # run_confidential ce rs c')"

lemma run_confidential_length: "length (run_confidential ce rs c) = length rs"
  by (induction rs arbitrary: c) (auto simp: case_prod_unfold Let_def)

lemma handleDecrypted_inv:
  assumes "replay_inv c"
  shows "replay_inv (fst (handleDecrypted ce h body now clock c)) \<and>
    rc_ttl (fst (handleDecrypted ce h body now clock c)) = rc_ttl c"
  using handleDecrypted_cache [of ce h body now clock c] checkAndStore_inv [OF assms] assms by auto

lemma handleDecrypted_keep:
  assumes "replay_inv c" and "map_of (rc_expirations c) k = Some e" and "clock < e"
  shows "map_of (rc_expirations (fst (handleDecrypted ce h body now clock c))) k = Some e"
  using handleDecrypted_cache [of ce h body now clock c] expirations_keep [OF assms] assms(2) by auto

lemma admitted_unique:
  "\<lbrakk>admitted ce h b now a rid req issuedAt; admitted ce h b now' a' rid' req' issuedAt'\<rbrakk>
    \<Longrightarrow> a' = a \<and> rid' = rid \<and> issuedAt' = issuedAt"
  unfolding admitted_def by auto

lemma run_confidential_nth:
  "\<lbrakk>j < length rs; rs ! j = (h, b, now, clock)\<rbrakk>
    \<Longrightarrow> \<exists>c'. run_confidential ce rs c ! j = snd (handleDecrypted ce h b now clock c')"
proof (induction rs arbitrary: c j)
  case (Cons x rs)
  then show ?case by (cases j; cases x) (auto simp: case_prod_unfold Let_def)
qed simp

lemma sorted_take_le:
  "\<lbrakk>sorted (map f rs); j < length rs; x \<in> set (take (Suc j) rs)\<rbrakk> \<Longrightarrow> f x \<le> f (rs ! j)"
  using sorted_nth_mono [of "map f rs"] by (fastforce simp: in_set_conv_nth less_Suc_eq_le)

lemma live_not_forwarded:
  "\<lbrakk>replay_inv c; map_of (rc_expirations c) (a, rid) = Some e;
     admitted ce h b now0 a rid req issuedAt; j < length rs; rs ! j = (h, Some b, now, clock);
     \<forall>r \<in> set (take (Suc j) rs). snd (snd (snd r)) < e\<rbrakk>
    \<Longrightarrow> \<exists>err. run_confidential ce rs c ! j = Inl err"
proof (induction rs arbitrary: c j)
  case (Cons x rs)
  obtain h1 b1 now1 clock1 where x: "x = (h1, b1, now1, clock1)" by (cases x)
  have early: "clock1 < e" using Cons.prems(6) x by simp
  let ?c = "fst (handleDecrypted ce h1 b1 now1 clock1 c)"
  show ?case
  proof (cases j)
    case 0
    show ?thesis
    proof (rule ccontr)
      assume "\<not> ?thesis"
      then obtain req' where "handleDecrypted ce h (Some b) now clock c = (?c, Inr req')"
        using 0 x Cons.prems(5) by (cases "snd (handleDecrypted ce h1 b1 now1 clock1 c)")
          (auto simp: case_prod_unfold Let_def prod_eq_iff)
      then obtain a' rid' iss' where 1: "admitted ce h b now a' rid' req' iss'"
        "checkAndStore a' rid' clock c = (?c, ReplayAccepted)"
        using handleDecrypted_forward by fastforce
      then have "a' = a" "rid' = rid" using admitted_unique [OF Cons.prems(3)] by blast+
      then show False
        using live_duplicate [OF Cons.prems(1,2), of clock] early 1(2) 0 x Cons.prems(5) by simp
    qed
  next
    case (Suc i)
    have "\<exists>err. run_confidential ce rs ?c ! i = Inl err"
    proof (rule Cons.IH)
      show "map_of (rc_expirations ?c) (a, rid) = Some e"
        by (rule handleDecrypted_keep [OF Cons.prems(1,2) early])
    qed (use Cons.prems Suc handleDecrypted_inv in auto)
    then show ?thesis using Suc x by (simp add: case_prod_unfold Let_def)
  qed
qed simp

lemma forwarded_once:
  "\<lbrakk>replay_inv c; rc_ttl c = confidentialReplayTTL; sorted (map (\<lambda>r. snd (snd (snd r))) rs);
     i < j; j < length rs; rs ! i = (h, Some b, now1, clock1); rs ! j = (h, Some b, now2, clock2);
     now1 \<le> clock1; clock2 < now2 + confidentialFutureSkew;
     run_confidential ce rs c ! i = Inr req\<rbrakk>
    \<Longrightarrow> \<exists>err. run_confidential ce rs c ! j = Inl err"
proof (induction rs arbitrary: c i j)
  case (Cons x rs)
  obtain hx bx nowx clockx where x: "x = (hx, bx, nowx, clockx)" by (cases x)
  let ?c = "fst (handleDecrypted ce hx bx nowx clockx c)"
  obtain j' where j: "j = Suc j'" using Cons.prems(4) by (cases j) auto
  have inv: "replay_inv ?c" "rc_ttl ?c = confidentialReplayTTL"
    using handleDecrypted_inv [OF Cons.prems(1)] Cons.prems(2) by simp_all
  have "\<exists>err. run_confidential ce rs ?c ! j' = Inl err"
  proof (cases i)
    case (Suc i')
    show ?thesis
      by (rule Cons.IH [OF inv, of i'])
        (use Cons.prems Suc j x in \<open>auto simp: case_prod_unfold Let_def\<close>)
  next
    case 0
    then have same: "hx = h" "bx = Some b" "nowx = now1" "clockx = clock1" using Cons.prems(6) x by simp_all
    have "handleDecrypted ce h (Some b) now1 clock1 c = (?c, Inr req)"
      using Cons.prems(10) 0 x same by (auto simp: case_prod_unfold Let_def prod_eq_iff)
    then obtain a rid iss where 1: "admitted ce h b now1 a rid req iss"
      "checkAndStore a rid clock1 c = (?c, ReplayAccepted)"
      using handleDecrypted_forward by fastforce
    have live: "map_of (rc_expirations ?c) (a, rid) = Some (clock1 + confidentialReplayTTL)"
      using rg.expiry_accept [of c confidentialReplayTTL "(a, rid)" clock1] Cons.prems(1,2) 1(2)
      by (simp add: replay_check_def replay_expiry_def)
    show ?thesis
    proof (rule ccontr)
      assume no: "\<not> ?thesis"
      then obtain req2 where r2: "run_confidential ce rs ?c ! j' = Inr req2"
        by (cases "run_confidential ce rs ?c ! j'") auto
      have "clock2 < clock1 + confidentialReplayTTL"
      proof (rule ccontr)
        assume late: "\<not> ?thesis"
        obtain c3 where "snd (handleDecrypted ce h (Some b) now2 clock2 c3) = Inr req2"
          using r2 run_confidential_nth [of j' rs h "Some b" now2 clock2 ce ?c] Cons.prems(5,7) j by auto
        then obtain a' rid' iss' where "admitted ce h b now2 a' rid' req2 iss'"
          using handleDecrypted_forward [of ce h "Some b" now2 clock2 c3] by (metis option.inject prod.collapse)
        then have "now2 - confidentialMaxAge \<le> iss" "iss \<le> now1 + confidentialFutureSkew"
          using 1(1) unfolding admitted_def by auto
        then show False
          using late Cons.prems(8,9)
          by (simp add: confidentialMaxAge_def confidentialFutureSkew_def confidentialReplayTTL_def
              minute_def second_def millisecond_def)
      qed
      then have "\<forall>r \<in> set (take (Suc j') rs). snd (snd (snd r)) < clock1 + confidentialReplayTTL"
        using sorted_take_le [of "\<lambda>r. snd (snd (snd r))" rs j'] Cons.prems(3,5,7) j by fastforce
      then show False
        using live_not_forwarded [OF inv(1) live 1(1), of j' rs now2 clock2] Cons.prems(5,7) j no by simp
    qed
  qed
  then show ?case using j x by (simp add: case_prod_unfold Let_def)
qed simp

text \<open>
  C24: A captured confidential request cannot be replayed. If an authorization header and an
  envelope were once passed on, the same pair is rejected ever after: while its cache entry
  lives it is a duplicate, and when the entry has expired its timestamp is stale. The one
  thing relied on is that the handler reaches the cache less than the clock skew (30 s)
  after reading the clock.
\<close>

theorem confidential_request_processed_once:
  assumes "sorted (map (\<lambda>r. snd (snd (snd r))) rs)" and "i < j" and "j < length rs"
    and "rs ! i = (h, Some b, now1, clock1)" and "rs ! j = (h, Some b, now2, clock2)"
    and "now1 \<le> clock1" and "clock2 < now2 + confidentialFutureSkew"
    and "run_confidential ce rs (newConfidentialReplayCache confidentialReplayTTL confidentialReplayCapacity) ! i
      = Inr req"
  shows "\<exists>err. run_confidential ce rs
      (newConfidentialReplayCache confidentialReplayTTL confidentialReplayCapacity) ! j = Inl err"
  by (rule forwarded_once [OF new_cache_inv _ assms]) (simp add: newConfidentialReplayCache_def)

definition toy_auth :: auth_context where
  "toy_auth =
     \<lparr>auth_Account = \<lparr>acc_ID = ''acc'', acc_AuthgearSubjectID = None, acc_ExternalCustomerID = None,
        acc_Email = None, acc_Name = None, acc_Status = AccountStatusActive, acc_Plan = ''free'',
        acc_SubscriptionCancelAtPeriodEnd = False, acc_SubscriptionCancelAt = None, acc_CreatedAt = 0,
        acc_UpdatedAt = 0, acc_LastUsedAt = None, acc_IsGuest = False\<rparr>,
      auth_APIKey = \<lparr>key_ID = ''key'', key_AccountID = ''acc'', key_Name = None, key_KeyPrefix = ''sk'',
        key_KeyHash = ''h'', key_Active = True, key_PIIMode = ''off'', key_LastUsedAt = None,
        key_ExpiresAt = None, key_RevokedAt = None, key_CreatedAt = 0\<rparr>\<rparr>"

definition toy_confidential_env :: confidential_env where
  "toy_confidential_env =
     \<lparr>ce_authenticate = \<lambda>token. Inr toy_auth,
      ce_decode = \<lambda>b. Some \<lparr>env_SchemaVersion = 1, env_RequestID = ''id'', env_IssuedAt = ''t'', env_Request = b\<rparr>,
      ce_json_valid = \<lambda>s. True, ce_parse_time = \<lambda>s. Some 0, ce_parse_uuid = Some\<rparr>"

definition braces :: string where "braces = [CHR 0x7B, CHR 0x7D]"

theorem confidential_request_processed_once_witness:
  "\<exists>err. run_confidential toy_confidential_env
      [(''Bearer k'', Some braces, 0, 1), (''Bearer k'', Some braces, 5, 6)]
      (newConfidentialReplayCache confidentialReplayTTL confidentialReplayCapacity) ! 1 = Inl err"
proof -
  let ?rs = "[(''Bearer k'', Some braces, 0, 1), (''Bearer k'', Some braces, 5, 6)]"
  let ?c = "newConfidentialReplayCache confidentialReplayTTL confidentialReplayCapacity"
  have t: "ExtractBearerToken ''Bearer k'' = Inr ''k''" by (simp add: ExtractBearerToken_iff)
  have d: "decodeConfidentialEnvelope toy_confidential_env braces = Inr
      \<lparr>env_SchemaVersion = 1, env_RequestID = ''id'', env_IssuedAt = ''t'', env_Request = braces\<rparr>"
    by (simp add: decodeConfidentialEnvelope_def toy_confidential_env_def braces_def trim_space_def
        trim_left_runes.simps space_runes_def has_prefix_def)
  have "snd (handleDecrypted toy_confidential_env ''Bearer k'' (Some braces) 0 1 ?c) = Inr braces"
    using t d
    by (simp add: handleDecrypted_def toy_confidential_env_def toy_auth_def fresh_error_def uuid_Nil_def
        checkAndStore_def expire_def newConfidentialReplayCache_def account_count_def braces_def
        confidentialEnvelopeLimit_def maxRequestBodySize_def confidentialMaxAge_def confidentialFutureSkew_def
        minute_def second_def millisecond_def confidentialReplayCapacity_def
        confidentialReplayAccountCapacity_def Let_def)
  then have "run_confidential toy_confidential_env ?rs ?c ! 0 = Inr braces"
    by (simp add: case_prod_unfold Let_def)
  from confidential_request_processed_once [of ?rs 0 1 "''Bearer k''" braces 0 1 5 6, OF _ _ _ _ _ _ _ this]
  show ?thesis by (simp add: confidentialFutureSkew_def second_def millisecond_def del: run_confidential.simps)
qed

end
