(* ===== verification/ProxyStream.thy ===== *)
theory ProxyStream
  imports PiiRestore
begin

text \<open>
  What the gateway reads of a provider's response (\<open>services/proxy.go\<close>, \<open>services/systemone.go\<close>):
  the chunk of a JSON event, the public model name written into it, the observation of whole
  responses, and the relay of an SSE stream, line by line, with its settlement. The JSON codec
  is a parameter: the parser, the decoder into a map, and the two printers.
\<close>

record codec =
  cd_parse :: "string \<Rightarrow> json option"
  cd_object :: "string \<Rightarrow> jobject option"   \<comment> \<open>\<open>decodeObject\<close>\<close>
  cd_enc :: "json \<Rightarrow> string"                \<comment> \<open>\<open>marshalNoEscape\<close>\<close>
  cd_quote :: "string \<Rightarrow> string"            \<comment> \<open>\<open>json.Marshal\<close> of a string\<close>

section \<open>Chunks\<close>

record usage_json =
  uj_PromptTokens :: int
  uj_CompletionTokens :: int
  uj_TotalTokens :: int
  uj_PromptCacheHitTokens :: int
  uj_CachedTokens :: "int option"   \<comment> \<open>of \<open>prompt_tokens_details\<close>, when the object is there\<close>

record chunk_delta =
  dl_Role :: "string option"
  dl_Content :: "string option"
  dl_ReasoningContent :: "string option"
  dl_Reasoning :: "string option"
  dl_ToolCalls :: "json list"

record chunk_choice =
  cc_Index :: "int option"
  cc_Delta :: "chunk_delta option"
  cc_FinishReason :: "string option"

record chunk =
  ch_ID :: string
  ch_Model :: "string option"
  ch_Choices :: "chunk_choice list"
  ch_Usage :: "usage_json option"
  ch_Error :: "json option"
  ch_BaseResp :: "(int \<times> string) option"

definition dec_usage :: "jobject \<Rightarrow> usage_json option" where
  "dec_usage fs =
     (case (value_field dec_int 0 ''prompt_tokens'' fs, value_field dec_int 0 ''completion_tokens'' fs,
            value_field dec_int 0 ''total_tokens'' fs, value_field dec_int 0 ''prompt_cache_hit_tokens'' fs,
            pointer_field (dec_struct (value_field dec_int 0 ''cached_tokens'')) ''prompt_tokens_details'' fs) of
        (Some p, Some c, Some t, Some h, Some d) \<Rightarrow>
          Some \<lparr>uj_PromptTokens = p, uj_CompletionTokens = c, uj_TotalTokens = t,
                uj_PromptCacheHitTokens = h, uj_CachedTokens = d\<rparr>
      | _ \<Rightarrow> None)"

definition dec_delta :: "jobject \<Rightarrow> chunk_delta option" where
  "dec_delta fs =
     (case (pointer_field dec_str ''role'' fs, pointer_field dec_str ''content'' fs,
            pointer_field dec_str ''reasoning_content'' fs, pointer_field dec_str ''reasoning'' fs,
            value_field (dec_list Some JNull) [] ''tool_calls'' fs) of
        (Some r, Some c, Some rc, Some rs, Some tc) \<Rightarrow>
          Some \<lparr>dl_Role = r, dl_Content = c, dl_ReasoningContent = rc, dl_Reasoning = rs, dl_ToolCalls = tc\<rparr>
      | _ \<Rightarrow> None)"

definition dec_choice :: "jobject \<Rightarrow> chunk_choice option" where
  "dec_choice fs =
     (case (pointer_field dec_int ''index'' fs, pointer_field (dec_struct dec_delta) ''delta'' fs,
            pointer_field dec_str ''finish_reason'' fs) of
        (Some i, Some d, Some f) \<Rightarrow> Some \<lparr>cc_Index = i, cc_Delta = d, cc_FinishReason = f\<rparr>
      | _ \<Rightarrow> None)"

definition zero_choice :: chunk_choice where
  "zero_choice = \<lparr>cc_Index = None, cc_Delta = None, cc_FinishReason = None\<rparr>"

definition dec_base_resp :: "jobject \<Rightarrow> (int \<times> string) option" where
  "dec_base_resp fs =
     (case (value_field dec_int 0 ''status_code'' fs, value_field dec_str [] ''status_msg'' fs) of
        (Some c, Some m) \<Rightarrow> Some (c, m)
      | _ \<Rightarrow> None)"

definition dec_chunk :: "jobject \<Rightarrow> chunk option" where
  "dec_chunk fs =
     (case (value_field dec_str [] ''id'' fs, pointer_field dec_str ''model'' fs,
            value_field (dec_list (dec_struct dec_choice) zero_choice) [] ''choices'' fs,
            pointer_field (dec_struct dec_usage) ''usage'' fs,
            pointer_field (dec_struct dec_base_resp) ''base_resp'' fs) of
        (Some i, Some m, Some cs, Some u, Some b) \<Rightarrow>
          Some \<lparr>ch_ID = i, ch_Model = m, ch_Choices = cs, ch_Usage = u, ch_Error = raw_field ''error'' fs,
                ch_BaseResp = b\<rparr>
      | _ \<Rightarrow> None)"

text \<open>\<open>json.Unmarshal\<close> of an event; a JSON null leaves the chunk empty.\<close>

definition read_chunk :: "codec \<Rightarrow> string \<Rightarrow> chunk option" where
  "read_chunk cd data =
     (case body_fields (cd_parse cd data) of None \<Rightarrow> None | Some fs \<Rightarrow> dec_chunk fs)"

definition usage_domain :: "usage_json option \<Rightarrow> usage option" where
  "usage_domain p =
     map_option (\<lambda>u. \<lparr>PromptTokens = uj_PromptTokens u, CompletionTokens = uj_CompletionTokens u,
        TotalTokens = uj_TotalTokens u, CacheCreationTokens = 0,
        CacheReadTokens = (case uj_CachedTokens u of
                             Some n \<Rightarrow> if n > 0 then n else uj_PromptCacheHitTokens u
                           | None \<Rightarrow> uj_PromptCacheHitTokens u)\<rparr>) p"

definition chunk_failure :: "chunk \<Rightarrow> gateway_error option" where
  "chunk_failure c =
     (if (case ch_BaseResp c of Some (code, msg) \<Rightarrow> code \<noteq> 0 | None \<Rightarrow> False) then
        Some (WithMeta (ErrProviderError 502 ''provider returned an unsuccessful response'')
                [MStr ''upstream_code'', MInt (fst (the (ch_BaseResp c)))])
      else if not_nil (ch_Error c) then Some (ErrProviderError 502 ''provider stream failed'')
      else None)"

definition nonempty :: "string option \<Rightarrow> bool" where
  "nonempty s = (s \<noteq> None \<and> s \<noteq> Some [])"

definition chunk_commits :: "chunk \<Rightarrow> bool" where
  "chunk_commits c =
     list_ex (\<lambda>ch. cc_FinishReason ch \<noteq> None \<or>
       (case cc_Delta ch of
          Some d \<Rightarrow> dl_ToolCalls d \<noteq> [] \<or> nonempty (dl_Content d) \<or> nonempty (dl_ReasoningContent d)
                    \<or> nonempty (dl_Reasoning d)
        | None \<Rightarrow> False)) (ch_Choices c)"

definition finishReason :: "chunk \<Rightarrow> string option" where
  "finishReason c = (case find nonempty (map cc_FinishReason (ch_Choices c)) of Some f \<Rightarrow> f | None \<Rightarrow> None)"

section \<open>The public model name\<close>

text \<open>
  \<open>rewriteModel\<close> walks over the tokens of the top-level object. On valid JSON a string ends at
  its first unescaped quote, an object or array where its brackets close, and any other value
  before a comma, a bracket or white space.
\<close>

definition json_ws :: "char \<Rightarrow> bool" where
  "json_ws c = (c = CHR '' '' \<or> c = CHR 0x09 \<or> c = CHR 0x0A \<or> c = CHR 0x0D)"

fun skip_string :: "bool \<Rightarrow> string \<Rightarrow> string" where
  "skip_string esc [] = []"
| "skip_string esc (c # cs) =
     (if esc then skip_string False cs
      else if c = CHR 0x22 then cs
      else skip_string (c = CHR 0x5C) cs)"

fun skip_nested :: "nat \<Rightarrow> bool \<Rightarrow> bool \<Rightarrow> string \<Rightarrow> string" where
  "skip_nested d str esc [] = []"
| "skip_nested d str esc (c # cs) =
     (if str then
        (if esc then skip_nested d True False cs
         else if c = CHR 0x22 then skip_nested d False False cs
         else skip_nested d True (c = CHR 0x5C) cs)
      else if c = CHR 0x22 then skip_nested d True False cs
      else if c \<in> {CHR 0x7B, CHR 0x5B} then skip_nested (d + 1) False False cs
      else if c \<in> {CHR 0x7D, CHR 0x5D} then (if d \<le> 1 then cs else skip_nested (d - 1) False False cs)
      else skip_nested d False False cs)"

fun skip_value :: "string \<Rightarrow> string" where
  "skip_value [] = []"
| "skip_value (c # cs) =
     (if c = CHR 0x22 then skip_string False cs
      else if c \<in> {CHR 0x7B, CHR 0x5B} then skip_nested 1 False False cs
      else dropWhile (\<lambda>x. \<not> json_ws x \<and> x \<noteq> CHR '','' \<and> x \<noteq> CHR 0x7D \<and> x \<noteq> CHR 0x5D) (c # cs))"

lemma skip_string_le: "length (skip_string esc s) \<le> length s"
  by (induction esc s rule: skip_string.induct) auto

lemma skip_nested_le: "length (skip_nested d str esc s) \<le> length s"
  by (induction d str esc s rule: skip_nested.induct) (auto simp: le_SucI)

lemma skip_value_le: "length (skip_value s) \<le> length s"
  by (cases s) (auto intro!: le_SucI skip_string_le skip_nested_le length_dropWhile_le)

text \<open>The text from the value of the member \<open>model\<close> on, and from behind it on.\<close>

function model_value :: "(string \<Rightarrow> json option) \<Rightarrow> string \<Rightarrow> (string \<times> string) option" where
  "model_value parse s =
     (case dropWhile (\<lambda>c. json_ws c \<or> c = CHR '','') s of
        [] \<Rightarrow> None
      | c # cs \<Rightarrow>
          (if c \<noteq> CHR 0x22 then None
           else let rest = skip_string False cs;
                    key = c # take (length cs - length rest) cs;
                    v = dropWhile (\<lambda>c. c = CHR '':'' \<or> json_ws c) rest;
                    after = skip_value v
                in if parse key = Some (JStr ''model'') then Some (v, after) else model_value parse after))"
  by pat_completeness auto
termination
proof (relation "measure (\<lambda>(parse, s). length s)", goal_cases)
  case 1
  then show ?case by simp
next
  case (2 parse s c cs rest key v after)
  have "length (c # cs) \<le> length s"
    using length_dropWhile_le [of "\<lambda>c. json_ws c \<or> c = CHR '',''" s] 2(1) by simp
  moreover have "length after \<le> length cs"
    using 2(3,5,6) skip_value_le [of v] skip_string_le [of False cs]
      length_dropWhile_le [of "\<lambda>c. c = CHR '':'' \<or> json_ws c" rest] by simp
  ultimately show ?case by simp
qed

declare model_value.simps [simp del]

definition rewriteModel :: "codec \<Rightarrow> string \<Rightarrow> string option \<Rightarrow> string \<Rightarrow> string" where
  "rewriteModel cd raw model public =
     (if model = None \<or> model = Some public then raw
      else case dropWhile json_ws raw of
             [] \<Rightarrow> raw
           | c # cs \<Rightarrow>
               if c \<noteq> CHR 0x7B then raw
               else (case model_value (cd_parse cd) cs of
                       None \<Rightarrow> raw
                     | Some (v, after) \<Rightarrow>
                         take (length raw - length v) raw @ cd_quote cd public @ after))"

section \<open>Whole responses\<close>

record outcome =
  o_providerID :: string
  o_finish :: "string option"
  o_usage :: "usage option"
  o_proof :: "tinfoil_proof option"
  o_err :: "go_error option"
  o_end :: string
  o_chunks :: nat
  o_malformed :: nat

definition no_outcome :: outcome where
  "no_outcome = \<lparr>o_providerID = [], o_finish = None, o_usage = None, o_proof = None, o_err = None,
     o_end = [], o_chunks = 0, o_malformed = 0\<rparr>"

text \<open>The restored body of a key that masks; the unmasker is only used for its report after.\<close>

definition restore_body :: "codec \<Rightarrow> string \<Rightarrow> unmasker option \<Rightarrow> string" where
  "restore_body cd body um =
     (case um of None \<Rightarrow> body | Some u \<Rightarrow> snd (unmask_body (cd_object cd) (cd_enc cd) body u))"

definition observeJSON :: "codec \<Rightarrow> string \<Rightarrow> string \<Rightarrow> unmasker option \<Rightarrow> go_error + (string \<times> outcome)" where
  "observeJSON cd body public um =
     (case read_chunk cd body of
        None \<Rightarrow> Inl (GwErr (ErrProviderError 502 ''provider returned an invalid response''))
      | Some c \<Rightarrow>
          (case chunk_failure c of
             Some e \<Rightarrow> Inl (GwErr e)
           | None \<Rightarrow>
               Inr (rewriteModel cd (restore_body cd body um) (ch_Model c) public,
                    no_outcome\<lparr>o_providerID := ch_ID c, o_finish := finishReason c,
                               o_usage := usage_domain (ch_Usage c), o_end := ''complete''\<rparr>)))"

definition MaxInt64 :: int where "MaxInt64 = 9223372036854775807"

definition dec_systemone_usage :: "jobject \<Rightarrow> (int option \<times> int option) option" where
  "dec_systemone_usage fs =
     (case (pointer_field dec_int ''input_tokens'' fs, pointer_field dec_int ''output_tokens'' fs) of
        (Some i, Some n) \<Rightarrow> Some (i, n)
      | _ \<Rightarrow> None)"

definition dec_systemone :: "jobject \<Rightarrow> (string option \<times> jobject \<times> (int option \<times> int option) option) option" where
  "dec_systemone fs =
     (case (pointer_field dec_str ''model'' fs, value_field (dec_struct Some) [] ''answers'' fs,
            pointer_field (dec_struct dec_systemone_usage) ''usage'' fs) of
        (Some m, Some a, Some u) \<Rightarrow> Some (m, a, u)
      | _ \<Rightarrow> None)"

definition observeSystemOne :: "codec \<Rightarrow> string \<Rightarrow> string \<Rightarrow> unmasker option \<Rightarrow> go_error + (string \<times> outcome)" where
  "observeSystemOne cd body public um =
     (case (case body_fields (cd_parse cd body) of None \<Rightarrow> None | Some fs \<Rightarrow> dec_systemone fs) of
        Some (Some model, answers, Some (Some input, Some output)) \<Rightarrow>
          (if answers = [] then
             Inl (GwErr (ErrProviderError 502 ''invalid systemone response or missing usage''))
           else if input < 0 \<or> output < 0 \<or> input > MaxInt64 - output then
             Inl (GwErr (ErrProviderError 502 ''invalid systemone usage''))
           else
             Inr (rewriteModel cd (restore_body cd body um) (Some model) public,
                  no_outcome\<lparr>o_usage := Some \<lparr>PromptTokens = input, CompletionTokens = output,
                               TotalTokens = input + output, CacheCreationTokens = 0, CacheReadTokens = 0\<rparr>,
                             o_end := ''complete''\<rparr>))
      | _ \<Rightarrow> Inl (GwErr (ErrProviderError 502 ''invalid systemone response or missing usage'')))"

section \<open>The stream\<close>

text \<open>
  The provider's body is the text that is left and the error it ends with (\<open>None\<close> is a clean
  end). \<open>ps_settled\<close> collects the outcomes handed to \<open>onEnd\<close>, which is set once the stream is
  primed. A buffer over \<open>maxSSELine\<close> ends the scan with an error.
\<close>

definition maxSSELine :: int where "maxSSELine = 16777216"

record proxy_stream =
  ps_rest :: string
  ps_err :: "go_error option"
  ps_public :: string
  ps_pending :: "string list"
  ps_proof :: "tinfoil_proof option"
  ps_onEnd :: bool
  ps_hideUsage :: bool
  ps_skipBlank :: bool
  ps_unmask :: "unmasker option"
  ps_o :: outcome
  ps_sawDone :: bool
  ps_roleSent :: "int list"
  ps_finished :: bool
  ps_chunks :: nat
  ps_settled :: "outcome list"

definition newProxyStream :: "string \<Rightarrow> go_error option \<Rightarrow> string \<Rightarrow> proxy_stream" where
  "newProxyStream text err public =
     \<lparr>ps_rest = text, ps_err = err, ps_public = public, ps_pending = [], ps_proof = None, ps_onEnd = False,
      ps_hideUsage = False, ps_skipBlank = False, ps_unmask = None, ps_o = no_outcome, ps_sawDone = False,
      ps_roleSent = [], ps_finished = False, ps_chunks = 0, ps_settled = []\<rparr>"

text \<open>
  \<open>Scan\<close> with \<open>ScanLines\<close>: the next line without its end, or the end of the scan. A line that
  does not fit the buffer ends it with \<open>ErrTooLong\<close>.
\<close>

definition drop_cr :: "string \<Rightarrow> string" where
  "drop_cr s = (if s \<noteq> [] \<and> last s = CHR 0x0D then butlast s else s)"

definition not_newline :: "char \<Rightarrow> bool" where "not_newline c = (c \<noteq> CHR 0x0A)"

definition scan_line :: "proxy_stream \<Rightarrow> string option \<times> proxy_stream" where
  "scan_line p =
     (let text = ps_rest p; line = takeWhile not_newline text
      in if text = [] then (None, p)
         else if int (length line) \<ge> maxSSELine then
           (None, p\<lparr>ps_rest := [], ps_err := Some (PlainErr ''bufio.Scanner: token too long'')\<rparr>)
         else (Some (drop_cr line), p\<lparr>ps_rest := drop (length line + 1) text\<rparr>))"

text \<open>\<open>wantsUsage\<close>: whether the client asked for usage in its stream.\<close>

definition wantsUsage :: "json option \<Rightarrow> bool" where
  "wantsUsage raw =
     (case body_fields raw of
        None \<Rightarrow> False
      | Some fs \<Rightarrow>
          (case pointer_field (dec_struct (value_field dec_bool False ''include_usage'')) ''stream_options'' fs of
             Some (Some b) \<Rightarrow> b
           | _ \<Rightarrow> False))"

text \<open>The choices whose role was sent before, and the roles sent after this event.\<close>

fun repeated_roles :: "nat \<Rightarrow> chunk_choice list \<Rightarrow> int list \<Rightarrow> string list \<times> int list" where
  "repeated_roles pos [] sent = ([], sent)"
| "repeated_roles pos (c # cs) sent =
     (case cc_Delta c of
        Some d \<Rightarrow>
          (if dl_Role d = None then repeated_roles (pos + 1) cs sent
           else let index = (case cc_Index c of Some i \<Rightarrow> i | None \<Rightarrow> int pos)
                in if index \<in> set sent
                   then (let (drop, sent') = repeated_roles (pos + 1) cs sent in (itoa_int index # drop, sent'))
                   else repeated_roles (pos + 1) cs (index # sent))
      | None \<Rightarrow> repeated_roles (pos + 1) cs sent)"

definition drop_role :: "string list \<Rightarrow> nat \<Rightarrow> json \<Rightarrow> json" where
  "drop_role drops pos item =
     (case item of
        JObj choice \<Rightarrow>
          (case as_obj (map_of choice ''delta'') of
             Some delta \<Rightarrow>
               if choiceIndex (map_of choice ''index'') pos \<in> set drops
               then JObj (AList.update ''delta'' (JObj (AList.delete ''role'' delta)) choice) else item
           | None \<Rightarrow> item)
      | _ \<Rightarrow> item)"

definition dropRepeatedRole :: "codec \<Rightarrow> string \<Rightarrow> chunk \<Rightarrow> proxy_stream \<Rightarrow> string \<times> proxy_stream" where
  "dropRepeatedRole cd data c p =
     (let (drops, sent) = repeated_roles 0 (ch_Choices c) (ps_roleSent p);
          p1 = p\<lparr>ps_roleSent := sent\<rparr>
      in if drops = [] then (data, p1)
         else case cd_object cd data of
                None \<Rightarrow> (data, p1)
              | Some obj \<Rightarrow>
                  (case as_arr (map_of obj ''choices'') of
                     None \<Rightarrow> (cd_enc cd (JObj obj), p1)
                   | Some cs \<Rightarrow>
                       (cd_enc cd (JObj (AList.update ''choices'' (JArr (map2 (drop_role drops) [0..<length cs] cs)) obj)), p1)))"

definition heldTail :: "codec \<Rightarrow> proxy_stream \<Rightarrow> string option \<times> proxy_stream" where
  "heldTail cd p =
     (case ps_unmask p of
        None \<Rightarrow> (None, p)
      | Some u \<Rightarrow>
          (let (u', tail) = unmask_tail (cd_enc cd) (o_providerID (ps_o p)) (ps_public p) u
           in (map_option (\<lambda>t. ''data: '' @ t) tail, p\<lparr>ps_unmask := Some u'\<rparr>)))"

text \<open>What a JSON event adds to the outcome.\<close>

definition note_chunk :: "chunk \<Rightarrow> proxy_stream \<Rightarrow> proxy_stream" where
  "note_chunk c p =
     (let n = ps_chunks p + 1; o1 = ps_o p
      in p\<lparr>ps_chunks := n,
           ps_o := o1\<lparr>o_chunks := n,
                     o_providerID := (if ch_ID c \<noteq> [] then ch_ID c else o_providerID o1),
                     o_usage := (case usage_domain (ch_Usage c) of Some u \<Rightarrow> Some u | None \<Rightarrow> o_usage o1),
                     o_finish := (case finishReason c of Some f \<Rightarrow> Some f | None \<Rightarrow> o_finish o1),
                     o_err := (case chunk_failure c of
                                 Some e \<Rightarrow> if o_err o1 = None then Some (GwErr e) else o_err o1
                               | None \<Rightarrow> o_err o1)\<rparr>\<rparr>)"

definition unmask_data :: "codec \<Rightarrow> string \<Rightarrow> chunk \<Rightarrow> proxy_stream \<Rightarrow> string \<times> proxy_stream" where
  "unmask_data cd data c p =
     (case ps_unmask p of
        Some u \<Rightarrow>
          if ch_Choices c \<noteq> [] then
            (let (u', out) = unmask_event (cd_object cd) (cd_enc cd) data u in (out, p\<lparr>ps_unmask := Some u'\<rparr>))
          else (data, p)
      | None \<Rightarrow> (data, p))"

definition observe :: "codec \<Rightarrow> string \<Rightarrow> proxy_stream \<Rightarrow> string list \<times> chunk option \<times> proxy_stream" where
  "observe cd line p =
     (if \<not> has_prefix line ''data:'' then ([line], None, p)
      else let data = trim_prefix (drop 5 line) '' ''
           in if trim_space data = ''[DONE]'' then
                (let (tail, p1) = heldTail cd (p\<lparr>ps_sawDone := True\<rparr>)
                 in case tail of Some t \<Rightarrow> ([t, [], line], None, p1) | None \<Rightarrow> ([line], None, p1))
              else case read_chunk cd data of
                     None \<Rightarrow> ([line], None, p\<lparr>ps_o := (ps_o p)\<lparr>o_malformed := o_malformed (ps_o p) + 1\<rparr>\<rparr>)
                   | Some c \<Rightarrow>
                       (let prefix = take (length line - length data) line;
                            (data1, p1) = dropRepeatedRole cd data c (note_chunk c p);
                            (data2, p2) = unmask_data cd data1 c p1
                        in ([prefix @ rewriteModel cd data2 (ch_Model c) (ps_public p)], Some c, p2)))"

definition keep :: "string \<Rightarrow> chunk option \<Rightarrow> proxy_stream \<Rightarrow> bool \<times> proxy_stream" where
  "keep line c p =
     (if ps_skipBlank p \<and> line = [] then (False, p\<lparr>ps_skipBlank := False\<rparr>)
      else if ps_hideUsage p \<and>
              (case c of Some ch \<Rightarrow> ch_Choices ch = [] \<and> ch_Usage ch \<noteq> None \<and> ch_Error ch = None | None \<Rightarrow> False)
      then (False, p\<lparr>ps_skipBlank := True\<rparr>)
      else (True, p\<lparr>ps_skipBlank := False\<rparr>))"

fun keep_lines :: "string list \<Rightarrow> chunk option \<Rightarrow> proxy_stream \<Rightarrow> proxy_stream" where
  "keep_lines [] c p = p"
| "keep_lines (line # ls) c p =
     (let (kept, p1) = keep line c p
      in keep_lines ls c (if kept then p1\<lparr>ps_pending := ps_pending p1 @ [line]\<rparr> else p1))"

text \<open>One step of the two loops: a line is scanned, observed, and what is kept is queued.\<close>

definition take_line :: "codec \<Rightarrow> proxy_stream \<Rightarrow> chunk option option \<times> proxy_stream" where
  "take_line cd p =
     (case scan_line p of
        (None, p1) \<Rightarrow> (None, p1)
      | (Some line, p1) \<Rightarrow> (let (ls, c, p2) = observe cd line p1 in (Some c, keep_lines ls c p2)))"

subsection \<open>Scanning makes progress\<close>

text \<open>Which fields the operations on a line can change.\<close>

lemma heldTail_frame: "\<exists>u. snd (heldTail cd p) = p\<lparr>ps_unmask := u\<rparr>"
  by (auto simp: heldTail_def split: option.splits prod.splits intro: exI [of _ "ps_unmask p"])

lemma dropRepeatedRole_frame: "\<exists>r. snd (dropRepeatedRole cd data c p) = p\<lparr>ps_roleSent := r\<rparr>"
  by (auto simp: dropRepeatedRole_def Let_def split: option.splits prod.splits)

lemma unmask_data_frame: "\<exists>u. snd (unmask_data cd data c p) = p\<lparr>ps_unmask := u\<rparr>"
  by (auto simp: unmask_data_def split: option.splits prod.splits intro: exI [of _ "ps_unmask p"])

lemma note_chunk_frame: "\<exists>n q. note_chunk c p = p\<lparr>ps_chunks := n, ps_o := q\<rparr>"
  by (auto simp: note_chunk_def Let_def)

lemma observe_frame:
  "\<exists>u r n q d. snd (snd (observe cd line p))
     = p\<lparr>ps_unmask := u, ps_roleSent := r, ps_chunks := n, ps_o := q, ps_sawDone := d\<rparr>"
proof -
  have id: "\<exists>u r n q d. p = p\<lparr>ps_unmask := u, ps_roleSent := r, ps_chunks := n, ps_o := q, ps_sawDone := d\<rparr>"
    by (rule exI [of _ "ps_unmask p"], rule exI [of _ "ps_roleSent p"], rule exI [of _ "ps_chunks p"],
        rule exI [of _ "ps_o p"], rule exI [of _ "ps_sawDone p"]) simp
  define data where "data = trim_prefix (drop 5 line) '' ''"
  consider "\<not> has_prefix line ''data:''" | "has_prefix line ''data:''" "trim_space data = ''[DONE]''"
    | "has_prefix line ''data:''" "trim_space data \<noteq> ''[DONE]''" "read_chunk cd data = None"
    | c where "has_prefix line ''data:''" "trim_space data \<noteq> ''[DONE]''" "read_chunk cd data = Some c"
    by (cases "read_chunk cd data") auto
  then show ?thesis
  proof cases
    case 1
    then show ?thesis using id by (simp add: observe_def)
  next
    case 2
    obtain u where "snd (heldTail cd (p\<lparr>ps_sawDone := True\<rparr>)) = p\<lparr>ps_sawDone := True, ps_unmask := u\<rparr>"
      using heldTail_frame [of cd "p\<lparr>ps_sawDone := True\<rparr>"] by auto
    moreover have "snd (snd (observe cd line p)) = snd (heldTail cd (p\<lparr>ps_sawDone := True\<rparr>))"
      using 2 by (auto simp: observe_def data_def [symmetric] Let_def split: option.splits prod.splits)
    ultimately have "snd (snd (observe cd line p)) = p\<lparr>ps_unmask := u, ps_roleSent := ps_roleSent p,
        ps_chunks := ps_chunks p, ps_o := ps_o p, ps_sawDone := True\<rparr>" by simp
    then show ?thesis by blast
  next
    case 3
    then have "snd (snd (observe cd line p)) = p\<lparr>ps_unmask := ps_unmask p, ps_roleSent := ps_roleSent p,
        ps_chunks := ps_chunks p, ps_o := (ps_o p)\<lparr>o_malformed := o_malformed (ps_o p) + 1\<rparr>, ps_sawDone := ps_sawDone p\<rparr>"
      by (simp add: observe_def data_def [symmetric] Let_def)
    then show ?thesis by blast
  next
    case (4 c)
    obtain n q where n: "note_chunk c p = p\<lparr>ps_chunks := n, ps_o := q\<rparr>"
      using note_chunk_frame by blast
    obtain data1 p1 where d1: "dropRepeatedRole cd data c (note_chunk c p) = (data1, p1)" by force
    obtain r where r: "p1 = (note_chunk c p)\<lparr>ps_roleSent := r\<rparr>"
      using dropRepeatedRole_frame [of cd data c "note_chunk c p"] d1 by auto
    obtain data2 p2 where d2: "unmask_data cd data1 c p1 = (data2, p2)" by force
    obtain u where u: "p2 = p1\<lparr>ps_unmask := u\<rparr>"
      using unmask_data_frame [of cd data1 c p1] d2 by auto
    have "snd (snd (observe cd line p)) = p2"
      using 4 by (simp add: observe_def data_def [symmetric] Let_def d1 d2)
    then have "snd (snd (observe cd line p)) = p\<lparr>ps_unmask := u, ps_roleSent := r, ps_chunks := n, ps_o := q,
        ps_sawDone := ps_sawDone p\<rparr>"
      by (simp add: u r n)
    then show ?thesis by blast
  qed
qed

lemma keep_frame: "\<exists>b. snd (keep line c p) = p\<lparr>ps_skipBlank := b\<rparr>"
  by (auto simp: keep_def)

lemma keep_lines_frame: "\<exists>b ls'. keep_lines ls c p = p\<lparr>ps_skipBlank := b, ps_pending := ps_pending p @ ls'\<rparr>"
proof (induction ls c p rule: keep_lines.induct)
  case (1 c p)
  have "keep_lines [] c p = p\<lparr>ps_skipBlank := ps_skipBlank p, ps_pending := ps_pending p @ []\<rparr>" by simp
  then show ?case by blast
next
  case (2 line ls c p)
  obtain kept p1 where k: "keep line c p = (kept, p1)" by force
  obtain b where b: "p1 = p\<lparr>ps_skipBlank := b\<rparr>" using keep_frame [of line c p] k by auto
  from 2 [OF k [symmetric]] obtain b' ls' where
    "keep_lines ls c (if kept then p1\<lparr>ps_pending := ps_pending p1 @ [line]\<rparr> else p1)
      = (if kept then p1\<lparr>ps_pending := ps_pending p1 @ [line]\<rparr> else p1)
          \<lparr>ps_skipBlank := b', ps_pending := ps_pending (if kept then p1\<lparr>ps_pending := ps_pending p1 @ [line]\<rparr> else p1) @ ls'\<rparr>"
    by blast
  then have "keep_lines (line # ls) c p = p\<lparr>ps_skipBlank := b', ps_pending := ps_pending p @ (if kept then line # ls' else ls')\<rparr>"
    by (simp add: k b split: if_splits)
  then show ?case by blast
qed

lemma take_line_frame:
  "\<exists>rest e u r n q d b ls. snd (take_line cd p) = p\<lparr>ps_rest := rest, ps_err := e, ps_unmask := u, ps_roleSent := r,
     ps_chunks := n, ps_o := q, ps_sawDone := d, ps_skipBlank := b, ps_pending := ps_pending p @ ls\<rparr>"
proof (cases "scan_line p")
  case (Pair l p1)
  obtain rest e where p1: "p1 = p\<lparr>ps_rest := rest, ps_err := e\<rparr>"
  proof -
    have "p1 = p\<lparr>ps_rest := ps_rest p1, ps_err := ps_err p1\<rparr>"
      using Pair by (auto simp: scan_line_def Let_def split: if_splits)
    then show thesis by (rule that)
  qed
  show ?thesis
  proof (cases l)
    case None
    then have "snd (take_line cd p) = p\<lparr>ps_rest := rest, ps_err := e, ps_unmask := ps_unmask p, ps_roleSent := ps_roleSent p,
     ps_chunks := ps_chunks p, ps_o := ps_o p, ps_sawDone := ps_sawDone p, ps_skipBlank := ps_skipBlank p, ps_pending := ps_pending p @ []\<rparr>"
      using Pair p1 by (simp add: take_line_def)
    then show ?thesis by blast
  next
    case (Some line)
    obtain ls c p2 where ob: "observe cd line p1 = (ls, c, p2)" by (metis prod.exhaust)
    obtain u r n q d where p2: "p2 = p1\<lparr>ps_unmask := u, ps_roleSent := r, ps_chunks := n, ps_o := q, ps_sawDone := d\<rparr>"
      using observe_frame [of cd line p1] ob by auto
    obtain b ls' where "keep_lines ls c p2 = p2\<lparr>ps_skipBlank := b, ps_pending := ps_pending p2 @ ls'\<rparr>"
      using keep_lines_frame by blast
    then have "snd (take_line cd p) = p\<lparr>ps_rest := rest, ps_err := e, ps_unmask := u, ps_roleSent := r,
     ps_chunks := n, ps_o := q, ps_sawDone := d, ps_skipBlank := b, ps_pending := ps_pending p @ ls'\<rparr>"
      using Pair p1 p2 Some ob by (simp add: take_line_def)
    then show ?thesis by blast
  qed
qed

lemma scan_line_rest:
  "scan_line p = (Some line, p1) \<Longrightarrow> length (ps_rest p1) < length (ps_rest p)"
  "scan_line p = (None, p1) \<Longrightarrow> ps_rest p1 = []"
  by (auto simp: scan_line_def Let_def split: if_splits)

lemma take_line_rest:
  "take_line cd p = (Some c, p1) \<Longrightarrow> length (ps_rest p1) < length (ps_rest p)"
  "take_line cd p = (None, p1) \<Longrightarrow> ps_rest p1 = []"
proof -
  assume "take_line cd p = (Some c, p1)"
  then obtain line q where scan: "scan_line p = (Some line, q)"
    and p1: "p1 = keep_lines (fst (observe cd line q)) c (snd (snd (observe cd line q)))"
    by (auto simp: take_line_def split: prod.splits option.splits)
  obtain u r n o1 d where "snd (snd (observe cd line q))
      = q\<lparr>ps_unmask := u, ps_roleSent := r, ps_chunks := n, ps_o := o1, ps_sawDone := d\<rparr>"
    using observe_frame by blast
  then have "ps_rest p1 = ps_rest q"
    using keep_lines_frame [of "fst (observe cd line q)" c "snd (snd (observe cd line q))"] p1 by auto
  then show "length (ps_rest p1) < length (ps_rest p)"
    using scan_line_rest(1) [OF scan] by simp
next
  assume "take_line cd p = (None, p1)"
  then show "ps_rest p1 = []"
    using scan_line_rest(2) by (auto simp: take_line_def split: prod.splits option.splits)
qed

subsection \<open>Priming, reading and closing\<close>

text \<open>
  \<open>prime\<close> reads up to the first output; the lines it read wait in \<open>ps_pending\<close>. The result is
  the error of an upstream that failed before.
\<close>

function prime :: "codec \<Rightarrow> proxy_stream \<Rightarrow> go_error option \<times> proxy_stream" where
  "prime cd p =
     (case take_line cd p of
        (None, p1) \<Rightarrow>
          (if ps_err p1 \<noteq> None then
             (Some (GwErr (ErrProviderError 502 ''provider stream failed before output'')), p1)
           else if ps_chunks p1 = 0 then
             (Some (GwErr (ErrProviderError 502 ''provider returned an empty stream'')), p1)
           else (None, p1))
      | (Some c, p1) \<Rightarrow>
          (if o_err (ps_o p1) \<noteq> None then (o_err (ps_o p1), p1)
           else if ps_sawDone p1 \<or> (case c of Some ch \<Rightarrow> chunk_commits ch | None \<Rightarrow> False) then (None, p1)
           else prime cd p1))"
  by pat_completeness auto
termination
  by (relation "measure (\<lambda>(cd, p). length (ps_rest p))") (auto dest: take_line_rest(1) [OF sym])

declare prime.simps [simp del]

text \<open>The loop of \<open>Next\<close>: lines are scanned until one is to be sent or the scan ends.\<close>

function fill :: "codec \<Rightarrow> proxy_stream \<Rightarrow> proxy_stream" where
  "fill cd p =
     (if ps_pending p \<noteq> [] then p
      else case take_line cd p of
             (None, p1) \<Rightarrow> p1
           | (Some c, p1) \<Rightarrow> fill cd p1)"
  by pat_completeness auto
termination
  by (relation "measure (\<lambda>(cd, p). length (ps_rest p))") (auto dest: take_line_rest(1) [OF sym])

declare fill.simps [simp del]

definition stream_end :: "string \<Rightarrow> proxy_stream \<Rightarrow> proxy_stream" where
  "stream_end how p =
     (if ps_finished p then p
      else let o1 = (ps_o p)\<lparr>o_end := how, o_proof := ps_proof p\<rparr>
           in p\<lparr>ps_finished := True, ps_o := o1,
                ps_settled := (if ps_onEnd p then ps_settled p @ [o1] else ps_settled p)\<rparr>)"

text \<open>What \<open>Next\<close> gives: a line, or the end with the read error (\<open>None\<close> is \<open>io.EOF\<close>).\<close>

datatype next_result = Line string | End "go_error option"

definition finish_stream :: "proxy_stream \<Rightarrow> proxy_stream" where
  "finish_stream p =
     (if o_err (ps_o p) \<noteq> None then stream_end ''provider_error'' p
      else if ps_err p = None \<and> (ps_sawDone p \<or> o_finish (ps_o p) \<noteq> None) then stream_end ''complete'' p
      else if ps_err p = None then stream_end ''eof_without_finish'' p
      else if o_finish (ps_o p) \<noteq> None then stream_end ''read_error_after_finish'' p
      else stream_end ''read_error''
             (p\<lparr>ps_o := (ps_o p)\<lparr>o_err := Some (GwErr (ErrProviderError 502 ''provider stream failed''))\<rparr>\<rparr>))"

definition Next :: "codec \<Rightarrow> proxy_stream \<Rightarrow> next_result \<times> proxy_stream" where
  "Next cd p =
     (let p1 = fill cd p
      in case ps_pending p1 of
           line # ls \<Rightarrow> (Line line, p1\<lparr>ps_pending := ls\<rparr>)
         | [] \<Rightarrow>
             (case heldTail cd p1 of
                (Some tail, p2) \<Rightarrow> (Line tail, p2\<lparr>ps_pending := [[]]\<rparr>)
              | (None, p2) \<Rightarrow> (End (ps_err p2), finish_stream p2)))"

definition stream_Close :: "proxy_stream \<Rightarrow> proxy_stream" where
  "stream_Close p =
     (if ps_finished p then p
      else stream_end ''closed_before_eof''
             (if o_finish (ps_o p) = None \<and> o_err (ps_o p) = None
              then p\<lparr>ps_o := (ps_o p)\<lparr>o_err := Some (GwErr ErrClientCanceled)\<rparr>\<rparr> else p))"

definition stream_Complete :: "proxy_stream \<Rightarrow> bool" where
  "stream_Complete p = (ps_sawDone p \<or> o_finish (ps_o p) \<noteq> None)"

definition SawDone :: "proxy_stream \<Rightarrow> bool" where "SawDone p = ps_sawDone p"

end
