(* ===== verification/ChatRequest.thy ===== *)
theory ChatRequest
  imports Errors GoJson
begin

text \<open>
  What the gateway reads of a request body before it is proxied: the chat mapper
  (\<open>http/mapper/chat_to_domain.go\<close>), the SystemOne mapper (\<open>http/mapper/systemone.go\<close>), the
  guest output limit (\<open>services/output_limit.go\<close>) and the prompt estimate
  (\<open>services/input_estimate.go\<close>). A body is its parsed JSON with the entries of its objects in
  the order of the text; the lexical parser and printer are parameters. (Where a text repeats
  an entry whose value is an object or an array, Go decodes the second value over the first;
  the model keeps the second.)
\<close>

section \<open>The chat mapper\<close>

definition unsupportedChatFields :: "string list" where
  "unsupportedChatFields = [''best_of'', ''function_call'', ''functions'']"

record chat_message =
  cm_Role :: string
  cm_Content :: "json option"
  cm_ToolCalls :: "json option"
  cm_ToolCallID :: "string option"

record chat_tool =
  ct_Type :: string
  ct_FunctionName :: string

record chat_request =
  cr_Model :: string
  cr_Messages :: "chat_message list"
  cr_Stream :: "bool option"
  cr_MaxTokens :: "int option"
  cr_MaxCompletionTokens :: "int option"
  cr_ServiceTier :: "string option"
  cr_N :: "int option"
  cr_Tools :: "chat_tool list"
  cr_ToolChoice :: "json option"
  cr_ParallelToolCalls :: "bool option"
  cr_ResponseFormat :: "string option"   \<comment> \<open>its \<open>type\<close>, when the object is there\<close>

definition dec_message :: "jobject \<Rightarrow> chat_message option" where
  "dec_message o1 =
     (case (value_field dec_str [] ''role'' o1, pointer_field dec_str ''tool_call_id'' o1) of
        (Some role, Some tid) \<Rightarrow>
          Some \<lparr>cm_Role = role, cm_Content = raw_field ''content'' o1,
                cm_ToolCalls = raw_field ''tool_calls'' o1, cm_ToolCallID = tid\<rparr>
      | _ \<Rightarrow> None)"

definition zero_message :: chat_message where
  "zero_message = \<lparr>cm_Role = [], cm_Content = None, cm_ToolCalls = None, cm_ToolCallID = None\<rparr>"

definition dec_function_name :: "jobject \<Rightarrow> string option" where
  "dec_function_name o1 = value_field dec_str [] ''name'' o1"

definition dec_tool :: "jobject \<Rightarrow> chat_tool option" where
  "dec_tool o1 =
     (case (value_field dec_str [] ''type'' o1, value_field (dec_struct dec_function_name) [] ''function'' o1) of
        (Some ty, Some name) \<Rightarrow> Some \<lparr>ct_Type = ty, ct_FunctionName = name\<rparr>
      | _ \<Rightarrow> None)"

definition zero_tool :: chat_tool where "zero_tool = \<lparr>ct_Type = [], ct_FunctionName = []\<rparr>"

definition dec_chat_request :: "jobject \<Rightarrow> chat_request option" where
  "dec_chat_request o1 =
     (case (value_field dec_str [] ''model'' o1,
            value_field (dec_list (dec_struct dec_message) zero_message) [] ''messages'' o1,
            pointer_field dec_bool ''stream'' o1) of
        (Some model, Some messages, Some stream) \<Rightarrow>
          (case (pointer_field dec_int ''max_tokens'' o1, pointer_field dec_int ''max_completion_tokens'' o1,
                 pointer_field dec_str ''service_tier'' o1, pointer_field dec_int ''n'' o1) of
             (Some mt, Some mct, Some tier, Some n) \<Rightarrow>
               (case (value_field (dec_list (dec_struct dec_tool) zero_tool) [] ''tools'' o1,
                      pointer_field dec_bool ''parallel_tool_calls'' o1,
                      pointer_field (dec_struct (value_field dec_str [] ''type'')) ''response_format'' o1) of
                  (Some tools, Some par, Some fmt) \<Rightarrow>
                    Some \<lparr>cr_Model = model, cr_Messages = messages, cr_Stream = stream, cr_MaxTokens = mt,
                          cr_MaxCompletionTokens = mct, cr_ServiceTier = tier, cr_N = n, cr_Tools = tools,
                          cr_ToolChoice = raw_field ''tool_choice'' o1, cr_ParallelToolCalls = par,
                          cr_ResponseFormat = fmt\<rparr>
                | _ \<Rightarrow> None)
           | _ \<Rightarrow> None)
      | _ \<Rightarrow> None)"

text \<open>A text part: its type and text.\<close>

definition dec_part :: "jobject \<Rightarrow> (string \<times> string) option" where
  "dec_part o1 =
     (case (value_field dec_str [] ''type'' o1, value_field dec_str [] ''text'' o1) of
        (Some ty, Some t) \<Rightarrow> Some (ty, t)
      | _ \<Rightarrow> None)"

definition textContent :: "json option \<Rightarrow> string + string" where
  "textContent raw =
     (case raw of
        None \<Rightarrow> Inl ''content is required''
      | Some v \<Rightarrow>
          (if v = JNull then Inl ''content is required''
           else case dec_str v of
                  Some s \<Rightarrow> Inr s
                | None \<Rightarrow>
                    (case dec_list (dec_struct dec_part) ([], []) v of
                       None \<Rightarrow> Inl ''content must be a string or array of content parts''
                     | Some parts \<Rightarrow>
                         Inr (concat (map snd (filter (\<lambda>p. fst p \<in> set [''text'', ''input_text'', ''output_text'']) parts))))))"

definition at_message :: "nat \<Rightarrow> string \<Rightarrow> string" where
  "at_message i msg = ''message['' @ itoa i @ '']: '' @ msg"

definition readMessage :: "nat \<Rightarrow> chat_message \<Rightarrow> gateway_error + input_item" where
  "readMessage i msg =
     (let hasToolCalls = not_nil (cm_ToolCalls msg); role = cm_Role msg
      in if role \<in> set [''system'', ''developer'', ''user'', ''tool''] then
           (if hasToolCalls then
              Inl (ErrInvalidField (at_message i (role @ '' message must not contain tool_calls'')))
            else if role = ''tool'' \<and> (cm_ToolCallID msg = None \<or> cm_ToolCallID msg = Some []) then
              Inl (ErrToolMessageInvalid (at_message i ''tool message requires tool_call_id''))
            else if role \<noteq> ''tool'' \<and> cm_ToolCallID msg \<noteq> None then
              Inl (ErrInvalidField (at_message i (role @ '' message must not contain tool_call_id'')))
            else case textContent (cm_Content msg) of
                   Inl e \<Rightarrow> Inl (ErrInvalidField (at_message i e))
                 | Inr t \<Rightarrow> Inr \<lparr>item_Role = Some role, item_Content = Some t\<rparr>)
         else if role = ''assistant'' then
           (if cm_ToolCallID msg \<noteq> None then
              Inl (ErrInvalidField (at_message i ''assistant message must not contain tool_call_id''))
            else Inr \<lparr>item_Role = Some role,
                      item_Content = (case textContent (cm_Content msg) of Inl e \<Rightarrow> None | Inr t \<Rightarrow> Some t)\<rparr>)
         else Inl (ErrInvalidField (at_message i (''unsupported role '' @ quoted role))))"

fun readMessages :: "nat \<Rightarrow> chat_message list \<Rightarrow> gateway_error + input_item list" where
  "readMessages i [] = Inr []"
| "readMessages i (m # ms) =
     (case readMessage i m of
        Inl e \<Rightarrow> Inl e
      | Inr item \<Rightarrow> (case readMessages (i + 1) ms of Inl e \<Rightarrow> Inl e | Inr items \<Rightarrow> Inr (item # items)))"

fun readTools :: "chat_tool list \<Rightarrow> gateway_error + tool_definition list" where
  "readTools [] = Inr []"
| "readTools (t # ts) =
     (if ct_Type t \<noteq> [] \<and> ct_Type t \<noteq> ''function'' then
        Inl (ErrInvalidField (''unsupported tool type: '' @ ct_Type t))
      else if ct_FunctionName t = [] then Inl (ErrInvalidField ''tool function name is required'')
      else case readTools ts of
             Inl e \<Rightarrow> Inl e
           | Inr ds \<Rightarrow> Inr (\<lparr>tool_Name = ct_FunctionName t\<rparr> # ds))"

text \<open>\<open>json.Unmarshal\<close> of null into a string leaves it empty, which is no valid mode.\<close>

definition checkToolChoice :: "json \<Rightarrow> gateway_error option" where
  "checkToolChoice v =
     (case (if v = JNull then Some [] else dec_str v) of
        Some mode \<Rightarrow>
          (if mode \<in> set [''none'', ''auto'', ''required''] then None
           else Some (ErrInvalidField (''invalid tool_choice value: '' @ mode)))
      | None \<Rightarrow>
          (case dec_struct dec_tool v of
             None \<Rightarrow> Some (ErrInvalidField ''tool_choice must be a string or object'')
           | Some named \<Rightarrow>
               (if ct_Type named \<noteq> ''function'' then
                  Some (ErrInvalidField (''unsupported tool_choice type: '' @ ct_Type named))
                else if ct_FunctionName named = [] then
                  Some (ErrInvalidField ''tool_choice function name is required'')
                else None)))"

text \<open>
  The mapper itself. \<open>None\<close> is a body that is no JSON; a JSON null decodes into nil and zero
  values. \<open>type_error\<close> is the text of Go's error for a field of the wrong type.
\<close>

definition ChatCompletionRequestToDomain :: "(jobject \<Rightarrow> string) \<Rightarrow> json option \<Rightarrow> gateway_error + generate_request" where
  "ChatCompletionRequestToDomain type_error raw =
     (case body_fields raw of
        None \<Rightarrow> Inl (ErrInvalidField ''invalid JSON body'')
      | Some fs \<Rightarrow>
     (case find (\<lambda>key. key \<in> fst ` set fs) unsupportedChatFields of
        Some key \<Rightarrow> Inl (ErrInvalidField (''field '' @ quoted key
                      @ '' is not supported on /v1/chat/completions in this version''))
      | None \<Rightarrow>
     (case dec_chat_request fs of
        None \<Rightarrow> Inl (ErrInvalidField (''invalid request body: '' @ type_error fs))
      | Some req \<Rightarrow>
          if cr_Model req = [] then Inl (ErrInvalidField ''model is required'')
          else if cr_Messages req = [] then Inl (ErrInvalidField ''messages is required and cannot be empty'')
          else if cr_MaxTokens req \<noteq> None \<and> cr_MaxCompletionTokens req \<noteq> None then
            Inl (ErrInvalidField ''cannot provide both max_tokens and max_completion_tokens'')
          else if cr_N req \<noteq> None \<and> cr_N req \<noteq> Some 1 then
            Inl (ErrInvalidField (''field '' @ quoted ''n'' @ '' only supports value 1 on /v1/chat/completions in this version''))
          else case readMessages 0 (cr_Messages req) of
            Inl e \<Rightarrow> Inl e
          | Inr items \<Rightarrow>
         (case readTools (cr_Tools req) of
            Inl e \<Rightarrow> Inl e
          | Inr tools \<Rightarrow>
         (case (case cr_ToolChoice req of None \<Rightarrow> None | Some v \<Rightarrow> checkToolChoice v) of
            Some e \<Rightarrow> Inl e
          | None \<Rightarrow>
              Inr \<lparr>req_PublicModelID = cr_Model req, req_RequestedModelID = [], req_RouterID = None,
                   req_RoutedPublicModelID = None, req_MatchedCategory = None, req_RoutingScore = None,
                   req_RoutingCategoryScores = [], req_DecisionReason = None, req_FallbackUsed = None,
                   req_Input = items, req_Tools = tools,
                   req_Stream = (cr_Stream req = Some True),
                   req_MaxOutputTokens = (case cr_MaxTokens req of Some n \<Rightarrow> Some n | None \<Rightarrow> cr_MaxCompletionTokens req),
                   req_EstimatedInputTokens = None, req_ServiceTier = cr_ServiceTier req,
                   req_ParallelToolCalls = cr_ParallelToolCalls req,
                   req_StructuredOutput = (cr_ResponseFormat req \<in> {Some ''json_object'', Some ''json_schema''})\<rparr>)))))"

section \<open>The SystemOne mapper\<close>

record question =
  q_Type :: string
  q_Instructions :: "json option"
  q_Criteria :: "json option"

definition structuredValue :: "json option \<Rightarrow> bool" where
  "structuredValue v = (case v of Some (JStr s) \<Rightarrow> True | Some (JArr vs) \<Rightarrow> True | Some (JObj fs) \<Rightarrow> True | _ \<Rightarrow> False)"

definition dec_question :: "jobject \<Rightarrow> question option" where
  "dec_question o1 =
     map_option (\<lambda>ty. \<lparr>q_Type = ty, q_Instructions = raw_field ''instructions'' o1,
                       q_Criteria = raw_field ''criteria'' o1\<rparr>)
       (value_field dec_str [] ''type'' o1)"

definition zero_question :: question where
  "zero_question = \<lparr>q_Type = [], q_Instructions = None, q_Criteria = None\<rparr>"

text \<open>The first thing wrong with a question, in the code's words.\<close>

definition check_question :: "question \<Rightarrow> string option" where
  "check_question q =
     (if \<not> structuredValue (q_Instructions q) then
        Some ''question instructions must be a string, object, or array''
      else if q_Type q = ''noul'' then
        (case q_Criteria q of
           None \<Rightarrow> None
         | Some (JObj cs) \<Rightarrow>
             (if list_ex (\<lambda>c. fst c \<notin> {''true'', ''false''} \<or> \<not> structuredValue (Some (snd c))) (to_map cs)
              then Some ''noul criteria must describe true or false'' else None)
         | Some v \<Rightarrow> Some ''noul criteria must be an object'')
      else if q_Type q = ''choice'' then
        (case q_Criteria q of
           Some (JObj cs) \<Rightarrow>
             (if length (to_map cs) < 1 \<or> length (to_map cs) > 255 then
                Some ''choice criteria must contain 1 to 255 options''
              else if list_ex (\<lambda>c. snd c \<noteq> JNull \<and> \<not> structuredValue (Some (snd c))) (to_map cs)
              then Some ''invalid choice criterion'' else None)
         | _ \<Rightarrow> Some ''choice criteria must contain 1 to 255 options'')
      else if q_Type q = ''score'' then
        (case q_Criteria q of
           Some (JArr cs) \<Rightarrow>
             (if length cs < 2 \<or> length cs > 10 then Some ''score criteria must contain 2 to 10 levels''
              else if list_ex (\<lambda>c. \<not> structuredValue (Some c)) cs then Some ''invalid score criterion'' else None)
         | _ \<Rightarrow> Some ''score criteria must contain 2 to 10 levels'')
      else Some ''question type must be noul, choice, or score'')"

text \<open>The questions, a map: each one is decoded, null giving the zero question.\<close>

fun dec_questions :: "jobject \<Rightarrow> question list option" where
  "dec_questions [] = Some []"
| "dec_questions ((k, v) # qs) =
     (case (if v = JNull then Some zero_question else dec_struct dec_question v, dec_questions qs) of
        (Some q, Some rest) \<Rightarrow> Some (q # rest)
      | _ \<Rightarrow> None)"

definition invalid_422 :: "string \<Rightarrow> gateway_error" where
  "invalid_422 msg = (ErrInvalidField msg)\<lparr>ge_HTTPStatus := 422\<rparr>"

definition SystemOneRequestToDomain :: "json option \<Rightarrow> gateway_error + generate_request" where
  "SystemOneRequestToDomain raw =
     (case body_fields raw of
        None \<Rightarrow> Inl (invalid_422 ''invalid systemone request'')
      | Some fs \<Rightarrow>
     (case (value_field dec_str [] ''model'' fs,
            value_field (dec_struct (\<lambda>qs. dec_questions (to_map qs))) [] ''questions'' fs,
            value_field dec_bool False ''stream'' fs) of
        (Some model, Some questions, Some stream) \<Rightarrow>
          (if trim_space model = [] then Inl (invalid_422 ''model is required'')
           else if stream then Inl (invalid_422 ''systemone does not support streaming'')
           else if \<not> structuredValue (raw_field ''state'' fs) then
             Inl (invalid_422 ''state must be a string, object, or array'')
           else if questions = [] then Inl (invalid_422 ''questions must be a non-empty object'')
           else case List.map_filter check_question questions of
                  e # es \<Rightarrow> Inl (invalid_422 e)
                | [] \<Rightarrow>
                    Inr \<lparr>req_PublicModelID = model, req_RequestedModelID = model, req_RouterID = None,
                         req_RoutedPublicModelID = None, req_MatchedCategory = None, req_RoutingScore = None,
                         req_RoutingCategoryScores = [], req_DecisionReason = None, req_FallbackUsed = None,
                         req_Input = [], req_Tools = [], req_Stream = False, req_MaxOutputTokens = None,
                         req_EstimatedInputTokens = None, req_ServiceTier = None,
                         req_ParallelToolCalls = None, req_StructuredOutput = False\<rparr>)
      | _ \<Rightarrow> Inl (invalid_422 ''invalid systemone request'')))"

section \<open>The guest output limit\<close>

definition DefaultGuestMaxOutputTokens :: int where "DefaultGuestMaxOutputTokens = 8192"

text \<open>
  The decoded body is a map: the last entry of a key counts, and setting an entry keeps the
  others. A body that decodes into no map is refused.
\<close>

definition capOutput :: "json option \<Rightarrow> generate_request \<Rightarrow> int \<Rightarrow> gateway_error + (json option \<times> generate_request)" where
  "capOutput raw req limit =
     (if (case req_MaxOutputTokens req of Some n \<Rightarrow> 0 < n \<and> n \<le> limit | None \<Rightarrow> False) then Inr (raw, req)
      else case raw of
             Some (JObj fs) \<Rightarrow>
               (let body = decode_map fs;
                    field = (if map_of body ''max_tokens'' \<noteq> None then ''max_tokens'' else ''max_completion_tokens'')
                in Inr (Some (JObj (AList.update field (JNum (itoa_int limit)) body)),
                        req\<lparr>req_MaxOutputTokens := Some limit\<rparr>))
           | _ \<Rightarrow> Inl (ErrInvalidField ''invalid JSON body''))"

section \<open>The prompt estimate\<close>

definition imageTokens :: int where "imageTokens = 16384"
definition promptOverheadTokens :: int where "promptOverheadTokens = 1024"

definition textPartTypes :: "string list" where
  "textPartTypes = [''text'', ''input_text'', ''output_text'', ''refusal'']"

definition imagePartTypes :: "string list" where
  "imagePartTypes = [''image_url'', ''image'', ''input_image'']"

text \<open>The type of a content part: null leaves it empty, anything else but an object fails.\<close>

definition part_type :: "json \<Rightarrow> string option" where
  "part_type v = (if v = JNull then Some [] else dec_struct (value_field dec_str [] ''type'') v)"

text \<open>
  \<open>part_len i j\<close> is the number of bytes of part \<open>j\<close> of message \<open>i\<close> in the body's text.
\<close>

fun add_parts :: "(nat \<Rightarrow> int) \<Rightarrow> nat \<Rightarrow> json list \<Rightarrow> int \<Rightarrow> int option" where
  "add_parts len j [] tokens = Some tokens"
| "add_parts len j (p # ps) tokens =
     (case part_type p of
        None \<Rightarrow> None
      | Some ty \<Rightarrow>
          if ty \<in> set textPartTypes then add_parts len (j + 1) ps tokens
          else if ty \<in> set imagePartTypes then add_parts len (j + 1) ps (tokens + (imageTokens - len j))
          else None)"

fun add_messages :: "(nat \<Rightarrow> nat \<Rightarrow> int) \<Rightarrow> nat \<Rightarrow> json option list \<Rightarrow> int \<Rightarrow> int option" where
  "add_messages len i [] tokens = Some tokens"
| "add_messages len i (c # cs) tokens =
     (case c of
        Some (JArr parts) \<Rightarrow>
          (case add_parts (len i) 0 parts tokens of
             None \<Rightarrow> None
           | Some t \<Rightarrow> add_messages len (i + 1) cs t)
      | _ \<Rightarrow> add_messages len (i + 1) cs tokens)"

definition contents_of :: "jobject \<Rightarrow> json option list option" where
  "contents_of fs = value_field (dec_list (dec_struct (\<lambda>m. Some (raw_field ''content'' m))) None) [] ''messages'' fs"

definition estimateInputTokens :: "int \<Rightarrow> (nat \<Rightarrow> nat \<Rightarrow> int) \<Rightarrow> string \<Rightarrow> json option \<Rightarrow> int option" where
  "estimateInputTokens body_len part_len endpoint body =
     (if endpoint \<noteq> EndpointChatCompletions then None
      else case body_fields body of
             None \<Rightarrow> None
           | Some fs \<Rightarrow>
               (case contents_of fs of
                  None \<Rightarrow> None
                | Some contents \<Rightarrow>
                    map_option (max 1) (add_messages part_len 0 contents (body_len + promptOverheadTokens))))"

section \<open>What the request parts guarantee\<close>

text \<open>The bytes and the number of the image parts of a body.\<close>

definition is_image :: "json \<Rightarrow> bool" where
  "is_image p = (case part_type p of Some ty \<Rightarrow> ty \<in> set imagePartTypes | None \<Rightarrow> False)"

definition countable_part :: "json \<Rightarrow> bool" where
  "countable_part p = (case part_type p of Some ty \<Rightarrow> ty \<in> set (textPartTypes @ imagePartTypes) | None \<Rightarrow> False)"

fun image_gain :: "(nat \<Rightarrow> int) \<Rightarrow> nat \<Rightarrow> json list \<Rightarrow> int" where
  "image_gain len j [] = 0"
| "image_gain len j (p # ps) = (if is_image p then imageTokens - len j else 0) + image_gain len (j + 1) ps"

definition parts_of :: "json option \<Rightarrow> json list" where
  "parts_of c = (case c of Some (JArr ps) \<Rightarrow> ps | _ \<Rightarrow> [])"

fun images_gain :: "(nat \<Rightarrow> nat \<Rightarrow> int) \<Rightarrow> nat \<Rightarrow> json option list \<Rightarrow> int" where
  "images_gain len i [] = 0"
| "images_gain len i (c # cs) = image_gain (len i) 0 (parts_of c) + images_gain len (i + 1) cs"

lemma text_not_image: "ty \<in> set textPartTypes \<Longrightarrow> ty \<notin> set imagePartTypes"
  by (auto simp: textPartTypes_def imagePartTypes_def)

lemma add_parts_eq:
  "add_parts len j ps t =
     (if list_all countable_part ps then Some (t + image_gain len j ps) else None)"
proof (induction len j ps t rule: add_parts.induct)
  case (1 len j tokens)
  then show ?case by simp
next
  case (2 len j p ps tokens)
  show ?case
  proof (cases "part_type p")
    case None
    then show ?thesis by (simp add: countable_part_def)
  next
    case (Some ty)
    then show ?thesis
      using "2.IH"(1) [OF Some] "2.IH"(2) [OF Some] text_not_image [of ty]
      by (auto simp: countable_part_def is_image_def)
  qed
qed

lemma add_messages_eq:
  "add_messages len i cs t =
     (if list_all (\<lambda>c. list_all countable_part (parts_of c)) cs then Some (t + images_gain len i cs) else None)"
  by (induction len i cs t rule: add_messages.induct)
     (auto simp: parts_of_def add_parts_eq split: option.splits json.splits)

lemma estimate_eq:
  "estimateInputTokens body_len part_len endpoint body = Some t \<longleftrightarrow>
     endpoint = EndpointChatCompletions \<and>
     (\<exists>fs contents. body_fields body = Some fs \<and> contents_of fs = Some contents
        \<and> list_all (\<lambda>c. list_all countable_part (parts_of c)) contents
        \<and> t = max 1 (body_len + promptOverheadTokens + images_gain part_len 0 contents))"
  by (auto simp: estimateInputTokens_def add_messages_eq split: option.splits if_splits)

end
