(* ===== verification/Proxy.thy ===== *)
theory Proxy
  imports ProxyStream ChatRequest
begin

text \<open>
  The generation service (\<open>services/generate_service.go\<close>, \<open>guest_models.go\<close>, the request path of
  \<open>proxy.go\<close> and the metrics it records). The ports of the service are functions of a record;
  what the service does to them is a list of effects, in order (the histograms of durations are
  left out). A context is read through a
  function of the moment it is asked at.
\<close>

section \<open>Metrics\<close>

abbreviation OutcomeSuccess :: string where "OutcomeSuccess \<equiv> ''success''"
abbreviation OutcomeError :: string where "OutcomeError \<equiv> ''error''"
abbreviation PhaseRequest :: string where "PhaseRequest \<equiv> ''request''"
abbreviation PhaseProvider :: string where "PhaseProvider \<equiv> ''provider''"
abbreviation PhaseStream :: string where "PhaseStream \<equiv> ''stream''"
definition UnresolvedModel :: string where "UnresolvedModel = ''unresolved''"

text \<open>A counter with the values of its labels and what is added to it.\<close>

datatype metric = Count string "string list" int

definition errorCode :: "go_error \<Rightarrow> string" where
  "errorCode err = (case as_gateway err of Some e \<Rightarrow> ge_Code e | None \<Rightarrow> ErrCodeInternalError)"

definition RecordError :: "string \<Rightarrow> string \<Rightarrow> string \<Rightarrow> string \<Rightarrow> go_error \<Rightarrow> metric" where
  "RecordError endpoint model provider phase err =
     Count ''errors_total''
       [endpoint, model, provider, phase, FaultOf err, errorCode err,
        if UpstreamStatus err > 0 then itoa_int (UpstreamStatus err) else ''none''] 1"

definition RecordFallback :: "string \<Rightarrow> string \<Rightarrow> string \<Rightarrow> string \<Rightarrow> go_error \<Rightarrow> metric" where
  "RecordFallback endpoint model provider fallback err =
     Count ''fallbacks_total'' [endpoint, model, provider, fallback, FaultOf err, errorCode err] 1"

definition RecordUsage :: "usage option \<Rightarrow> string \<Rightarrow> string \<Rightarrow> metric list" where
  "RecordUsage p model provider =
     (case p of
        None \<Rightarrow> []
      | Some u \<Rightarrow>
          (if PromptTokens u > 0 then [Count ''tokens_total'' [''input'', model, provider] (PromptTokens u)] else [])
          @ (if CompletionTokens u > 0 then [Count ''tokens_total'' [''output'', model, provider] (CompletionTokens u)] else [])
          @ (if CacheReadTokens u > 0 then [Count ''cache_tokens_total'' [''read'', model, provider] (CacheReadTokens u)] else [])
          @ (if CacheCreationTokens u > 0
             then [Count ''cache_tokens_total'' [''write'', model, provider] (CacheCreationTokens u)] else []))"

definition metricLabels :: "generate_request \<Rightarrow> 'd public_model option \<Rightarrow> string \<times> string" where
  "metricLabels req m =
     (case m of
        None \<Rightarrow> (UnresolvedModel, ''unknown'')
      | Some model \<Rightarrow>
          (if m_PublicModelID model = [] then req_PublicModelID req else m_PublicModelID model,
           pc_ProviderName (m_ProviderConfig model)))"

definition format_bool :: "bool \<Rightarrow> string" where
  "format_bool b = (if b then ''true'' else ''false'')"

definition recordTerminalOutcome :: "string \<Rightarrow> string \<Rightarrow> generate_request \<Rightarrow> 'd public_model option \<Rightarrow> metric" where
  "recordTerminalOutcome result endpoint req m =
     (let (label, provider) = metricLabels req m
      in Count ''generations_total'' [endpoint, label, provider, format_bool (req_Stream req), result] 1)"

definition recordError :: "string \<Rightarrow> generate_request \<Rightarrow> 'd public_model option \<Rightarrow> string \<Rightarrow> go_error \<Rightarrow> metric" where
  "recordError endpoint req m phase err =
     (let (label, provider) = metricLabels req m in RecordError endpoint label provider phase err)"

text \<open>The finish reasons that may be logged (\<open>logfields/finish.go\<close>).\<close>

definition logged_FinishReason :: "string option \<Rightarrow> string option" where
  "logged_FinishReason r =
     map_option (\<lambda>s. if s \<in> set [''stop'', ''length'', ''tool_calls'', ''function_call'', ''content_filter''] then s
                     else ''unknown'') r"

section \<open>Ports and effects\<close>

datatype moment = AtAuth | AtGuest | AtResolve | AtMask | AtReserve | AtFallback | AtError | AtFinish

record 'd ports =
  po_auth :: "string \<Rightarrow> go_error + auth_context"
  po_model :: "string \<Rightarrow> go_error + 'd public_model"
  po_router_entry :: "string \<Rightarrow> go_error + router_entry"
  po_route :: "(route_request \<Rightarrow> go_error + route_decision) option"
  po_registered :: "string \<Rightarrow> bool"
  po_complete :: "'d public_model \<Rightarrow> string \<Rightarrow> go_error + (string \<times> tinfoil_proof option)"
  po_stream :: "'d public_model \<Rightarrow> string \<Rightarrow> go_error + (string \<times> go_error option \<times> tinfoil_proof option)"
  po_reserve :: "auth_context \<Rightarrow> string \<Rightarrow> generate_request \<Rightarrow> 'd public_model \<Rightarrow> go_error + string"
  po_keeps_holds :: bool                          \<comment> \<open>the meter is a \<open>ReservationKeeper\<close>\<close>
  po_proofs :: bool                               \<comment> \<open>a proof repository is set\<close>
  po_pii :: pii_env
  po_analyzer :: analyzer
  po_codec :: codec
  po_marshal :: "json \<Rightarrow> string"                  \<comment> \<open>\<open>json.Marshal\<close>\<close>
  po_part_len :: "string \<Rightarrow> nat \<Rightarrow> nat \<Rightarrow> int"
  po_guest_limit :: int
  po_client_gone :: "moment \<Rightarrow> bool"              \<comment> \<open>the client's context has ended\<close>
  po_lost :: "moment \<Rightarrow> gateway_error option"     \<comment> \<open>the cause that stopped the inference\<close>
  po_now :: time
  po_latency :: int
  po_error_type :: "go_error \<Rightarrow> string"

datatype 'd effect =
    EvMetric metric
  | EvLog string "(string \<times> meta) list"
  | EvReserve auth_context generate_request "'d public_model" "go_error + string"
  | EvKeep string
  | EvProvider bool "'d public_model" string       \<comment> \<open>streaming, target, body\<close>
  | EvProof tinfoil_proof
  | EvSuccess string generate_request generate_result "'d public_model"
  | EvFailure "string option" generate_request "'d public_model" go_error "usage option"
  | EvRelease                                      \<comment> \<open>\<open>stopLease\<close>\<close>

datatype 'd call_result =
    Answered "'d public_model" string
  | Streaming "'d public_model" proxy_stream

section \<open>Small steps\<close>

definition clientGone :: "bool \<Rightarrow> go_error \<Rightarrow> go_error" where
  "clientGone gone err = (if gone \<and> FaultOf err = FaultNexus then GwErr ErrClientCanceled else err)"

definition isUnsupportedModelError :: "go_error \<Rightarrow> bool" where
  "isUnsupportedModelError err =
     (case as_gateway err of Some e \<Rightarrow> ge_Code e = ErrCodeUnsupportedModel | None \<Rightarrow> False)"

definition isNotFoundError :: "go_error \<Rightarrow> bool" where
  "isNotFoundError err =
     (case as_gateway err of Some e \<Rightarrow> ge_Code e = ErrCodeNotFound | None \<Rightarrow> False)"

definition checkGuestModel :: "'d ports \<Rightarrow> string \<Rightarrow> string \<Rightarrow> go_error option" where
  "checkGuestModel po endpoint modelID =
     (if endpoint \<noteq> EndpointChatCompletions then Some (GwErr (ErrGuestModelNotAllowed modelID))
      else case po_model po modelID of
             Inl err \<Rightarrow>
               (if isUnsupportedModelError err then Some (GwErr (ErrGuestModelNotAllowed modelID)) else Some err)
           | Inr model \<Rightarrow>
               (if m_GuestAllowed model then None else Some (GwErr (ErrGuestModelNotAllowed modelID))))"

text \<open>\<open>capOutput\<close> on the body's text: unchanged when the guest's own limit is small enough.\<close>

definition within_limit :: "generate_request \<Rightarrow> int \<Rightarrow> bool" where
  "within_limit req limit = (case req_MaxOutputTokens req of Some n \<Rightarrow> 0 < n \<and> n \<le> limit | None \<Rightarrow> False)"

definition cap_text :: "'d ports \<Rightarrow> string \<Rightarrow> generate_request \<Rightarrow> go_error + (string \<times> generate_request)" where
  "cap_text po raw req =
     (case capOutput (cd_parse (po_codec po) raw) req (po_guest_limit po) of
        Inl e \<Rightarrow> Inl (GwErr e)
      | Inr (body, req') \<Rightarrow>
          Inr (if within_limit req (po_guest_limit po) then raw
               else (case body of Some v \<Rightarrow> po_marshal po v | None \<Rightarrow> raw), req'))"

definition routed :: "generate_request \<Rightarrow> router_entry \<Rightarrow> route_decision \<Rightarrow> generate_request" where
  "routed req entry d =
     req\<lparr>req_PublicModelID := dec_PublicModelID d, req_RouterID := Some (router_RouterID entry),
         req_RoutedPublicModelID := Some (dec_PublicModelID d),
         req_MatchedCategory := (if dec_Category d \<noteq> None then dec_Category d else req_MatchedCategory req),
         req_RoutingScore := dec_Score d,
         req_RoutingCategoryScores :=
           (if dec_CategoryScores d \<noteq> [] then dec_CategoryScores d else req_RoutingCategoryScores req),
         req_DecisionReason := (if dec_Reason d \<noteq> [] then Some (dec_Reason d) else req_DecisionReason req),
         req_FallbackUsed := Some (dec_FallbackUsed d)\<rparr>"

definition internal_error :: "meta list \<Rightarrow> go_error" where
  "internal_error fs = GwErr (WithMeta (ErrInternal ''an internal error occurred'') fs)"

definition resolveModel :: "'d ports \<Rightarrow> generate_request \<Rightarrow> go_error + ('d public_model \<times> generate_request)" where
  "resolveModel po req0 =
     (let requested = req_PublicModelID req0;
          req = (if req_RequestedModelID req0 = [] then req0\<lparr>req_RequestedModelID := requested\<rparr> else req0)
      in case po_model po requested of
           Inr model \<Rightarrow> Inr (model, req)
         | Inl err \<Rightarrow>
             if \<not> isUnsupportedModelError err then Inl err
             else case po_router_entry po requested of
                    Inl rerr \<Rightarrow>
                      (if isNotFoundError rerr then Inl (GwErr (ErrUnsupportedModel requested)) else Inl rerr)
                  | Inr entry \<Rightarrow>
                      (case po_route po of
                         None \<Rightarrow> Inl (internal_error [MStr ''dependency'', MStr ''router'', MStr ''cause'',
                                   MStr ''router_not_configured'', MStr ''reason'', MStr ''router client is not configured''])
                       | Some route \<Rightarrow>
                           (case route \<lparr>route_RouterID = router_RouterID entry, route_Request = req\<rparr> of
                              Inl e \<Rightarrow> Inl e
                            | Inr d \<Rightarrow>
                                if dec_PublicModelID d = [] then
                                  Inl (internal_error [MStr ''dependency'', MStr ''router'', MStr ''cause'',
                                    MStr ''router_empty_model'', MStr ''reason'', MStr ''router returned an empty public_model_id''])
                                else case po_model po (dec_PublicModelID d) of
                                       Inl e \<Rightarrow>
                                         (if isUnsupportedModelError e
                                          then Inl (GwErr (ErrUnsupportedModel (dec_PublicModelID d))) else Inl e)
                                     | Inr model \<Rightarrow> Inr (model, routed req entry d))))"

definition validateRequest :: "string \<Rightarrow> generate_request \<Rightarrow> 'd public_model \<Rightarrow> gateway_error option" where
  "validateRequest endpoint req model =
     (let provider = pc_ProviderName (m_ProviderConfig model)
      in if \<not> SupportsEndpoint model endpoint then Some (ErrUnsupportedEndpoint (m_PublicModelID model) endpoint)
         else if endpoint = EndpointSystemOne \<and> req_Stream req then
           Some (ErrUnsupportedFeature (''streaming for '' @ endpoint))
         else if equal_fold provider ''doubleword'' \<and> req_ServiceTier req \<noteq> None then
           Some (ErrInvalidField ''service_tier is fixed by the selected Doubleword model'')
         else if EffectiveProofMode model = ProofModeTinfoilAttestedTransport \<and> \<not> equal_fold provider ''tinfoil'' then
           Some (ErrUnsupportedFeature ''Tinfoil verified transport for non-Tinfoil provider'')
         else None)"

definition shouldTryFallback :: "bool \<Rightarrow> go_error \<Rightarrow> provider_target option \<Rightarrow> bool" where
  "shouldTryFallback ctx_ended err fallback =
     (fallback \<noteq> None \<and> \<not> ctx_ended \<and>
      (case as_gateway err of
         None \<Rightarrow> True
       | Some e \<Rightarrow> ge_HTTPStatus e = 429 \<or> ge_HTTPStatus e \<ge> 500))"

definition withProviderTarget :: "'d public_model \<Rightarrow> provider_target \<Rightarrow> 'd public_model" where
  "withProviderTarget model target =
     model\<lparr>m_ProviderModelID := target_ProviderModelID target, m_UpstreamModelName := target_UpstreamModelName target,
           m_ServiceTier := target_ServiceTier target, m_ProviderConfig := target_ProviderConfig target,
           m_Fallback := None\<rparr>"

text \<open>The fields of the two warnings and of the error log.\<close>

definition fallback_fields :: "'d ports \<Rightarrow> string \<Rightarrow> 'd public_model \<Rightarrow> 'd public_model \<Rightarrow> go_error \<Rightarrow> (string \<times> meta) list" where
  "fallback_fields po rid primary fallback err =
     [(''request_id'', MStr rid), (''model'', MStr (m_PublicModelID primary)),
      (''provider'', MStr (pc_ProviderName (m_ProviderConfig primary))),
      (''provider_model'', MStr (m_UpstreamModelName primary)),
      (''fallback_provider'', MStr (pc_ProviderName (m_ProviderConfig fallback))),
      (''fallback_provider_model'', MStr (m_UpstreamModelName fallback)),
      (''error_type'', MStr (po_error_type po err))] @ DiagnosticFields err"

definition buildErrorLogFields :: "'d ports \<Rightarrow> string \<Rightarrow> auth_context option \<Rightarrow> string \<Rightarrow> string \<Rightarrow> 'd public_model
    \<Rightarrow> go_error \<Rightarrow> (string \<times> meta) list" where
  "buildErrorLogFields po rid auth endpoint modelID model err =
     [(''request_id'', MStr rid), (''endpoint'', MStr endpoint), (''model'', MStr modelID),
      (''provider'', MStr (pc_ProviderName (m_ProviderConfig model))),
      (''provider_model'', MStr (m_UpstreamModelName model)), (''latency_ms'', MInt64 (po_latency po)),
      (''error_type'', MStr (po_error_type po err))]
     @ (case auth of Some a \<Rightarrow> [(''account_id'', MStr (acc_ID (auth_Account a)))] | None \<Rightarrow> [])
     @ DiagnosticFields err"

section \<open>Settling a response\<close>

definition storeTinfoilProof :: "'d ports \<Rightarrow> auth_context \<Rightarrow> 'd public_model \<Rightarrow> generate_result \<Rightarrow> 'd effect list" where
  "storeTinfoilProof po auth model result =
     (if \<not> po_proofs po \<or> EffectiveProofMode model \<noteq> ProofModeTinfoilAttestedTransport then []
      else case res_TinfoilProof result of
             None \<Rightarrow> [EvLog ''Tinfoil proof mode enabled but provider returned no proof evidence''
                        [(''provider'', MStr (pc_ProviderName (m_ProviderConfig model))),
                         (''model'', MStr (m_PublicModelID model)), (''provider_response_id'', MStr (res_ID result))]]
           | Some given \<Rightarrow>
               (let response = (if proof_ProviderResponseID given = [] then res_ID result else proof_ProviderResponseID given)
                in if response = [] then
                     [EvLog ''failed to store Tinfoil proof: missing provider response id''
                        [(''provider'', MStr (pc_ProviderName (m_ProviderConfig model))),
                         (''model'', MStr (m_PublicModelID model))]]
                   else
                     [EvProof (given\<lparr>proof_AccountID := acc_ID (auth_Account auth), proof_APIKeyID := key_ID (auth_APIKey auth),
                        proof_Provider := pc_ProviderName (m_ProviderConfig model),
                        proof_PublicModelID := m_PublicModelID model, proof_UpstreamModelID := m_UpstreamModelName model,
                        proof_ProviderResponseID := response,
                        proof_CreatedAt := (if proof_CreatedAt given = zero_time then po_now po else proof_CreatedAt given)\<rparr>)]))"

definition opt_str :: "string option \<Rightarrow> meta" where
  "opt_str s = (case s of Some t \<Rightarrow> MStr t | None \<Rightarrow> MOther)"

definition usage_meta :: "usage option \<Rightarrow> meta" where
  "usage_meta p =
     (case p of
        None \<Rightarrow> MOther
      | Some u \<Rightarrow> MMap [(''PromptTokens'', MInt64 (PromptTokens u)), (''CompletionTokens'', MInt64 (CompletionTokens u)),
                        (''TotalTokens'', MInt64 (TotalTokens u)), (''CacheCreationTokens'', MInt64 (CacheCreationTokens u)),
                        (''CacheReadTokens'', MInt64 (CacheReadTokens u))])"

definition finish_fields :: "'d ports \<Rightarrow> string \<Rightarrow> string \<Rightarrow> auth_context \<Rightarrow> string \<Rightarrow> generate_request \<Rightarrow> 'd public_model
    \<Rightarrow> outcome \<Rightarrow> (string \<times> meta) list" where
  "finish_fields po rid reservation auth endpoint req model r =
     [(''request_id'', MStr rid), (''reservation_id'', MStr reservation), (''provider_request_id'', MStr (o_providerID r)),
      (''account_id'', MStr (acc_ID (auth_Account auth))), (''endpoint'', MStr endpoint),
      (''model'', MStr (req_PublicModelID req)), (''provider'', MStr (pc_ProviderName (m_ProviderConfig model))),
      (''provider_model'', MStr (m_UpstreamModelName model)), (''stream'', MBool (req_Stream req)),
      (''stream_end'', MStr (o_end r)), (''finish_reason'', opt_str (logged_FinishReason (o_finish r))),
      (''usage_received'', MBool (o_usage r \<noteq> None)), (''usage'', usage_meta (o_usage r)),
      (''latency_ms'', MInt64 (po_latency po)), (''chunks_received'', MInt (int (o_chunks r))),
      (''malformed_chunks'', MInt (int (o_malformed r)))]"

definition finishProxy :: "'d ports \<Rightarrow> string \<Rightarrow> string \<Rightarrow> auth_context \<Rightarrow> string \<Rightarrow> generate_request \<Rightarrow> 'd public_model
    \<Rightarrow> outcome \<Rightarrow> 'd effect list" where
  "finishProxy po rid reservation auth endpoint req model r =
     (let fields = finish_fields po rid reservation auth endpoint req model r
      in case o_err r of
           Some err \<Rightarrow>
             [EvLog ''generation failed'' (fields @ [(''error_type'', MStr (po_error_type po err))] @ DiagnosticFields err),
              EvMetric (recordTerminalOutcome OutcomeError endpoint req (Some model)),
              EvMetric (recordError endpoint req (Some model) (if req_Stream req then PhaseStream else PhaseProvider) err),
              EvFailure (Some reservation) req model err (o_usage r)]
         | None \<Rightarrow>
             (let proof = map_option (\<lambda>q. if proof_ProviderResponseID q = [] then q\<lparr>proof_ProviderResponseID := o_providerID r\<rparr> else q)
                            (o_proof r);
                  result = \<lparr>res_ID = o_providerID r, res_PublicModelID = m_PublicModelID model,
                            res_ProviderName = pc_ProviderName (m_ProviderConfig model),
                            res_ProviderModelID = m_ProviderModelID model, res_FinishReason = o_finish r,
                            res_Usage = o_usage r, res_TinfoilProof = proof\<rparr>
              in storeTinfoilProof po auth model result
                 @ map EvMetric (RecordUsage (o_usage r) (req_PublicModelID req) (pc_ProviderName (m_ProviderConfig model)))
                 @ (if o_usage r = None then [EvLog ''generation completed without usage'' fields] else [])
                 @ [EvMetric (recordTerminalOutcome OutcomeSuccess endpoint req (Some model)),
                    EvLog ''generation completed'' (fields @ [(''gateway_status'', MInt 200), (''upstream_status'', MInt 200)]),
                    EvSuccess reservation req result model]))"

section \<open>A request\<close>

text \<open>What is fixed once credit is held: the request as executed, its hold and its mapping.\<close>

record held_call =
  hd_rid :: string
  hd_auth :: auth_context
  hd_endpoint :: string
  hd_req :: generate_request
  hd_raw :: string
  hd_masked :: string
  hd_mapping :: "pii_mapping option"
  hd_reservation :: string

text \<open>\<open>finish\<close>: a hold that was lost explains a failed answer; errors are masked again.\<close>

definition finish_call :: "'d ports \<Rightarrow> held_call \<Rightarrow> 'd public_model \<Rightarrow> outcome \<Rightarrow> 'd effect list" where
  "finish_call po h target r =
     (let err = (case po_lost po AtFinish of
                   Some cause \<Rightarrow> if o_err r \<noteq> None then Some (GwErr cause) else o_err r
                 | None \<Rightarrow> o_err r)
      in finishProxy po (hd_rid h) (hd_reservation h) (hd_auth h) (hd_endpoint h) (hd_req h) target
           (r\<lparr>o_err := sanitizeErrorWithPIIMapping err (hd_mapping h)\<rparr>) @ [EvRelease])"

definition provider_missing :: "string \<Rightarrow> go_error" where
  "provider_missing name =
     GwErr (WithMeta (ErrProviderUnavailable name)
       [MStr ''fault'', MStr FaultNexus, MStr ''cause'', MStr ''provider_not_registered''])"

text \<open>\<open>attempt\<close>: one try at a target, with its effects.\<close>

definition attempt :: "'d ports \<Rightarrow> held_call \<Rightarrow> 'd public_model \<Rightarrow> (go_error + 'd call_result) \<times> 'd effect list" where
  "attempt po h target =
     (let provider = pc_ProviderName (m_ProviderConfig target); um = newUnmasker (hd_mapping h); cd = po_codec po
      in case validateRequest (hd_endpoint h) (hd_req h) target of
           Some e \<Rightarrow> (Inl (GwErr e), [])
         | None \<Rightarrow>
             if \<not> po_registered po provider then (Inl (provider_missing provider), [])
             else if \<not> req_Stream (hd_req h) then
               (case po_complete po target (hd_masked h) of
                  Inl err \<Rightarrow> (Inl err, [EvProvider False target (hd_masked h)])
                | Inr (body, proof) \<Rightarrow>
                    (case (if hd_endpoint h = EndpointSystemOne
                           then observeSystemOne cd body (m_PublicModelID target) um
                           else observeJSON cd body (m_PublicModelID target) um) of
                       Inl err \<Rightarrow> (Inl err, [EvProvider False target (hd_masked h)])
                     | Inr (rewritten, r) \<Rightarrow>
                         (Inr (Answered target rewritten),
                          EvProvider False target (hd_masked h) # finish_call po h target (r\<lparr>o_proof := proof\<rparr>))))
             else
               (case po_stream po target (hd_masked h) of
                  Inl err \<Rightarrow> (Inl err, [EvProvider True target (hd_masked h)])
                | Inr (text, rerr, proof) \<Rightarrow>
                    (let p = (newProxyStream text rerr (m_PublicModelID target))
                               \<lparr>ps_proof := proof, ps_hideUsage := \<not> wantsUsage (cd_parse cd (hd_raw h)), ps_unmask := um\<rparr>
                     in case prime cd p of
                          (Some err, q) \<Rightarrow> (Inl err, [EvProvider True target (hd_masked h)])
                        | (None, q) \<Rightarrow> (Inr (Streaming target (q\<lparr>ps_onEnd := True\<rparr>)),
                                       [EvProvider True target (hd_masked h)]))))"

text \<open>The end of a request that failed before credit was held.\<close>

definition reject_fields :: "auth_context \<Rightarrow> generate_request \<Rightarrow> 'd public_model option \<Rightarrow> meta list" where
  "reject_fields auth req m =
     (case m of
        None \<Rightarrow> [MStr ''account_id'', MStr (acc_ID (auth_Account auth)), MStr ''requested_model'', MStr (req_PublicModelID req)]
      | Some model \<Rightarrow> [MStr ''account_id'', MStr (acc_ID (auth_Account auth)), MStr ''model'', MStr (m_PublicModelID model),
                        MStr ''provider'', MStr (pc_ProviderName (m_ProviderConfig model))])"

definition early_metrics :: "string \<Rightarrow> generate_request \<Rightarrow> 'd public_model option \<Rightarrow> go_error \<Rightarrow> 'd effect list" where
  "early_metrics endpoint req m err =
     [EvMetric (recordTerminalOutcome OutcomeError endpoint req m),
      EvMetric (recordError endpoint req m PhaseRequest err)]"

text \<open>Everything up to the hold: the error and its effects, or what the attempts need.\<close>

definition admit :: "'d ports \<Rightarrow> string \<Rightarrow> string \<Rightarrow> string \<Rightarrow> generate_request \<Rightarrow> string
    \<Rightarrow> (go_error + ('d public_model \<times> held_call)) \<times> 'd effect list" where
  "admit po rid endpoint raw0 req0 token =
     (case po_auth po token of
        Inl err0 \<Rightarrow> (let err = clientGone (po_client_gone po AtAuth) err0
                    in (Inl err, early_metrics endpoint req0 None err))
      | Inr auth \<Rightarrow>
     (case (if acc_IsGuest (auth_Account auth) then
              (case checkGuestModel po endpoint (req_PublicModelID req0) of
                 Some e \<Rightarrow> Inl e
               | None \<Rightarrow> cap_text po raw0 req0)
            else Inr (raw0, req0)) of
        Inl err0 \<Rightarrow> (let err = clientGone (po_client_gone po AtGuest) err0
                    in (Inl (Annotate err (reject_fields auth req0 (None :: 'd public_model option))), early_metrics endpoint req0 None err))
      | Inr (raw, req) \<Rightarrow>
     (case (if endpoint = EndpointSystemOne
            then (case po_model po (req_PublicModelID req) of Inl e \<Rightarrow> Inl e | Inr m \<Rightarrow> Inr (m, req))
            else resolveModel po req) of
        Inl err0 \<Rightarrow> (let err = clientGone (po_client_gone po AtResolve) err0
                    in (Inl (Annotate err (reject_fields auth req (None :: 'd public_model option))), early_metrics endpoint req None err))
      | Inr (model, exec) \<Rightarrow>
     (case validateRequest endpoint exec model of
        Some e \<Rightarrow> (Inl (Annotate (GwErr e) (reject_fields auth req (Some model))),
                  early_metrics endpoint exec (Some model) (GwErr e) @ [EvFailure None exec model (GwErr e) None])
      | None \<Rightarrow>
     (case maskBody (po_pii po) (cd_object (po_codec po)) (cd_parse (po_codec po)) (cd_enc (po_codec po))
             (po_analyzer po) raw (key_PIIMode (auth_APIKey auth)) endpoint of
        Inl err0 \<Rightarrow> (let err = clientGone (po_client_gone po AtMask) err0
                    in (Inl (Annotate err (reject_fields auth req (Some model))),
                        early_metrics endpoint exec (Some model) err @ [EvFailure None exec model err None]))
      | Inr (masked, mapping) \<Rightarrow>
          (let exec' = (case estimateInputTokens (int (length masked)) (po_part_len po masked) endpoint
                               (cd_parse (po_codec po) masked) of
                          Some t \<Rightarrow> exec\<lparr>req_EstimatedInputTokens := Some t\<rparr>
                        | None \<Rightarrow> exec)
           in case po_reserve po auth endpoint exec' model of
                Inl err0 \<Rightarrow> (let err = clientGone (po_client_gone po AtReserve) err0
                            in (Inl (Annotate err (reject_fields auth req (Some model))),
                                EvReserve auth exec' model (Inl err0) # early_metrics endpoint exec' (Some model) err))
              | Inr reservation \<Rightarrow>
                  (Inr (model, \<lparr>hd_rid = rid, hd_auth = auth, hd_endpoint = endpoint, hd_req = exec', hd_raw = raw,
                                hd_masked = masked, hd_mapping = mapping, hd_reservation = reservation\<rparr>),
                   EvReserve auth exec' model (Inr reservation) # (if po_keeps_holds po then [EvKeep reservation] else []))))))))"

text \<open>The attempts, and the end of a request whose attempts failed.\<close>

definition run_held :: "'d ports \<Rightarrow> 'd public_model \<Rightarrow> held_call \<Rightarrow> (go_error + 'd call_result) \<times> 'd effect list" where
  "run_held po model h =
     (let (r1, ev1) = attempt po h model;
          fallback = map_option (withProviderTarget model) (m_Fallback model);
          (r2, executed, ev2) =
            (case r1 of
               Inr c \<Rightarrow> (r1, model, ev1)
             | Inl err \<Rightarrow>
                 (case fallback of
                    Some target \<Rightarrow>
                      if \<not> po_client_gone po AtFallback \<and> shouldTryFallback (po_lost po AtFallback \<noteq> None) err (m_Fallback model)
                         \<and> SupportsEndpoint target (hd_endpoint h)
                      then (let (r, ev) = attempt po h target
                            in (r, target,
                                ev1 @ [EvLog ''provider failed; trying fallback''
                                         (fallback_fields po (hd_rid h) model target
                                            (the (sanitizeErrorWithPIIMapping (Some err) (hd_mapping h)))),
                                       EvMetric (RecordFallback (hd_endpoint h) (m_PublicModelID model)
                                         (pc_ProviderName (m_ProviderConfig model))
                                         (pc_ProviderName (m_ProviderConfig target)) err)] @ ev))
                      else (r1, model, ev1)
                  | None \<Rightarrow> (r1, model, ev1)))
      in case r2 of
           Inr c \<Rightarrow> (Inr c, ev2)
         | Inl err0 \<Rightarrow>
             (let err1 = (case po_lost po AtError of Some cause \<Rightarrow> GwErr cause | None \<Rightarrow> err0);
                  err = the (sanitizeErrorWithPIIMapping (Some err1) (hd_mapping h))
              in (Inl err,
                  ev2 @ [EvLog ''provider request failed''
                           (buildErrorLogFields po (hd_rid h) (Some (hd_auth h)) (hd_endpoint h)
                              (req_PublicModelID (hd_req h)) executed err),
                         EvMetric (recordTerminalOutcome OutcomeError (hd_endpoint h) (hd_req h) (Some executed)),
                         EvMetric (recordError (hd_endpoint h) (hd_req h) (Some executed) PhaseProvider err),
                         EvFailure (Some (hd_reservation h)) (hd_req h) executed err None, EvRelease])))"

definition Proxy :: "'d ports \<Rightarrow> string \<Rightarrow> string \<Rightarrow> string \<Rightarrow> generate_request \<Rightarrow> string
    \<Rightarrow> (go_error + (held_call \<times> 'd call_result)) \<times> 'd effect list" where
  "Proxy po rid endpoint raw req token =
     (case admit po rid endpoint raw req token of
        (Inl err, ev) \<Rightarrow> (Inl err, ev)
      | (Inr (model, h), ev) \<Rightarrow>
          (case run_held po model h of
             (Inl err, ev') \<Rightarrow> (Inl err, ev @ ev')
           | (Inr c, ev') \<Rightarrow> (Inr (h, c), ev @ ev')))"

text \<open>A call whose stream was handed to the client: its settlements so far.\<close>

definition settle_call :: "'d ports \<Rightarrow> held_call \<Rightarrow> 'd public_model \<Rightarrow> proxy_stream \<Rightarrow> 'd effect list" where
  "settle_call po h target p = concat (map (finish_call po h target) (ps_settled p))"

end
