(* ===== verification/StreamFacts.thy ===== *)
theory StreamFacts
  imports ProxyStream
begin

text \<open>
  What the relay of a stream guarantees: it is settled once, with an outcome that says how it
  ended, whatever order the handler reads and closes it in; reading it always ends; and
  without masking every line of the provider reaches the client, in order.
\<close>

section \<open>Settlement\<close>

lemma fill_frame:
  "ps_onEnd (fill cd p) = ps_onEnd p \<and> ps_finished (fill cd p) = ps_finished p
   \<and> ps_settled (fill cd p) = ps_settled p \<and> ps_proof (fill cd p) = ps_proof p"
proof (induction cd p rule: fill.induct)
  case (1 cd p)
  show ?case
  proof (cases "ps_pending p = []")
    case False
    then show ?thesis by (simp add: fill.simps [of cd p])
  next
    case True
    obtain t p1 where t: "take_line cd p = (t, p1)" by force
    obtain rest e u r n q d b ls where fr: "p1 = p\<lparr>ps_rest := rest, ps_err := e, ps_unmask := u,
        ps_roleSent := r, ps_chunks := n, ps_o := q, ps_sawDone := d, ps_skipBlank := b, ps_pending := ps_pending p @ ls\<rparr>"
      using take_line_frame [of cd p] t by auto
    show ?thesis
      using "1.IH" [OF _ t [symmetric]] True t fr by (cases t) (simp_all add: fill.simps [of cd p])
  qed
qed

lemma fill_done: "ps_pending (fill cd p) = [] \<Longrightarrow> ps_rest (fill cd p) = []"
proof (induction cd p rule: fill.induct)
  case (1 cd p)
  show ?case
  proof (cases "ps_pending p = []")
    case False
    then show ?thesis using "1.prems" by (simp add: fill.simps [of cd p])
  next
    case True
    obtain t p1 where t: "take_line cd p = (t, p1)" by force
    show ?thesis
      using "1.IH" [OF _ t [symmetric]] "1.prems" True t take_line_rest(2) [of cd p p1]
      by (cases t) (simp_all add: fill.simps [of cd p])
  qed
qed

text \<open>The outcome of a stream says how it ended; it has no error exactly when the answer counts.\<close>

definition outcome_ok :: "outcome \<Rightarrow> bool" where
  "outcome_ok r =
     (o_end r \<in> {''complete'', ''eof_without_finish'', ''read_error_after_finish'', ''provider_error'',
                 ''read_error'', ''closed_before_eof''}
      \<and> (o_end r \<in> {''complete'', ''eof_without_finish'', ''read_error_after_finish''} \<longrightarrow> o_err r = None)
      \<and> (o_end r \<in> {''provider_error'', ''read_error''} \<longrightarrow> o_err r \<noteq> None)
      \<and> (o_end r = ''read_error_after_finish'' \<longrightarrow> o_finish r \<noteq> None)
      \<and> (o_end r = ''closed_before_eof'' \<and> o_finish r = None \<longrightarrow> o_err r \<noteq> None))"

definition settle_inv :: "proxy_stream \<Rightarrow> bool" where
  "settle_inv p = (ps_onEnd p \<and>
     (if ps_finished p then (\<exists>r. ps_settled p = [r] \<and> outcome_ok r \<and> o_proof r = ps_proof p) else ps_settled p = []))"

lemma stream_end_finished [simp]: "ps_finished (stream_end how p)"
  by (simp add: stream_end_def Let_def)

lemma finish_stream_finished [simp]: "ps_finished (finish_stream p)"
  by (simp add: finish_stream_def)

lemma finish_stream_inv: "settle_inv p \<Longrightarrow> settle_inv (finish_stream p)"
  by (auto simp: settle_inv_def finish_stream_def stream_end_def outcome_ok_def Let_def)

lemma finish_stream_again: "ps_finished p \<Longrightarrow> ps_settled (finish_stream p) = ps_settled p"
  by (simp add: finish_stream_def stream_end_def)

lemma Close_inv: "settle_inv p \<Longrightarrow> settle_inv (stream_Close p)"
  by (auto simp: settle_inv_def stream_Close_def stream_end_def outcome_ok_def Let_def)

lemma Close_finished [simp]: "ps_finished (stream_Close p)"
  by (simp add: stream_Close_def)

lemma settle_inv_cong:
  "ps_onEnd q = ps_onEnd p \<Longrightarrow> ps_finished q = ps_finished p \<Longrightarrow> ps_settled q = ps_settled p \<Longrightarrow> ps_proof q = ps_proof p
   \<Longrightarrow> settle_inv q = settle_inv p"
  by (simp add: settle_inv_def)

lemma Next_cases:
  obtains (line) l q where "Next cd p = (Line l, q)" "ps_onEnd q = ps_onEnd p" "ps_finished q = ps_finished p"
      "ps_settled q = ps_settled p" "ps_proof q = ps_proof p"
  | (ended) e q where "Next cd p = (End e, finish_stream q)" "ps_onEnd q = ps_onEnd p" "ps_finished q = ps_finished p"
      "ps_settled q = ps_settled p" "ps_proof q = ps_proof p"
proof (cases "ps_pending (fill cd p)")
  case (Cons l ls)
  then have "Next cd p = (Line l, (fill cd p)\<lparr>ps_pending := ls\<rparr>)" by (simp add: Next_def Let_def)
  then show thesis using fill_frame [of cd p] by (intro line [of l "(fill cd p)\<lparr>ps_pending := ls\<rparr>"]) simp_all
next
  case Nil
  obtain t p2 where ht: "heldTail cd (fill cd p) = (t, p2)" by force
  then obtain u where p2: "p2 = (fill cd p)\<lparr>ps_unmask := u\<rparr>" using heldTail_frame [of cd "fill cd p"] by auto
  show thesis
  proof (cases t)
    case None
    then have "Next cd p = (End (ps_err p2), finish_stream p2)" using Nil ht by (simp add: Next_def Let_def)
    then show thesis using fill_frame [of cd p] p2 by (intro ended [of "ps_err p2" p2]) simp_all
  next
    case (Some tail)
    then have "Next cd p = (Line tail, p2\<lparr>ps_pending := [[]]\<rparr>)" using Nil ht by (simp add: Next_def Let_def)
    then show thesis using fill_frame [of cd p] p2 by (intro line [of tail "p2\<lparr>ps_pending := [[]]\<rparr>"]) simp_all
  qed
qed

lemma Next_inv: "settle_inv p \<Longrightarrow> settle_inv (snd (Next cd p))"
proof (cases rule: Next_cases [of cd p])
  case (line l q)
  assume "settle_inv p"
  then show ?thesis using line settle_inv_cong [of q p] by simp
next
  case (ended e q)
  assume "settle_inv p"
  then show ?thesis using ended settle_inv_cong [of q p] finish_stream_inv [of q] by simp
qed

lemma Next_finished: "ps_finished p \<Longrightarrow> ps_finished (snd (Next cd p)) \<and> ps_settled (snd (Next cd p)) = ps_settled p"
  by (cases rule: Next_cases [of cd p]) (simp_all add: finish_stream_again)

text \<open>
  The contract of a source that the service hands out and that reports one outcome: the
  operations of its reader, and what each keeps of an invariant.
\<close>

locale settling_source =
  fixes step :: "'s \<Rightarrow> 's \<Rightarrow> bool" and close :: "'s \<Rightarrow> 's" and reported :: "'s \<Rightarrow> 'o list"
    and ended :: "'s \<Rightarrow> bool" and inv :: "'s \<Rightarrow> bool"
  assumes step_inv: "inv s \<Longrightarrow> step s t \<Longrightarrow> inv t"
    and step_ended: "ended s \<Longrightarrow> step s t \<Longrightarrow> ended t \<and> reported t = reported s"
    and close_inv: "inv s \<Longrightarrow> inv (close s)"
    and close_ended: "ended (close s)"
    and reports: "inv s \<Longrightarrow> length (reported s) = (if ended s then 1 else 0)"
begin

lemma run_inv: "step\<^sup>*\<^sup>* s t \<Longrightarrow> inv s \<Longrightarrow> inv t"
  by (induction rule: rtranclp_induct) (auto intro: step_inv)

lemma run_ended: "step\<^sup>*\<^sup>* s t \<Longrightarrow> ended s \<Longrightarrow> ended t \<and> reported t = reported s"
  by (induction rule: rtranclp_induct) (auto dest: step_ended)

lemma reports_once:
  assumes "inv s" and "step\<^sup>*\<^sup>* s t"
  shows "length (reported t) \<le> 1 \<and> length (reported (close t)) = 1"
  using reports [OF run_inv [OF assms(2,1)]] reports [OF close_inv [OF run_inv [OF assms(2,1)]]] close_ended
  by auto

lemma reports_no_more:
  "inv s \<Longrightarrow> step\<^sup>*\<^sup>* s t \<Longrightarrow> step\<^sup>*\<^sup>* (close t) u \<Longrightarrow> reported u = reported (close t)"
  using run_ended close_ended by blast

end

text \<open>What a handler can do with a stream, in any order.\<close>

inductive stream_step :: "codec \<Rightarrow> proxy_stream \<Rightarrow> proxy_stream \<Rightarrow> bool" for cd where
  read: "stream_step cd p (snd (Next cd p))"
| close: "stream_step cd p (stream_Close p)"

inductive_cases stream_stepE [elim]: "stream_step cd p q"

interpretation ss: settling_source "stream_step cd" stream_Close ps_settled ps_finished settle_inv
proof unfold_locales
  fix p q
  show "settle_inv q" if "settle_inv p" and "stream_step cd p q" using that by (auto intro: Next_inv Close_inv)
  show "ps_finished q \<and> ps_settled q = ps_settled p" if "ps_finished p" and "stream_step cd p q"
    using that by (auto simp: Next_finished stream_Close_def)
  show "settle_inv (stream_Close p)" if "settle_inv p" using that by (rule Close_inv)
  show "length (ps_settled p) = (if ps_finished p then 1 else 0)" if "settle_inv p"
    using that by (auto simp: settle_inv_def)
qed simp

text \<open>
  A stream is settled exactly once. Once it is primed, whatever sequence of reads and
  closes a handler makes, its outcome is reported at most once; closing it, or reading it to
  its end, reports it; and what happens afterwards reports nothing more. The outcome carries
  an error exactly where the answer broke off or failed.
\<close>

theorem stream_settles_once:
  assumes "ps_onEnd p" and "\<not> ps_finished p" and "ps_settled p = []" and "(stream_step cd)\<^sup>*\<^sup>* p q"
  shows "length (ps_settled q) \<le> 1 \<and> (\<exists>r. ps_settled (stream_Close q) = [r] \<and> outcome_ok r)
    \<and> (\<forall>s. (stream_step cd)\<^sup>*\<^sup>* (stream_Close q) s \<longrightarrow> ps_settled s = ps_settled (stream_Close q))
    \<and> (\<forall>e s. Next cd q = (End e, s) \<longrightarrow> (\<exists>r. ps_settled s = [r] \<and> outcome_ok r))"
proof -
  have "settle_inv p" using assms by (simp add: settle_inv_def)
  then have inv: "settle_inv q" by (rule ss.run_inv [OF assms(4)])
  then have few: "length (ps_settled q) \<le> 1" using ss.reports [OF inv] by simp
  have closed: "\<exists>r. ps_settled (stream_Close q) = [r] \<and> outcome_ok r"
    using Close_inv [OF inv] Close_finished [of q] by (auto simp: settle_inv_def)
  have after: "\<forall>s. (stream_step cd)\<^sup>*\<^sup>* (stream_Close q) s \<longrightarrow> ps_settled s = ps_settled (stream_Close q)"
    using ss.run_ended [OF _ Close_finished] by blast
  have "\<exists>r. ps_settled s = [r] \<and> outcome_ok r" if "Next cd q = (End e, s)" for e s
  proof (cases rule: Next_cases [of cd q])
    case (line l p')
    then show ?thesis using that by simp
  next
    case (ended e' p')
    then have "ps_finished s" using that by simp
    then show ?thesis using Next_inv [OF inv, of cd] that by (auto simp: settle_inv_def)
  qed
  then show ?thesis using few closed after by blast
qed

definition toy_codec :: codec where
  "toy_codec = \<lparr>cd_parse = (\<lambda>s. if s = ''{}'' then Some (JObj []) else None), cd_object = (\<lambda>s. None),
     cd_enc = (\<lambda>v. []), cd_quote = (\<lambda>s. s)\<rparr>"

definition toy_sse :: proxy_stream where
  "toy_sse = (newProxyStream (''data: {}'' @ [CHR 0x0A, CHR 0x0A] @ ''data: [DONE]'' @ [CHR 0x0A, CHR 0x0A]) None ''toy'')
     \<lparr>ps_onEnd := True\<rparr>"

definition line_of :: "next_result \<Rightarrow> string option" where
  "line_of r = (case r of Line l \<Rightarrow> Some l | End e \<Rightarrow> None)"

theorem stream_settles_once_witness:
  "length (ps_settled (stream_Close (snd (Next toy_codec toy_sse)))) = 1
   \<and> line_of (fst (Next toy_codec toy_sse)) = Some ''data: {}''"
proof -
  have "line_of (fst (Next toy_codec toy_sse)) = Some ''data: {}''" by code_simp
  moreover have on: "ps_onEnd toy_sse" "\<not> ps_finished toy_sse" "ps_settled toy_sse = []"
    by (simp_all add: toy_sse_def newProxyStream_def)
  have "(stream_step toy_codec)\<^sup>*\<^sup>* toy_sse (snd (Next toy_codec toy_sse))"
    by (rule r_into_rtranclp, rule stream_step.read)
  from stream_settles_once [OF on this] obtain r where
    "ps_settled (stream_Close (snd (Next toy_codec toy_sse))) = [r]" by blast
  ultimately show ?thesis by simp
qed

section \<open>Reading a stream to its end\<close>

lemma fold_fst_inv:
  "(\<And>x st. P (fst st) \<Longrightarrow> P (fst (f x st))) \<Longrightarrow> P (fst st) \<Longrightarrow> P (fst (fold f xs st))"
  by (induction xs arbitrary: st) auto

lemma release_held: "um_held (fst (release (u :: unmasker) index choice)) = AList.delete index (um_held u)"
proof (cases "map_of (um_held u) index")
  case None
  then have "AList.delete index (um_held u) = um_held u"
    by (simp add: map_of_eq_None_iff)
  then show ?thesis using None by (simp add: release_def)
next
  case (Some held)
  define P where "P = (\<lambda>v :: unmasker. um_held v = AList.delete index (um_held u))"
  define st0 where "st0 = (u\<lparr>um_held := AList.delete index (um_held u)\<rparr>, obj_or_nil (map_of choice ''delta''), False)"
  have fld: "P (fst (release_field held g st))" if "P (fst st)" for g st
    using that by (auto simp: release_field_def Let_def P_def track_def split: prod.splits option.splits)
  have tool: "P (fst (release_tool held g st))" if "P (fst st)" for g st
    using that by (auto simp: release_tool_def Let_def P_def track_def split: prod.splits)
  have "P (fst st0)" by (simp add: st0_def P_def)
  then have "P (fst (fold (release_field held) generated st0))"
    by (rule fold_fst_inv [where P = P and f = "release_field held", rotated]) (rule fld)
  then have "P (fst (fold (release_tool held) (sort (map fst (hc_tools held))) (fold (release_field held) generated st0)))"
    by (rule fold_fst_inv [where P = P and f = "release_tool held", rotated]) (rule tool)
  then show ?thesis
    using Some by (auto simp: release_def Let_def st0_def P_def split: prod.splits)
qed

lemma tail_choices_held: "um_held (snd (tail_choices is u)) = fold AList.delete is (um_held u)"
proof (induction "is" u rule: tail_choices.induct)
  case (2 i rest u)
  obtain u1 ch rel where r: "release u i [(''index'', JNum i), (''delta'', JObj []), (''finish_reason'', JNull)] = (u1, ch, rel)"
    by (metis prod.exhaust)
  then have "um_held u1 = AList.delete i (um_held u)" by (metis fst_conv release_held)
  then show ?case using 2 [OF r [symmetric] refl] r by (cases "tail_choices rest u1") simp
qed simp

lemma fold_delete_all: "fst ` set al \<subseteq> set ks \<Longrightarrow> fold AList.delete ks al = []"
proof (induction ks arbitrary: al)
  case (Cons k ks)
  have "fst ` set (AList.delete k al) \<subseteq> set ks"
    using Cons.prems by (auto simp: AList.delete_eq)
  then show ?case using Cons.IH by simp
qed simp

lemma unmask_tail_held:
  "unmask_tail enc ident model u = (u', t) \<Longrightarrow> um_held u' = [] \<and> (t \<noteq> None \<longrightarrow> um_held u \<noteq> [])"
proof -
  assume t: "unmask_tail enc ident model u = (u', t)"
  let ?is = "sort (map fst (um_held u))"
  obtain cs v where tc: "tail_choices ?is u = (cs, v)" by force
  have "um_held v = fold AList.delete ?is (um_held u)" using tail_choices_held [of ?is u] tc by simp
  also have "\<dots> = []" by (rule fold_delete_all) auto
  finally have "um_held v = []" .
  moreover have "u' = v" and "t \<noteq> None \<Longrightarrow> cs \<noteq> []"
    using t tc by (auto simp: unmask_tail_def Let_def split: if_splits)
  moreover have "um_held u \<noteq> []" if "cs \<noteq> []" using that tc by auto
  ultimately show ?thesis by blast
qed

definition held_count :: "proxy_stream \<Rightarrow> nat" where
  "held_count p = (case ps_unmask p of None \<Rightarrow> 0 | Some u \<Rightarrow> length (um_held u))"

lemma heldTail_count:
  "heldTail cd p = (Some t, q) \<Longrightarrow> held_count q < held_count p \<and> ps_rest q = ps_rest p"
  by (auto simp: heldTail_def held_count_def split: option.splits prod.splits dest: unmask_tail_held)

lemma fill_rest: "ps_pending p = [] \<Longrightarrow> ps_pending (fill cd p) \<noteq> [] \<Longrightarrow> length (ps_rest (fill cd p)) < length (ps_rest p)"
proof (induction cd p rule: fill.induct)
  case (1 cd p)
  obtain t p1 where t: "take_line cd p = (t, p1)" by force
  show ?case
  proof (cases t)
    case None
    then have "ps_pending (fill cd p) = ps_pending p1" using "1.prems"(1) t by (simp add: fill.simps [of cd p])
    moreover have "snd (scan_line p) = p1"
      using t None by (auto simp: take_line_def split: option.splits prod.splits)
    then have "ps_pending p1 = []"
      using "1.prems"(1) by (auto simp: scan_line_def Let_def split: if_splits)
    ultimately have "ps_pending (fill cd p) = []" by simp
    then show ?thesis using "1.prems"(2) by simp
  next
    case (Some c)
    then have f: "fill cd p = fill cd p1" and less: "length (ps_rest p1) < length (ps_rest p)"
      using "1.prems"(1) t take_line_rest(1) [of cd p c p1] by (simp_all add: fill.simps [of cd p])
    show ?thesis
    proof (cases "ps_pending p1 = []")
      case True
      then show ?thesis using "1.IH" [OF _ t [symmetric] Some True] "1.prems" f less by simp
    next
      case False
      then have "fill cd p1 = p1" by (simp add: fill.simps [of cd p1])
      then show ?thesis using f less by simp
    qed
  qed
qed

lemma Next_progress:
  assumes "Next cd p = (Line l, q)"
  shows "(q, p) \<in> measures [\<lambda>p. length (ps_rest p), held_count, \<lambda>p. length (ps_pending p)]"
proof (cases "ps_pending p")
  case (Cons x xs)
  then have "fill cd p = p" by (simp add: fill.simps [of cd p])
  then have "q = p\<lparr>ps_pending := xs\<rparr>" using assms Cons by (simp add: Next_def Let_def)
  then show ?thesis using Cons by (simp add: held_count_def)
next
  case Nil
  show ?thesis
  proof (cases "ps_pending (fill cd p)")
    case (Cons x xs)
    then have "q = (fill cd p)\<lparr>ps_pending := xs\<rparr>" using assms by (simp add: Next_def Let_def)
    then show ?thesis using fill_rest [OF Nil] Cons by simp
  next
    case none: Nil
    then obtain t r where h: "heldTail cd (fill cd p) = (Some t, r)" and q: "q = r\<lparr>ps_pending := [[]]\<rparr>"
      using assms by (auto simp: Next_def Let_def split: prod.splits option.splits)
    have rest: "ps_rest (fill cd p) = []" by (rule fill_done [OF none])
    show ?thesis
    proof (cases "ps_rest p = []")
      case False
      then show ?thesis using heldTail_count [OF h] rest q by simp
    next
      case True
      then have "scan_line p = (None, p)" by (simp add: scan_line_def Let_def)
      then have "take_line cd p = (None, p)" by (simp add: take_line_def)
      then have "fill cd p = p" using Nil by (simp add: fill.simps [of cd p])
      then show ?thesis using heldTail_count [OF h] q by (simp add: held_count_def)
    qed
  qed
qed

text \<open>The loop of a handler that reads to the end: the lines sent, the end, and the stream left.\<close>

function relay :: "codec \<Rightarrow> proxy_stream \<Rightarrow> string list \<times> go_error option \<times> proxy_stream" where
  "relay cd p =
     (case Next cd p of
        (Line l, q) \<Rightarrow> (let (ls, e, r) = relay cd q in (l # ls, e, r))
      | (End e, q) \<Rightarrow> ([], e, q))"
  by pat_completeness auto
termination
  by (relation "inv_image (measures [\<lambda>p. length (ps_rest p), held_count, \<lambda>p. length (ps_pending p)]) snd")
     (auto dest: Next_progress [OF sym] simp del: in_measures)

declare relay.simps [simp del]

text \<open>The lines of a text, as the scanner gives them.\<close>

function text_lines :: "string \<Rightarrow> string list" where
  "text_lines t =
     (if t = [] then []
      else let line = takeWhile not_newline t in drop_cr line # text_lines (drop (length line + 1) t))"
  by pat_completeness auto
termination by (relation "measure length") auto

declare text_lines.simps [simp del]

function lines_fit :: "string \<Rightarrow> bool" where
  "lines_fit t =
     (if t = [] then True
      else let line = takeWhile not_newline t in int (length line) < maxSSELine \<and> lines_fit (drop (length line + 1) t))"
  by pat_completeness auto
termination by (relation "measure length") auto

declare lines_fit.simps [simp del]

text \<open>
  What a client gets for a line of the provider: the line, or, for a JSON event, its text with
  the public model name in place of the model's value, after the removal of repeated roles.
\<close>

definition line_data :: "string \<Rightarrow> string" where
  "line_data line = trim_prefix (drop 5 line) '' ''"

definition forwarded :: "codec \<Rightarrow> string \<Rightarrow> string \<Rightarrow> string \<Rightarrow> bool" where
  "forwarded cd public line out =
     (out = line \<or>
      (\<exists>c data. has_prefix line ''data:'' \<and> read_chunk cd (line_data line) = Some c
         \<and> out = take (length line - length (line_data line)) line @ rewriteModel cd data (ch_Model c) public
         \<and> (data = line_data line \<or> (\<exists>obj. data = cd_enc cd (JObj obj)))))"

text \<open>A stream of a key that does not mask and a client that sees all usage.\<close>

definition plain_stream :: "proxy_stream \<Rightarrow> bool" where
  "plain_stream p = (ps_unmask p = None \<and> \<not> ps_hideUsage p \<and> \<not> ps_skipBlank p)"

lemma observe_plain:
  assumes "plain_stream p" and "observe cd line p = (ls, c, q)"
  shows "(\<exists>out. ls = [out] \<and> forwarded cd (ps_public p) line out) \<and> ps_unmask q = None"
proof -
  have un: "ps_unmask p = None" using assms(1) by (simp add: plain_stream_def)
  have same: "forwarded cd (ps_public p) line line" by (simp add: forwarded_def)
  consider "\<not> has_prefix line ''data:''" | "has_prefix line ''data:''" "trim_space (line_data line) = ''[DONE]''"
    | "has_prefix line ''data:''" "trim_space (line_data line) \<noteq> ''[DONE]''" "read_chunk cd (line_data line) = None"
    | ch where "has_prefix line ''data:''" "trim_space (line_data line) \<noteq> ''[DONE]''" "read_chunk cd (line_data line) = Some ch"
    by (cases "read_chunk cd (line_data line)") auto
  then show ?thesis
  proof cases
    case 1
    then show ?thesis using assms(2) un same by (auto simp: observe_def)
  next
    case 2
    then show ?thesis
      using assms(2) un same by (auto simp: observe_def line_data_def [symmetric] Let_def heldTail_def)
  next
    case 3
    then show ?thesis using assms(2) un same by (auto simp: observe_def line_data_def [symmetric] Let_def)
  next
    case (4 ch)
    obtain data1 p1 where d: "dropRepeatedRole cd (line_data line) ch (note_chunk ch p) = (data1, p1)" by force
    have data: "data1 = line_data line \<or> (\<exists>obj. data1 = cd_enc cd (JObj obj))"
      using d by (auto simp: dropRepeatedRole_def Let_def split: prod.splits if_splits option.splits)
    obtain n q' where "note_chunk ch p = p\<lparr>ps_chunks := n, ps_o := q'\<rparr>" using note_chunk_frame by blast
    moreover obtain r where "p1 = (note_chunk ch p)\<lparr>ps_roleSent := r\<rparr>"
      using dropRepeatedRole_frame [of cd "line_data line" ch "note_chunk ch p"] d by auto
    ultimately have un1: "ps_unmask p1 = None" using un by simp
    then have "ls = [take (length line - length (line_data line)) line @ rewriteModel cd data1 (ch_Model ch) (ps_public p)]"
      and "q = p1"
      using 4 assms(2) d by (auto simp: observe_def line_data_def [symmetric] Let_def unmask_data_def)
    then show ?thesis using 4 data un1 by (auto simp: forwarded_def)
  qed
qed

lemma take_line_plain:
  assumes "plain_stream p" and "ps_rest p \<noteq> []" and "int (length (takeWhile not_newline (ps_rest p))) < maxSSELine"
  shows "\<exists>c out q. take_line cd p = (Some c, q) \<and> plain_stream q \<and> ps_public q = ps_public p
    \<and> ps_pending q = ps_pending p @ [out]
    \<and> ps_rest q = drop (length (takeWhile not_newline (ps_rest p)) + 1) (ps_rest p)
    \<and> forwarded cd (ps_public p) (drop_cr (takeWhile not_newline (ps_rest p))) out"
proof -
  let ?w = "takeWhile not_newline (ps_rest p)"
  let ?p = "p\<lparr>ps_rest := drop (length ?w + 1) (ps_rest p)\<rparr>"
  have scan: "scan_line p = (Some (drop_cr ?w), ?p)" using assms(2,3) by (simp add: scan_line_def Let_def)
  have plain: "plain_stream ?p" using assms(1) by (simp add: plain_stream_def)
  obtain ls c q where ob: "observe cd (drop_cr ?w) ?p = (ls, c, q)" by (metis prod.exhaust)
  obtain out where out: "ls = [out]" "forwarded cd (ps_public p) (drop_cr ?w) out" and un: "ps_unmask q = None"
    using observe_plain [OF plain ob] by auto
  obtain u r n o1 d where q: "q = ?p\<lparr>ps_unmask := u, ps_roleSent := r, ps_chunks := n, ps_o := o1, ps_sawDone := d\<rparr>"
    using observe_frame [of cd "drop_cr ?w" ?p] ob by auto
  have "keep out c q = (True, q\<lparr>ps_skipBlank := False\<rparr>)"
    using assms(1) q by (simp add: keep_def plain_stream_def)
  then have "take_line cd p = (Some c, q\<lparr>ps_skipBlank := False, ps_pending := ps_pending q @ [out]\<rparr>)"
    using scan ob out(1) by (simp add: take_line_def)
  moreover have "plain_stream (q\<lparr>ps_skipBlank := False, ps_pending := ps_pending q @ [out]\<rparr>)"
    using assms(1) q un by (simp add: plain_stream_def)
  ultimately show ?thesis using q out(2) by auto
qed

lemma relay_plain:
  "plain_stream p \<Longrightarrow> lines_fit (ps_rest p) \<Longrightarrow> relay cd p = (ls, e, q) \<Longrightarrow>
   \<exists>outs. ls = ps_pending p @ outs \<and> list_all2 (forwarded cd (ps_public p)) (text_lines (ps_rest p)) outs"
proof (induction cd p arbitrary: ls e q rule: relay.induct)
  case (1 cd p)
  let ?w = "takeWhile not_newline (ps_rest p)"
  show ?case
  proof (cases "ps_pending p")
    case (Cons l pend)
    then have f: "fill cd p = p" by (simp add: fill.simps [of cd p])
    then have nx: "Next cd p = (Line l, p\<lparr>ps_pending := pend\<rparr>)" using Cons by (simp add: Next_def Let_def)
    obtain ls' e' q' where rec: "relay cd (p\<lparr>ps_pending := pend\<rparr>) = (ls', e', q')" by (metis prod.exhaust)
    then have "ls = l # ls'" using "1.prems"(3) nx by (simp add: relay.simps [of cd p])
    moreover have "\<exists>outs. ls' = pend @ outs \<and> list_all2 (forwarded cd (ps_public p)) (text_lines (ps_rest p)) outs"
      using "1.IH" [OF nx [symmetric] refl _ _ rec] "1.prems"(1,2) by (simp add: plain_stream_def)
    ultimately show ?thesis using Cons by auto
  next
    case Nil
    show ?thesis
    proof (cases "ps_rest p = []")
      case True
      then have "take_line cd p = (None, p)" by (simp add: take_line_def scan_line_def Let_def)
      then have "fill cd p = p" using Nil by (simp add: fill.simps [of cd p])
      then have "Next cd p = (End (ps_err p), finish_stream p)"
        using Nil "1.prems"(1) by (simp add: Next_def Let_def heldTail_def plain_stream_def)
      then show ?thesis using "1.prems"(3) Nil True by (simp add: relay.simps [of cd p] text_lines.simps [of "[]"])
    next
      case False
      then have fit: "int (length ?w) < maxSSELine" "lines_fit (drop (length ?w + 1) (ps_rest p))"
        using "1.prems"(2) by (simp_all add: lines_fit.simps [of "ps_rest p"] Let_def)
      obtain c out p1 where t: "take_line cd p = (Some c, p1)" "plain_stream p1" "ps_public p1 = ps_public p"
          "ps_pending p1 = [out]" "ps_rest p1 = drop (length ?w + 1) (ps_rest p)"
          "forwarded cd (ps_public p) (drop_cr ?w) out"
        using take_line_plain [OF "1.prems"(1) False fit(1), of cd] Nil by (auto simp del: One_nat_def)
      have "fill cd p = fill cd p1" using Nil t(1) by (simp add: fill.simps [of cd p])
      also have "\<dots> = p1" using t(4) by (simp add: fill.simps [of cd p1])
      finally have nx: "Next cd p = (Line out, p1\<lparr>ps_pending := []\<rparr>)" using t(4) by (simp add: Next_def Let_def)
      obtain ls' e' q' where rec: "relay cd (p1\<lparr>ps_pending := []\<rparr>) = (ls', e', q')" by (metis prod.exhaust)
      then have "ls = out # ls'" using "1.prems"(3) nx by (simp add: relay.simps [of cd p])
      moreover have "\<exists>outs. ls' = outs \<and> list_all2 (forwarded cd (ps_public p)) (text_lines (ps_rest p1)) outs"
        using "1.IH" [OF nx [symmetric] refl _ _ rec] t fit(2) by (simp add: plain_stream_def)
      ultimately show ?thesis
        using False t(5,6) Nil by (simp add: text_lines.simps [of "ps_rest p"] Let_def)
    qed
  qed
qed

lemma relay_ends: "relay cd p = (ls, e, q) \<Longrightarrow> settle_inv p \<Longrightarrow> \<exists>r. ps_settled q = [r] \<and> outcome_ok r"
proof (induction cd p arbitrary: ls e q rule: relay.induct)
  case (1 cd p)
  have inv: "settle_inv (snd (Next cd p))" by (rule Next_inv [OF "1.prems"(2)])
  show ?case
  proof (cases rule: Next_cases [of cd p])
    case (line l r)
    obtain ls' e' q' where rec: "relay cd r = (ls', e', q')" by (metis prod.exhaust)
    then have "q = q'" using "1.prems"(1) line(1) by (simp add: relay.simps [of cd p])
    then show ?thesis using "1.IH" [OF line(1) [symmetric] refl rec] inv line(1) by simp
  next
    case (ended e' r)
    then have "q = finish_stream r" using "1.prems"(1) by (simp add: relay.simps [of cd p])
    then show ?thesis using inv ended(1) by (auto simp: settle_inv_def)
  qed
qed



section \<open>The rewritten model name\<close>

lemma skip_string_suffix: "\<exists>u. s = u @ skip_string esc s"
proof (induction esc s rule: skip_string.induct)
  case (2 esc c cs)
  then show ?case by (auto intro: exI [of _ "c # _"] exI [of _ "[c]"]) (metis append_Cons)+
qed simp

lemma skip_nested_suffix: "\<exists>u. s = u @ skip_nested d str esc s"
proof (induction d str esc s rule: skip_nested.induct)
  case (2 d str esc c cs)
  have step: "\<exists>u. c # cs = u @ t" if "\<exists>u. cs = u @ t" for t using that by (metis append_Cons)
  have "\<exists>u. c # cs = u @ cs" by (rule exI [of _ "[c]"]) simp
  then show ?case using 2 step by (auto split: if_splits)
qed simp

lemma skip_value_suffix: "\<exists>u. s = u @ skip_value s"
proof (cases s)
  case (Cons c cs)
  have step: "\<exists>u. c # cs = u @ t" if "\<exists>u. cs = u @ t" for t using that by (metis append_Cons)
  have dw: "\<exists>u. x = u @ dropWhile P x" for x P by (metis takeWhile_dropWhile_id)
  consider "c = CHR 0x22" | "c \<noteq> CHR 0x22" "c \<in> {CHR 0x7B, CHR 0x5B}" | "c \<noteq> CHR 0x22" "c \<notin> {CHR 0x7B, CHR 0x5B}"
    by blast
  then show ?thesis
  proof cases
    case 1
    then show ?thesis using step [OF skip_string_suffix [of cs False]] Cons by simp
  next
    case 2
    then show ?thesis using step [OF skip_nested_suffix [of cs 1 False False]] Cons by simp
  next
    case 3
    then show ?thesis
      using dw [of "c # cs" "\<lambda>x. \<not> json_ws x \<and> x \<noteq> CHR '','' \<and> x \<noteq> CHR 0x7D \<and> x \<noteq> CHR 0x5D"] Cons
      by (simp del: dropWhile.simps)
  qed
qed simp

lemma model_value_parts:
  "model_value parse s = Some (v, after) \<Longrightarrow>
   \<exists>pre key sep w. s = pre @ key @ sep @ w @ after \<and> v = w @ after \<and> parse key = Some (JStr ''model'')
     \<and> list_all (\<lambda>c. c = CHR '':'' \<or> json_ws c) sep"
proof (induction parse s rule: model_value.induct)
  case (1 parse s)
  let ?b = "\<lambda>c. json_ws c \<or> c = CHR '',''"
  let ?colon = "\<lambda>c. c = CHR '':'' \<or> json_ws c"
  obtain c cs where d: "dropWhile ?b s = c # cs" and q: "c = CHR 0x22"
    using "1.prems" by (auto simp: model_value.simps [of parse s] split: list.splits if_splits)
  define rest where "rest = skip_string False cs"
  define key where "key = c # take (length cs - length rest) cs"
  define val where "val = dropWhile ?colon rest"
  obtain u where u: "cs = u @ rest" using skip_string_suffix unfolding rest_def by blast
  have key: "key = c # u" using u by (simp add: key_def)
  have rest: "rest = takeWhile ?colon rest @ val" by (simp add: val_def)
  obtain w where w: "val = w @ skip_value val" using skip_value_suffix by blast
  have s: "s = takeWhile ?b s @ key @ takeWhile ?colon rest @ w @ skip_value val"
    using d u key rest w by (metis append_Cons append_assoc takeWhile_dropWhile_id)
  have sep: "list_all ?colon (takeWhile ?colon rest)" by (auto simp: list_all_iff dest: set_takeWhileD)
  have run: "model_value parse s =
      (if parse key = Some (JStr ''model'') then Some (val, skip_value val) else model_value parse (skip_value val))"
    by (simp add: model_value.simps [of parse s] d q rest_def key_def val_def Let_def)
  show ?case
  proof (cases "parse key = Some (JStr ''model'')")
    case True
    then have "v = val" "after = skip_value val" using "1.prems" run by auto
    then show ?thesis using True s w sep by metis
  next
    case False
    then have "model_value parse (skip_value val) = Some (v, after)" using "1.prems" run by simp
    moreover have "\<not> c \<noteq> CHR 0x22" using q by simp
    ultimately obtain pre key' sep' w' where r: "skip_value val = pre @ key' @ sep' @ w' @ after" "v = w' @ after"
        "parse key' = Some (JStr ''model'')" "list_all ?colon sep'"
      using "1.IH" [OF d _ rest_def key_def val_def refl False] by blast
    then have "s = (takeWhile ?b s @ key @ takeWhile ?colon rest @ w @ pre) @ key' @ sep' @ w' @ after"
      using s by simp
    then show ?thesis using r by blast
  qed
qed

text \<open>
  Naming the public model changes one value. The rewritten text is the text as it was, or
  it differs from it exactly in the value of its first member \<open>model\<close>, which becomes the public
  name; every other byte stays as sent.
\<close>

theorem rewriteModel_changes_one_value:
  "rewriteModel cd raw model public = raw \<or>
   (\<exists>pre key sep w post. raw = pre @ key @ sep @ w @ post \<and> cd_parse cd key = Some (JStr ''model'')
      \<and> list_all (\<lambda>c. c = CHR '':'' \<or> json_ws c) sep
      \<and> rewriteModel cd raw model public = pre @ key @ sep @ cd_quote cd public @ post)"
proof (cases "rewriteModel cd raw model public = raw")
  case False
  then obtain cs v after where d: "dropWhile json_ws raw = CHR 0x7B # cs"
    and m: "model_value (cd_parse cd) cs = Some (v, after)"
    and out: "rewriteModel cd raw model public = take (length raw - length v) raw @ cd_quote cd public @ after"
    by (auto simp: rewriteModel_def split: if_splits list.splits option.splits)
  obtain pre key sep w where p: "cs = pre @ key @ sep @ w @ after" "v = w @ after"
      "cd_parse cd key = Some (JStr ''model'')" "list_all (\<lambda>c. c = CHR '':'' \<or> json_ws c) sep"
    using model_value_parts [OF m] by blast
  define lead where "lead = takeWhile json_ws raw @ CHR 0x7B # pre"
  have "raw = takeWhile json_ws raw @ dropWhile json_ws raw" by simp
  then have raw: "raw = (lead @ key @ sep) @ v"
    unfolding d p(1) lead_def by (simp add: p(2))
  have "take (length r - length v) r = x" if "r = x @ v" for r x using that by simp
  then have "take (length raw - length v) raw = lead @ key @ sep" using raw by blast
  then have "rewriteModel cd raw model public = lead @ key @ sep @ cd_quote cd public @ after" using out by simp
  moreover have "raw = lead @ key @ sep @ w @ after" using raw p(2) by simp
  ultimately show ?thesis using p(3,4) by blast
qed simp

text \<open>
  Usage that is metered is sound. A SystemOne answer is accepted only with a model, at
  least one answer and both token counts; the counts are not negative and their sum, the total
  that is charged, does not overflow 64 bits.
\<close>

theorem systemone_usage_sound:
  assumes "observeSystemOne cd body public um = Inr (out, r)"
  shows "\<exists>u. o_usage r = Some u \<and> 0 \<le> PromptTokens u \<and> 0 \<le> CompletionTokens u
    \<and> TotalTokens u = PromptTokens u + CompletionTokens u \<and> TotalTokens u \<le> MaxInt64 \<and> o_err r = None"
  using assms by (auto simp: observeSystemOne_def no_outcome_def split: option.splits if_splits)

definition toy_systemone :: codec where
  "toy_systemone = toy_codec\<lparr>cd_parse := \<lambda>s. Some (JObj
     [(''model'', JStr ''m''), (''answers'', JObj [(''q'', JBool True)]),
      (''usage'', JObj [(''input_tokens'', JNum ''2''), (''output_tokens'', JNum ''3'')])])\<rparr>"

theorem systemone_usage_sound_witness:
  "\<exists>u. o_usage (snd (projr (observeSystemOne toy_systemone [] ''m'' None))) = Some u \<and> TotalTokens u \<le> MaxInt64"
proof -
  have "\<not> isl (observeSystemOne toy_systemone [] ''m'' None)" by code_simp
  then have "observeSystemOne toy_systemone [] ''m'' None
      = Inr (fst (projr (observeSystemOne toy_systemone [] ''m'' None)), snd (projr (observeSystemOne toy_systemone [] ''m'' None)))"
    by simp
  then show ?thesis using systemone_usage_sound by blast
qed

end
