(* ===== verification/ProxyFacts.thy ===== *)
theory ProxyFacts
  imports Proxy StreamFacts
begin

text \<open>
  What a request through the service guarantees: credit is held before a provider is called and
  the hold is settled exactly once, providers get the masked body only, guests stay within
  their models and limits, and every request leaves one terminal outcome.
\<close>

section \<open>Reading a trace\<close>

fun hold_of :: "'d effect \<Rightarrow> string list" where
  "hold_of (EvReserve auth req model (Inr r)) = [r]"
| "hold_of e = []"

fun settlement_of :: "'d effect \<Rightarrow> string list" where
  "settlement_of (EvSuccess r req result model) = [r]"
| "settlement_of (EvFailure (Some r) req model err usage) = [r]"
| "settlement_of e = []"

fun provider_of :: "'d effect \<Rightarrow> (bool \<times> 'd public_model \<times> string) list" where
  "provider_of (EvProvider streaming target body) = [(streaming, target, body)]"
| "provider_of e = []"

fun generation_of :: "'d effect \<Rightarrow> string list" where
  "generation_of (EvMetric (Count name labels n)) = (if name = ''generations_total'' then [last labels] else [])"
| "generation_of e = []"

definition holds :: "'d effect list \<Rightarrow> string list" where "holds ev = concat (map hold_of ev)"
definition settlements :: "'d effect list \<Rightarrow> string list" where "settlements ev = concat (map settlement_of ev)"
definition providers :: "'d effect list \<Rightarrow> (bool \<times> 'd public_model \<times> string) list" where
  "providers ev = concat (map provider_of ev)"
definition generations :: "'d effect list \<Rightarrow> string list" where "generations ev = concat (map generation_of ev)"

lemmas trace_defs = holds_def settlements_def providers_def generations_def

lemma trace_append [simp]:
  "holds (a @ b) = holds a @ holds b" "settlements (a @ b) = settlements a @ settlements b"
  "providers (a @ b) = providers a @ providers b" "generations (a @ b) = generations a @ generations b"
  by (simp_all add: trace_defs)

lemma trace_Cons [simp]:
  "holds (e # ev) = hold_of e @ holds ev" "settlements (e # ev) = settlement_of e @ settlements ev"
  "providers (e # ev) = provider_of e @ providers ev" "generations (e # ev) = generation_of e @ generations ev"
  by (simp_all add: trace_defs)

lemma trace_Nil [simp]: "holds [] = []" "settlements [] = []" "providers [] = []" "generations [] = []"
  by (simp_all add: trace_defs)

lemma terminal_outcome [simp]: "generation_of (EvMetric (recordTerminalOutcome r endpoint req m)) = [r]"
  by (simp add: recordTerminalOutcome_def split: prod.splits)

lemma error_metric [simp]: "generation_of (EvMetric (recordError endpoint req m phase err)) = []"
  by (simp add: recordError_def RecordError_def split: prod.splits)

lemma fallback_metric [simp]: "generation_of (EvMetric (RecordFallback endpoint m p f err)) = []"
  by (simp add: RecordFallback_def)

lemma usage_metrics [simp]:
  "holds (map EvMetric (RecordUsage u m p)) = []" "settlements (map EvMetric (RecordUsage u m p)) = []"
  "providers (map EvMetric (RecordUsage u m p)) = []" "generations (map EvMetric (RecordUsage u m p)) = []"
  by (auto simp: RecordUsage_def split: option.splits)

lemma proof_effects [simp]:
  "holds (storeTinfoilProof po auth model result) = []" "settlements (storeTinfoilProof po auth model result) = []"
  "providers (storeTinfoilProof po auth model result) = []" "generations (storeTinfoilProof po auth model result) = []"
  by (auto simp: storeTinfoilProof_def Let_def split: option.splits)

lemma finish_call_effects [simp]:
  "holds (finish_call po h target r) = []" "settlements (finish_call po h target r) = [hd_reservation h]"
  "providers (finish_call po h target r) = []" "length (generations (finish_call po h target r)) = 1"
  by (auto simp: finish_call_def finishProxy_def Let_def split: option.splits)

lemma early_effects [simp]:
  "holds (early_metrics endpoint req m err) = []" "settlements (early_metrics endpoint req m err) = []"
  "providers (early_metrics endpoint req m err) = []" "generations (early_metrics endpoint req m err) = [OutcomeError]"
  by (simp_all add: early_metrics_def)

section \<open>The attempts\<close>

lemma prime_frame:
  "ps_finished (snd (prime cd p)) = ps_finished p \<and> ps_settled (snd (prime cd p)) = ps_settled p"
proof (induction cd p rule: prime.induct)
  case (1 cd p)
  obtain t p1 where t: "take_line cd p = (t, p1)" by force
  obtain rest e u r n q d b ls where fr: "p1 = p\<lparr>ps_rest := rest, ps_err := e, ps_unmask := u,
      ps_roleSent := r, ps_chunks := n, ps_o := q, ps_sawDone := d, ps_skipBlank := b, ps_pending := ps_pending p @ ls\<rparr>"
    using take_line_frame [of cd p] t by auto
  show ?case
    using "1.IH" [OF t [symmetric]] t fr by (cases t) (simp_all add: prime.simps [of cd p])
qed

text \<open>What the result of an attempt settles by itself.\<close>

fun answered :: "string \<Rightarrow> (go_error + 'd call_result) \<Rightarrow> string list" where
  "answered r (Inr (Answered m body)) = [r]"
| "answered r x = []"

text \<open>A stream as it is handed out: unsettled, and with its settlement set.\<close>

fun fresh_stream :: "(go_error + 'd call_result) \<Rightarrow> bool" where
  "fresh_stream (Inr (Streaming m p)) = (ps_onEnd p \<and> \<not> ps_finished p \<and> ps_settled p = [])"
| "fresh_stream x = True"

lemma attempt_effects:
  assumes "attempt po h target = (res, ev)"
  shows "holds ev = [] \<and> settlements ev = answered (hd_reservation h) res
    \<and> length (generations ev) = length (answered (hd_reservation h) res)
    \<and> set (providers ev) \<subseteq> {(req_Stream (hd_req h), target, hd_masked h)} \<and> length (providers ev) \<le> 1
    \<and> (providers ev \<noteq> [] \<longrightarrow> validateRequest (hd_endpoint h) (hd_req h) target = None
          \<and> po_registered po (pc_ProviderName (m_ProviderConfig target)))
    \<and> fresh_stream res"
proof (cases "validateRequest (hd_endpoint h) (hd_req h) target")
  case (Some e)
  then show ?thesis using assms by (auto simp: attempt_def Let_def)
next
  case ok: None
  show ?thesis
  proof (cases "po_registered po (pc_ProviderName (m_ProviderConfig target))")
    case False
    then show ?thesis using assms ok by (auto simp: attempt_def Let_def)
  next
    case reg: True
    show ?thesis
    proof (cases "req_Stream (hd_req h)")
      case False
      then show ?thesis
        using assms ok reg by (auto simp: attempt_def Let_def split: sum.splits)
    next
      case True
      show ?thesis
      proof (cases "po_stream po target (hd_masked h)")
        case (Inl err)
        then show ?thesis using assms ok reg True by (auto simp: attempt_def Let_def)
      next
        case (Inr r)
        obtain body1 rerr proof1 where r: "r = (body1, rerr, proof1)" by (metis prod.exhaust)
        define p where "p = (newProxyStream body1 rerr (m_PublicModelID target))\<lparr>ps_proof := proof1,
            ps_hideUsage := \<not> wantsUsage (cd_parse (po_codec po) (hd_raw h)), ps_unmask := newUnmasker (hd_mapping h)\<rparr>"
        have fresh: "ps_finished p = False" "ps_settled p = []" by (simp_all add: p_def newProxyStream_def)
        obtain x q where pr: "prime (po_codec po) p = (x, q)" by force
        then have "ps_finished q = False" "ps_settled q = []"
          using prime_frame [of "po_codec po" p] fresh by auto
        then show ?thesis
          using assms ok reg True Inr r pr
          by (cases x) (auto simp: attempt_def Let_def p_def [symmetric])
      qed
    qed
  qed
qed

section \<open>A request\<close>

text \<open>The targets a request may go to: the model, then its fallback.\<close>

definition targets :: "'d public_model \<Rightarrow> 'd public_model list" where
  "targets model = model # (case m_Fallback model of None \<Rightarrow> [] | Some t \<Rightarrow> [withProviderTarget model t])"

text \<open>What one provider call may look like.\<close>

definition call_ok :: "'d ports \<Rightarrow> held_call \<Rightarrow> bool \<times> 'd public_model \<times> string \<Rightarrow> bool" where
  "call_ok po h c =
     (case c of (streaming, target, body) \<Rightarrow>
        streaming = req_Stream (hd_req h) \<and> body = hd_masked h
        \<and> validateRequest (hd_endpoint h) (hd_req h) target = None
        \<and> po_registered po (pc_ProviderName (m_ProviderConfig target)))"

text \<open>What a request has settled when it returns: everything but a stream.\<close>

fun settled_now :: "string \<Rightarrow> (go_error + 'd call_result) \<Rightarrow> string list" where
  "settled_now r (Inr (Streaming m p)) = []"
| "settled_now r x = [r]"

text \<open>A failure that is worth another provider.\<close>

definition retryable :: "go_error \<Rightarrow> bool" where
  "retryable err = (case as_gateway err of None \<Rightarrow> True | Some e \<Rightarrow> ge_HTTPStatus e = 429 \<or> ge_HTTPStatus e \<ge> 500)"

lemma answered_or_failed:
  "answered r res = (case res of Inl e \<Rightarrow> [] | Inr c \<Rightarrow> settled_now r res)"
  by (cases res; cases "projr res") auto

lemma attempt_calls:
  assumes "attempt po h target = (res, ev)"
  shows "\<forall>c \<in> set (providers ev). call_ok po h c \<and> fst (snd c) = target"
  using attempt_effects [OF assms] by (fastforce simp: call_ok_def dest: subsetD)

text \<open>The end of a request whose attempts failed.\<close>

lemma run_held_effects:
  assumes "run_held po model h = (res, ev)"
  shows "holds ev = [] \<and> settlements ev = settled_now (hd_reservation h) res
    \<and> length (generations ev) = length (settlements ev) \<and> fresh_stream res
    \<and> length (providers ev) \<le> 2
    \<and> (\<forall>c \<in> set (providers ev). call_ok po h c \<and> fst (snd c) \<in> set (targets model))
    \<and> (length (providers ev) = 2 \<longrightarrow>
         (\<exists>err. fst (attempt po h model) = Inl err \<and> retryable err) \<and> \<not> po_client_gone po AtFallback
         \<and> po_lost po AtFallback = None)"
proof -
  obtain r1 ev1 where a1: "attempt po h model = (r1, ev1)" by force
  note e1 = attempt_effects [OF a1] attempt_calls [OF a1]
  have here: "model \<in> set (targets model)" by (simp add: targets_def)
  show ?thesis
  proof (cases r1)
    case (Inr c)
    then have "res = r1" "ev = ev1" using assms a1 by (auto simp: run_held_def)
    then show ?thesis using e1 Inr here by (auto simp: answered_or_failed)
  next
    case (Inl err)
    define final where "final = (\<lambda>err0. the (sanitizeErrorWithPIIMapping
        (Some (case po_lost po AtError of Some cause \<Rightarrow> GwErr cause | None \<Rightarrow> err0)) (hd_mapping h)))"
    define tail where "tail = (\<lambda>executed e. [EvLog ''provider request failed''
        (buildErrorLogFields po (hd_rid h) (Some (hd_auth h)) (hd_endpoint h) (req_PublicModelID (hd_req h)) executed e),
        EvMetric (recordTerminalOutcome OutcomeError (hd_endpoint h) (hd_req h) (Some executed)),
        EvMetric (recordError (hd_endpoint h) (hd_req h) (Some executed) PhaseProvider e),
        EvFailure (Some (hd_reservation h)) (hd_req h) executed e None, EvRelease])"
    have tail: "holds (tail x e) = [] \<and> settlements (tail x e) = [hd_reservation h] \<and> providers (tail x e) = []
        \<and> length (generations (tail x e)) = 1" for x e by (simp add: tail_def)
    show ?thesis
    proof (cases "\<exists>target. map_option (withProviderTarget model) (m_Fallback model) = Some target
        \<and> \<not> po_client_gone po AtFallback \<and> shouldTryFallback (po_lost po AtFallback \<noteq> None) err (m_Fallback model)
        \<and> SupportsEndpoint target (hd_endpoint h)")
      case False
      then have "res = Inl (final err) \<and> ev = ev1 @ tail model (final err)"
        using assms a1 Inl by (auto simp: run_held_def final_def tail_def Let_def split: option.splits)
      then show ?thesis using e1 Inl here tail [of model "final err"] by auto
    next
      case True
      then obtain target where t: "map_option (withProviderTarget model) (m_Fallback model) = Some target"
          "\<not> po_client_gone po AtFallback" "shouldTryFallback (po_lost po AtFallback \<noteq> None) err (m_Fallback model)"
          "SupportsEndpoint target (hd_endpoint h)" by blast
      define mid where "mid = [EvLog ''provider failed; trying fallback''
          (fallback_fields po (hd_rid h) model target (the (sanitizeErrorWithPIIMapping (Some err) (hd_mapping h)))),
          EvMetric (RecordFallback (hd_endpoint h) (m_PublicModelID model)
            (pc_ProviderName (m_ProviderConfig model)) (pc_ProviderName (m_ProviderConfig target)) err) :: 'a effect]"
      have mid: "holds mid = []" "settlements mid = []" "providers mid = []" "generations mid = []"
        by (simp_all add: mid_def)
      obtain r2 ev2 where a2: "attempt po h target = (r2, ev2)" by force
      note e2 = attempt_effects [OF a2] attempt_calls [OF a2]
      have there: "target \<in> set (targets model)" using t(1) by (auto simp: targets_def)
      have why: "retryable err" "po_lost po AtFallback = None"
        using t(3) by (auto simp: shouldTryFallback_def retryable_def)
      show ?thesis
      proof (cases r2)
        case (Inr c)
        then have "res = r2" "ev = ev1 @ mid @ ev2"
          using assms a1 Inl t a2 by (auto simp: run_held_def mid_def)
        then show ?thesis using e1 e2 a1 Inl Inr here there mid why t(2) by (auto simp: answered_or_failed)
      next
        case err2: (Inl err2)
        then have "res = Inl (final err2)" "ev = (ev1 @ mid @ ev2) @ tail target (final err2)"
          using assms a1 Inl t a2 by (auto simp: run_held_def mid_def final_def tail_def Let_def)
        then show ?thesis using e1 e2 a1 Inl err2 here there mid why t(2) tail [of target "final err2"] by auto
      qed
    qed
  qed
qed

section \<open>Admission\<close>

text \<open>The body and the request a caller gets in with: capped for a guest.\<close>

definition entered :: "'d ports \<Rightarrow> string \<Rightarrow> string \<Rightarrow> generate_request \<Rightarrow> auth_context \<Rightarrow> string \<Rightarrow> generate_request \<Rightarrow> bool" where
  "entered po endpoint raw0 req0 auth raw req =
     (if acc_IsGuest (auth_Account auth)
      then checkGuestModel po endpoint (req_PublicModelID req0) = None \<and> cap_text po raw0 req0 = Inr (raw, req)
      else raw = raw0 \<and> req = req0)"

definition chosen :: "'d ports \<Rightarrow> string \<Rightarrow> generate_request \<Rightarrow> 'd public_model \<Rightarrow> generate_request \<Rightarrow> bool" where
  "chosen po endpoint req model exec =
     (if endpoint = EndpointSystemOne then po_model po (req_PublicModelID req) = Inr model \<and> exec = req
      else resolveModel po req = Inr (model, exec))"

text \<open>What a refused admission leaves behind.\<close>

definition refusal_effect :: "'d effect \<Rightarrow> bool" where
  "refusal_effect e =
     ((\<exists>ep rq (m :: 'd public_model option). e = EvMetric (recordTerminalOutcome OutcomeError ep rq m))
      \<or> (\<exists>ep rq (m :: 'd public_model option) err. e = EvMetric (recordError ep rq m PhaseRequest err))
      \<or> (\<exists>rq m err. e = EvFailure None rq m err None) \<or> (\<exists>auth rq m err. e = EvReserve auth rq m (Inl err)))"

lemma refusal_effect_simps [simp]:
  fixes m :: "'d public_model option"
  shows "refusal_effect (EvMetric (recordTerminalOutcome OutcomeError ep rq m) :: 'd effect)"
  "refusal_effect (EvMetric (recordError ep rq m PhaseRequest err) :: 'd effect)"
  "refusal_effect (EvFailure None rq' m' err None)" "refusal_effect (EvReserve auth rq' m' (Inl err))"
  unfolding refusal_effect_def by blast+

lemma early_refusal [simp]: "list_all refusal_effect (early_metrics endpoint rq m err :: 'd effect list)"
  by (simp add: early_metrics_def)

text \<open>The stages of an admission, each refused or passed.\<close>

lemma admit_stages:
  obtains (refused) err ev where "admit po rid endpoint raw0 req0 token = (Inl err, ev)"
      "holds ev = []" "settlements ev = []" "providers ev = []" "length (generations ev) = 1" "list_all refusal_effect ev"
  | (held) auth raw req model exec h where "po_auth po token = Inr auth"
      "entered po endpoint raw0 req0 auth raw req" "chosen po endpoint req model exec"
      "validateRequest endpoint exec model = None"
      "maskBody (po_pii po) (cd_object (po_codec po)) (cd_parse (po_codec po)) (cd_enc (po_codec po)) (po_analyzer po)
         raw (key_PIIMode (auth_APIKey auth)) endpoint = Inr (hd_masked h, hd_mapping h)"
      "po_reserve po auth endpoint (hd_req h) model = Inr (hd_reservation h)"
      "hd_auth h = auth" "hd_endpoint h = endpoint" "hd_rid h = rid" "hd_raw h = raw"
      "\<exists>n. hd_req h = exec\<lparr>req_EstimatedInputTokens := n\<rparr>"
      "admit po rid endpoint raw0 req0 token = (Inr (model, h), EvReserve auth (hd_req h) model (Inr (hd_reservation h))
         # (if po_keeps_holds po then [EvKeep (hd_reservation h)] else []))"
proof (cases "po_auth po token")
  case (Inl e)
  then show thesis by - (rule refused, simp add: admit_def Let_def, simp_all)
next
  case auth: (Inr auth)
  define gate where "gate = (if acc_IsGuest (auth_Account auth) then
      (case checkGuestModel po endpoint (req_PublicModelID req0) of Some e \<Rightarrow> Inl e | None \<Rightarrow> cap_text po raw0 req0)
      else Inr (raw0, req0))"
  show thesis
  proof (cases gate)
    case (Inl e)
    then show thesis using auth by - (rule refused, simp add: admit_def gate_def [symmetric] Let_def, simp_all)
  next
    case (Inr rr)
    then obtain raw req where gate: "gate = Inr (raw, req)" by (cases rr) simp
    then have entered: "entered po endpoint raw0 req0 auth raw req"
      by (auto simp: gate_def entered_def split: if_splits option.splits)
    define pick where "pick = (if endpoint = EndpointSystemOne
        then (case po_model po (req_PublicModelID req) of Inl e \<Rightarrow> Inl e | Inr m \<Rightarrow> Inr (m, req)) else resolveModel po req)"
    show thesis
    proof (cases pick)
      case (Inl e)
      then show thesis
        using auth gate by - (rule refused, simp add: admit_def gate_def [symmetric] pick_def [symmetric] Let_def, simp_all)
    next
      case (Inr me)
      then obtain model exec where pick: "pick = Inr (model, exec)" by (cases me) simp
      then have chosen: "chosen po endpoint req model exec"
        by (auto simp: pick_def chosen_def split: if_splits sum.splits)
      note so_far = auth gate pick gate_def [symmetric] pick_def [symmetric]
      show thesis
      proof (cases "validateRequest endpoint exec model")
        case (Some e)
        then show thesis using so_far by - (rule refused, simp add: admit_def Let_def, simp_all)
      next
        case valid: None
        define m where "m = maskBody (po_pii po) (cd_object (po_codec po)) (cd_parse (po_codec po)) (cd_enc (po_codec po))
            (po_analyzer po) raw (key_PIIMode (auth_APIKey auth)) endpoint"
        show thesis
        proof (cases m)
          case (Inl e)
          then show thesis using so_far valid m_def [symmetric] by - (rule refused, simp add: admit_def Let_def, simp_all)
        next
          case (Inr mm)
          then obtain masked mapping where mm: "m = Inr (masked, mapping)" by (cases mm) simp
          define exec' where "exec' = (case estimateInputTokens (int (length masked)) (po_part_len po masked) endpoint
              (cd_parse (po_codec po) masked) of Some t \<Rightarrow> exec\<lparr>req_EstimatedInputTokens := Some t\<rparr> | None \<Rightarrow> exec)"
          have "exec = exec\<lparr>req_EstimatedInputTokens := req_EstimatedInputTokens exec\<rparr>" by simp
          then have est: "\<exists>n. exec' = exec\<lparr>req_EstimatedInputTokens := n\<rparr>" unfolding exec'_def by (cases "estimateInputTokens
              (int (length masked)) (po_part_len po masked) endpoint (cd_parse (po_codec po) masked)") (metis option.simps(4), auto)
          have run: "admit po rid endpoint raw0 req0 token =
              (case po_reserve po auth endpoint exec' model of
                 Inl err0 \<Rightarrow> (let err = clientGone (po_client_gone po AtReserve) err0
                             in (Inl (Annotate err (reject_fields auth req (Some model))),
                                 EvReserve auth exec' model (Inl err0) # early_metrics endpoint exec' (Some model) err))
               | Inr reservation \<Rightarrow>
                   (Inr (model, \<lparr>hd_rid = rid, hd_auth = auth, hd_endpoint = endpoint, hd_req = exec', hd_raw = raw,
                                 hd_masked = masked, hd_mapping = mapping, hd_reservation = reservation\<rparr>),
                    EvReserve auth exec' model (Inr reservation) # (if po_keeps_holds po then [EvKeep reservation] else [])))"
            using so_far valid m_def [symmetric] mm exec'_def [symmetric] by (simp add: admit_def)
          show thesis
          proof (cases "po_reserve po auth endpoint exec' model")
            case (Inl e)
            then show thesis using run by - (rule refused, simp add: Let_def, simp_all)
          next
            case (Inr reservation)
            let ?h = "\<lparr>hd_rid = rid, hd_auth = auth, hd_endpoint = endpoint, hd_req = exec', hd_raw = raw,
                hd_masked = masked, hd_mapping = mapping, hd_reservation = reservation\<rparr>"
            show thesis
              by (rule held [of auth raw req model exec ?h])
                (use auth entered chosen valid m_def mm Inr est run in simp_all)
          qed
        qed
      qed
    qed
  qed
qed

end
