(* ===== verification/Providers.thy ===== *)
theory Providers
  imports ChatRequest
begin

text \<open>
  The OpenAI-compatible provider adapter (\<open>adapters/providers/openai\<close>), the TypeSafe adapter
  and the provider registry. A provider body is a JSON object with distinct keys, as Go's
  \<open>map[string]any\<close>; \<open>asMaps\<close> of a value gives the objects of an array of objects. The HTTP
  transport, the environment and the formatting of floats are parameters.
\<close>

section \<open>Policies and the proxied body\<close>

record provider_policy =
  pol_name :: string
  pol_useMaxTokens :: bool
  pol_requireToolReasoningContent :: bool
  pol_forwardDeveloperRole :: bool

definition policyForProvider :: "string \<Rightarrow> provider_policy" where
  "policyForProvider providerName =
     (if providerName = ''deepseek'' then
        \<lparr>pol_name = ''deepseek'', pol_useMaxTokens = True, pol_requireToolReasoningContent = True,
         pol_forwardDeveloperRole = False\<rparr>
      else
        \<lparr>pol_name = ''openai-compatible'', pol_useMaxTokens = False, pol_requireToolReasoningContent = False,
         pol_forwardDeveloperRole = (providerName = ''openai'')\<rparr>)"

definition gatewayOnlyFields :: "string list" where "gatewayOnlyFields = [''provider_options'']"

text \<open>The client's output limit and the field that held it.\<close>

definition limit_in :: "jobject \<Rightarrow> string \<Rightarrow> (int \<times> string) option" where
  "limit_in body field =
     (case map_of body field of
        Some v \<Rightarrow> map_option (\<lambda>n. (n, field)) (dec_int v)
      | None \<Rightarrow> None)"

definition tokenLimit :: "jobject \<Rightarrow> (int \<times> string) option" where
  "tokenLimit body =
     (case limit_in body ''max_completion_tokens'' of
        Some r \<Rightarrow> Some r
      | None \<Rightarrow> limit_in body ''max_tokens'')"

fun all_objects :: "json list \<Rightarrow> jobject list option" where
  "all_objects [] = Some []"
| "all_objects (v # vs) =
     (case v of JObj fs \<Rightarrow> map_option ((#) fs) (all_objects vs) | _ \<Rightarrow> None)"

definition asMaps :: "json option \<Rightarrow> jobject list option" where
  "asMaps v = (case v of Some (JArr vs) \<Rightarrow> all_objects vs | _ \<Rightarrow> None)"

definition dedupe :: "string list \<Rightarrow> string list" where
  "dedupe xs = rev (remdups (rev xs))"

text \<open>One message: the message sent and the edits made, in order.\<close>

definition prepare_message :: "provider_policy \<Rightarrow> jobject \<Rightarrow> jobject \<times> string list" where
  "prepare_message policy msg =
     (let role = str_or_empty (map_of msg ''role'');
          (msg1, t1) = (if role = ''developer'' \<and> \<not> pol_forwardDeveloperRole policy
                        then (AList.update ''role'' (JStr ''system'') msg, [''developer_role=system''])
                        else (msg, []))
      in if role \<noteq> ''assistant'' then (msg1, t1)
         else let calls = asMaps (map_of msg1 ''tool_calls'')
              in if map_of msg1 ''reasoning_content'' = None \<and> calls \<noteq> None \<and> calls \<noteq> Some []
                    \<and> pol_requireToolReasoningContent policy
                 then (AList.update ''reasoning_content'' (JStr []) msg1,
                       t1 @ [''assistant_tool_reasoning_content=empty''])
                 else (msg1, t1))"

text \<open>The service tier: fixed by the catalog, and never the caller's on Doubleword.\<close>

definition prepare_tier :: "'d public_model \<Rightarrow> jobject \<Rightarrow> jobject" where
  "prepare_tier model body =
     (case m_ServiceTier model of
        Some tier \<Rightarrow>
          if trim_space tier \<noteq> [] then AList.update ''service_tier'' (JStr (trim_space tier)) body
          else if equal_fold (pc_ProviderName (m_ProviderConfig model)) ''doubleword''
          then AList.delete ''service_tier'' body else body
      | None \<Rightarrow>
          if equal_fold (pc_ProviderName (m_ProviderConfig model)) ''doubleword''
          then AList.delete ''service_tier'' body else body)"

definition prepare_stream :: "bool \<Rightarrow> jobject \<Rightarrow> jobject" where
  "prepare_stream stream body =
     (if stream then
        (let body1 = AList.update ''stream'' (JBool True) body
         in AList.update ''stream_options''
              (JObj (AList.update ''include_usage'' (JBool True) (obj_or_nil (map_of body1 ''stream_options''))))
              body1)
      else AList.delete ''stream_options'' body)"

definition prepare_limit :: "provider_policy \<Rightarrow> 'd public_model \<Rightarrow> jobject \<Rightarrow> jobject \<times> string list" where
  "prepare_limit policy model body =
     (case tokenLimit body of
        None \<Rightarrow> (body, [])
      | Some (limit, field) \<Rightarrow>
          (let clamp = m_MaxOutputTokens model > 0 \<and> limit > m_MaxOutputTokens model;
               n = (if clamp then m_MaxOutputTokens model else limit);
               target = (if pol_useMaxTokens policy then ''max_tokens'' else field)
           in (AList.update target (JNum (itoa_int n))
                 (AList.delete ''max_completion_tokens'' (AList.delete ''max_tokens'' body)),
               (if clamp then [''token_limit=clamped''] else [])
               @ (if target \<noteq> field then [''token_limit_field='' @ target] else []))))"

text \<open>
  \<open>asMaps\<close> shares the objects with the body, so the edits reach it; an array that is not one
  of objects only is left alone. Rewriting the tools with themselves changes nothing.
\<close>

definition prepare_messages :: "provider_policy \<Rightarrow> jobject \<Rightarrow> jobject \<times> string list" where
  "prepare_messages policy body =
     (case asMaps (map_of body ''messages'') of
        None \<Rightarrow> (body, [])
      | Some ms \<Rightarrow>
          (let done = map (prepare_message policy) ms
           in (AList.update ''messages'' (JArr (map (JObj \<circ> fst) done)) body, concat (map snd done))))"

definition PrepareProxyBody :: "json option \<Rightarrow> 'd public_model \<Rightarrow> bool \<Rightarrow> gateway_error + (jobject \<times> string list)" where
  "PrepareProxyBody raw model stream =
     (case raw of
        Some (JObj fs) \<Rightarrow>
          (let policy = policyForProvider (pc_ProviderName (m_ProviderConfig model));
               body1 = AList.update ''model'' (JStr (m_UpstreamModelName model)) (decode_map fs);
               body2 = fold AList.delete gatewayOnlyFields (prepare_tier model body1);
               body3 = prepare_stream stream body2;
               (body4, t1) = prepare_limit policy model body3;
               (body5, t2) = prepare_messages policy body4
           in Inr (body5, dedupe (t1 @ t2)))
      | _ \<Rightarrow> Inl (ErrInvalidField ''invalid JSON body''))"

section \<open>Provider credentials\<close>

definition secret_ref_char :: "char \<Rightarrow> bool" where
  "secret_ref_char c = (is_upper c \<or> is_digit c \<or> c = CHR ''_'')"

definition providerSecretRef :: "string \<Rightarrow> bool" where
  "providerSecretRef s =
     (has_suffix s ''_API_KEY'' \<and>
      (case trim_suffix s ''_API_KEY'' of
         [] \<Rightarrow> False
       | c # cs \<Rightarrow> is_upper c \<and> length cs \<le> 119 \<and> list_all secret_ref_char cs))"

definition ResolveAPIKey :: "(string \<Rightarrow> string) \<Rightarrow> string \<Rightarrow> string" where
  "ResolveAPIKey getenv secretRef = (if providerSecretRef secretRef then getenv secretRef else [])"

definition CauseProviderKeyMissing :: string where "CauseProviderKeyMissing = ''provider_key_missing''"

definition missingProviderCredentialError :: "string \<Rightarrow> gateway_error" where
  "missingProviderCredentialError providerName =
     WithMeta (ErrInternal ''an internal error occurred'')
       [MStr ''provider'', MStr providerName, MStr ''cause'', MStr CauseProviderKeyMissing,
        MStr ''reason'', MStr ''provider API key is not configured'']"

section \<open>Upstream errors\<close>

text \<open>
  The two error bodies the client knows: \<open>{"error": {"message", "type", "code"}}\<close> and the flat
  \<open>{"message", "type", "code", "reason", "metadata"}\<close>. A field of the wrong type makes the whole
  body unreadable. \<open>code_text\<close> prints a code that is no string, as \<open>fmt\<close> does.
\<close>

definition stringifyProviderCode :: "(json \<Rightarrow> string) \<Rightarrow> json option \<Rightarrow> string" where
  "stringifyProviderCode code_text v =
     (case v of None \<Rightarrow> [] | Some JNull \<Rightarrow> [] | Some (JStr s) \<Rightarrow> s | Some c \<Rightarrow> code_text c)"

definition dec_error :: "jobject \<Rightarrow> (string \<times> string \<times> json option) option" where
  "dec_error o1 =
     (case (value_field dec_str [] ''message'' o1, value_field dec_str [] ''type'' o1) of
        (Some m, Some ty) \<Rightarrow> Some (m, ty, map_option decode_any (raw_field ''code'' o1))
      | _ \<Rightarrow> None)"

definition dec_flat_error :: "jobject \<Rightarrow> (string \<times> string \<times> json option \<times> string \<times> jobject) option" where
  "dec_flat_error o1 =
     (case (dec_error o1, value_field dec_str [] ''reason'' o1,
            value_field (dec_struct (Some \<circ> decode_map)) [] ''metadata'' o1) of
        (Some (m, ty, c), Some reason, Some md) \<Rightarrow> Some (m, ty, c, reason, md)
      | _ \<Rightarrow> None)"

text \<open>
  \<open>traceIDPattern\<close>: the word \<open>trace id\<close> in any case, with an optional separator, then at least
  one of \<open>:\<close>, \<open>=\<close> and space, then the id. (Its case folding also admits two non-ASCII letters,
  left out.)
\<close>

definition trace_id_char :: "char \<Rightarrow> bool" where
  "trace_id_char c = (is_letter c \<or> is_digit c \<or> c = CHR ''_'' \<or> c = CHR ''-'')"

definition match_trace :: "string \<Rightarrow> string option" where
  "match_trace s =
     (if \<not> equal_fold (take 5 s) ''trace'' then None
      else let r = drop 5 s;
               r1 = (case r of c # cs \<Rightarrow> if c \<in> set ''_ -'' then cs else r | [] \<Rightarrow> r)
           in if \<not> equal_fold (take 2 r1) ''id'' then None
              else let r2 = drop 2 r1;
                       value = takeWhile trace_id_char (dropWhile (\<lambda>c. c \<in> set '':= '') r2)
                   in if takeWhile (\<lambda>c. c \<in> set '':= '') r2 = [] \<or> value = [] then None else Some value)"

fun extractTraceID :: "string \<Rightarrow> string" where
  "extractTraceID [] = []"
| "extractTraceID (c # cs) =
     (case match_trace (c # cs) of Some v \<Rightarrow> trim_space v | None \<Rightarrow> extractTraceID cs)"

definition provider_error :: "int \<Rightarrow> string \<Rightarrow> string \<Rightarrow> string \<Rightarrow> string \<Rightarrow> string \<Rightarrow> string \<Rightarrow> provider_http_error" where
  "provider_error status body raw ty code reason trace =
     \<lparr>phe_RetryAfter = [], phe_StatusCode = status, phe_Body = body, phe_RawBody = raw, phe_Type = ty,
      phe_Code = code, phe_Reason = reason, phe_TraceID = trace\<rparr>"

definition parseProviderError :: "(string \<Rightarrow> json option) \<Rightarrow> (json \<Rightarrow> string) \<Rightarrow> int \<Rightarrow> string \<Rightarrow> provider_http_error" where
  "parseProviderError parse code_text status body =
     (let plain = provider_error status body body [] [] [] (extractTraceID body);
          nested = (case parse body of
                      Some JNull \<Rightarrow> None
                    | Some (JObj fs) \<Rightarrow>
                        (case value_field (dec_struct dec_error) ([], [], None) ''error'' fs of
                           Some (m, ty, c) \<Rightarrow> if m = [] then None else Some (m, ty, c)
                         | None \<Rightarrow> None)
                    | _ \<Rightarrow> None);
          flat = (case parse body of
                    Some (JObj fs) \<Rightarrow>
                      (case dec_flat_error fs of
                         Some (m, r) \<Rightarrow> if m = [] then None else Some (m, r)
                       | None \<Rightarrow> None)
                  | _ \<Rightarrow> None)
      in case nested of
           Some (m, ty, c) \<Rightarrow>
             provider_error status m body ty (stringifyProviderCode code_text c) [] (extractTraceID m)
         | None \<Rightarrow>
             (case flat of
                Some (m, ty, c, reason, md) \<Rightarrow>
                  provider_error status m body ty (stringifyProviderCode code_text c) reason
                    (case map_of md ''trace_id'' of Some (JStr t) \<Rightarrow> t | _ \<Rightarrow> extractTraceID m)
              | None \<Rightarrow> plain))"

definition valid_retry_after :: "(string \<Rightarrow> bool) \<Rightarrow> string \<Rightarrow> bool" where
  "valid_retry_after is_http_time value =
     (length value \<le> 128 \<and> \<not> contains_any value [CHR 0x0D, CHR 0x0A] \<and>
      ((case parse_digits value of Some n \<Rightarrow> n < 2 ^ 32 | None \<Rightarrow> False) \<or> is_http_time value))"

definition ParseProviderResponseError :: "(string \<Rightarrow> json option) \<Rightarrow> (json \<Rightarrow> string) \<Rightarrow> (string \<Rightarrow> bool)
    \<Rightarrow> int \<Rightarrow> string \<Rightarrow> string \<Rightarrow> provider_http_error" where
  "ParseProviderResponseError parse code_text is_http_time status retry_after body =
     (let err = parseProviderError parse code_text status body; value = trim_space retry_after
      in if valid_retry_after is_http_time value then err\<lparr>phe_RetryAfter := value\<rparr> else err)"

section \<open>Errors to the client\<close>

definition upstream_meta :: "provider_http_error \<Rightarrow> meta list" where
  "upstream_meta h =
     [MStr ''upstream_status'', MInt (phe_StatusCode h), MStr ''upstream_error'', MStr (phe_Body h),
      MStr ''upstream_type'', MStr (phe_Type h), MStr ''upstream_code'', MStr (phe_Code h),
      MStr ''upstream_reason'', MStr (phe_Reason h), MStr ''upstream_trace_id'', MStr (phe_TraceID h)]"

definition map_http_error :: "provider_http_error \<Rightarrow> string \<Rightarrow> gateway_error" where
  "map_http_error h providerName =
     (let status = phe_StatusCode h; body = phe_Body h
      in if status = 401 \<or> status = 402 \<or> status = 403 then
           (ErrProviderError 502 (''provider auth/permission error: '' @ body))\<lparr>ge_Code := ErrCodeProviderConfiguration\<rparr>
         else if status = 429 then
           (ErrProviderError 429 (''provider rate limited: '' @ body))\<lparr>ge_Code := ErrCodeProviderRateLimited\<rparr>
         else if status = 503 then ErrProviderUnavailable providerName
         else if status = 504 then ErrProviderTimeout providerName
         else if status \<ge> 500 then ErrProviderError status (''provider server error: '' @ body)
         else (ErrProviderError status (''provider rejected request: '' @ body))\<lparr>ge_Code := ErrCodeProviderRejectedRequest\<rparr>)"

definition mapProviderError :: "go_error \<Rightarrow> string \<Rightarrow> gateway_error" where
  "mapProviderError err providerName =
     (if is_err CtxCanceled err then
        WithMeta ErrClientCanceled [MStr ''upstream_error'', MStr (error_text err)]
      else case as_http err of
             Some h \<Rightarrow>
               WithMeta ((map_http_error h providerName)\<lparr>ge_RetryAfter := phe_RetryAfter h\<rparr>) (upstream_meta h)
           | None \<Rightarrow>
               (let msg = error_text err; note = [MStr ''upstream_error'', MStr msg]
                in if contains msg ''context canceled'' then WithMeta ErrClientCanceled note
                   else if contains msg ''timeout'' \<or> contains msg ''deadline'' then
                     WithMeta (ErrProviderTimeout providerName) note
                   else if contains msg ''connection refused'' \<or> contains msg ''no such host'' then
                     WithMeta (ErrProviderUnavailable providerName) note
                   else WithMeta (ErrProviderError 502 msg) note))"

definition isInvalidRequestHTTPError :: "go_error \<Rightarrow> bool" where
  "isInvalidRequestHTTPError err =
     (case as_http err of
        Some h \<Rightarrow> phe_StatusCode h = 400 \<and>
          contains (to_lower (phe_Body h @ '' '' @ phe_Type h @ '' '' @ phe_Reason h)) ''invalid''
      | None \<Rightarrow> False)"

definition hasNonDroppableToolChoice :: "jobject \<Rightarrow> bool" where
  "hasNonDroppableToolChoice body =
     (case map_of body ''tool_choice'' of
        Some (JStr mode) \<Rightarrow> mode = ''required''
      | Some (JObj fs) \<Rightarrow> True
      | _ \<Rightarrow> False)"

definition mapProviderErrorWithCompatibilityContext :: "go_error \<Rightarrow> 'd public_model \<Rightarrow> jobject \<Rightarrow> gateway_error" where
  "mapProviderErrorWithCompatibilityContext err model body =
     (let providerName = pc_ProviderName (m_ProviderConfig model)
      in if providerName = ''novita'' \<and> isInvalidRequestHTTPError err \<and> hasNonDroppableToolChoice body then
           (case as_http err of
              Some h \<Rightarrow>
                WithMeta ((mapProviderError err providerName)\<lparr>ge_Message :=
                    ''provider rejected request containing required or named tool_choice: '' @ phe_Body h\<rparr>)
                  (upstream_meta h @ [MStr ''compatibility_note'', MStr ''tool_choice_required_or_named''])
            | None \<Rightarrow> mapProviderError err providerName)
         else mapProviderError err providerName)"

section \<open>What is logged of a provider body\<close>

text \<open>
  The settings that are logged are booleans and Go integers. The decoder leaves every number a
  \<open>json.Number\<close>, which is no integer, so the only integer is the limit \<open>PrepareProxyBody\<close>
  writes, which is there exactly when \<open>tokenLimit\<close> reads one.
\<close>

definition setting_keys :: "string list" where
  "setting_keys = [''stream'', ''max_tokens'', ''max_completion_tokens'', ''temperature'', ''top_p'',
     ''presence_penalty'', ''frequency_penalty'', ''seed'', ''logprobs'', ''top_logprobs'',
     ''parallel_tool_calls'', ''store'']"

definition setting :: "jobject \<Rightarrow> string \<Rightarrow> meta option" where
  "setting body key =
     (case map_of body key of
        Some (JBool b) \<Rightarrow> Some (MBool b)
      | Some (JNum n) \<Rightarrow>
          (case tokenLimit body of
             Some (limit, field) \<Rightarrow> if key = field then Some (MInt64 limit) else None
           | None \<Rightarrow> None)
      | _ \<Rightarrow> None)"

definition known_role :: "string \<Rightarrow> string" where
  "known_role role =
     (if role \<in> set [''system'', ''developer'', ''user'', ''assistant'', ''tool'', ''function''] then role
      else ''unknown'')"

text \<open>Tool calls are a typed slice only where \<open>PrepareProxyBody\<close> stored one.\<close>

definition stored_calls :: "jobject \<Rightarrow> jobject list option" where
  "stored_calls msg =
     (if str_or_empty (map_of msg ''role'') = ''assistant'' then
        (case asMaps (map_of msg ''tool_calls'') of Some [] \<Rightarrow> None | calls \<Rightarrow> calls)
      else None)"

definition summarize_message :: "jobject \<Rightarrow> (string \<times> meta) list" where
  "summarize_message msg =
     (case as_str (map_of msg ''role'') of Some r \<Rightarrow> [(''role'', MStr (known_role r))] | None \<Rightarrow> [])
     @ (case map_of msg ''content'' of
          Some (JStr c) \<Rightarrow> [(''content_chars'', MInt (int (length c)))]
        | Some v \<Rightarrow> [(''content_null'', MBool True)]
        | None \<Rightarrow> [])
     @ (case stored_calls msg of Some cs \<Rightarrow> [(''tool_call_count'', MInt (int (length cs)))] | None \<Rightarrow> [])
     @ (case map_of msg ''reasoning_content'' of
          Some (JStr c) \<Rightarrow> [(''reasoning_content_chars'', MInt (int (length c)))]
        | Some v \<Rightarrow> [(''has_reasoning_content'', MBool True)]
        | None \<Rightarrow> [])
     @ (if map_of msg ''tool_call_id'' \<noteq> None then [(''has_tool_call_id'', MBool True)] else [])"

definition summarizeMessages :: "jobject list \<Rightarrow> (string \<times> meta) list list" where
  "summarizeMessages ms =
     (let total = length ms
      in if total > 6 then
           map summarize_message (take 3 ms) @ [[(''_omitted'', MInt (int (total - 6)))]]
           @ map summarize_message (drop (total - 3) ms)
         else map summarize_message ms)"

definition content_length :: "jobject \<Rightarrow> nat" where
  "content_length msg = (case map_of msg ''content'' of Some (JStr c) \<Rightarrow> length c | _ \<Rightarrow> 0)"

definition totalMessageContentChars :: "jobject list \<Rightarrow> nat" where
  "totalMessageContentChars ms = sum_list (map content_length ms)"

definition summarizeProviderBody :: "jobject \<Rightarrow> (string \<times> meta) list" where
  "summarizeProviderBody body =
     List.map_filter (\<lambda>key. map_option (Pair key) (setting body key)) setting_keys
     @ (if map_of body ''user'' \<noteq> None then [(''user'', MStr ''[redacted]'')] else [])
     @ (case asMaps (map_of body ''messages'') of
          None \<Rightarrow> []
        | Some ms \<Rightarrow> [(''message_count'', MInt (int (length ms))), (''messages'', MMaps (summarizeMessages ms)),
                      (''total_content_chars'', MInt (int (totalMessageContentChars ms)))])
     @ (case asMaps (map_of body ''tools'') of
          None \<Rightarrow> []
        | Some ts \<Rightarrow> [(''tool_count'', MInt (int (length ts)))])
     @ (case as_bool (map_of (obj_or_nil (map_of body ''stream_options'')) ''include_usage'') of
          None \<Rightarrow> []
        | Some b \<Rightarrow> [(''stream_options'', MMap [(''include_usage'', MBool b)])])"

section \<open>Retries\<close>

definition maxNovitaInvalidTraceSameBodyRetries :: nat where "maxNovitaInvalidTraceSameBodyRetries = 2"
definition maxNovitaServerOverloadRetries :: nat where "maxNovitaServerOverloadRetries = 1"

definition invalid_retry :: string where "invalid_retry = ''novita_invalid_request_same_body_retry''"
definition overload_retry :: string where "overload_retry = ''novita_server_overload_same_body_retry''"

definition isGenericNovitaInvalidTraceError :: "go_error \<Rightarrow> bool" where
  "isGenericNovitaInvalidTraceError err =
     (case as_http err of
        Some h \<Rightarrow> phe_StatusCode h = 400 \<and> contains (to_lower (phe_Body h)) ''invalid request error''
                  \<and> phe_TraceID h \<noteq> []
      | None \<Rightarrow> False)"

definition isNovitaServerOverload :: "go_error \<Rightarrow> bool" where
  "isNovitaServerOverload err =
     (case as_http err of
        Some h \<Rightarrow> phe_StatusCode h = 429 \<and>
          (let t = to_lower (phe_Body h @ '' '' @ phe_Type h @ '' '' @ phe_Reason h)
           in contains t ''server_overload'' \<or> contains t ''server overload'')
      | None \<Rightarrow> False)"

definition hasToolSurface :: "jobject \<Rightarrow> bool" where
  "hasToolSurface body =
     (not_nil (map_of body ''tools'') \<or>
      (case asMaps (map_of body ''messages'') of
         None \<Rightarrow> False
       | Some ms \<Rightarrow>
           list_ex (\<lambda>msg. str_or_empty (map_of msg ''role'') = ''tool'' \<or> map_of msg ''tool_calls'' \<noteq> None
                          \<or> map_of msg ''tool_call_id'' \<noteq> None) ms))"

text \<open>The reason of a retry, when there is one.\<close>

definition maybeBuildNovitaSameBodyRetry :: "'d public_model \<Rightarrow> go_error \<Rightarrow> jobject \<Rightarrow> string option" where
  "maybeBuildNovitaSameBodyRetry model err body =
     (if pc_ProviderName (m_ProviderConfig model) \<noteq> ''novita'' then None
      else if isNovitaServerOverload err then Some overload_retry
      else if isGenericNovitaInvalidTraceError err \<and> hasToolSurface body then Some invalid_retry
      else None)"

text \<open>The two counters of retries made, when this one is allowed.\<close>

definition canSpendSameBodyRetry :: "string \<Rightarrow> nat \<Rightarrow> nat \<Rightarrow> (nat \<times> nat) option" where
  "canSpendSameBodyRetry reason traces overloads =
     (if reason = invalid_retry then
        (if traces \<ge> maxNovitaInvalidTraceSameBodyRetries then None else Some (traces + 1, overloads))
      else if reason = overload_retry then
        (if overloads \<ge> maxNovitaServerOverloadRetries then None else Some (traces, overloads + 1))
      else None)"

record built_request =
  built_Body :: jobject
  built_Policy :: string
  built_Transforms :: "string list"

definition withProviderPolicyMeta :: "gateway_error \<Rightarrow> built_request \<Rightarrow> nat \<Rightarrow> string \<Rightarrow> gateway_error" where
  "withProviderPolicyMeta e built attempt reason =
     WithMeta e
       ([MStr ''provider_policy'', MStr (built_Policy built), MStr ''attempt'', MInt (int attempt),
         MStr ''provider_params'', MMap (summarizeProviderBody (built_Body built))]
        @ (if reason \<noteq> [] then
             [MStr ''retry_reason'', MStr reason]
             @ (if reason = invalid_retry then [MStr ''retry_outcome'', MStr ''same_body_failed''] else [])
           else [])
        @ (if built_Transforms built \<noteq> [] then [MStr ''transforms'', MStrs (built_Transforms built)] else []))"

text \<open>
  The fields of the log line of an attempt. \<open>rid\<close> is the request id of the context.
\<close>

definition logProviderRequest :: "string \<Rightarrow> 'd public_model \<Rightarrow> built_request \<Rightarrow> nat \<Rightarrow> string \<Rightarrow> (string \<times> meta) list" where
  "logProviderRequest rid model built attempt reason =
     [(''request_id'', MStr rid), (''provider'', MStr (pc_ProviderName (m_ProviderConfig model))),
      (''provider_model'', MStr (m_UpstreamModelName model)), (''model'', MStr (m_PublicModelID model)),
      (''provider_policy'', MStr (built_Policy built)), (''attempt'', MInt (int attempt)),
      (''params'', MMap (summarizeProviderBody (built_Body built)))]
     @ (if reason \<noteq> [] then [(''retry_reason'', MStr reason)] else [])
     @ (if built_Transforms built \<noteq> [] then [(''transforms'', MStrs (built_Transforms built))] else [])"

text \<open>
  The pause before a retry, cut short when the context ends: \<open>left\<close> is the time the context has
  from then on, \<open>None\<close> when it does not end.
\<close>

definition retry_delay :: "string \<Rightarrow> duration" where
  "retry_delay reason = (if contains reason ''server_overload'' then 500 * millisecond else 150 * millisecond)"

definition sleepBeforeProviderRetry :: "duration option \<Rightarrow> string \<Rightarrow> bool" where
  "sleepBeforeProviderRetry left reason = (case left of None \<Rightarrow> True | Some d \<Rightarrow> retry_delay reason < d)"

text \<open>
  The loop of \<open>proxy\<close>. \<open>send n\<close> is the answer to attempt \<open>n\<close>, \<open>left n\<close> the time the context has
  after it, and \<open>cause\<close> why the context ended. The result comes with the reasons the attempts
  were logged with: one entry per attempt, the empty string for the first.
\<close>

function proxy_loop :: "(nat \<Rightarrow> go_error + 'r) \<Rightarrow> (nat \<Rightarrow> duration option) \<Rightarrow> go_error \<Rightarrow> 'd public_model
    \<Rightarrow> built_request \<Rightarrow> nat \<Rightarrow> string \<Rightarrow> nat \<Rightarrow> nat \<Rightarrow> (gateway_error + 'r) \<times> string list" where
  "proxy_loop send left cause model built attempt reason traces overloads =
     (case send attempt of
        Inr r \<Rightarrow> (Inr r, [reason])
      | Inl err \<Rightarrow>
          (case maybeBuildNovitaSameBodyRetry model err (built_Body built) of
             None \<Rightarrow>
               (Inl (withProviderPolicyMeta (mapProviderErrorWithCompatibilityContext err model (built_Body built))
                       built attempt reason), [reason])
           | Some why \<Rightarrow>
               (case canSpendSameBodyRetry why traces overloads of
                  None \<Rightarrow>
                    (Inl (withProviderPolicyMeta (mapProviderErrorWithCompatibilityContext err model (built_Body built))
                            built attempt reason), [reason])
                | Some (traces', overloads') \<Rightarrow>
                    if \<not> sleepBeforeProviderRetry (left attempt) why then
                      (Inl (withProviderPolicyMeta (mapProviderError cause (pc_ProviderName (m_ProviderConfig model)))
                              built attempt why), [reason])
                    else
                      (let (res, log) = proxy_loop send left cause model built (attempt + 1) why traces' overloads'
                       in (res, reason # log)))))"
  by pat_completeness auto
termination
  by (relation "measure (\<lambda>(_, _, _, _, _, _, _, traces, overloads).
        (maxNovitaInvalidTraceSameBodyRetries - traces) + (maxNovitaServerOverloadRetries - overloads))")
     (auto simp: canSpendSameBodyRetry_def split: if_splits)

declare proxy_loop.simps [simp del]

definition proxy :: "(string \<Rightarrow> string) \<Rightarrow> (string \<Rightarrow> nat \<Rightarrow> go_error + 'r) \<Rightarrow> (nat \<Rightarrow> duration option) \<Rightarrow> go_error
    \<Rightarrow> jobject \<Rightarrow> string list \<Rightarrow> 'd public_model \<Rightarrow> (gateway_error + 'r) \<times> string list" where
  "proxy getenv send left cause body transforms model =
     (let config = m_ProviderConfig model; apiKey = ResolveAPIKey getenv (pc_APIKeySecretRef config)
      in if apiKey = [] then (Inl (missingProviderCredentialError (pc_ProviderName config)), [])
         else proxy_loop (send apiKey) left cause model
                \<lparr>built_Body = body, built_Policy = pol_name (policyForProvider (pc_ProviderName config)),
                 built_Transforms = transforms\<rparr> 1 [] 0 0)"

section \<open>The HTTP client\<close>

text \<open>
  The transport is a parameter: a request gives an error or a response, whose body may break
  off with an error. The body of a request is the JSON object; \<open>json.Marshal\<close> of decoded JSON
  does not fail.
\<close>

record http_request =
  hr_URL :: string
  hr_Headers :: "(string \<times> string) list"
  hr_Body :: jobject

record http_response =
  hs_Status :: int
  hs_RetryAfter :: string
  hs_Body :: string
  hs_ReadError :: "go_error option"

definition responseLimit :: nat where "responseLimit = 10 * 1024 * 1024"

record client_env =
  ce_parse :: "string \<Rightarrow> json option"
  ce_code_text :: "json \<Rightarrow> string"
  ce_is_http_time :: "string \<Rightarrow> bool"
  ce_transport :: "http_request \<Rightarrow> go_error + http_response"

definition post_request :: "string \<Rightarrow> string \<Rightarrow> jobject \<Rightarrow> http_request" where
  "post_request url apiKey body =
     \<lparr>hr_URL = url, hr_Headers = [(''Content-Type'', ''application/json''), (''Authorization'', ''Bearer '' @ apiKey)],
      hr_Body = body\<rparr>"

definition response_error :: "client_env \<Rightarrow> http_response \<Rightarrow> go_error" where
  "response_error ce r =
     HttpErr (ParseProviderResponseError (ce_parse ce) (ce_code_text ce) (ce_is_http_time ce)
                (hs_Status r) (hs_RetryAfter r) (take responseLimit (hs_Body r)))"

definition DoEndpoint :: "client_env \<Rightarrow> string \<Rightarrow> string \<Rightarrow> string \<Rightarrow> jobject \<Rightarrow> go_error + string" where
  "DoEndpoint ce baseURL endpoint apiKey body =
     (case ce_transport ce (post_request (trim_right baseURL ''/'' @ endpoint) apiKey body) of
        Inl e \<Rightarrow> Inl (WrapErr ''provider request failed: '' e)
      | Inr r \<Rightarrow>
          (case (if length (hs_Body r) < responseLimit then hs_ReadError r else None) of
             Some e \<Rightarrow> Inl (WrapErr ''failed to read provider response: '' e)
           | None \<Rightarrow>
               if hs_Status r \<ge> 400 then Inl (response_error ce r) else Inr (take responseLimit (hs_Body r))))"

definition Do :: "client_env \<Rightarrow> string \<Rightarrow> string \<Rightarrow> jobject \<Rightarrow> go_error + string" where
  "Do ce baseURL apiKey body = DoEndpoint ce baseURL ''/chat/completions'' apiKey body"

text \<open>A stream is handed over unread; an error response is read as far as it goes.\<close>

definition DoStream :: "client_env \<Rightarrow> string \<Rightarrow> string \<Rightarrow> jobject \<Rightarrow> go_error + http_response" where
  "DoStream ce baseURL apiKey body =
     (case ce_transport ce (post_request (baseURL @ ''/chat/completions'') apiKey body) of
        Inl e \<Rightarrow> Inl (WrapErr ''provider stream request failed: '' e)
      | Inr r \<Rightarrow> if hs_Status r \<ge> 400 then Inl (response_error ce r) else Inr r)"

section \<open>The adapters\<close>

text \<open>The environment of an attempt: the client answers differently from one to the next.\<close>

record adapter_env =
  ae_getenv :: "string \<Rightarrow> string"
  ae_client :: "nat \<Rightarrow> client_env"
  ae_left :: "nat \<Rightarrow> duration option"
  ae_cause :: go_error

definition Adapter_Stream :: "adapter_env \<Rightarrow> json option \<Rightarrow> 'd public_model \<Rightarrow> (gateway_error + http_response) \<times> string list" where
  "Adapter_Stream ae raw model =
     (case PrepareProxyBody raw model True of
        Inl e \<Rightarrow> (Inl e, [])
      | Inr (body, transforms) \<Rightarrow>
          proxy (ae_getenv ae)
            (\<lambda>apiKey n. DoStream (ae_client ae n) (pc_BaseURL (m_ProviderConfig model)) apiKey body)
            (ae_left ae) (ae_cause ae) body transforms model)"

definition Adapter_Complete :: "adapter_env \<Rightarrow> json option \<Rightarrow> 'd public_model \<Rightarrow> (gateway_error + string) \<times> string list" where
  "Adapter_Complete ae raw model =
     (case PrepareProxyBody raw model False of
        Inl e \<Rightarrow> (Inl e, [])
      | Inr (body, transforms) \<Rightarrow>
          proxy (ae_getenv ae)
            (\<lambda>apiKey n. Do (ae_client ae n) (pc_BaseURL (m_ProviderConfig model)) apiKey body)
            (ae_left ae) (ae_cause ae) body transforms model)"

text \<open>TypeSafe: one attempt, and three statuses passed on.\<close>

definition typesafe_Complete :: "(string \<Rightarrow> string) \<Rightarrow> client_env \<Rightarrow> json option \<Rightarrow> 'd public_model \<Rightarrow> gateway_error + string" where
  "typesafe_Complete getenv ce raw model =
     (let config = m_ProviderConfig model; apiKey = ResolveAPIKey getenv (pc_APIKeySecretRef config)
      in if apiKey = [] then Inl (missingProviderCredentialError ''typesafe'')
         else case raw of
                Some (JObj fs) \<Rightarrow>
                  (let body = AList.delete ''provider_options''
                                (AList.update ''model'' (JStr (m_UpstreamModelName model)) (decode_map fs))
                   in case DoEndpoint ce (pc_BaseURL config) ''/systemone'' apiKey body of
                        Inr out \<Rightarrow> Inr out
                      | Inl err \<Rightarrow>
                          (case as_http err of
                             Some h \<Rightarrow>
                               if phe_StatusCode h \<in> {422, 429, 529} then
                                 Inl (WithMeta (ErrProviderError (phe_StatusCode h) ''TypeSafe rejected the request'')
                                        [MStr ''upstream_status'', MInt (phe_StatusCode h)])
                               else Inl (mapProviderErrorWithCompatibilityContext err model body)
                           | None \<Rightarrow> Inl (mapProviderErrorWithCompatibilityContext err model body)))
              | _ \<Rightarrow> Inl (ErrInvalidField ''invalid JSON body''))"

definition typesafe_Stream :: gateway_error where
  "typesafe_Stream = ErrUnsupportedFeature ''streaming for systemone''"

section \<open>The registry\<close>

record 'p registry =
  reg_providers :: "string \<rightharpoonup> 'p"
  reg_default :: "'p option"

definition NewRegistry :: "'p registry" where
  "NewRegistry = \<lparr>reg_providers = Map.empty, reg_default = None\<rparr>"

definition Register :: "string \<Rightarrow> 'p \<Rightarrow> 'p registry \<Rightarrow> 'p registry" where
  "Register name p r = r\<lparr>reg_providers := (reg_providers r)(name \<mapsto> p)\<rparr>"

definition SetDefault :: "'p \<Rightarrow> 'p registry \<Rightarrow> 'p registry" where
  "SetDefault p r = r\<lparr>reg_default := Some p\<rparr>"

definition GetProvider :: "'p registry \<Rightarrow> string \<Rightarrow> go_error + 'p" where
  "GetProvider r name =
     (case reg_providers r name of
        Some p \<Rightarrow> Inr p
      | None \<Rightarrow> (case reg_default r of
                    Some p \<Rightarrow> Inr p
                  | None \<Rightarrow> Inl (PlainErr (''unknown provider: '' @ name))))"

end
