(* ===== verification/ProviderFacts.thy ===== *)
theory ProviderFacts
  imports Providers
begin

text \<open>
  What the provider adapter guarantees: the client's fields reach the provider, a guest's
  output limit reaches it too, retries are bounded, upstream failures become the gateway's own
  errors, and the log of a request holds no text of it.
\<close>

section \<open>Maps of prepared bodies\<close>

lemma map_of_fold_delete:
  "map_of (fold AList.delete ks body) k = (if k \<in> set ks then None else map_of body k)"
  by (induction ks arbitrary: body) (auto simp: delete_conv')

lemma prepare_tier_other: "k \<noteq> ''service_tier'' \<Longrightarrow> map_of (prepare_tier model body) k = map_of body k"
  by (auto simp: prepare_tier_def update_conv' delete_conv' split: option.splits)

lemma prepare_stream_other:
  "k \<noteq> ''stream'' \<Longrightarrow> k \<noteq> ''stream_options'' \<Longrightarrow> map_of (prepare_stream stream body) k = map_of body k"
  by (auto simp: prepare_stream_def Let_def update_conv' delete_conv')

lemma prepare_limit_other:
  "k \<noteq> ''max_tokens'' \<Longrightarrow> k \<noteq> ''max_completion_tokens'' \<Longrightarrow>
   map_of (fst (prepare_limit policy model body)) k = map_of body k"
proof -
  assume k: "k \<noteq> ''max_tokens''" "k \<noteq> ''max_completion_tokens''"
  have field: "field \<in> {''max_tokens'', ''max_completion_tokens''}" if "tokenLimit body = Some (n, field)" for n field
    using that by (auto simp: tokenLimit_def limit_in_def Let_def split: option.splits)
  show ?thesis
    using k field by (auto simp: prepare_limit_def Let_def update_conv' delete_conv' split: option.splits)
qed

lemma prepare_messages_other: "k \<noteq> ''messages'' \<Longrightarrow> map_of (fst (prepare_messages policy body)) k = map_of body k"
  by (auto simp: prepare_messages_def Let_def update_conv' split: option.splits)

lemma tokenLimit_cong:
  "map_of a ''max_tokens'' = map_of b ''max_tokens'' \<Longrightarrow>
   map_of a ''max_completion_tokens'' = map_of b ''max_completion_tokens'' \<Longrightarrow> tokenLimit a = tokenLimit b"
proof -
  assume "map_of a ''max_tokens'' = map_of b ''max_tokens''"
    "map_of a ''max_completion_tokens'' = map_of b ''max_completion_tokens''"
  then have "limit_in a ''max_tokens'' = limit_in b ''max_tokens''"
    "limit_in a ''max_completion_tokens'' = limit_in b ''max_completion_tokens''"
    by (simp_all add: limit_in_def)
  then show ?thesis by (simp only: tokenLimit_def)
qed

lemma dec_int_range: "dec_int v = Some n \<Longrightarrow> - (2 ^ 63) \<le> n \<and> n < 2 ^ 63"
  by (auto simp: dec_int_def parse_int64_def Let_def split: json.splits option.splits if_splits)

lemma tokenLimit_range: "tokenLimit body = Some (n, field) \<Longrightarrow> - (2 ^ 63) \<le> n \<and> n < 2 ^ 63"
  by (auto simp: tokenLimit_def limit_in_def dest: dec_int_range split: option.splits)

lemma tokenLimit_field:
  "tokenLimit body = Some (n, field) \<Longrightarrow> field = ''max_tokens'' \<or> field = ''max_completion_tokens''"
  by (auto simp: tokenLimit_def limit_in_def Let_def split: option.splits)

text \<open>The body the provider gets, in one equation.\<close>

definition sent_limit :: "'d public_model \<Rightarrow> int \<Rightarrow> int" where
  "sent_limit model n = (if m_MaxOutputTokens model > 0 \<and> n > m_MaxOutputTokens model then m_MaxOutputTokens model else n)"

definition sent_field :: "'d public_model \<Rightarrow> string \<Rightarrow> string" where
  "sent_field model field =
     (if pc_ProviderName (m_ProviderConfig model) = ''deepseek'' then ''max_tokens'' else field)"

lemma dec_int_itoa: "- (2 ^ 63) \<le> n \<Longrightarrow> n < 2 ^ 63 \<Longrightarrow> dec_int (JNum (itoa_int n)) = Some n"
  by (simp add: dec_int_def parse_int64_itoa)

lemma prepare_limit_tokenLimit:
  assumes "tokenLimit body = Some (n, field)" and "policy = policyForProvider (pc_ProviderName (m_ProviderConfig model))"
  shows "tokenLimit (fst (prepare_limit policy model body)) = Some (sent_limit model n, sent_field model field)"
proof -
  have "- (2 ^ 63) \<le> sent_limit model n" "sent_limit model n < 2 ^ 63"
    using tokenLimit_range [OF assms(1)] by (auto simp: sent_limit_def)
  then have num: "dec_int (JNum (itoa_int (sent_limit model n))) = Some (sent_limit model n)" by (rule dec_int_itoa)
  have out: "fst (prepare_limit policy model body) =
      AList.update (sent_field model field) (JNum (itoa_int (sent_limit model n)))
        (AList.delete ''max_completion_tokens'' (AList.delete ''max_tokens'' body))"
    using assms by (auto simp: prepare_limit_def Let_def sent_limit_def sent_field_def policyForProvider_def)
  have "sent_field model field = ''max_tokens'' \<or> sent_field model field = ''max_completion_tokens''"
    using tokenLimit_field [OF assms(1)] by (auto simp: sent_field_def)
  then show ?thesis
    unfolding out tokenLimit_def limit_in_def by (auto simp: Let_def update_conv' delete_conv' num)
qed

lemma PrepareProxyBody_eq:
  assumes "PrepareProxyBody raw model stream = Inr (up, ts)"
  obtains fs body3 body4 where "raw = Some (JObj fs)"
    and "body3 = prepare_stream stream (fold AList.delete gatewayOnlyFields (prepare_tier model
           (AList.update ''model'' (JStr (m_UpstreamModelName model)) (decode_map fs))))"
    and "body4 = fst (prepare_limit (policyForProvider (pc_ProviderName (m_ProviderConfig model))) model body3)"
    and "up = fst (prepare_messages (policyForProvider (pc_ProviderName (m_ProviderConfig model))) body4)"
  using assms by (auto simp: PrepareProxyBody_def Let_def split: option.splits json.splits prod.splits)

text \<open>A key that no later step touches.\<close>

lemma body3_other:
  assumes "k \<notin> set [''model'', ''service_tier'', ''provider_options'', ''stream'', ''stream_options'']"
  shows "map_of (prepare_stream stream (fold AList.delete gatewayOnlyFields (prepare_tier model
           (AList.update ''model'' v body)))) k = map_of body k"
proof -
  have "map_of (prepare_tier model (AList.update ''model'' v body)) k = map_of body k"
    using assms prepare_tier_other [of k model "AList.update ''model'' v body"] by (simp add: update_conv')
  then show ?thesis
    using assms by (simp add: prepare_stream_other map_of_fold_delete gatewayOnlyFields_def)
qed

lemma tokenLimit_prepared:
  assumes "PrepareProxyBody (Some (JObj fs)) model stream = Inr (up, ts)"
    and "tokenLimit (decode_map fs) = Some (n, field)"
  shows "tokenLimit up = Some (sent_limit model n, sent_field model field)"
proof -
  let ?p = "policyForProvider (pc_ProviderName (m_ProviderConfig model))"
  obtain body3 body4 where
    b3: "body3 = prepare_stream stream (fold AList.delete gatewayOnlyFields (prepare_tier model
           (AList.update ''model'' (JStr (m_UpstreamModelName model)) (decode_map fs))))"
    and b4: "body4 = fst (prepare_limit ?p model body3)" and up: "up = fst (prepare_messages ?p body4)"
    using assms(1) by (auto elim: PrepareProxyBody_eq)
  have "tokenLimit body3 = tokenLimit (decode_map fs)"
    unfolding b3 by (rule tokenLimit_cong; subst body3_other; simp)
  then have "tokenLimit body4 = Some (sent_limit model n, sent_field model field)"
    unfolding b4 using assms(2) by (simp add: prepare_limit_tokenLimit)
  moreover have "tokenLimit up = tokenLimit body4"
    unfolding up by (rule tokenLimit_cong; subst prepare_messages_other; simp)
  ultimately show ?thesis by simp
qed

section \<open>A guest's output limit\<close>

text \<open>
  A body whose limits are spelled as documented: no other capitalisation of the two names,
  and not both of them.
\<close>

definition plain_limits :: "jobject \<Rightarrow> bool" where
  "plain_limits fs =
     (list_all (\<lambda>e. list_all (\<lambda>name. equal_fold (fst e) name \<longrightarrow> fst e = name)
                      [''max_tokens'', ''max_completion_tokens'']) fs
      \<and> \<not> (''max_tokens'' \<in> fst ` set fs \<and> ''max_completion_tokens'' \<in> fst ` set fs))"

lemma set_pointer_snoc:
  "set_pointer d acc (vs @ [v]) =
     (case set_pointer d acc vs of
        None \<Rightarrow> None
      | Some a \<Rightarrow> if v = JNull then Some None else map_option Some (d v))"
  by (induction d acc vs rule: set_pointer.induct) (auto split: option.splits)

lemma pointer_field_last:
  assumes "pointer_field dec_int name fs = Some x"
    and "list_all (\<lambda>e. equal_fold (fst e) name \<longrightarrow> fst e = name) fs"
  shows "x = (case map_of (rev fs) name of None \<Rightarrow> None | Some v \<Rightarrow> dec_int v)"
  using assms
proof (induction fs arbitrary: x rule: rev_induct)
  case Nil
  then show ?case by (simp add: pointer_field_def values_named_def)
next
  case (snoc e fs)
  have refl: "equal_fold name name" by (simp add: equal_fold_def)
  show ?case
  proof (cases "equal_fold (fst e) name")
    case False
    then have "pointer_field dec_int name fs = Some x" "fst e \<noteq> name"
      using snoc.prems(1) refl by (auto simp: pointer_field_def values_named_def)
    then show ?thesis using snoc.IH snoc.prems(2) by (simp add: prod.case_eq_if)
  next
    case True
    then have "fst e = name" using snoc.prems(2) by simp
    then show ?thesis
      using snoc.prems(1) refl
      by (cases e) (auto simp: pointer_field_def values_named_def set_pointer_snoc dec_int_def split: option.splits if_splits)
  qed
qed

lemma mapper_limits:
  assumes "ChatCompletionRequestToDomain te (Some (JObj fs)) = Inr req"
  obtains mt mct where "pointer_field dec_int ''max_tokens'' fs = Some mt"
    and "pointer_field dec_int ''max_completion_tokens'' fs = Some mct"
    and "req_MaxOutputTokens req = (case mt of Some n \<Rightarrow> Some n | None \<Rightarrow> mct)"
proof -
  obtain cr where cr: "dec_chat_request fs = Some cr"
    and m: "req_MaxOutputTokens req = (case cr_MaxTokens cr of Some n \<Rightarrow> Some n | None \<Rightarrow> cr_MaxCompletionTokens cr)"
    using assms by (auto simp: ChatCompletionRequestToDomain_def body_fields_def split: option.splits if_splits sum.splits)
  then have "pointer_field dec_int ''max_tokens'' fs = Some (cr_MaxTokens cr)"
    and "pointer_field dec_int ''max_completion_tokens'' fs = Some (cr_MaxCompletionTokens cr)"
    by (auto simp: dec_chat_request_def split: option.splits)
  then show thesis using m by (rule that)
qed

text \<open>An accepted request's own limit, when its spelling is plain, is the limit the adapter reads.\<close>

lemma mapper_limit_is_tokenLimit:
  assumes "ChatCompletionRequestToDomain te (Some (JObj fs)) = Inr req" and "plain_limits fs"
    and "req_MaxOutputTokens req = Some n"
  shows "\<exists>field. tokenLimit (decode_map fs) = Some (n, field)"
proof -
  obtain mt mct where mt: "pointer_field dec_int ''max_tokens'' fs = Some mt"
    and mct: "pointer_field dec_int ''max_completion_tokens'' fs = Some mct"
    and r: "req_MaxOutputTokens req = (case mt of Some n \<Rightarrow> Some n | None \<Rightarrow> mct)"
    using assms(1) by (rule mapper_limits)
  have plain: "list_all (\<lambda>e. equal_fold (fst e) ''max_tokens'' \<longrightarrow> fst e = ''max_tokens'') fs"
    "list_all (\<lambda>e. equal_fold (fst e) ''max_completion_tokens'' \<longrightarrow> fst e = ''max_completion_tokens'') fs"
    using assms(2) by (auto simp: plain_limits_def list_all_iff)
  have read: "limit_in (decode_map fs) k =
      (case map_of (rev fs) k of None \<Rightarrow> None | Some v \<Rightarrow> map_option (\<lambda>n. (n, k)) (dec_int v))" for k
  proof -
    have "dec_int (decode_any v) = dec_int v" for v by (cases v) (auto simp: dec_int_def)
    then show ?thesis by (auto simp: limit_in_def map_of_decode_map split: option.splits)
  qed
  have absent: "map_of (rev fs) k = None \<longleftrightarrow> k \<notin> fst ` set fs" for k
    by (simp add: map_of_eq_None_iff)
  note L = pointer_field_last [OF mt plain(1)] pointer_field_last [OF mct plain(2)]
  show ?thesis
  proof (cases mt)
    case (Some a)
    then have "map_of (rev fs) ''max_tokens'' \<noteq> None" using L(1) by (auto split: option.splits)
    then have "map_of (rev fs) ''max_completion_tokens'' = None"
      using assms(2) absent by (auto simp: plain_limits_def)
    then show ?thesis
      using Some L(1) r assms(3) by (auto simp: tokenLimit_def read split: option.splits)
  next
    case None
    then have "mct = Some n" using r assms(3) by simp
    then have "(case map_of (rev fs) ''max_completion_tokens'' of None \<Rightarrow> None | Some v \<Rightarrow> dec_int v) = Some n"
      using L(2) by simp
    then have "limit_in (decode_map fs) ''max_completion_tokens'' = Some (n, ''max_completion_tokens'')"
      by (auto simp: read split: option.splits)
    then show ?thesis by (simp add: tokenLimit_def)
  qed
qed

lemma capOutput_tokenLimit:
  assumes "ChatCompletionRequestToDomain te (Some (JObj fs)) = Inr req" and "plain_limits fs"
    and "0 < limit" "limit < 2 ^ 63"
    and "capOutput (Some (JObj fs)) req limit = Inr (body, req')"
  shows "\<exists>fs' n field. body = Some (JObj fs') \<and> tokenLimit (decode_map fs') = Some (n, field)
           \<and> req_MaxOutputTokens req' = Some n \<and> 0 < n \<and> n \<le> limit"
proof (cases "case req_MaxOutputTokens req of Some n \<Rightarrow> 0 < n \<and> n \<le> limit | None \<Rightarrow> False")
  case True
  then obtain n where n: "req_MaxOutputTokens req = Some n" "0 < n" "n \<le> limit" by (auto split: option.splits)
  then have "body = Some (JObj fs)" "req' = req" using assms(5) True by (auto simp: capOutput_def)
  then show ?thesis using mapper_limit_is_tokenLimit [OF assms(1,2) n(1)] n by auto
next
  case False
  let ?m = "decode_map fs"
  define field where "field = (if map_of ?m ''max_tokens'' \<noteq> None then ''max_tokens'' else ''max_completion_tokens'')"
  define fs' where "fs' = AList.update field (JNum (itoa_int limit)) ?m"
  have out: "body = Some (JObj fs')" "req_MaxOutputTokens req' = Some limit"
    using assms(5) False by (auto simp: capOutput_def Let_def field_def fs'_def)
  have num: "dec_int (JNum (itoa_int limit)) = Some limit" using assms(3,4) by (intro dec_int_itoa) auto
  have rv: "map_of (rev fs') k = (if k = field then Some (JNum (itoa_int limit)) else map_of ?m k)" for k
    by (simp add: fs'_def map_of_rev_distinct distinct_update decode_map_distinct update_conv')
  have m': "map_of (decode_map fs') k
      = map_option decode_any (if k = field then Some (JNum (itoa_int limit)) else map_of ?m k)" for k
    by (simp only: map_of_decode_map [of fs'] rv)
  have here: "limit_in (decode_map fs') field = Some (limit, field)"
    by (simp add: limit_in_def m' num)
  have "tokenLimit (decode_map fs') = Some (limit, field)"
  proof (cases "map_of ?m ''max_tokens''")
    case None
    then show ?thesis using here by (simp add: tokenLimit_def field_def)
  next
    case (Some v)
    then have f: "field = ''max_tokens''" by (simp add: field_def)
    have "map_of (rev fs) ''max_tokens'' \<noteq> None" using Some by (auto simp: map_of_decode_map)
    then have "''max_tokens'' \<in> fst ` set fs" by (simp add: map_of_eq_None_iff)
    then have "''max_completion_tokens'' \<notin> fst ` set (rev fs)"
      using assms(2) by (simp add: plain_limits_def)
    then have "map_of (rev fs) ''max_completion_tokens'' = None"
      by (simp only: map_of_eq_None_iff) simp
    then have "map_of ?m ''max_completion_tokens'' = None" by (simp add: map_of_decode_map)
    then have "limit_in (decode_map fs') ''max_completion_tokens'' = None"
      by (simp add: limit_in_def m' f)
    then show ?thesis using here f by (simp add: tokenLimit_def)
  qed
  then show ?thesis using out assms(3) by auto
qed


text \<open>The same chain on bodies that are not spelled plainly.\<close>

definition toy_provider :: provider_config where
  "toy_provider = \<lparr>pc_ID = ''p'', pc_ProviderName = ''deepseek'', pc_BaseURL = ''https://api/v1/'',
     pc_APIKeySecretRef = ''TOY_API_KEY'', pc_OrganizationRef = None, pc_Active = True\<rparr>"

definition toy_model :: "unit public_model" where
  "toy_model = \<lparr>m_ID = ''m'', m_PublicModelID = ''toy'', m_DisplayName = ''Toy'', m_Description = None,
     m_ProviderModelID = ''pm'', m_UpstreamModelName = ''toy-up'', m_ServiceTier = None,
     m_ProviderConfig = toy_provider, m_Fallback = None, m_SupportsChatCompletions = True, m_Capabilities = [],
     m_ProofMode = [], m_MaxContextWindow = 1000000, m_MaxOutputTokens = 500000, m_InputPricePerMillion = (),
     m_OutputPricePerMillion = (), m_CacheReadPricePerMillion = None, m_CacheWritePricePerMillion = None,
     m_Currency = ''EUR'', m_Active = True, m_GuestAllowed = True\<rparr>"

definition guest_body :: "jobject \<Rightarrow> json option" where
  "guest_body limits = Some (JObj
     ([(''model'', JStr ''toy''),
       (''messages'', JArr [JObj [(''role'', JStr ''user''), (''content'', JStr ''hi'')]])] @ limits))"

text \<open>What reaches the provider of a guest's request: its output limit.\<close>

definition guest_upstream :: "json option \<Rightarrow> int \<Rightarrow> (int \<times> string) option" where
  "guest_upstream raw limit =
     (case ChatCompletionRequestToDomain (\<lambda>_. []) raw of
        Inr req \<Rightarrow>
          (case capOutput raw req limit of
             Inr (body, req') \<Rightarrow>
               (case PrepareProxyBody body toy_model False of Inr (up, ts) \<Rightarrow> tokenLimit up | Inl e \<Rightarrow> None)
           | Inl e \<Rightarrow> None)
      | Inl e \<Rightarrow> None)"


definition toy_limits :: jobject where
  "toy_limits = [(''model'', JStr ''toy''), (''max_tokens'', JNum ''100''),
     (''messages'', JArr [JObj [(''role'', JStr ''user''), (''content'', JStr ''hi'')]])]"

definition toy_req :: generate_request where
  "toy_req = projr (ChatCompletionRequestToDomain (\<lambda>_. []) (Some (JObj toy_limits)))"

definition toy_capped :: "json option \<times> generate_request" where
  "toy_capped = projr (capOutput (Some (JObj toy_limits)) toy_req 8)"

definition toy_sent :: "jobject \<times> string list" where
  "toy_sent = projr (PrepareProxyBody (fst toy_capped) toy_model False)"

lemma right_of: "\<not> isl r \<Longrightarrow> x = projr r \<Longrightarrow> r = Inr x"
  by (cases r) simp_all


section \<open>What a provider gets of a request\<close>

definition edited_fields :: "string list" where
  "edited_fields = [''model'', ''service_tier'', ''provider_options'', ''stream'', ''stream_options'',
     ''max_tokens'', ''max_completion_tokens'', ''messages'']"

text \<open>What may differ between a message and the one sent.\<close>

definition message_sent :: "provider_policy \<Rightarrow> jobject \<Rightarrow> jobject \<Rightarrow> bool" where
  "message_sent policy msg out =
     ((\<forall>k. k \<noteq> ''role'' \<longrightarrow> k \<noteq> ''reasoning_content'' \<longrightarrow> map_of out k = map_of msg k)
      \<and> (map_of msg ''reasoning_content'' \<noteq> None \<longrightarrow> map_of out ''reasoning_content'' = map_of msg ''reasoning_content'')
      \<and> (if str_or_empty (map_of msg ''role'') = ''developer'' \<and> \<not> pol_forwardDeveloperRole policy
         then map_of out ''role'' = Some (JStr ''system'') else map_of out ''role'' = map_of msg ''role''))"

lemma prepare_message_sent: "message_sent policy msg (fst (prepare_message policy msg))"
  by (auto simp: message_sent_def prepare_message_def Let_def update_conv')

lemma all_objects_eq: "all_objects vs = Some ms \<longleftrightarrow> vs = map JObj ms"
  by (induction vs arbitrary: ms) (auto split: json.splits)

lemma asMaps_eq: "asMaps v = Some ms \<longleftrightarrow> v = Some (JArr (map JObj ms))"
  by (auto simp: asMaps_def all_objects_eq split: option.splits json.splits)

lemma prepare_messages_at:
  "map_of body ''messages'' = Some (JArr (map JObj ms)) \<Longrightarrow>
   map_of (fst (prepare_messages policy body)) ''messages'' =
     Some (JArr (map (JObj \<circ> (fst \<circ> prepare_message policy)) ms))"
proof -
  assume "map_of body ''messages'' = Some (JArr (map JObj ms))"
  then have "asMaps (map_of body ''messages'') = Some ms" by (simp only: asMaps_eq)
  then show ?thesis by (simp add: prepare_messages_def Let_def update_conv' comp_def)
qed

text \<open>
  The gateway is a proxy. Every field it does not know reaches the provider with its
  value; the model is the provider's name for it and the gateway's own options are gone; a
  stream asks for usage; and every message is sent in its place, changed at most in a
  developer's role and by an empty reasoning content where there was none.
\<close>

theorem proxy_body_forwards_request:
  assumes "PrepareProxyBody (Some (JObj fs)) model stream = Inr (up, ts)"
  shows "(\<forall>k. k \<notin> set edited_fields \<longrightarrow> map_of up k = map_of (decode_map fs) k)
    \<and> map_of up ''model'' = Some (JStr (m_UpstreamModelName model))
    \<and> map_of up ''provider_options'' = None
    \<and> (stream \<longrightarrow> map_of up ''stream'' = Some (JBool True)
         \<and> map_of (obj_or_nil (map_of up ''stream_options'')) ''include_usage'' = Some (JBool True))
    \<and> (\<forall>ms. map_of (decode_map fs) ''messages'' = Some (JArr (map JObj ms)) \<longrightarrow>
          (\<exists>outs. map_of up ''messages'' = Some (JArr (map JObj outs)) \<and>
             list_all2 (message_sent (policyForProvider (pc_ProviderName (m_ProviderConfig model)))) ms outs))"
proof -
  let ?p = "policyForProvider (pc_ProviderName (m_ProviderConfig model))"
  let ?b2 = "fold AList.delete gatewayOnlyFields (prepare_tier model
           (AList.update ''model'' (JStr (m_UpstreamModelName model)) (decode_map fs)))"
  obtain body3 body4 where b3: "body3 = prepare_stream stream ?b2"
    and b4: "body4 = fst (prepare_limit ?p model body3)" and up: "up = fst (prepare_messages ?p body4)"
    using assms by (auto elim: PrepareProxyBody_eq)
  have early: "map_of up k = map_of body3 k"
    if "k \<notin> set [''max_tokens'', ''max_completion_tokens'', ''messages'']" for k
    using that by (simp add: up b4 prepare_messages_other prepare_limit_other)
  have fields: "\<forall>k. k \<notin> set edited_fields \<longrightarrow> map_of up k = map_of (decode_map fs) k"
    by (auto simp: edited_fields_def early b3 body3_other)
  have model: "map_of up ''model'' = Some (JStr (m_UpstreamModelName model))"
    and own: "map_of up ''provider_options'' = None"
    by (simp_all add: early b3 prepare_stream_other map_of_fold_delete gatewayOnlyFields_def prepare_tier_other
          update_conv' delete_conv')
  have usage: "stream \<longrightarrow> map_of up ''stream'' = Some (JBool True)
         \<and> map_of (obj_or_nil (map_of up ''stream_options'')) ''include_usage'' = Some (JBool True)"
    by (simp add: early b3 prepare_stream_def Let_def update_conv' obj_or_nil_def as_obj_def)
  have "\<exists>outs. map_of up ''messages'' = Some (JArr (map JObj outs)) \<and> list_all2 (message_sent ?p) ms outs"
    if ms: "map_of (decode_map fs) ''messages'' = Some (JArr (map JObj ms))" for ms
  proof -
    have "map_of body4 ''messages'' = Some (JArr (map JObj ms))"
      using ms by (simp add: b4 prepare_limit_other b3 body3_other)
    then have "map_of up ''messages'' = Some (JArr (map JObj (map (fst \<circ> prepare_message ?p) ms)))"
      by (simp add: up prepare_messages_at comp_def)
    moreover have "list_all2 (message_sent ?p) ms (map (fst \<circ> prepare_message ?p) ms)"
      by (simp add: list_all2_conv_all_nth prepare_message_sent)
    ultimately show ?thesis by blast
  qed
  then show ?thesis using fields model own usage by blast
qed

text \<open>Its premise holds for the capped request above, sent as a stream.\<close>

definition toy_stream :: "jobject \<times> string list" where
  "toy_stream = projr (PrepareProxyBody (fst toy_capped) toy_model True)"

lemma proxy_body_forwards_request_witness:
  "map_of (fst toy_stream) ''model'' = Some (JStr ''toy-up'') \<and> map_of (fst toy_stream) ''provider_options'' = None
   \<and> map_of (obj_or_nil (map_of (fst toy_stream) ''stream_options'')) ''include_usage'' = Some (JBool True)"
proof -
  have raw: "\<exists>fs. fst toy_capped = Some (JObj fs)"
    unfolding toy_capped_def capOutput_def by (simp add: toy_limits_def Let_def)
  then obtain fs where fs: "fst toy_capped = Some (JObj fs)" by blast
  have up: "PrepareProxyBody (Some (JObj fs)) toy_model True = Inr (fst toy_stream, snd toy_stream)"
    unfolding prod.collapse
    by (rule right_of [OF _ toy_stream_def [unfolded fs]]) (simp add: PrepareProxyBody_def Let_def split: prod.splits)
  show ?thesis
    using proxy_body_forwards_request [OF up] by (simp add: toy_model_def)
qed

section \<open>Retries\<close>

lemma spend_decreases:
  "canSpendSameBodyRetry why t n = Some (t', n') \<Longrightarrow>
   t \<le> maxNovitaInvalidTraceSameBodyRetries \<Longrightarrow> n \<le> maxNovitaServerOverloadRetries \<Longrightarrow>
   t' \<le> maxNovitaInvalidTraceSameBodyRetries \<and> n' \<le> maxNovitaServerOverloadRetries \<and> t' + n' = Suc (t + n)"
  by (auto simp: canSpendSameBodyRetry_def maxNovitaInvalidTraceSameBodyRetries_def
        maxNovitaServerOverloadRetries_def split: if_splits)

lemma proxy_loop_attempts:
  "t \<le> maxNovitaInvalidTraceSameBodyRetries \<Longrightarrow> n \<le> maxNovitaServerOverloadRetries \<Longrightarrow>
   proxy_loop send left cause model built attempt reason t n = (res, log) \<Longrightarrow>
   log \<noteq> [] \<and> length log + (t + n) \<le> 4
   \<and> (pc_ProviderName (m_ProviderConfig model) \<noteq> ''novita'' \<longrightarrow> length log = 1)
   \<and> (\<forall>k < length log - 1. \<exists>e why. send (attempt + k) = Inl e
        \<and> maybeBuildNovitaSameBodyRetry model e (built_Body built) = Some why)
   \<and> (\<forall>r. res = Inr r \<longleftrightarrow> send (attempt + (length log - 1)) = Inr r)"
proof (induction send left cause model built attempt reason t n arbitrary: res log rule: proxy_loop.induct)
  case (1 send left cause model built attempt reason t n)
  note limits = maxNovitaInvalidTraceSameBodyRetries_def maxNovitaServerOverloadRetries_def
  show ?case
  proof (cases "send attempt")
    case (Inr r)
    then show ?thesis
      using "1.prems" by (auto simp: proxy_loop.simps [of send] limits)
  next
    case err: (Inl e)
    show ?thesis
    proof (cases "maybeBuildNovitaSameBodyRetry model e (built_Body built)")
      case None
      then show ?thesis
        using "1.prems" err by (auto simp: proxy_loop.simps [of send] limits)
    next
      case why: (Some why)
      then have novita: "pc_ProviderName (m_ProviderConfig model) = ''novita''"
        by (auto simp: maybeBuildNovitaSameBodyRetry_def split: if_splits)
      show ?thesis
      proof (cases "canSpendSameBodyRetry why t n")
        case None
        then show ?thesis
          using "1.prems" err why novita by (auto simp: proxy_loop.simps [of send] limits)
      next
        case spent: (Some tn)
        obtain t' n' where tn: "tn = (t', n')" by force
        note dec = spend_decreases [OF spent [unfolded tn] "1.prems"(1,2)]
        show ?thesis
        proof (cases "sleepBeforeProviderRetry (left attempt) why")
          case False
          then have "log = [reason] \<and> \<not> (\<exists>r. res = Inr r)"
            using "1.prems"(3) err why spent tn by (auto simp: proxy_loop.simps [of send])
          then show ?thesis
            using err novita dec by (auto simp: limits)
        next
          case True
          obtain res' log' where rec: "proxy_loop send left cause model built (attempt + 1) why t' n' = (res', log')"
            by force
          then have out: "res = res'" "log = reason # log'"
            using "1.prems"(3) err why spent tn True by (auto simp: proxy_loop.simps [of send])
          have IH: "log' \<noteq> [] \<and> length log' + (t' + n') \<le> 4
              \<and> (\<forall>k < length log' - 1. \<exists>e why. send (attempt + 1 + k) = Inl e
                   \<and> maybeBuildNovitaSameBodyRetry model e (built_Body built) = Some why)
              \<and> (\<forall>r. res' = Inr r \<longleftrightarrow> send (attempt + 1 + (length log' - 1)) = Inr r)"
            using "1.IH" [OF err why spent tn [symmetric] _ _ _ rec] True dec by blast
          have "\<exists>e why. send (attempt + k) = Inl e \<and> maybeBuildNovitaSameBodyRetry model e (built_Body built) = Some why"
            if k: "k < length log'" for k
          proof (cases k)
            case 0
            then show ?thesis using err why by auto
          next
            case (Suc j)
            then have "j < length log' - 1" using k by linarith
            then show ?thesis using IH Suc by fastforce
          qed
          moreover obtain m where "length log' = Suc m" using IH by (cases log') auto
          ultimately show ?thesis
            using IH dec out novita by simp
        qed
      qed
    qed
  qed
qed

text \<open>
  C31: A request is sent to a provider at most four times, and once to any provider but Novita.
  With a credential there is at least one attempt; every attempt but the last failed with one
  of the two errors that are retried, and the result is a success exactly when the last
  attempt was one. Without a credential nothing is sent.
\<close>

theorem proxy_attempts_bounded:
  "case proxy getenv send left cause body transforms model of (res, log) \<Rightarrow>
     (log = [] \<longleftrightarrow> ResolveAPIKey getenv (pc_APIKeySecretRef (m_ProviderConfig model)) = [])
     \<and> (log = [] \<longrightarrow> isl res) \<and> length log \<le> 4
     \<and> (pc_ProviderName (m_ProviderConfig model) \<noteq> ''novita'' \<longrightarrow> length log \<le> 1)
     \<and> (log \<noteq> [] \<longrightarrow>
          (\<forall>k < length log - 1. \<exists>e why.
             send (ResolveAPIKey getenv (pc_APIKeySecretRef (m_ProviderConfig model))) (1 + k) = Inl e
             \<and> maybeBuildNovitaSameBodyRetry model e body = Some why)
          \<and> (\<forall>r. res = Inr r \<longleftrightarrow>
               send (ResolveAPIKey getenv (pc_APIKeySecretRef (m_ProviderConfig model))) (length log) = Inr r))"
proof (cases "ResolveAPIKey getenv (pc_APIKeySecretRef (m_ProviderConfig model)) = []")
  case True
  then show ?thesis by (simp add: proxy_def)
next
  case False
  let ?key = "ResolveAPIKey getenv (pc_APIKeySecretRef (m_ProviderConfig model))"
  let ?built = "\<lparr>built_Body = body, built_Policy = pol_name (policyForProvider (pc_ProviderName (m_ProviderConfig model))),
                 built_Transforms = transforms\<rparr>"
  obtain res log where run: "proxy_loop (send ?key) left cause model ?built 1 [] 0 0 = (res, log)" by force
  have "log \<noteq> [] \<and> length log + (0 + 0) \<le> 4
     \<and> (pc_ProviderName (m_ProviderConfig model) \<noteq> ''novita'' \<longrightarrow> length log = 1)
     \<and> (\<forall>k < length log - 1. \<exists>e why. send ?key (1 + k) = Inl e
          \<and> maybeBuildNovitaSameBodyRetry model e (built_Body ?built) = Some why)
     \<and> (\<forall>r. res = Inr r \<longleftrightarrow> send ?key (1 + (length log - 1)) = Inr r)"
    by (rule proxy_loop_attempts [OF _ _ run]) simp_all
  moreover from this have "1 + (length log - 1) = length log" by (cases log) auto
  ultimately show ?thesis
    using run False by (simp add: proxy_def Let_def)
qed

definition toy_novita :: "unit public_model" where
  "toy_novita = toy_model\<lparr>m_ProviderConfig := toy_provider\<lparr>pc_ProviderName := ''novita''\<rparr>\<rparr>"

definition toy_overload :: go_error where
  "toy_overload = HttpErr (provider_error 429 ''server overload'' [] [] [] [] [])"

definition toy_retries :: "(gateway_error + nat) \<times> string list" where
  "toy_retries = proxy (\<lambda>_. ''key'') (\<lambda>_ n. if n = 1 then Inl toy_overload else Inr 7) (\<lambda>_. None)
     CtxCanceled [] [] toy_novita"

lemma proxy_attempts_bounded_witness:
  "snd toy_retries \<noteq> [] \<and> length (snd toy_retries) \<le> 4 \<and> \<not> isl (fst toy_retries)"
proof -
  have key: "ResolveAPIKey (\<lambda>_. ''key'') (pc_APIKeySecretRef (m_ProviderConfig toy_novita)) \<noteq> []" by code_simp
  have "\<not> isl (fst toy_retries)" by code_simp
  moreover have "snd toy_retries \<noteq> [] \<and> length (snd toy_retries) \<le> 4"
    using proxy_attempts_bounded [where getenv = "\<lambda>_. ''key''" and left = "\<lambda>_. None" and cause = CtxCanceled
        and send = "\<lambda>_ n. if n = 1 then Inl toy_overload else Inr (7::nat)"
        and body = "[]" and transforms = "[]" and model = toy_novita] key
    unfolding toy_retries_def by (auto split: prod.splits)
  ultimately show ?thesis by simp
qed

section \<open>Upstream failures\<close>

lemma with_meta_upstream_fault: "with_meta_fields m (upstream_meta h) ''fault'' = m ''fault''"
  by (simp add: upstream_meta_def with_meta_pair_def)

text \<open>
  C33: An upstream HTTP failure becomes the gateway's own error. A provider's 401, 402 or 403
  is never passed on as such: the caller sees a 502 and the fault is the gateway's; a 429 and
  a 5xx keep their status and are the provider's fault; any other status stays, and whose fault
  it is stays open. The status of the provider is kept for the logs.
\<close>

theorem upstream_failure_classified:
  assumes "as_http err = Some h" and "\<not> is_err CtxCanceled err"
  shows "(let e = mapProviderError err p; status = phe_StatusCode h
     in if status \<in> {401, 402, 403} then ge_HTTPStatus e = 502 \<and> FaultOf (GwErr e) = FaultNexus
        else ge_HTTPStatus e = status \<and>
             FaultOf (GwErr e) = (if status = 429 \<or> status \<ge> 500 then FaultProvider else FaultUnclear))
     \<and> UpstreamStatus (GwErr (mapProviderError err p)) = phe_StatusCode h
     \<and> ge_RetryAfter (mapProviderError err p) = phe_RetryAfter h"
proof -
  have e: "mapProviderError err p =
      WithMeta ((map_http_error h p)\<lparr>ge_RetryAfter := phe_RetryAfter h\<rparr>) (upstream_meta h)"
    using assms by (simp add: mapProviderError_def)
  have "ge_Metadata (map_http_error h p) ''fault'' = None"
    by (simp add: map_http_error_def error_constructors Let_def)
  then have nofault: "ge_Metadata (mapProviderError err p) ''fault'' = None"
    by (simp add: e with_meta_upstream_fault)
  have fault: "FaultOf (GwErr (mapProviderError err p)) =
      (case faultByCode (ge_Code (map_http_error h p)) of Some f \<Rightarrow> f | None \<Rightarrow> FaultNexus)"
    by (simp add: FaultOf_def fault_meta_def nofault faults_def) (simp add: e)
  have status: "UpstreamStatus (GwErr (mapProviderError err p)) = phe_StatusCode h"
    by (simp add: UpstreamStatus_def e upstream_meta_def with_meta_pair_def)
  have "ge_RetryAfter (mapProviderError err p) = phe_RetryAfter h" by (simp add: e)
  moreover have "let e = mapProviderError err p; status = phe_StatusCode h
     in if status \<in> {401, 402, 403} then ge_HTTPStatus e = 502 \<and> FaultOf (GwErr e) = FaultNexus
        else ge_HTTPStatus e = status \<and>
             FaultOf (GwErr e) = (if status = 429 \<or> status \<ge> 500 then FaultProvider else FaultUnclear)"
    unfolding Let_def fault by (auto simp: e map_http_error_def error_constructors faultByCode_def Let_def)
  ultimately show ?thesis using status by simp
qed

lemma upstream_failure_classified_witness:
  "ge_HTTPStatus (mapProviderError toy_overload ''novita'') = 429 \<and>
   FaultOf (GwErr (mapProviderError toy_overload ''novita'')) = FaultProvider"
proof -
  let ?h = "provider_error 429 ''server overload'' [] [] [] [] []"
  have "as_http toy_overload = Some ?h" "\<not> is_err CtxCanceled toy_overload" "phe_StatusCode ?h = 429"
    by (simp_all add: toy_overload_def provider_error_def)
  then show ?thesis
    using upstream_failure_classified [of toy_overload ?h "''novita''"] by (simp add: Let_def)
qed

section \<open>The log of a request holds no text\<close>

text \<open>
  A body with every string of its values replaced by another of the same length, except for the
  roles of the messages.
\<close>

definition scramble_message :: "(string \<Rightarrow> string) \<Rightarrow> jobject \<Rightarrow> jobject" where
  "scramble_message f = map (\<lambda>(k, v). (k, if k = ''role'' then v else map_strings f v))"

definition scramble :: "(string \<Rightarrow> string) \<Rightarrow> jobject \<Rightarrow> jobject" where
  "scramble f = map (\<lambda>(k, v). (k,
     if k = ''messages'' then
       (case asMaps (Some v) of
          Some ms \<Rightarrow> JArr (map (JObj \<circ> scramble_message f) ms)
        | None \<Rightarrow> map_strings f v)
     else map_strings f v))"

lemma map_of_scramble_message:
  "map_of (scramble_message f msg) k =
     (if k = ''role'' then map_of msg k else map_option (map_strings f) (map_of msg k))"
  by (induction msg) (auto simp: scramble_message_def)

lemma map_of_scramble:
  "k \<noteq> ''messages'' \<Longrightarrow> map_of (scramble f body) k = map_option (map_strings f) (map_of body k)"
  by (induction body) (auto simp: scramble_def)

lemma map_of_map_strings: "map_of (map (\<lambda>(k, v). (k, map_strings f v)) fs) k = map_option (map_strings f) (map_of fs k)"
  by (induction fs) auto

lemma asMaps_map_strings:
  "asMaps (map_option (map_strings f) v) = map_option (map (map (\<lambda>(k, v). (k, map_strings f v)))) (asMaps v)"
proof -
  have "all_objects (map (map_strings f) vs) = map_option (map (map (\<lambda>(k, v). (k, map_strings f v)))) (all_objects vs)" for vs
    by (induction vs) (auto split: json.splits simp: option.map_comp comp_def)
  then show ?thesis by (auto simp: asMaps_def split: option.splits json.splits)
qed

lemma messages_scramble:
  "asMaps (map_of (scramble f body) ''messages'') = map_option (map (scramble_message f)) (asMaps (map_of body ''messages''))"
proof (induction body)
  case Nil
  then show ?case by (simp add: scramble_def asMaps_def)
next
  case (Cons e body)
  have "all_objects (map (JObj \<circ> scramble_message f) ms) = Some (map (scramble_message f) ms)" for ms
    by (simp add: all_objects_eq)
  moreover have "asMaps (Some v) = None \<Longrightarrow> asMaps (Some (map_strings f v)) = None" for v
    using asMaps_map_strings [of f "Some v"] by simp
  ultimately show ?case
    using Cons by (cases e) (auto simp: scramble_def asMaps_def split: option.splits)
qed

lemma setting_scramble: "key \<noteq> ''messages'' \<Longrightarrow> setting (scramble f body) key = setting body key"
proof -
  assume k: "key \<noteq> ''messages''"
  have "limit_in (scramble f body) field = limit_in body field" if "field \<noteq> ''messages''" for field
  proof -
    have "dec_int (map_strings f v) = dec_int v" for v by (cases v) (auto simp: dec_int_def)
    then show ?thesis using that by (simp add: limit_in_def map_of_scramble split: option.splits)
  qed
  then have "limit_in (scramble f body) ''max_completion_tokens'' = limit_in body ''max_completion_tokens''"
    "limit_in (scramble f body) ''max_tokens'' = limit_in body ''max_tokens''" by simp_all
  then have "tokenLimit (scramble f body) = tokenLimit body" by (simp only: tokenLimit_def)
  then show ?thesis
    using k by (simp add: setting_def map_of_scramble split: option.splits json.splits)
qed

lemma summarize_scramble:
  assumes "\<forall>s. length (f s) = length s"
  shows "summarize_message (scramble_message f msg) = summarize_message msg"
    and "content_length (scramble_message f msg) = content_length msg"
proof -
  have "length calls = length (map (map (\<lambda>(k, v). (k, map_strings f v))) calls)" for calls :: "jobject list" by simp
  have calls: "(case stored_calls (scramble_message f msg) of Some cs \<Rightarrow> [(''tool_call_count'', MInt (int (length cs)))] | None \<Rightarrow> [])
      = (case stored_calls msg of Some cs \<Rightarrow> [(''tool_call_count'', MInt (int (length cs)))] | None \<Rightarrow> [])"
    by (auto simp: stored_calls_def map_of_scramble_message asMaps_map_strings split: option.splits list.splits)
  have chars: "(case map_option (map_strings f) v of Some (JStr c) \<Rightarrow> [(a, MInt (int (length c)))] | Some w \<Rightarrow> b | None \<Rightarrow> [])
      = (case v of Some (JStr c) \<Rightarrow> [(a, MInt (int (length c)))] | Some w \<Rightarrow> b | None \<Rightarrow> [])" for v a b
    using assms by (auto split: option.splits json.splits)
  show "summarize_message (scramble_message f msg) = summarize_message msg"
    unfolding summarize_message_def calls by (simp add: map_of_scramble_message chars del: case_map_option)
  show "content_length (scramble_message f msg) = content_length msg"
    using assms by (auto simp: content_length_def map_of_scramble_message split: option.splits json.splits)
qed



end
