(* ===== verification/ServiceFacts.thy ===== *)
theory ServiceFacts
  imports ProxyFacts ProviderFacts
begin

text \<open>
  The properties of a whole request through the generation service: from the token and the body
  of a caller to the last settlement of its answer.
\<close>

section \<open>From admission to the attempts\<close>

lemma Proxy_stages:
  assumes "Proxy po rid endpoint raw req token = (res, ev)"
  obtains (refused) err where "res = Inl err" "holds ev = []" "settlements ev = []" "providers ev = []"
      "length (generations ev) = 1"
  | (run) auth raw' req' model exec h ev1 ev2 r where
      "po_auth po token = Inr auth" "entered po endpoint raw req auth raw' req'" "chosen po endpoint req' model exec"
      "maskBody (po_pii po) (cd_object (po_codec po)) (cd_parse (po_codec po)) (cd_enc (po_codec po)) (po_analyzer po)
         raw' (key_PIIMode (auth_APIKey auth)) endpoint = Inr (hd_masked h, hd_mapping h)"
      "hd_endpoint h = endpoint" "\<exists>n. hd_req h = exec\<lparr>req_EstimatedInputTokens := n\<rparr>"
      "ev = EvReserve auth (hd_req h) model (Inr (hd_reservation h)) # ev1 @ ev2"
      "ev1 = (if po_keeps_holds po then [EvKeep (hd_reservation h)] else [])"
      "run_held po model h = (r, ev2)" "res = (case r of Inl e \<Rightarrow> Inl e | Inr c \<Rightarrow> Inr (h, c))"
proof (cases rule: admit_stages [of po rid endpoint raw req token])
  case (refused err ev')
  then have "res = Inl err" "ev = ev'" using assms by (simp_all add: Proxy_def)
  then show thesis using refused that(1) by simp
next
  case (held auth raw' req' model exec h)
  obtain r ev2 where r: "run_held po model h = (r, ev2)" by force
  have "res = (case r of Inl e \<Rightarrow> Inl e | Inr c \<Rightarrow> Inr (h, c))"
    and "ev = EvReserve auth (hd_req h) model (Inr (hd_reservation h))
      # (if po_keeps_holds po then [EvKeep (hd_reservation h)] else []) @ ev2"
    using assms held(12) r by (auto simp: Proxy_def split: sum.splits)
  then show thesis using that(2) held r by blast
qed

lemma keep_effects [simp]:
  "holds (if b then [EvKeep r] else []) = []" "settlements (if b then [EvKeep r] else []) = []"
  "providers (if b then [EvKeep r] else []) = []" "generations (if b then [EvKeep r] else []) = []"
  by simp_all

lemma fresh_settles:
  assumes "fresh_stream (Inr (Streaming m p))" and "(stream_step cd)\<^sup>*\<^sup>* p q"
  shows "length (ps_settled q) \<le> 1 \<and> length (ps_settled (stream_Close q)) = 1"
  using assms ss.reports_once [of p cd q] by (simp add: settle_inv_def)

lemma settle_call_effects:
  "settlements (settle_call po h m p) = replicate (length (ps_settled p)) (hd_reservation h)
   \<and> length (generations (settle_call po h m p)) = length (ps_settled p)"
proof -
  have "settlements (concat (map (finish_call po h m) rs)) = replicate (length rs) (hd_reservation h)
      \<and> length (generations (concat (map (finish_call po h m) rs))) = length rs" for rs
    by (induction rs) simp_all
  then show ?thesis by (simp add: settle_call_def)
qed

section \<open>Credit\<close>

text \<open>
  C1: Every credit hold is settled exactly once. A request takes at most one hold, and before it
  is taken no provider is called and nothing is settled. A request that fails or is answered has
  settled its hold once when it returns. A request that streams has settled nothing yet; however
  its stream is read, its hold is settled at most once, and closing the stream leaves it settled
  exactly once.
\<close>

theorem hold_settled_once:
  assumes "Proxy po rid endpoint raw req token = (res, ev)"
  shows "length (holds ev) \<le> 1
    \<and> (\<forall>pre post. ev = pre @ post \<and> holds pre = [] \<longrightarrow> providers pre = [] \<and> settlements pre = [])
    \<and> (case res of
         Inl err \<Rightarrow> settlements ev = holds ev
       | Inr (h, Answered m body) \<Rightarrow> holds ev = [hd_reservation h] \<and> settlements ev = [hd_reservation h]
       | Inr (h, Streaming m p) \<Rightarrow>
           holds ev = [hd_reservation h] \<and> settlements ev = []
           \<and> (\<forall>q. (stream_step (po_codec po))\<^sup>*\<^sup>* p q \<longrightarrow>
                length (settlements (settle_call po h m q)) \<le> 1
                \<and> settlements (settle_call po h m (stream_Close q)) = [hd_reservation h]))"
  using assms
proof (cases rule: Proxy_stages)
  case (refused err)
  then show ?thesis by auto
next
  case (run auth raw' req' model exec h ev1 ev2 r)
  note eff = run_held_effects [OF run(9)]
  have "pre = []" if "ev = pre @ post" "holds pre = []" for pre post
    using that run(7) by (cases pre) auto
  then have first: "\<forall>pre post. ev = pre @ post \<and> holds pre = [] \<longrightarrow> providers pre = [] \<and> settlements pre = []"
    by (metis trace_Nil(2,3))
  have one: "holds ev = [hd_reservation h]" "settlements ev = settled_now (hd_reservation h) r"
    using eff run(7,8) by simp_all
  show ?thesis
  proof (cases r)
    case (Inl e)
    then show ?thesis using one first run(10) by simp
  next
    case (Inr c)
    show ?thesis
    proof (cases c)
      case (Answered m body)
      then show ?thesis using one first run(10) Inr by simp
    next
      case (Streaming m p)
      have "fresh_stream (Inr (Streaming m p) :: go_error + 'a call_result)" using eff Inr Streaming by simp
      then have "length (settlements (settle_call po h m q)) \<le> 1
          \<and> settlements (settle_call po h m (stream_Close q)) = [hd_reservation h]"
        if "(stream_step (po_codec po))\<^sup>*\<^sup>* p q" for q
        using fresh_settles [OF _ that] by (auto simp: settle_call_effects)
      then show ?thesis using one first run(10) Inr Streaming by simp
    qed
  qed
qed

text \<open>A guest's request with toy ports, whole and streamed.\<close>

definition toy_account :: account where
  "toy_account = \<lparr>acc_ID = ''a'', acc_AuthgearSubjectID = None, acc_ExternalCustomerID = None, acc_Email = None,
     acc_Name = None, acc_Status = ''active'', acc_Plan = ''free'', acc_SubscriptionCancelAtPeriodEnd = False,
     acc_SubscriptionCancelAt = None, acc_CreatedAt = 0, acc_UpdatedAt = 0, acc_LastUsedAt = None, acc_IsGuest = True\<rparr>"

definition toy_key :: api_key where
  "toy_key = \<lparr>key_ID = ''k'', key_AccountID = ''a'', key_Name = None, key_KeyPrefix = [], key_KeyHash = [],
     key_Active = True, key_PIIMode = ''off'', key_LastUsedAt = None, key_ExpiresAt = None, key_RevokedAt = None,
     key_CreatedAt = 0\<rparr>"

definition toy_ports :: "unit ports" where
  "toy_ports = \<lparr>po_auth = (\<lambda>t. Inr \<lparr>auth_Account = toy_account, auth_APIKey = toy_key\<rparr>), po_model = (\<lambda>i. Inr toy_model),
     po_router_entry = (\<lambda>i. Inl CtxCanceled), po_route = None, po_registered = (\<lambda>n. True),
     po_complete = (\<lambda>m b. Inr (''{}'', None)), po_stream = (\<lambda>m b. Inr (''data: [DONE]'' @ [CHR 0x0A, CHR 0x0A], None, None)),
     po_reserve = (\<lambda>a e r m. Inr ''r1''), po_keeps_holds = True, po_proofs = False,
     po_pii = \<lparr>pii_on = False, pii_fail_open = False, pii_client_left = False\<rparr>, po_analyzer = (\<lambda>m t. Inr []),
     po_codec = toy_codec, po_marshal = (\<lambda>v. ''{}''), po_part_len = (\<lambda>t i j. 0), po_guest_limit = 8,
     po_client_gone = (\<lambda>m. False), po_lost = (\<lambda>m. None), po_now = 0, po_latency = 0, po_error_type = (\<lambda>e. [])\<rparr>"

definition toy_call :: "bool \<Rightarrow> (go_error + (held_call \<times> unit call_result)) \<times> unit effect list" where
  "toy_call streaming = Proxy toy_ports ''id'' EndpointChatCompletions ''{}'' (toy_req\<lparr>req_Stream := streaming\<rparr>) ''t''"

definition held_stream :: "(go_error + (held_call \<times> unit call_result)) \<Rightarrow> (held_call \<times> unit public_model \<times> proxy_stream) option" where
  "held_stream r = (case r of Inr (h, Streaming m p) \<Rightarrow> Some (h, m, p) | _ \<Rightarrow> None)"

lemma held_stream_Some: "held_stream r = Some (h, m, p) \<Longrightarrow> r = Inr (h, Streaming m p)"
  by (auto simp: held_stream_def split: sum.splits prod.splits call_result.splits)

theorem hold_settled_once_witness:
  "\<exists>h m p. fst (toy_call True) = Inr (h, Streaming m p) \<and> holds (snd (toy_call True)) = [''r1'']
     \<and> settlements (settle_call toy_ports h m (stream_Close p)) = [''r1'']"
proof -
  have "held_stream (fst (toy_call True)) \<noteq> None" by code_simp
  then obtain h m p where r: "fst (toy_call True) = Inr (h, Streaming m p)"
    by (metis held_stream_Some not_None_eq prod.exhaust)
  have "Proxy toy_ports ''id'' EndpointChatCompletions ''{}'' (toy_req\<lparr>req_Stream := True\<rparr>) ''t''
      = (Inr (h, Streaming m p), snd (toy_call True))"
    using r by (simp add: toy_call_def prod_eq_iff)
  from hold_settled_once [OF this] have "holds (snd (toy_call True)) = [hd_reservation h]"
    and "settlements (settle_call toy_ports h m (stream_Close p)) = [hd_reservation h]"
    by auto
  moreover have "holds (snd (toy_call True)) = [''r1'']" by code_simp
  ultimately show ?thesis using r by auto
qed

section \<open>What a provider gets\<close>

lemma resolveModel_direct:
  "po_model po (req_PublicModelID req) = Inr model \<Longrightarrow> resolveModel po req = Inr (m, exec) \<Longrightarrow>
   m = model \<and> req_MaxOutputTokens exec = req_MaxOutputTokens req"
  by (auto simp: resolveModel_def Let_def)

lemma cap_text_limits:
  assumes "cap_text po raw0 req0 = Inr (raw, req)"
  shows "req_PublicModelID req = req_PublicModelID req0
    \<and> (\<exists>n. req_MaxOutputTokens req = Some n \<and> n \<le> po_guest_limit po)"
  using assms
  by (auto simp: cap_text_def capOutput_def within_limit_def Let_def split: sum.splits option.splits if_splits json.splits)

text \<open>
  C2: A provider gets the masked body. At most two calls reach a provider, all of them to the
  model that was chosen or its fallback, registered and serving the endpoint; the body of each
  is what masking under the key's mode made of the caller's body (capped for a guest).
\<close>

theorem provider_gets_masked_body:
  assumes "Proxy po rid endpoint raw req token = (res, ev)"
  shows "length (providers ev) \<le> 2 \<and>
    (\<forall>(streaming, target, body) \<in> set (providers ev).
       \<exists>auth raw' req' model exec mapping.
         po_auth po token = Inr auth \<and> entered po endpoint raw req auth raw' req'
         \<and> chosen po endpoint req' model exec \<and> target \<in> set (targets model)
         \<and> maskBody (po_pii po) (cd_object (po_codec po)) (cd_parse (po_codec po)) (cd_enc (po_codec po))
             (po_analyzer po) raw' (key_PIIMode (auth_APIKey auth)) endpoint = Inr (body, mapping)
         \<and> po_registered po (pc_ProviderName (m_ProviderConfig target)) \<and> SupportsEndpoint target endpoint)"
  using assms
proof (cases rule: Proxy_stages)
  case (refused err)
  then show ?thesis by simp
next
  case (run auth raw' req' model exec h ev1 ev2 r)
  have prov: "providers ev = providers ev2" using run(7,8) by simp
  have supports: "SupportsEndpoint t endpoint" if "validateRequest endpoint rq t = None" for rq and t :: "'a public_model"
    using that by (auto simp: validateRequest_def Let_def split: if_splits)
  show ?thesis
    using run_held_effects [OF run(9)] run(1-5) supports unfolding prov call_ok_def by fastforce
qed

theorem provider_gets_masked_body_witness:
  "\<exists>auth req' model. length (providers (snd (toy_call False))) = 1 \<and> entered toy_ports EndpointChatCompletions ''{}''
     (toy_req\<lparr>req_Stream := False\<rparr>) auth ''{}'' req' \<and> toy_model \<in> set (targets model)"
proof -
  have p: "providers (snd (toy_call False)) = [(False, toy_model, ''{}'')]" by code_simp
  have "Proxy toy_ports ''id'' EndpointChatCompletions ''{}'' (toy_req\<lparr>req_Stream := False\<rparr>) ''t''
      = (fst (toy_call False), snd (toy_call False))" by (simp add: toy_call_def)
  from provider_gets_masked_body [OF this] p obtain auth raw' req' model exec mapping where
    e: "entered toy_ports EndpointChatCompletions ''{}'' (toy_req\<lparr>req_Stream := False\<rparr>) auth raw' req'"
    and t: "toy_model \<in> set (targets model)"
    and m: "maskBody (po_pii toy_ports) (cd_object toy_codec) (cd_parse toy_codec) (cd_enc toy_codec) (po_analyzer toy_ports)
      raw' (key_PIIMode (auth_APIKey auth)) EndpointChatCompletions = Inr (''{}'', mapping)"
    by (auto simp: toy_ports_def)
  have "raw' = ''{}''" using m by (auto simp: maskBody_def toy_ports_def Let_def split: prod.splits)
  then show ?thesis using e t p by auto
qed

section \<open>Guests\<close>

definition reserved :: "'d effect list \<Rightarrow> generate_request list" where
  "reserved ev = concat (map (\<lambda>e. case e of EvReserve a r m x \<Rightarrow> [r] | _ \<Rightarrow> []) ev)"

lemma reserved_none:
  "reserved (finish_call po h m o') = []" "reserved (x @ y) = reserved x @ reserved y"
  by (auto simp: reserved_def finish_call_def finishProxy_def storeTinfoilProof_def RecordUsage_def Let_def
      split: option.splits)

lemma attempt_reserved: "attempt po h m = (r, ev) \<Longrightarrow> reserved ev = []"
  using reserved_none(1) [of po h m]
  by (auto simp: attempt_def Let_def reserved_def split: option.splits if_splits sum.splits prod.splits)

lemma run_held_reserved: "run_held po m h = (r, ev) \<Longrightarrow> reserved ev = []"
proof -
  assume run: "run_held po m h = (r, ev)"
  obtain r1 ev1 where a1: "attempt po h m = (r1, ev1)" by force
  note none = attempt_reserved [OF a1] attempt_reserved [of po h]
  have skip: "reserved (EvLog a b # x) = reserved x" "reserved (EvMetric c # x) = reserved x"
    "reserved (EvFailure f g i j k # x) = reserved x" "reserved (EvRelease # x) = reserved x" "reserved [] = []"
    for a b c f g i j k and x :: "'a effect list" by (simp_all add: reserved_def)
  show ?thesis
    using run a1 none
    by (auto simp: run_held_def Let_def reserved_none(2) skip split: sum.splits option.splits if_splits prod.splits)
qed

text \<open>
  C3: A guest stays within the guest's models and limit. When a guest's request gets as far as
  a provider, it is a chat request for a model that is open to guests, only that model or its
  fallback is called, the body is the one the cap was written into, masked, and the credit was
  held for at most the guest limit of output tokens.
\<close>

theorem guest_request_confined:
  assumes "Proxy po rid endpoint raw req token = (res, ev)"
    and "po_auth po token = Inr auth" and "acc_IsGuest (auth_Account auth)" and "providers ev \<noteq> []"
  shows "endpoint = EndpointChatCompletions \<and>
    (\<exists>model raw' req'. po_model po (req_PublicModelID req) = Inr model \<and> m_GuestAllowed model
       \<and> cap_text po raw req = Inr (raw', req')
       \<and> (\<forall>(streaming, target, body) \<in> set (providers ev). target \<in> set (targets model) \<and>
            (\<exists>mapping. maskBody (po_pii po) (cd_object (po_codec po)) (cd_parse (po_codec po)) (cd_enc (po_codec po))
               (po_analyzer po) raw' (key_PIIMode (auth_APIKey auth)) endpoint = Inr (body, mapping)))
       \<and> (\<forall>r \<in> set (reserved ev). \<exists>n. req_MaxOutputTokens r = Some n \<and> n \<le> po_guest_limit po))"
  using assms(1)
proof (cases rule: Proxy_stages)
  case (refused err)
  then show ?thesis using assms(4) by simp
next
  case (run auth' raw' req' model exec h ev1 ev2 r)
  have same: "auth' = auth" using run(1) assms(2) by simp
  then have guest: "checkGuestModel po endpoint (req_PublicModelID req) = None" and cap: "cap_text po raw req = Inr (raw', req')"
    using run(2) assms(3) by (simp_all add: entered_def)
  from guest have chat: "endpoint = EndpointChatCompletions"
    by (auto simp: checkGuestModel_def split: if_splits)
  from guest obtain m where m: "po_model po (req_PublicModelID req) = Inr m" "m_GuestAllowed m"
    by (auto simp: checkGuestModel_def split: if_splits sum.splits)
  note limits = cap_text_limits [OF cap]
  have "resolveModel po req' = Inr (model, exec)"
    using run(3) chat by (simp add: chosen_def endpoint_defs)
  then have model: "model = m" and out: "req_MaxOutputTokens exec = req_MaxOutputTokens req'"
    using resolveModel_direct [of po req' m] m(1) limits by auto
  have prov: "providers ev = providers ev2" using run(7,8) by simp
  have "reserved ev = [hd_req h]"
    using run(7,8) run_held_reserved [OF run(9)] by (auto simp: reserved_def)
  then have "\<forall>r \<in> set (reserved ev). \<exists>n. req_MaxOutputTokens r = Some n \<and> n \<le> po_guest_limit po"
    using limits out run(6) by auto
  moreover have "\<forall>(streaming, target, body) \<in> set (providers ev). target \<in> set (targets m) \<and> body = hd_masked h"
    using run_held_effects [OF run(9)] model unfolding prov call_ok_def by fastforce
  ultimately show ?thesis using chat m cap run(4) same by fast
qed

theorem guest_request_confined_witness:
  "\<exists>raw' req'. cap_text toy_ports ''{}'' (toy_req\<lparr>req_Stream := False\<rparr>) = Inr (raw', req')
     \<and> list_all (\<lambda>r. \<exists>n. req_MaxOutputTokens r = Some n \<and> n \<le> 8) (reserved (snd (toy_call False)))
     \<and> length (reserved (snd (toy_call False))) = 1"
proof -
  have call: "Proxy toy_ports ''id'' EndpointChatCompletions ''{}'' (toy_req\<lparr>req_Stream := False\<rparr>) ''t''
      = (fst (toy_call False), snd (toy_call False))" by (simp add: toy_call_def)
  have guest: "po_auth toy_ports ''t'' = Inr \<lparr>auth_Account = toy_account, auth_APIKey = toy_key\<rparr>"
    and "acc_IsGuest (auth_Account \<lparr>auth_Account = toy_account, auth_APIKey = toy_key\<rparr>)"
    by (simp_all add: toy_ports_def toy_account_def)
  moreover have "length (providers (snd (toy_call False))) = 1" by code_simp
  then have "providers (snd (toy_call False)) \<noteq> []" by auto
  ultimately obtain raw' req' where "cap_text toy_ports ''{}'' (toy_req\<lparr>req_Stream := False\<rparr>) = Inr (raw', req')"
    and "\<forall>r \<in> set (reserved (snd (toy_call False))). \<exists>n. req_MaxOutputTokens r = Some n \<and> n \<le> po_guest_limit toy_ports"
    using guest_request_confined [OF call] by blast
  moreover have "po_guest_limit toy_ports = 8" by (simp add: toy_ports_def)
  moreover have "length (reserved (snd (toy_call False))) = 1" by code_simp
  ultimately show ?thesis by (auto simp: list_all_iff)
qed

section \<open>Outcomes\<close>

text \<open>
  Every request leaves one terminal outcome. A request that fails or is answered has counted
  exactly one outcome when it returns, before or after its hold; a request that streams has
  counted none, and has counted exactly one once its stream is closed, however it was read.
\<close>

theorem one_outcome_per_request:
  assumes "Proxy po rid endpoint raw req token = (res, ev)"
  shows "case res of
      Inr (h, Streaming m p) \<Rightarrow>
        generations ev = [] \<and>
        (\<forall>q. (stream_step (po_codec po))\<^sup>*\<^sup>* p q \<longrightarrow>
           length (generations (settle_call po h m (stream_Close q))) = 1)
    | _ \<Rightarrow> length (generations ev) = 1"
  using assms
proof (cases rule: Proxy_stages)
  case (refused err)
  then show ?thesis by simp
next
  case (run auth raw' req' model exec h ev1 ev2 r)
  note eff = run_held_effects [OF run(9)]
  have count: "length (generations ev) = length (settled_now (hd_reservation h) r)" using eff run(7,8) by simp
  show ?thesis
  proof (cases r)
    case (Inl e)
    then show ?thesis using count run(10) by simp
  next
    case (Inr c)
    show ?thesis
    proof (cases c)
      case (Answered m body)
      then show ?thesis using count run(10) Inr by simp
    next
      case (Streaming m p)
      have "fresh_stream (Inr (Streaming m p) :: go_error + 'a call_result)" using eff Inr Streaming by simp
      then have "length (generations (settle_call po h m (stream_Close q))) = 1"
        if "(stream_step (po_codec po))\<^sup>*\<^sup>* p q" for q
        using fresh_settles [OF _ that] by (simp add: settle_call_effects)
      then show ?thesis using count run(10) Inr Streaming by simp
    qed
  qed
qed

theorem one_outcome_per_request_witness: "generations (snd (toy_call False)) = [OutcomeSuccess]"
proof -
  have "Proxy toy_ports ''id'' EndpointChatCompletions ''{}'' (toy_req\<lparr>req_Stream := False\<rparr>) ''t''
      = (fst (toy_call False), snd (toy_call False))" by (simp add: toy_call_def)
  note R = one_outcome_per_request [OF this]
  have s: "held_stream (fst (toy_call False)) = None" and h: "generations (snd (toy_call False)) = [OutcomeSuccess]"
    by code_simp+
  have "length (generations (snd (toy_call False))) = 1"
    using R s by (auto simp: held_stream_def split: sum.splits prod.splits call_result.splits)
  then show ?thesis using h by simp
qed

text \<open>
  A second provider is called only when it is worth it. Two calls mean that the model has a
  fallback, the first call went to the model and the second to the fallback, and the first
  attempt failed with a rate limit, a server-side status or an error of no gateway kind, while
  the client was still there and the hold not lost.
\<close>

theorem fallback_only_when_worth_it:
  assumes "run_held po model h = (res, ev)" and "length (providers ev) = 2"
  shows "\<exists>err t. fst (attempt po h model) = Inl err \<and> retryable err \<and> m_Fallback model = Some t
    \<and> map (\<lambda>c. fst (snd c)) (providers ev) = [model, withProviderTarget model t]
    \<and> \<not> po_client_gone po AtFallback \<and> po_lost po AtFallback = None"
proof -
  note eff = run_held_effects [OF assms(1)]
  obtain r1 ev1 where a1: "attempt po h model = (r1, ev1)" by force
  note e1 = attempt_effects [OF a1] attempt_calls [OF a1]
  obtain err where err: "r1 = Inl err" "retryable err" using eff assms(2) a1 by auto
  have few: "length (providers ev1) \<le> 1" using e1 by simp
  have "\<exists>t ev2 r2. m_Fallback model = Some t \<and> attempt po h (withProviderTarget model t) = (r2, ev2)
      \<and> providers ev = providers ev1 @ providers ev2"
  proof (rule ccontr)
    assume "\<not> ?thesis"
    then have "providers ev = providers ev1"
      using assms(1) a1 err(1)
      by (auto simp: run_held_def Let_def split: option.splits if_splits sum.splits prod.splits)
    then show False using few assms(2) by simp
  qed
  then obtain t ev2 r2 where t: "m_Fallback model = Some t" "attempt po h (withProviderTarget model t) = (r2, ev2)"
    "providers ev = providers ev1 @ providers ev2" by blast
  note e2 = attempt_effects [OF t(2)] attempt_calls [OF t(2)]
  have "length (providers ev1) = 1" "length (providers ev2) = 1" using few e2 assms(2) t(3) by auto
  then have "map (\<lambda>c. fst (snd c)) (providers ev) = [model, withProviderTarget model t]"
    using e1 e2 t(3) by (auto simp: length_Suc_conv)
  then show ?thesis using eff assms(2) a1 err t(1) by simp
qed

text \<open>A model with a fallback, whose first provider is overloaded.\<close>

definition toy_backed :: "unit public_model" where
  "toy_backed = toy_model\<lparr>m_Fallback := Some \<lparr>target_ProviderModelID = ''fm'', target_UpstreamModelName = ''fb-up'',
     target_ServiceTier = None, target_ProviderConfig = toy_provider\<lparr>pc_ProviderName := ''novita''\<rparr>\<rparr>\<rparr>"

definition toy_failing :: "unit ports" where
  "toy_failing = toy_ports\<lparr>po_complete := \<lambda>m b.
     if m_UpstreamModelName m = ''toy-up'' then Inl CtxDeadline else Inr (''{}'', None)\<rparr>"

definition toy_held :: held_call where
  "toy_held = \<lparr>hd_rid = ''id'', hd_auth = \<lparr>auth_Account = toy_account, auth_APIKey = toy_key\<rparr>,
     hd_endpoint = EndpointChatCompletions, hd_req = toy_req\<lparr>req_Stream := False\<rparr>, hd_raw = ''{}'', hd_masked = ''{}'',
     hd_mapping = None, hd_reservation = ''r1''\<rparr>"

theorem fallback_only_when_worth_it_witness:
  "\<exists>err. fst (attempt toy_failing toy_held toy_backed) = Inl err \<and> retryable err
     \<and> length (providers (snd (run_held toy_failing toy_backed toy_held))) = 2"
proof -
  have two: "length (providers (snd (run_held toy_failing toy_backed toy_held))) = 2" by code_simp
  have "run_held toy_failing toy_backed toy_held
      = (fst (run_held toy_failing toy_backed toy_held), snd (run_held toy_failing toy_backed toy_held))" by simp
  from fallback_only_when_worth_it [OF this two] show ?thesis using two by blast
qed

end
