(* ===== verification/Metering.thy ===== *)
theory Metering
  imports Errors GoJson
begin

text \<open>
  The client of the Metering service (\<open>adapters/metering/client.go\<close>): its payloads, the request
  with its retries, and which answers become errors of the caller. The HTTP transport, the JSON
  printer and the JSON parser are parameters; an answer depends on the number of the attempt.
  The histograms of durations are left out.
\<close>

section \<open>Payloads\<close>

record reserve_request =
  rq_GatewayRequestID :: string
  rq_AccountID :: string
  rq_APIKeyID :: string
  rq_Endpoint :: string
  rq_PublicModelID :: string
  rq_RequestedPublicModelID :: string
  rq_RouterID :: "string option"
  rq_RoutedPublicModelID :: "string option"
  rq_MatchedCategory :: "string option"
  rq_RoutingScore :: "float32 option"
  rq_RoutingCategoryScores :: "routing_category_score list"
  rq_DecisionReason :: "string option"
  rq_FallbackUsed :: "bool option"
  rq_Stream :: bool
  rq_MaxOutputTokens :: "int option"
  rq_EstimatedInputTokens :: "int option"

record reserve_response =
  rr_ReservationID :: string
  rr_LeaseMS :: int

record complete_request =
  cr_ProviderName :: string
  cr_ProviderModelID :: string
  cr_ProviderRequestID :: string
  cr_FinishReason :: "string option"
  cr_Usage :: "usage option"
  cr_LatencyMs :: int

record failure_request =
  fr_ReservationID :: string
  fr_GatewayRequestID :: string
  fr_AccountID :: string
  fr_APIKeyID :: string
  fr_Endpoint :: string
  fr_PublicModelID :: string
  fr_RequestedPublicModelID :: string
  fr_RouterID :: "string option"
  fr_RoutedPublicModelID :: "string option"
  fr_MatchedCategory :: "string option"
  fr_RoutingScore :: "float32 option"
  fr_RoutingCategoryScores :: "routing_category_score list"
  fr_DecisionReason :: "string option"
  fr_FallbackUsed :: "bool option"
  fr_ProviderName :: string
  fr_ProviderModelID :: string
  fr_Stream :: bool
  fr_ErrorType :: string
  fr_ErrorCode :: string
  fr_PartialUsage :: "usage option"
  fr_LatencyMs :: int

text \<open>\<open>runtimeProof\<close> has the fields of the domain's proof, under the same names.\<close>

datatype payload =
    PReserve reserve_request
  | PComplete complete_request
  | PFailure failure_request
  | PAuthenticate string            \<comment> \<open>\<open>key_hash\<close>\<close>
  | PProof tinfoil_proof
  | PEmpty                          \<comment> \<open>\<open>struct{}{}\<close>\<close>

section \<open>Errors\<close>

abbreviation CauseMeteringUnreachable :: string where "CauseMeteringUnreachable \<equiv> ''metering_unreachable''"
abbreviation CauseMeteringBadResponse :: string where "CauseMeteringBadResponse \<equiv> ''metering_bad_response''"
abbreviation CauseMeteringErrorStatus :: string where "CauseMeteringErrorStatus \<equiv> ''metering_error_status''"

definition meteringInternalError :: "meta list \<Rightarrow> gateway_error" where
  "meteringInternalError fs =
     WithMeta (ErrInternal ''an internal error occurred'') ([MStr ''dependency'', MStr ''metering''] @ fs)"

definition meteringResponseError :: "int \<Rightarrow> string \<Rightarrow> gateway_error" where
  "meteringResponseError status code =
     (let err = meteringInternalError [MStr ''cause'', MStr CauseMeteringErrorStatus, MStr ''metering_status'', MInt status]
      in if code \<noteq> [] then WithMeta err [MStr ''metering_code'', MStr code] else err)"

fun isRetryableRequestError :: "go_error \<Rightarrow> bool" where
  "isRetryableRequestError (RetryableErr e) = True"
| "isRetryableRequestError (WrapErr p e) = isRetryableRequestError e"
| "isRetryableRequestError e = False"

fun retryable_cause :: "go_error \<Rightarrow> go_error option" where
  "retryable_cause (RetryableErr e) = Some e"
| "retryable_cause (WrapErr p e) = retryable_cause e"
| "retryable_cause e = None"

definition unwrapRetryableRequestError :: "go_error \<Rightarrow> go_error" where
  "unwrapRetryableRequestError err = (case retryable_cause err of Some e \<Rightarrow> e | None \<Rightarrow> err)"

lemma retryable_cause_None: "retryable_cause e = None \<longleftrightarrow> \<not> isRetryableRequestError e"
  by (induction e) simp_all

text \<open>The error envelope of an answer. What does not decode stays empty.\<close>

record error_body =
  eb_Type :: string
  eb_Code :: string
  eb_Message :: string

definition lenient_str :: "string \<Rightarrow> jobject \<Rightarrow> string" where
  "lenient_str name fs =
     (case rev (List.map_filter dec_str (values_named name fs)) of [] \<Rightarrow> [] | s # ss \<Rightarrow> s)"

definition error_envelope :: "json option \<Rightarrow> error_body" where
  "error_envelope v =
     (let fs = concat (List.map_filter (\<lambda>e. as_obj (Some e)) (values_named ''error'' (obj_or_nil v)))
      in \<lparr>eb_Type = lenient_str ''type'' fs, eb_Code = lenient_str ''code'' fs, eb_Message = lenient_str ''message'' fs\<rparr>)"

definition request_path :: "string \<Rightarrow> string" where
  "request_path path = takeWhile (\<lambda>c. c \<noteq> CHR ''?'') path"

text \<open>The status and type that a user-facing answer of an endpoint must have; none elsewhere.\<close>

definition expected_error :: "string \<Rightarrow> string \<Rightarrow> string \<Rightarrow> int \<times> string" where
  "expected_error meth path code =
     (let p = request_path path
      in if meth = ''POST'' \<and> p = ''/internal/gateway/authenticate'' then
           (if code \<in> set [ErrCodeInvalidAPIKey, ErrCodeInactiveAPIKey] then (401, ErrTypeAuthentication)
            else if code = ErrCodeInactiveAccount then (403, ErrTypePermission) else (0, []))
         else if meth = ''GET'' \<and> has_prefix p ''/internal/gateway/models/'' then
           (if code = ErrCodeUnsupportedModel then (404, ErrTypeInvalidRequest) else (0, []))
         else if meth = ''GET'' \<and> has_prefix p ''/internal/gateway/routers/'' then
           (if code = ErrCodeNotFound then (404, ErrTypeInvalidRequest) else (0, []))
         else if meth = ''GET'' \<and> p = ''/internal/gateway/tinfoil-proofs'' then
           (if code = ErrCodeNotFound then (404, ErrTypeInvalidRequest) else (0, []))
         else if meth = ''POST'' \<and> p = ''/internal/metering/reservations'' then
           (if code = ErrCodeInsufficientBalance then (402, ErrTypePermission)
            else if code = ErrCodeDailyTokenLimit then (429, ErrTypeRateLimit) else (0, []))
         else (0, []))"

definition userFacingMeteringError :: "string \<Rightarrow> string \<Rightarrow> int \<Rightarrow> error_body \<Rightarrow> gateway_error option" where
  "userFacingMeteringError meth path status e =
     (let (wantStatus, wantType) = expected_error meth path (eb_Code e)
      in if status \<noteq> wantStatus \<or> eb_Type e \<noteq> wantType \<or> eb_Message e = [] then None
         else Some (new_error status (eb_Type e) (eb_Code e) (eb_Message e)))"

definition meteringOperation :: "string \<Rightarrow> string \<Rightarrow> string" where
  "meteringOperation meth path =
     (let p = request_path path; post = (meth = ''POST''); get = (meth = ''GET'')
      in if post \<and> has_suffix p ''/reservations'' then ''reserve''
         else if post \<and> contains p ''/reservations/'' \<and> has_suffix p ''/complete'' then ''complete''
         else if post \<and> contains p ''/reservations/'' \<and> has_suffix p ''/renew'' then ''renew''
         else if post \<and> has_suffix p ''/usage-failures'' then ''record_failure''
         else if post \<and> has_suffix p ''/authenticate'' then ''authenticate''
         else if get \<and> has_suffix p ''/models'' then ''list_models''
         else if get \<and> contains p ''/models/'' then ''get_model''
         else if get \<and> has_suffix p ''/routers'' then ''list_routers''
         else if get \<and> contains p ''/routers/'' then ''get_router''
         else if post \<and> has_suffix p ''/tinfoil-proofs'' then ''upsert_proof''
         else if get \<and> contains p ''/tinfoil-proofs'' then ''list_proofs''
         else trim_set (trim_prefix p ''/internal/'') ''/'')"

section \<open>One request\<close>

text \<open>An answer of the transport: its error, with the context's error by then, or a response.\<close>

datatype http_answer = TransportError string "go_error option" | Response int string

record meter_env =
  mt_baseURL :: string
  mt_token :: string
  mt_marshal :: "payload \<Rightarrow> go_error + string"
  mt_new_request :: "string \<Rightarrow> string \<Rightarrow> go_error option"
  mt_do :: "string \<Rightarrow> string \<Rightarrow> string option \<Rightarrow> string \<Rightarrow> nat \<Rightarrow> http_answer"
  mt_ended :: "nat \<Rightarrow> go_error option"   \<comment> \<open>the context ends in the wait before an attempt\<close>
  mt_parse :: "string \<Rightarrow> json option"    \<comment> \<open>of a text that is one value\<close>
  mt_first :: "string \<Rightarrow> json option"    \<comment> \<open>the first value of a text\<close>
  mt_parse_error :: "string \<Rightarrow> string"
  mt_time :: "string \<Rightarrow> time option"     \<comment> \<open>\<open>time.Time\<close> of its JSON string\<close>
  mt_raw :: "json \<Rightarrow> string"             \<comment> \<open>the text of a value, for \<open>json.RawMessage\<close>\<close>

definition NewClient :: "string \<Rightarrow> string \<Rightarrow> meter_env \<Rightarrow> meter_env" where
  "NewClient baseURL token env = env\<lparr>mt_baseURL := trim_right baseURL ''/'', mt_token := trim_space token\<rparr>"

text \<open>
  \<open>decodeJSONResponse\<close>: the body is exactly one value, decoded into a fresh target. The texts of
  the errors are the codec's.
\<close>

definition decodeJSONResponse :: "meter_env \<Rightarrow> (json \<Rightarrow> 'r option) \<Rightarrow> string \<Rightarrow> string + 'r" where
  "decodeJSONResponse env dec body =
     (case mt_parse env body of
        None \<Rightarrow> Inl (mt_parse_error env body)
      | Some v \<Rightarrow> (case dec v of None \<Rightarrow> Inl (mt_parse_error env body) | Some r \<Rightarrow> Inr r))"

text \<open>The result is \<open>None\<close> when no answer is read (\<open>out\<close> is nil); a string labels the metric.\<close>

definition requestJSONOnce :: "meter_env \<Rightarrow> string \<Rightarrow> string \<Rightarrow> payload option \<Rightarrow> (json \<Rightarrow> 'r option) option \<Rightarrow> nat
    \<Rightarrow> (go_error + 'r option) \<times> (string \<times> string) list" where
  "requestJSONOnce env meth path pl dec attempt =
     (case (case pl of None \<Rightarrow> Inr [] | Some p \<Rightarrow> mt_marshal env p) of
        Inl err \<Rightarrow> (Inl err, [])
      | Inr body \<Rightarrow>
     (case mt_new_request env meth (mt_baseURL env @ path) of
        Some err \<Rightarrow> (Inl err, [])
      | None \<Rightarrow>
     (let op = meteringOperation meth path;
          bearer = (if mt_token env \<noteq> [] then Some (''Bearer '' @ mt_token env) else None)
      in case mt_do env meth (mt_baseURL env @ path) bearer body attempt of
           TransportError txterr ended \<Rightarrow>
             ((case ended of
                 Some err \<Rightarrow> Inl err
               | None \<Rightarrow> Inl (RetryableErr (GwErr (meteringInternalError
                           [MStr ''cause'', MStr CauseMeteringUnreachable, MStr ''reason'', MStr txterr])))),
              [(op, ''transport_error'')])
         | Response status answer \<Rightarrow>
             (if status < 200 \<or> status \<ge> 300 then
                (let e = error_envelope (mt_first env answer)
                 in (if status \<ge> 500 then Inl (RetryableErr (GwErr (meteringResponseError status (eb_Code e))))
                     else case userFacingMeteringError meth path status e of
                            Some clientErr \<Rightarrow> Inl (GwErr clientErr)
                          | None \<Rightarrow> Inl (GwErr (meteringResponseError status (eb_Code e))),
                     [(op, itoa_int status)]))
              else case dec of
                     None \<Rightarrow> (Inr None, [(op, ''success'')])
                   | Some d \<Rightarrow>
                       (if status = 204 then
                          (Inl (RetryableErr (GwErr (meteringInternalError [MStr ''cause'', MStr CauseMeteringBadResponse,
                             MStr ''reason'', MStr ''missing response body'']))), [(op, ''protocol_error'')])
                        else case decodeJSONResponse env d answer of
                               Inl msg \<Rightarrow>
                                 (Inl (RetryableErr (GwErr (meteringInternalError [MStr ''cause'', MStr CauseMeteringBadResponse,
                                    MStr ''reason'', MStr (''invalid response body: '' @ msg)]))), [(op, ''protocol_error'')])
                             | Inr r \<Rightarrow> (Inr (Some r), [(op, ''success'')]))))))"

section \<open>Retries\<close>

definition retry_wait :: "nat \<Rightarrow> duration" where
  "retry_wait attempt = int attempt * 150 * millisecond"

text \<open>The loop, from an attempt on with the number of attempts left and the last error.\<close>

fun request_from :: "meter_env \<Rightarrow> string \<Rightarrow> string \<Rightarrow> payload option \<Rightarrow> (json \<Rightarrow> 'r option) option \<Rightarrow> nat \<Rightarrow> nat
    \<Rightarrow> go_error \<Rightarrow> (go_error + 'r option) \<times> (string \<times> string) list" where
  "request_from env meth path pl dec attempt 0 lastErr = (Inl (unwrapRetryableRequestError lastErr), [])"
| "request_from env meth path pl dec attempt (Suc left) lastErr =
     (case (if attempt > 0 then mt_ended env attempt else None) of
        Some err \<Rightarrow> (Inl err, [])
      | None \<Rightarrow>
          (case requestJSONOnce env meth path pl dec attempt of
             (Inr r, ms) \<Rightarrow> (Inr r, ms)
           | (Inl err, ms) \<Rightarrow>
               if \<not> isRetryableRequestError err then (Inl err, ms)
               else (let (r, ms') = request_from env meth path pl dec (attempt + 1) left err in (r, ms @ ms'))))"

text \<open>\<open>lastErr\<close> is nil before the first attempt; the value given here is never read.\<close>

definition requestJSON :: "meter_env \<Rightarrow> string \<Rightarrow> string \<Rightarrow> payload option \<Rightarrow> (json \<Rightarrow> 'r option) option \<Rightarrow> nat
    \<Rightarrow> (go_error + 'r option) \<times> (string \<times> string) list" where
  "requestJSON env meth path pl dec retries = request_from env meth path pl dec 0 (retries + 1) CtxCanceled"

definition postJSON :: "meter_env \<Rightarrow> string \<Rightarrow> payload \<Rightarrow> (json \<Rightarrow> 'r option) option \<Rightarrow> nat
    \<Rightarrow> (go_error + 'r option) \<times> (string \<times> string) list" where
  "postJSON env path pl dec retries = requestJSON env ''POST'' path (Some pl) dec retries"

definition getJSON :: "meter_env \<Rightarrow> string \<Rightarrow> (json \<Rightarrow> 'r option) option \<Rightarrow> nat
    \<Rightarrow> (go_error + 'r option) \<times> (string \<times> string) list" where
  "getJSON env path dec retries = requestJSON env ''GET'' path None dec retries"

end
