(* ===== verification/MeteringClient.thy ===== *)
theory MeteringClient
  imports Metering
begin

text \<open>
  The operations of the Metering client: holding and settling credit (\<open>client.go\<close>), the leases
  of holds (\<open>reservation_lease.go\<close>), and the catalog, keys and proofs it serves
  (\<open>runtime_client.go\<close>), with the checks of what Metering answers. An operation gives its result
  and the metrics of its requests. The decimal type of prices is a parameter.
\<close>

section \<open>Leases\<close>

text \<open>\<open>time.Duration(ms) * time.Millisecond\<close> wraps at 64 bits.\<close>

definition wrap64 :: "int \<Rightarrow> int" where
  "wrap64 i = (i + 2 ^ 63) mod 2 ^ 64 - 2 ^ 63"

record lease =
  le_expires :: time
  le_length :: duration

definition newLease :: "time \<Rightarrow> int \<Rightarrow> lease" where
  "newLease sent ms = \<lparr>le_expires = sent + wrap64 (ms * millisecond), le_length = wrap64 (ms * millisecond)\<rparr>"

text \<open>The client's state: the leases no one keeps yet, by reservation.\<close>

type_synonym reservations = "(string \<times> lease) list"

section \<open>Credit\<close>

definition requestedModelID :: "generate_request \<Rightarrow> string" where
  "requestedModelID req = (if req_RequestedModelID req \<noteq> [] then req_RequestedModelID req else req_PublicModelID req)"

definition reserve_payload :: "auth_context \<Rightarrow> string \<Rightarrow> generate_request \<Rightarrow> 'd public_model \<Rightarrow> string \<Rightarrow> reserve_request" where
  "reserve_payload auth endpoint req model rid =
     \<lparr>rq_GatewayRequestID = rid, rq_AccountID = acc_ID (auth_Account auth), rq_APIKeyID = key_ID (auth_APIKey auth),
      rq_Endpoint = endpoint, rq_PublicModelID = m_PublicModelID model, rq_RequestedPublicModelID = requestedModelID req,
      rq_RouterID = req_RouterID req, rq_RoutedPublicModelID = req_RoutedPublicModelID req,
      rq_MatchedCategory = req_MatchedCategory req, rq_RoutingScore = req_RoutingScore req,
      rq_RoutingCategoryScores = req_RoutingCategoryScores req, rq_DecisionReason = req_DecisionReason req,
      rq_FallbackUsed = req_FallbackUsed req, rq_Stream = req_Stream req, rq_MaxOutputTokens = req_MaxOutputTokens req,
      rq_EstimatedInputTokens = req_EstimatedInputTokens req\<rparr>"

definition dec_reserve_response :: "json \<Rightarrow> reserve_response option" where
  "dec_reserve_response v =
     (case body_fields (Some v) of
        None \<Rightarrow> None
      | Some fs \<Rightarrow>
          (case (value_field dec_str [] ''reservation_id'' fs, value_field dec_int 0 ''lease_ms'' fs) of
             (Some i, Some ms) \<Rightarrow> Some \<lparr>rr_ReservationID = i, rr_LeaseMS = ms\<rparr>
           | _ \<Rightarrow> None))"

text \<open>The answer of a request that reads one; \<open>out\<close> is set whenever the request succeeds.\<close>

definition answer_of :: "(go_error + 'r option) \<Rightarrow> go_error + 'r" where
  "answer_of r = (case r of Inl e \<Rightarrow> Inl e | Inr x \<Rightarrow> Inr (the x))"

definition Reserve :: "meter_env \<Rightarrow> time \<Rightarrow> auth_context \<Rightarrow> string \<Rightarrow> generate_request \<Rightarrow> 'd public_model \<Rightarrow> string
    \<Rightarrow> reservations \<Rightarrow> (go_error + string) \<times> (string \<times> string) list \<times> reservations" where
  "Reserve env sent auth endpoint req model rid st =
     (let (r, ms) = postJSON env ''/internal/metering/reservations'' (PReserve (reserve_payload auth endpoint req model rid))
                      (Some dec_reserve_response) 2
      in case answer_of r of
           Inl err \<Rightarrow> (Inl err, ms, st)
         | Inr res \<Rightarrow>
             if rr_ReservationID res = [] then
               (Inl (GwErr (meteringInternalError [MStr ''cause'', MStr CauseMeteringBadResponse,
                  MStr ''reason'', MStr ''missing reservation_id''])), ms, st)
             else (Inr (rr_ReservationID res), ms,
                   if rr_LeaseMS res > 0 then AList.update (rr_ReservationID res) (newLease sent (rr_LeaseMS res)) st else st))"

definition complete_payload :: "generate_result \<Rightarrow> 'd public_model \<Rightarrow> int \<Rightarrow> complete_request" where
  "complete_payload resp model latency =
     \<lparr>cr_ProviderName = (if res_ProviderName resp = [] then pc_ProviderName (m_ProviderConfig model) else res_ProviderName resp),
      cr_ProviderModelID = (if res_ProviderModelID resp = [] then m_ProviderModelID model else res_ProviderModelID resp),
      cr_ProviderRequestID = res_ID resp, cr_FinishReason = res_FinishReason resp, cr_Usage = res_Usage resp,
      cr_LatencyMs = latency\<rparr>"

definition dec_complete_response :: "json \<Rightarrow> string option" where
  "dec_complete_response v =
     (case body_fields (Some v) of None \<Rightarrow> None | Some fs \<Rightarrow> value_field dec_str [] ''usage_event_id'' fs)"

definition RecordSuccess :: "meter_env \<Rightarrow> string \<Rightarrow> generate_result \<Rightarrow> 'd public_model \<Rightarrow> int
    \<Rightarrow> (go_error + string) \<times> (string \<times> string) list" where
  "RecordSuccess env reservation resp model latency =
     (let (r, ms) = postJSON env (''/internal/metering/reservations/'' @ reservation @ ''/complete'')
                      (PComplete (complete_payload resp model latency)) (Some dec_complete_response) 2
      in (answer_of r, ms))"

definition reservationIDValue :: "string option \<Rightarrow> string" where
  "reservationIDValue r = (case r of None \<Rightarrow> [] | Some s \<Rightarrow> s)"

definition failure_payload :: "string option \<Rightarrow> auth_context option \<Rightarrow> string \<Rightarrow> generate_request option
    \<Rightarrow> 'd public_model option \<Rightarrow> go_error \<Rightarrow> usage option \<Rightarrow> int \<Rightarrow> failure_request" where
  "failure_payload reservation auth endpoint req model err usage latency =
     (let p0 = \<lparr>fr_ReservationID = reservationIDValue reservation, fr_GatewayRequestID = [], fr_AccountID = [],
               fr_APIKeyID = [], fr_Endpoint = endpoint, fr_PublicModelID = [], fr_RequestedPublicModelID = [],
               fr_RouterID = None, fr_RoutedPublicModelID = None, fr_MatchedCategory = None, fr_RoutingScore = None,
               fr_RoutingCategoryScores = [], fr_DecisionReason = None, fr_FallbackUsed = None, fr_ProviderName = [],
               fr_ProviderModelID = [], fr_Stream = False, fr_ErrorType = ErrTypeInternal,
               fr_ErrorCode = ErrCodeInternalError, fr_PartialUsage = usage, fr_LatencyMs = latency\<rparr>;
          p1 = (case auth of
                  None \<Rightarrow> p0
                | Some a \<Rightarrow> p0\<lparr>fr_AccountID := acc_ID (auth_Account a), fr_APIKeyID := key_ID (auth_APIKey a)\<rparr>);
          p2 = (case req of
                  None \<Rightarrow> p1
                | Some q \<Rightarrow>
                    p1\<lparr>fr_PublicModelID := req_PublicModelID q, fr_RequestedPublicModelID := requestedModelID q,
                       fr_RouterID := req_RouterID q, fr_RoutedPublicModelID := req_RoutedPublicModelID q,
                       fr_MatchedCategory := req_MatchedCategory q, fr_RoutingScore := req_RoutingScore q,
                       fr_RoutingCategoryScores := req_RoutingCategoryScores q, fr_DecisionReason := req_DecisionReason q,
                       fr_FallbackUsed := req_FallbackUsed q, fr_Stream := req_Stream q\<rparr>);
          p3 = (case model of
                  None \<Rightarrow> p2
                | Some m \<Rightarrow>
                    p2\<lparr>fr_PublicModelID := m_PublicModelID m, fr_ProviderName := pc_ProviderName (m_ProviderConfig m),
                       fr_ProviderModelID := m_ProviderModelID m\<rparr>)
      in case as_gateway err of
           None \<Rightarrow> p3
         | Some e \<Rightarrow> p3\<lparr>fr_ErrorType := ge_Type e, fr_ErrorCode := ge_Code e\<rparr>)"

definition RecordFailure :: "meter_env \<Rightarrow> string option \<Rightarrow> auth_context option \<Rightarrow> string \<Rightarrow> generate_request option
    \<Rightarrow> 'd public_model option \<Rightarrow> go_error \<Rightarrow> usage option \<Rightarrow> int \<Rightarrow> (go_error + unit option) \<times> (string \<times> string) list" where
  "RecordFailure env reservation auth endpoint req model err usage latency =
     postJSON env ''/internal/metering/usage-failures''
       (PFailure (failure_payload reservation auth endpoint req model err usage latency)) None
       (if reservation \<noteq> None then 2 else 0)"

section \<open>Answers of the runtime API\<close>

definition runtimeContractError :: "string \<Rightarrow> string \<Rightarrow> gateway_error" where
  "runtimeContractError contract reason =
     meteringInternalError [MStr ''cause'', MStr CauseMeteringBadResponse, MStr ''contract'', MStr contract,
       MStr ''reason'', MStr reason]"

record runtime_account =
  ra_ID :: string
  ra_ExternalCustomerID :: "string option"
  ra_Status :: string
  ra_IsGuest :: bool

record runtime_api_key =
  rk_ID :: string
  rk_AccountID :: string
  rk_Name :: "string option"
  rk_KeyPrefix :: string
  rk_Active :: bool
  rk_PIIMode :: string
  rk_LastUsedAt :: "time option"

record authenticate_response =
  ar_Account :: runtime_account
  ar_APIKey :: runtime_api_key

record runtime_target =
  rt_ProviderModelID :: string
  rt_UpstreamModelName :: string
  rt_ServiceTier :: "string option"
  rt_ProviderConfig :: provider_config

record runtime_model =
  rm_ID :: string
  rm_PublicModelID :: string
  rm_DisplayName :: string
  rm_Description :: "string option"
  rm_ProviderModelID :: string
  rm_UpstreamModelName :: string
  rm_ServiceTier :: "string option"
  rm_ProviderConfig :: provider_config
  rm_Fallback :: "runtime_target option"
  rm_SupportsChatCompletions :: "bool option"
  rm_SupportsChatCompletionsStream :: "bool option"
  rm_SupportsTools :: "bool option"
  rm_SupportsParallelToolCalls :: "bool option"
  rm_SupportsStructuredOutput :: "bool option"
  rm_SupportsReasoning :: "bool option"
  rm_Capabilities :: "json option"
  rm_ProofMode :: string
  rm_MaxContextWindow :: int
  rm_MaxOutputTokens :: int
  rm_InputPrice :: "int option"
  rm_OutputPrice :: "int option"
  rm_CacheReadPrice :: "int option"
  rm_CacheWritePrice :: "int option"
  rm_Currency :: string
  rm_Active :: bool
  rm_GuestAllowed :: bool

record runtime_router =
  ro_ID :: string
  ro_RouterID :: string
  ro_DisplayName :: string
  ro_Description :: "string option"
  ro_FallbackPublicModelID :: string
  ro_StrategyType :: string
  ro_StrategyConfig :: "json option"
  ro_Active :: bool
  ro_CreatedAt :: time
  ro_UpdatedAt :: time

definition blank :: "string \<Rightarrow> bool" where "blank s = (trim_space s = [])"

text \<open>The first check that fails gives the error: a \<open>switch\<close> without a tag.\<close>

definition first_failure :: "(bool \<times> 'e) list \<Rightarrow> 'e option" where
  "first_failure checks = map_option snd (find fst checks)"

lemma first_failure_None: "first_failure checks = None \<longleftrightarrow> (\<forall>c \<in> set checks. \<not> fst c)"
  by (auto simp: first_failure_def find_None_iff)

definition validateAuthenticateResponse :: "authenticate_response \<Rightarrow> gateway_error option" where
  "validateAuthenticateResponse r =
     (let a = ar_Account r; k = ar_APIKey r; e = runtimeContractError ''authentication''
      in first_failure
           [(blank (ra_ID a), e ''account.id is required''),
            (blank (rk_ID k), e ''api_key.id is required''),
            (blank (rk_AccountID k), e ''api_key.account_id is required''),
            (rk_AccountID k \<noteq> ra_ID a, e ''api key does not belong to returned account''),
            (ra_Status a \<noteq> AccountStatusActive, e ''successful response contains an inactive account''),
            (\<not> rk_Active k, e ''successful response contains an inactive API key''),
            (rk_PIIMode k = [], e ''api_key.pii_mode is required''),
            (\<not> snd (NormalizeAPIKeyPIIMode (rk_PIIMode k)), e ''api_key.pii_mode is invalid'')])"

definition validateRuntimeProviderTarget :: "runtime_target \<Rightarrow> gateway_error option" where
  "validateRuntimeProviderTarget t =
     (let pc = rt_ProviderConfig t; e = runtimeContractError ''public model fallback''
      in first_failure
           [(blank (rt_ProviderModelID t), e ''provider_model_id is required''),
            (blank (rt_UpstreamModelName t), e ''upstream_model_name is required''),
            (blank (pc_ID pc), e ''provider_config.id is required''),
            (blank (pc_ProviderName pc), e ''provider_config.provider_name is required''),
            (blank (pc_BaseURL pc), e ''provider_config.base_url is required''),
            (blank (pc_APIKeySecretRef pc), e ''provider_config.api_key_secret_ref is required''),
            (\<not> pc_Active pc, e ''provider config is inactive'')])"

definition negative :: "int option \<Rightarrow> bool" where
  "negative p = (case p of Some n \<Rightarrow> n < 0 | None \<Rightarrow> False)"

definition validateRuntimePublicModel :: "runtime_model \<Rightarrow> string \<Rightarrow> gateway_error option" where
  "validateRuntimePublicModel m expected =
     (let pc = rm_ProviderConfig m; e = runtimeContractError ''public model''
      in case first_failure
           [(blank (rm_ID m), e ''id is required''),
            (blank (rm_PublicModelID m), e ''public_model_id is required''),
            (expected \<noteq> [] \<and> rm_PublicModelID m \<noteq> expected,
             WithMeta (e ''returned public_model_id does not match request'')
               [MStr ''expected_public_model_id'', MStr expected, MStr ''actual_public_model_id'', MStr (rm_PublicModelID m)]),
            (blank (rm_DisplayName m), e ''display_name is required''),
            (blank (rm_ProviderModelID m), e ''provider_model_id is required''),
            (blank (rm_UpstreamModelName m), e ''upstream_model_name is required''),
            (blank (pc_ID pc), e ''provider_config.id is required''),
            (blank (pc_ProviderName pc), e ''provider_config.provider_name is required''),
            (blank (pc_BaseURL pc), e ''provider_config.base_url is required''),
            (blank (pc_APIKeySecretRef pc), e ''provider_config.api_key_secret_ref is required''),
            (\<not> rm_Active m, e ''inactive model returned by active catalog query''),
            (\<not> pc_Active pc, e ''inactive provider config returned by active catalog query''),
            (rm_SupportsChatCompletions m = None, e ''supports_chat_completions is required''),
            (rm_SupportsChatCompletionsStream m = None, e ''supports_chat_completions_stream is required''),
            (rm_SupportsTools m = None, e ''supports_tools is required''),
            (rm_SupportsParallelToolCalls m = None, e ''supports_parallel_tool_calls is required''),
            (rm_SupportsStructuredOutput m = None, e ''supports_structured_output is required''),
            (rm_SupportsReasoning m = None, e ''supports_reasoning is required''),
            (rm_ProofMode m \<noteq> ProofModeNone \<and> rm_ProofMode m \<noteq> ProofModeTinfoilAttestedTransport, e ''proof_mode is invalid''),
            (rm_MaxContextWindow m \<le> 0, e ''max_context_window must be positive''),
            (rm_MaxOutputTokens m \<le> 0, e ''max_output_tokens must be positive''),
            (rm_InputPrice m = None, e ''input price is required''),
            (negative (rm_InputPrice m), e ''input price must not be negative''),
            (rm_OutputPrice m = None, e ''output price is required''),
            (negative (rm_OutputPrice m), e ''output price must not be negative''),
            (negative (rm_CacheReadPrice m), e ''cache read price must not be negative''),
            (negative (rm_CacheWritePrice m), e ''cache write price must not be negative''),
            (blank (rm_Currency m), e ''currency is required'')] of
           Some err \<Rightarrow> Some err
         | None \<Rightarrow>
             (case rm_Fallback m of
                None \<Rightarrow> None
              | Some t \<Rightarrow>
                  (case validateRuntimeProviderTarget t of
                     Some err \<Rightarrow> Some err
                   | None \<Rightarrow>
                       if rt_ProviderModelID t = rm_ProviderModelID m \<and> pc_ID (rt_ProviderConfig t) = pc_ID pc
                       then Some (e ''fallback must differ from primary target'') else None)))"

text \<open>\<open>jsonObject\<close>: present and an object (a null decodes to a nil map).\<close>

definition jsonObject :: "json option \<Rightarrow> bool" where
  "jsonObject v = (as_obj v \<noteq> None)"

definition validateRuntimeRouter :: "runtime_router \<Rightarrow> string \<Rightarrow> gateway_error option" where
  "validateRuntimeRouter r expected =
     (let e = runtimeContractError ''router''
      in first_failure
           [(blank (ro_ID r), e ''id is required''),
            (blank (ro_RouterID r), e ''router_id is required''),
            (expected \<noteq> [] \<and> ro_RouterID r \<noteq> expected,
             WithMeta (e ''returned router_id does not match request'')
               [MStr ''expected_router_id'', MStr expected, MStr ''actual_router_id'', MStr (ro_RouterID r)]),
            (blank (ro_DisplayName r), e ''display_name is required''),
            (blank (ro_FallbackPublicModelID r), e ''fallback_public_model_id is required''),
            (blank (ro_StrategyType r), e ''strategy_type is required''),
            (\<not> jsonObject (ro_StrategyConfig r), e ''strategy_config must be a JSON object''),
            (\<not> ro_Active r, e ''inactive router returned by active catalog query''),
            (ro_CreatedAt r = zero_time, e ''created_at is required''),
            (ro_UpdatedAt r = zero_time, e ''updated_at is required'')])"

definition validateRuntimeProof :: "tinfoil_proof \<Rightarrow> string \<Rightarrow> string \<Rightarrow> gateway_error option" where
  "validateRuntimeProof p account response =
     (let e = runtimeContractError ''Tinfoil proof''
      in first_failure
           [(blank (proof_ID p), e ''id is required''),
            (blank (proof_AccountID p), e ''account_id is required''),
            (proof_AccountID p \<noteq> account, e ''returned account_id does not match request''),
            (blank (proof_APIKeyID p), e ''api_key_id is required''),
            (blank (proof_Provider p), e ''provider is required''),
            (blank (proof_PublicModelID p), e ''public_model_id is required''),
            (blank (proof_UpstreamModelID p), e ''upstream_model_id is required''),
            (blank (proof_ProviderResponseID p), e ''provider_response_id is required''),
            (proof_ProviderResponseID p \<noteq> response, e ''returned provider_response_id does not match request''),
            (blank (proof_Status p), e ''status is required''),
            (proof_CreatedAt p = zero_time, e ''created_at is required'')])"

end
