(* ===== verification/MeteringRuntime.thy ===== *)
theory MeteringRuntime
  imports MeteringClient
begin

text \<open>
  The runtime API of Metering (\<open>adapters/metering/runtime_client.go\<close>): the decoders of its
  answers, their translation to the domain, and the operations on keys, models, routers and
  proofs. SHA-256 and the price type are parameters.
\<close>

section \<open>Escapes\<close>

definition hex_digit :: "string \<Rightarrow> nat \<Rightarrow> char" where
  "hex_digit digits n = (if n < length digits then digits ! n else CHR ''0'')"

abbreviation lower_hex :: string where "lower_hex \<equiv> ''0123456789abcdef''"
abbreviation upper_hex :: string where "upper_hex \<equiv> ''0123456789ABCDEF''"

definition hex_encode :: "string \<Rightarrow> string" where
  "hex_encode s = concat (map (\<lambda>c. [hex_digit lower_hex (byte c div 16), hex_digit lower_hex (byte c mod 16)]) s)"

definition percent :: "char \<Rightarrow> string" where
  "percent c = [CHR ''%'', hex_digit upper_hex (byte c div 16), hex_digit upper_hex (byte c mod 16)]"

definition unreserved :: "char \<Rightarrow> bool" where
  "unreserved c = (is_letter c \<or> is_digit c \<or> c \<in> set ''-_.~'')"

definition PathEscape :: "string \<Rightarrow> string" where
  "PathEscape s = concat (map (\<lambda>c. if unreserved c \<or> c \<in> set ''$&+:=@'' then [c] else percent c) s)"

definition QueryEscape :: "string \<Rightarrow> string" where
  "QueryEscape s = concat (map (\<lambda>c. if unreserved c then [c] else if c = CHR '' '' then ''+'' else percent c) s)"

section \<open>Decoders\<close>

definition dec_time :: "meter_env \<Rightarrow> json \<Rightarrow> time option" where
  "dec_time env v = (case v of JStr s \<Rightarrow> mt_time env s | _ \<Rightarrow> None)"

definition raw_text :: "meter_env \<Rightarrow> string \<Rightarrow> jobject \<Rightarrow> string" where
  "raw_text env name fs = (case raw_field name fs of Some v \<Rightarrow> mt_raw env v | None \<Rightarrow> [])"

definition zero_config :: provider_config where
  "zero_config = \<lparr>pc_ID = [], pc_ProviderName = [], pc_BaseURL = [], pc_APIKeySecretRef = [], pc_OrganizationRef = None,
     pc_Active = False\<rparr>"

definition dec_config :: "jobject \<Rightarrow> provider_config option" where
  "dec_config fs = read_fields
     [into (value_field dec_str [] ''id'' fs) pc_ID_update,
      into (value_field dec_str [] ''provider_name'' fs) pc_ProviderName_update,
      into (value_field dec_str [] ''base_url'' fs) pc_BaseURL_update,
      into (value_field dec_str [] ''api_key_secret_ref'' fs) pc_APIKeySecretRef_update,
      into (pointer_field dec_str ''organization_ref'' fs) pc_OrganizationRef_update,
      into (value_field dec_bool False ''active'' fs) pc_Active_update] zero_config"

definition dec_config_in :: "jobject \<Rightarrow> provider_config option" where
  "dec_config_in fs = Option.bind (nested_fields ''provider_config'' fs) dec_config"

definition dec_target :: "jobject \<Rightarrow> runtime_target option" where
  "dec_target fs = read_fields
     [into (value_field dec_str [] ''provider_model_id'' fs) rt_ProviderModelID_update,
      into (value_field dec_str [] ''upstream_model_name'' fs) rt_UpstreamModelName_update,
      into (pointer_field dec_str ''service_tier'' fs) rt_ServiceTier_update,
      into (dec_config_in fs) rt_ProviderConfig_update]
     \<lparr>rt_ProviderModelID = [], rt_UpstreamModelName = [], rt_ServiceTier = None, rt_ProviderConfig = zero_config\<rparr>"

definition zero_model :: runtime_model where
  "zero_model = \<lparr>rm_ID = [], rm_PublicModelID = [], rm_DisplayName = [], rm_Description = None, rm_ProviderModelID = [],
     rm_UpstreamModelName = [], rm_ServiceTier = None, rm_ProviderConfig = zero_config, rm_Fallback = None,
     rm_SupportsChatCompletions = None, rm_SupportsChatCompletionsStream = None, rm_SupportsTools = None,
     rm_SupportsParallelToolCalls = None, rm_SupportsStructuredOutput = None, rm_SupportsReasoning = None,
     rm_Capabilities = None, rm_ProofMode = [], rm_MaxContextWindow = 0, rm_MaxOutputTokens = 0, rm_InputPrice = None,
     rm_OutputPrice = None, rm_CacheReadPrice = None, rm_CacheWritePrice = None, rm_Currency = [], rm_Active = False,
     rm_GuestAllowed = False\<rparr>"

definition dec_model :: "jobject \<Rightarrow> runtime_model option" where
  "dec_model fs = read_fields
     [into (value_field dec_str [] ''id'' fs) rm_ID_update,
      into (value_field dec_str [] ''public_model_id'' fs) rm_PublicModelID_update,
      into (value_field dec_str [] ''display_name'' fs) rm_DisplayName_update,
      into (pointer_field dec_str ''description'' fs) rm_Description_update,
      into (value_field dec_str [] ''provider_model_id'' fs) rm_ProviderModelID_update,
      into (value_field dec_str [] ''upstream_model_name'' fs) rm_UpstreamModelName_update,
      into (pointer_field dec_str ''service_tier'' fs) rm_ServiceTier_update,
      into (dec_config_in fs) rm_ProviderConfig_update,
      into (pointer_field (dec_struct dec_target) ''fallback'' fs) rm_Fallback_update,
      into (pointer_field dec_bool ''supports_chat_completions'' fs) rm_SupportsChatCompletions_update,
      into (pointer_field dec_bool ''supports_chat_completions_stream'' fs) rm_SupportsChatCompletionsStream_update,
      into (pointer_field dec_bool ''supports_tools'' fs) rm_SupportsTools_update,
      into (pointer_field dec_bool ''supports_parallel_tool_calls'' fs) rm_SupportsParallelToolCalls_update,
      into (pointer_field dec_bool ''supports_structured_output'' fs) rm_SupportsStructuredOutput_update,
      into (pointer_field dec_bool ''supports_reasoning'' fs) rm_SupportsReasoning_update,
      into (Some (raw_field ''capabilities'' fs)) rm_Capabilities_update,
      into (value_field dec_str [] ''proof_mode'' fs) rm_ProofMode_update,
      into (value_field dec_int 0 ''max_context_window'' fs) rm_MaxContextWindow_update,
      into (value_field dec_int 0 ''max_output_tokens'' fs) rm_MaxOutputTokens_update,
      into (pointer_field dec_int ''input_price_per_1m_tokens_microcents'' fs) rm_InputPrice_update,
      into (pointer_field dec_int ''output_price_per_1m_tokens_microcents'' fs) rm_OutputPrice_update,
      into (pointer_field dec_int ''cache_read_price_per_1m_tokens_microcents'' fs) rm_CacheReadPrice_update,
      into (pointer_field dec_int ''cache_write_price_per_1m_tokens_microcents'' fs) rm_CacheWritePrice_update,
      into (value_field dec_str [] ''currency'' fs) rm_Currency_update,
      into (value_field dec_bool False ''active'' fs) rm_Active_update,
      into (value_field dec_bool False ''guest_allowed'' fs) rm_GuestAllowed_update] zero_model"

definition zero_router :: runtime_router where
  "zero_router = \<lparr>ro_ID = [], ro_RouterID = [], ro_DisplayName = [], ro_Description = None, ro_FallbackPublicModelID = [],
     ro_StrategyType = [], ro_StrategyConfig = None, ro_Active = False, ro_CreatedAt = zero_time, ro_UpdatedAt = zero_time\<rparr>"

definition dec_router :: "meter_env \<Rightarrow> jobject \<Rightarrow> runtime_router option" where
  "dec_router env fs = read_fields
     [into (value_field dec_str [] ''id'' fs) ro_ID_update,
      into (value_field dec_str [] ''router_id'' fs) ro_RouterID_update,
      into (value_field dec_str [] ''display_name'' fs) ro_DisplayName_update,
      into (pointer_field dec_str ''description'' fs) ro_Description_update,
      into (value_field dec_str [] ''fallback_public_model_id'' fs) ro_FallbackPublicModelID_update,
      into (value_field dec_str [] ''strategy_type'' fs) ro_StrategyType_update,
      into (Some (raw_field ''strategy_config'' fs)) ro_StrategyConfig_update,
      into (value_field dec_bool False ''active'' fs) ro_Active_update,
      into (value_field (dec_time env) zero_time ''created_at'' fs) ro_CreatedAt_update,
      into (value_field (dec_time env) zero_time ''updated_at'' fs) ro_UpdatedAt_update] zero_router"

definition zero_proof :: tinfoil_proof where
  "zero_proof = \<lparr>proof_ID = [], proof_AccountID = [], proof_APIKeyID = [], proof_Provider = [], proof_PublicModelID = [],
     proof_UpstreamModelID = [], proof_ProviderResponseID = [], proof_EnclaveHost = None, proof_ConfigRepo = None,
     proof_Digest = None, proof_CodeFingerprint = None, proof_EnclaveFingerprint = None, proof_TLSPublicKey = None,
     proof_HPKEPublicKey = None, proof_TransportMode = None, proof_SDKVersion = None, proof_Status = [],
     proof_FailureReason = None, proof_VerificationEvidenceJSON = [], proof_CreatedAt = zero_time, proof_VerifiedAt = None\<rparr>"

definition dec_proof :: "meter_env \<Rightarrow> jobject \<Rightarrow> tinfoil_proof option" where
  "dec_proof env fs = read_fields
     [into (value_field dec_str [] ''id'' fs) proof_ID_update,
      into (value_field dec_str [] ''account_id'' fs) proof_AccountID_update,
      into (value_field dec_str [] ''api_key_id'' fs) proof_APIKeyID_update,
      into (value_field dec_str [] ''provider'' fs) proof_Provider_update,
      into (value_field dec_str [] ''public_model_id'' fs) proof_PublicModelID_update,
      into (value_field dec_str [] ''upstream_model_id'' fs) proof_UpstreamModelID_update,
      into (value_field dec_str [] ''provider_response_id'' fs) proof_ProviderResponseID_update,
      into (pointer_field dec_str ''enclave_host'' fs) proof_EnclaveHost_update,
      into (pointer_field dec_str ''config_repo'' fs) proof_ConfigRepo_update,
      into (pointer_field dec_str ''digest'' fs) proof_Digest_update,
      into (pointer_field dec_str ''code_fingerprint'' fs) proof_CodeFingerprint_update,
      into (pointer_field dec_str ''enclave_fingerprint'' fs) proof_EnclaveFingerprint_update,
      into (pointer_field dec_str ''tls_public_key'' fs) proof_TLSPublicKey_update,
      into (pointer_field dec_str ''hpke_public_key'' fs) proof_HPKEPublicKey_update,
      into (pointer_field dec_str ''transport_mode'' fs) proof_TransportMode_update,
      into (pointer_field dec_str ''sdk_version'' fs) proof_SDKVersion_update,
      into (value_field dec_str [] ''status'' fs) proof_Status_update,
      into (pointer_field dec_str ''failure_reason'' fs) proof_FailureReason_update,
      into (Some (raw_text env ''verification_evidence_json'' fs)) proof_VerificationEvidenceJSON_update,
      into (value_field (dec_time env) zero_time ''created_at'' fs) proof_CreatedAt_update,
      into (pointer_field (dec_time env) ''verified_at'' fs) proof_VerifiedAt_update] zero_proof"

definition dec_account :: "jobject \<Rightarrow> runtime_account option" where
  "dec_account fs = read_fields
     [into (value_field dec_str [] ''id'' fs) ra_ID_update,
      into (pointer_field dec_str ''external_customer_id'' fs) ra_ExternalCustomerID_update,
      into (value_field dec_str [] ''status'' fs) ra_Status_update,
      into (value_field dec_bool False ''is_guest'' fs) ra_IsGuest_update]
     \<lparr>ra_ID = [], ra_ExternalCustomerID = None, ra_Status = [], ra_IsGuest = False\<rparr>"

definition dec_api_key :: "meter_env \<Rightarrow> jobject \<Rightarrow> runtime_api_key option" where
  "dec_api_key env fs = read_fields
     [into (value_field dec_str [] ''id'' fs) rk_ID_update,
      into (value_field dec_str [] ''account_id'' fs) rk_AccountID_update,
      into (pointer_field dec_str ''name'' fs) rk_Name_update,
      into (value_field dec_str [] ''key_prefix'' fs) rk_KeyPrefix_update,
      into (value_field dec_bool False ''active'' fs) rk_Active_update,
      into (value_field dec_str [] ''pii_mode'' fs) rk_PIIMode_update,
      into (pointer_field (dec_time env) ''last_used_at'' fs) rk_LastUsedAt_update]
     \<lparr>rk_ID = [], rk_AccountID = [], rk_Name = None, rk_KeyPrefix = [], rk_Active = False, rk_PIIMode = [], rk_LastUsedAt = None\<rparr>"

definition dec_authenticate :: "meter_env \<Rightarrow> jobject \<Rightarrow> authenticate_response option" where
  "dec_authenticate env fs =
     (case (Option.bind (nested_fields ''account'' fs) dec_account,
            Option.bind (nested_fields ''api_key'' fs) (dec_api_key env)) of
        (Some a, Some k) \<Rightarrow> Some \<lparr>ar_Account = a, ar_APIKey = k\<rparr>
      | _ \<Rightarrow> None)"

text \<open>A whole answer: an object into a struct; an array into a slice, nil for a null.\<close>

definition whole :: "(jobject \<Rightarrow> 'r option) \<Rightarrow> json \<Rightarrow> 'r option" where
  "whole d v = Option.bind (body_fields (Some v)) d"

definition whole_list :: "(jobject \<Rightarrow> 'r option) \<Rightarrow> 'r \<Rightarrow> json \<Rightarrow> 'r list option option" where
  "whole_list d zero v =
     (case v of
        JNull \<Rightarrow> Some None
      | JArr vs \<Rightarrow> map_option Some (dec_items (dec_struct d) zero vs)
      | _ \<Rightarrow> None)"

section \<open>To the domain\<close>

text \<open>The record of the flags that older Metering sends, printed with its keys in order.\<close>

definition legacy_capabilities :: "bool \<Rightarrow> bool \<Rightarrow> bool \<Rightarrow> bool \<Rightarrow> bool \<Rightarrow> string" where
  "legacy_capabilities streaming tools parallel structured reasoning =
     (let item = (\<lambda>k b. [CHR 0x22] @ k @ [CHR 0x22] @ '':'' @ (if b then ''true'' else ''false''))
      in ''{'' @ item ''parallel_tool_calls'' parallel @ '','' @ item ''reasoning'' reasoning @ '',''
         @ item ''streaming'' streaming @ '','' @ item ''structured_output'' structured @ '',''
         @ item ''tool_call'' tools @ ''}'')"

text \<open>\<open>None\<close> stands for the nil pointer that Go would dereference.\<close>

definition capabilities :: "meter_env \<Rightarrow> runtime_model \<Rightarrow> string option" where
  "capabilities env m =
     (if jsonObject (rm_Capabilities m) then Some (mt_raw env (the (rm_Capabilities m)))
      else case (rm_SupportsChatCompletionsStream m, rm_SupportsTools m, rm_SupportsParallelToolCalls m,
                 rm_SupportsStructuredOutput m, rm_SupportsReasoning m) of
             (Some st, Some tc, Some pt, Some so, Some re) \<Rightarrow> Some (legacy_capabilities st tc pt so re)
           | _ \<Rightarrow> None)"

definition target_to_domain :: "runtime_target \<Rightarrow> provider_target" where
  "target_to_domain t =
     \<lparr>target_ProviderModelID = rt_ProviderModelID t, target_UpstreamModelName = rt_UpstreamModelName t,
      target_ServiceTier = rt_ServiceTier t, target_ProviderConfig = rt_ProviderConfig t\<rparr>"

definition model_to_domain :: "meter_env \<Rightarrow> (int \<Rightarrow> 'd) \<Rightarrow> runtime_model \<Rightarrow> 'd public_model option" where
  "model_to_domain env price m =
     (case (rm_SupportsChatCompletions m, capabilities env m, rm_InputPrice m, rm_OutputPrice m) of
        (Some chat, Some caps, Some input, Some output) \<Rightarrow>
          Some \<lparr>m_ID = rm_ID m, m_PublicModelID = rm_PublicModelID m, m_DisplayName = rm_DisplayName m,
                m_Description = rm_Description m, m_ProviderModelID = rm_ProviderModelID m,
                m_UpstreamModelName = rm_UpstreamModelName m, m_ServiceTier = rm_ServiceTier m,
                m_ProviderConfig = rm_ProviderConfig m, m_Fallback = map_option target_to_domain (rm_Fallback m),
                m_SupportsChatCompletions = chat, m_Capabilities = caps,
                m_ProofMode = (if rm_ProofMode m = [] then ProofModeNone else rm_ProofMode m),
                m_MaxContextWindow = rm_MaxContextWindow m, m_MaxOutputTokens = rm_MaxOutputTokens m,
                m_InputPricePerMillion = price input, m_OutputPricePerMillion = price output,
                m_CacheReadPricePerMillion = map_option price (rm_CacheReadPrice m),
                m_CacheWritePricePerMillion = map_option price (rm_CacheWritePrice m), m_Currency = rm_Currency m,
                m_Active = rm_Active m, m_GuestAllowed = rm_GuestAllowed m\<rparr>
      | _ \<Rightarrow> None)"

definition router_to_domain :: "meter_env \<Rightarrow> runtime_router \<Rightarrow> router_entry" where
  "router_to_domain env r =
     \<lparr>router_ID = ro_ID r, router_RouterID = ro_RouterID r, router_DisplayName = ro_DisplayName r,
      router_Description = ro_Description r, router_FallbackPublicModelID = ro_FallbackPublicModelID r,
      router_StrategyType = ro_StrategyType r,
      router_StrategyConfig = (case ro_StrategyConfig r of Some v \<Rightarrow> mt_raw env v | None \<Rightarrow> []),
      router_Active = ro_Active r, router_CreatedAt = ro_CreatedAt r, router_UpdatedAt = ro_UpdatedAt r\<rparr>"

section \<open>Operations\<close>

definition auth_to_domain :: "authenticate_response \<Rightarrow> auth_context" where
  "auth_to_domain r =
     (let a = ar_Account r; k = ar_APIKey r
      in \<lparr>auth_Account = \<lparr>acc_ID = ra_ID a, acc_AuthgearSubjectID = None, acc_ExternalCustomerID = ra_ExternalCustomerID a,
            acc_Email = None, acc_Name = None, acc_Status = ra_Status a, acc_Plan = [],
            acc_SubscriptionCancelAtPeriodEnd = False, acc_SubscriptionCancelAt = None, acc_CreatedAt = zero_time,
            acc_UpdatedAt = zero_time, acc_LastUsedAt = None, acc_IsGuest = ra_IsGuest a\<rparr>,
          auth_APIKey = \<lparr>key_ID = rk_ID k, key_AccountID = rk_AccountID k, key_Name = rk_Name k,
            key_KeyPrefix = rk_KeyPrefix k, key_KeyHash = [], key_Active = rk_Active k, key_PIIMode = rk_PIIMode k,
            key_LastUsedAt = rk_LastUsedAt k, key_ExpiresAt = None, key_RevokedAt = None, key_CreatedAt = zero_time\<rparr>\<rparr>)"

definition AuthenticateAPIKey :: "meter_env \<Rightarrow> (string \<Rightarrow> string) \<Rightarrow> string \<Rightarrow> go_error + auth_context" where
  "AuthenticateAPIKey env sha256 rawKey =
     (if rawKey = [] then Inl (GwErr (ErrInvalidAPIKey ''missing API key''))
      else case answer_of (fst (postJSON env ''/internal/gateway/authenticate'' (PAuthenticate (hex_encode (sha256 rawKey)))
                                  (Some (whole (dec_authenticate env))) 2)) of
             Inl err \<Rightarrow> Inl err
           | Inr r \<Rightarrow>
               (case validateAuthenticateResponse r of Some err \<Rightarrow> Inl (GwErr err) | None \<Rightarrow> Inr (auth_to_domain r)))"

text \<open>The loops of the two lists: each item is checked and must have an ID of its own.\<close>

fun check_models :: "meter_env \<Rightarrow> (int \<Rightarrow> 'd) \<Rightarrow> nat \<Rightarrow> string list \<Rightarrow> runtime_model list \<Rightarrow> gateway_error + 'd public_model list" where
  "check_models env price i seen [] = Inr []"
| "check_models env price i seen (m # ms) =
     (case validateRuntimePublicModel m [] of
        Some err \<Rightarrow> Inl (WithMeta err [MStr ''item_index'', MInt (int i)])
      | None \<Rightarrow>
          if rm_PublicModelID m \<in> set seen
          then Inl (WithMeta (runtimeContractError ''model list'' ''duplicate public_model_id'')
                     [MStr ''public_model_id'', MStr (rm_PublicModelID m)])
          else case check_models env price (i + 1) (rm_PublicModelID m # seen) ms of
                 Inl err \<Rightarrow> Inl err
               | Inr rest \<Rightarrow> Inr (the (model_to_domain env price m) # rest))"

definition ListPublicModels :: "meter_env \<Rightarrow> (int \<Rightarrow> 'd) \<Rightarrow> go_error + 'd public_model list" where
  "ListPublicModels env price =
     (case answer_of (fst (getJSON env ''/internal/gateway/models'' (Some (whole_list dec_model zero_model)) 2)) of
        Inl err \<Rightarrow> Inl err
      | Inr None \<Rightarrow> Inl (GwErr (runtimeContractError ''model list'' ''response must be a JSON array''))
      | Inr (Some ms) \<Rightarrow> (case check_models env price 0 [] ms of Inl e \<Rightarrow> Inl (GwErr e) | Inr xs \<Rightarrow> Inr xs))"

definition GetPublicModel :: "meter_env \<Rightarrow> (int \<Rightarrow> 'd) \<Rightarrow> string \<Rightarrow> go_error + 'd public_model" where
  "GetPublicModel env price ident =
     (case answer_of (fst (getJSON env (''/internal/gateway/models/'' @ PathEscape ident) (Some (whole dec_model)) 2)) of
        Inl err \<Rightarrow> Inl err
      | Inr m \<Rightarrow>
          (case validateRuntimePublicModel m ident of
             Some err \<Rightarrow> Inl (GwErr err)
           | None \<Rightarrow> Inr (the (model_to_domain env price m))))"

fun check_routers :: "meter_env \<Rightarrow> nat \<Rightarrow> string list \<Rightarrow> runtime_router list \<Rightarrow> gateway_error + router_entry list" where
  "check_routers env i seen [] = Inr []"
| "check_routers env i seen (r # rs) =
     (case validateRuntimeRouter r [] of
        Some err \<Rightarrow> Inl (WithMeta err [MStr ''item_index'', MInt (int i)])
      | None \<Rightarrow>
          if ro_RouterID r \<in> set seen
          then Inl (WithMeta (runtimeContractError ''router list'' ''duplicate router_id'')
                     [MStr ''router_id'', MStr (ro_RouterID r)])
          else case check_routers env (i + 1) (ro_RouterID r # seen) rs of
                 Inl err \<Rightarrow> Inl err
               | Inr rest \<Rightarrow> Inr (router_to_domain env r # rest))"

definition ListRouters :: "meter_env \<Rightarrow> go_error + router_entry list" where
  "ListRouters env =
     (case answer_of (fst (getJSON env ''/internal/gateway/routers'' (Some (whole_list (dec_router env) zero_router)) 2)) of
        Inl err \<Rightarrow> Inl err
      | Inr None \<Rightarrow> Inl (GwErr (runtimeContractError ''router list'' ''response must be a JSON array''))
      | Inr (Some rs) \<Rightarrow> (case check_routers env 0 [] rs of Inl e \<Rightarrow> Inl (GwErr e) | Inr xs \<Rightarrow> Inr xs))"

definition GetRouter :: "meter_env \<Rightarrow> string \<Rightarrow> go_error + router_entry" where
  "GetRouter env ident =
     (case answer_of (fst (getJSON env (''/internal/gateway/routers/'' @ PathEscape ident) (Some (whole (dec_router env))) 2)) of
        Inl err \<Rightarrow> Inl err
      | Inr r \<Rightarrow>
          (case validateRuntimeRouter r ident of
             Some err \<Rightarrow> Inl (GwErr err)
           | None \<Rightarrow> Inr (router_to_domain env r)))"

definition UpsertTinfoilTransportProof :: "meter_env \<Rightarrow> tinfoil_proof \<Rightarrow> go_error option" where
  "UpsertTinfoilTransportProof env proof =
     (case fst (postJSON env ''/internal/gateway/tinfoil-proofs'' (PProof proof) (None :: (json \<Rightarrow> unit option) option) 2) of
        Inl err \<Rightarrow> Some err
      | Inr x \<Rightarrow> None)"

definition proof_query :: "string \<Rightarrow> string \<Rightarrow> string" where
  "proof_query account response =
     ''account_id='' @ QueryEscape account @ ''&provider_response_id='' @ QueryEscape response"

definition GetTinfoilTransportProof :: "meter_env \<Rightarrow> string \<Rightarrow> string \<Rightarrow> go_error + tinfoil_proof" where
  "GetTinfoilTransportProof env account response =
     (case answer_of (fst (getJSON env (''/internal/gateway/tinfoil-proofs?'' @ proof_query account response)
                             (Some (whole (dec_proof env))) 2)) of
        Inl err \<Rightarrow> Inl err
      | Inr p \<Rightarrow>
          (case validateRuntimeProof p account response of Some err \<Rightarrow> Inl (GwErr err) | None \<Rightarrow> Inr p))"

end
