(* ===== verification/MeteringFacts.thy ===== *)
theory MeteringFacts
  imports MeteringRuntime
begin

text \<open>
  What the Metering client guarantees: how often it asks, whose fault its errors are, and what
  holds of the keys, models, routers and proofs it hands on.
\<close>

section \<open>Requests\<close>

text \<open>
  The environment: errors of the context, the printer and the URL are no gateway errors, and an
  HTTP status has three digits.
\<close>

definition plain_error :: "go_error \<Rightarrow> bool" where
  "plain_error e = (as_gateway e = None \<and> \<not> isRetryableRequestError e)"

definition plain_env :: "meter_env \<Rightarrow> bool" where
  "plain_env env =
     ((\<forall>p e. mt_marshal env p = Inl e \<longrightarrow> plain_error e) \<and> (\<forall>m u e. mt_new_request env m u = Some e \<longrightarrow> plain_error e)
      \<and> (\<forall>n e. mt_ended env n = Some e \<longrightarrow> plain_error e)
      \<and> (\<forall>m u b t n s e. mt_do env m u b t n = TransportError s (Some e) \<longrightarrow> plain_error e)
      \<and> (\<forall>m u b t n st a. mt_do env m u b t n = Response st a \<longrightarrow> 100 \<le> st))"

text \<open>An error of Metering itself, and one Metering means for the caller.\<close>

definition meter_fault :: "gateway_error \<Rightarrow> bool" where
  "meter_fault g = (ge_HTTPStatus g = 500 \<and> ge_Code g = ErrCodeInternalError
     \<and> ge_Metadata g ''dependency'' = Some (MStr ''metering'') \<and> ge_Metadata g ''fault'' = None)"

definition caller_error :: "string \<Rightarrow> string \<Rightarrow> gateway_error \<Rightarrow> bool" where
  "caller_error meth path g =
     (expected_error meth path (ge_Code g) = (ge_HTTPStatus g, ge_Type g) \<and> 400 \<le> ge_HTTPStatus g \<and> ge_HTTPStatus g < 500
      \<and> ge_Message g \<noteq> [] \<and> ge_Metadata g = Map.empty)"

text \<open>What one attempt can fail with.\<close>

definition attempt_error :: "string \<Rightarrow> string \<Rightarrow> go_error \<Rightarrow> bool" where
  "attempt_error meth path err =
     (plain_error err \<or> (\<exists>g. err = RetryableErr (GwErr g) \<and> meter_fault g)
      \<or> (\<exists>g. err = GwErr g \<and> (meter_fault g \<or> caller_error meth path g)))"

lemma meteringInternalError_fault:
  "meter_fault (meteringInternalError [MStr ''cause'', v, MStr ''reason'', w])"
  "meter_fault (meteringInternalError [MStr ''cause'', v, MStr ''contract'', u, MStr ''reason'', w])"
  by (simp_all add: meter_fault_def meteringInternalError_def with_meta_pair_def error_constructors)

lemma meteringResponseError_fault: "meter_fault (meteringResponseError status code)"
  by (simp add: meter_fault_def meteringResponseError_def meteringInternalError_def with_meta_pair_def
      error_constructors Let_def)

lemma userFacing_caller:
  assumes "userFacingMeteringError meth path status e = Some g" and "status \<noteq> 0"
  shows "caller_error meth path g \<and> ge_HTTPStatus g = status"
proof -
  obtain want ty where w: "expected_error meth path (eb_Code e) = (want, ty)" by force
  have g: "g = new_error status (eb_Type e) (eb_Code e) (eb_Message e)" "status = want" "eb_Type e = ty" "eb_Message e \<noteq> []"
    using assms(1) w by (auto simp: userFacingMeteringError_def split: if_splits)
  moreover have "want = 0 \<or> 400 \<le> want \<and> want < 500"
    using w by (auto simp: expected_error_def Let_def split: if_splits)
  ultimately show ?thesis
    using w assms(2) by (simp add: caller_error_def new_error_def)
qed

lemma once_effects:
  assumes "requestJSONOnce env meth path pl dec n = (r, ms)"
  shows "length ms \<le> 1" and "plain_env env \<Longrightarrow> r = Inl err \<Longrightarrow> attempt_error meth path err"
proof -
  show "length ms \<le> 1"
    using assms by (auto simp: requestJSONOnce_def Let_def split: sum.splits option.splits http_answer.splits if_splits)
next
  assume plain: "plain_env env" and r: "r = Inl err"
  show "attempt_error meth path err"
  proof (cases "case pl of None \<Rightarrow> Inr [] | Some p \<Rightarrow> mt_marshal env p")
    case (Inl e)
    then have "plain_error e" using plain by (auto simp: plain_env_def split: option.splits)
    then show ?thesis using assms r Inl by (simp add: requestJSONOnce_def attempt_error_def)
  next
    case marshal: (Inr body)
    show ?thesis
    proof (cases "mt_new_request env meth (mt_baseURL env @ path)")
      case (Some e)
      then have "plain_error e" using plain by (auto simp: plain_env_def)
      then show ?thesis using assms r marshal Some by (simp add: requestJSONOnce_def attempt_error_def)
    next
      case url: None
      define ans where "ans = mt_do env meth (mt_baseURL env @ path)
          (if mt_token env \<noteq> [] then Some (''Bearer '' @ mt_token env) else None) body n"
      show ?thesis
      proof (cases ans)
        case (TransportError s ended)
        have "ended = Some e \<Longrightarrow> plain_error e" for e
          using plain TransportError unfolding plain_env_def ans_def by metis
        then show ?thesis
          using assms r marshal url TransportError ans_def [symmetric] meteringInternalError_fault
          by (auto simp: requestJSONOnce_def attempt_error_def Let_def split: option.splits)
      next
        case (Response status answer)
        define e where "e = error_envelope (mt_first env answer)"
        have st: "100 \<le> status" using plain Response unfolding plain_env_def ans_def by metis
        note run = assms r marshal url Response ans_def [symmetric]
        show ?thesis
        proof (cases "status < 200 \<or> 300 \<le> status")
          case True
          then have "err = (if status \<ge> 500 then RetryableErr (GwErr (meteringResponseError status (eb_Code e)))
              else case userFacingMeteringError meth path status e of
                Some g \<Rightarrow> GwErr g | None \<Rightarrow> GwErr (meteringResponseError status (eb_Code e)))"
            using run by (simp add: requestJSONOnce_def Let_def e_def split: option.splits if_splits)
          then show ?thesis
            using meteringResponseError_fault [of status "eb_Code e"] userFacing_caller [of meth path status e] st
            by (auto simp: attempt_error_def split: if_splits option.splits)
        next
          case False
          then obtain v w where "err = RetryableErr (GwErr (meteringInternalError [MStr ''cause'', v, MStr ''reason'', w]))"
            using run by (auto simp: requestJSONOnce_def Let_def split: option.splits if_splits sum.splits)
          then show ?thesis using meteringInternalError_fault(1) by (auto simp: attempt_error_def)
        qed
      qed
    qed
  qed
qed


text \<open>An attempt that failed in a way that is worth another.\<close>

lemma once_retry_label:
  assumes "requestJSONOnce env meth path pl dec n = (Inl err, ms)" and "isRetryableRequestError err" and "plain_env env"
  shows "\<exists>op l. ms = [(op, l)] \<and> (l \<in> {''transport_error'', ''protocol_error''} \<or> (\<exists>st \<ge> 500. l = itoa_int st))"
proof -
  have plain: "\<not> plain_error err" using assms(2) by (simp add: plain_error_def)
  then show ?thesis
    using assms
    by (auto simp: requestJSONOnce_def Let_def plain_env_def split: sum.splits option.splits http_answer.splits if_splits)
qed

lemma request_from_effects:
  assumes "plain_env env"
  shows "request_from env meth path pl dec n left lastErr = (r, ms) \<Longrightarrow> attempt_error meth path lastErr \<Longrightarrow>
    length ms \<le> left
    \<and> (\<forall>m \<in> set (butlast ms). snd m \<in> {''transport_error'', ''protocol_error''} \<or> (\<exists>st \<ge> 500. snd m = itoa_int st))
    \<and> (\<forall>e. r = Inl e \<longrightarrow> plain_error e \<or> (\<exists>g. e = GwErr g \<and> (meter_fault g \<or> caller_error meth path g)))"
  using assms
proof (induction env meth path pl dec n left lastErr arbitrary: r ms rule: request_from.induct)
  case (1 env meth path pl dec n lastErr)
  then show ?case by (auto simp: attempt_error_def unwrapRetryableRequestError_def plain_error_def simp flip: retryable_cause_None split: option.splits)
next
  case (2 env meth path pl dec n left lastErr)
  have plain: "plain_env env" by (rule "2.prems")
  show ?case
  proof (cases "if n > 0 then mt_ended env n else None")
    case (Some e)
    then have "plain_error e" using plain by (auto simp: plain_env_def split: if_splits)
    then show ?thesis using "2.prems" Some by auto
  next
    case wait: None
    obtain r1 ms1 where once: "requestJSONOnce env meth path pl dec n = (r1, ms1)" by force
    note one = once_effects [OF once]
    show ?thesis
    proof (cases r1)
      case (Inr x)
      then have "r = Inr x" "ms = ms1" using "2.prems" wait once by simp_all
      then show ?thesis using one(1) by (cases ms1) auto
    next
      case (Inl err)
      have bad: "attempt_error meth path err" by (rule one(2) [OF plain Inl])
      show ?thesis
      proof (cases "isRetryableRequestError err")
        case False
        then have "r = Inl err" "ms = ms1" using "2.prems" wait once Inl by simp_all
        moreover have "plain_error err \<or> (\<exists>g. err = GwErr g \<and> (meter_fault g \<or> caller_error meth path g))"
          using bad False by (auto simp: attempt_error_def)
        ultimately show ?thesis using one(1) by (cases ms1) auto
      next
        case True
        obtain r2 ms2 where rest: "request_from env meth path pl dec (n + 1) left err = (r2, ms2)" by force
        then have "r = r2" "ms = ms1 @ ms2" using "2.prems" wait once Inl True by simp_all
        moreover have IH: "length ms2 \<le> left"
          "\<forall>m \<in> set (butlast ms2). snd m \<in> {''transport_error'', ''protocol_error''} \<or> (\<exists>st \<ge> 500. snd m = itoa_int st)"
          "\<forall>e. r2 = Inl e \<longrightarrow> plain_error e \<or> (\<exists>g. e = GwErr g \<and> (meter_fault g \<or> caller_error meth path g))"
          using "2.IH" [OF wait once [symmetric] Inl _ rest bad plain] True by simp_all
        moreover obtain op l where "ms1 = [(op, l)]" "l \<in> {''transport_error'', ''protocol_error''} \<or> (\<exists>st \<ge> 500. l = itoa_int st)"
          using once_retry_label [OF _ True plain] once Inl by blast
        ultimately show ?thesis by (auto split: if_splits)
      qed
    qed
  qed
qed


text \<open>The party an error of the client names.\<close>

lemma meter_fault_is_nexus: "meter_fault g \<Longrightarrow> FaultOf (GwErr g) = FaultNexus"
  by (simp add: FaultOf_def fault_meta_def meter_fault_def faults_def faultByCode_def)

lemma caller_error_party:
  assumes "caller_error meth path g"
  shows "FaultOf (GwErr g) = (if ge_Code g = ErrCodeDailyTokenLimit then FaultNexus else FaultCaller)"
proof -
  have "ge_Code g \<in> set [ErrCodeInvalidAPIKey, ErrCodeInactiveAPIKey, ErrCodeInactiveAccount, ErrCodeUnsupportedModel,
      ErrCodeNotFound, ErrCodeInsufficientBalance, ErrCodeDailyTokenLimit]"
    using assms by (auto simp: caller_error_def expected_error_def Let_def split: if_splits)
  moreover have "ge_Metadata g = Map.empty" using assms by (simp add: caller_error_def)
  ultimately show ?thesis
    by (auto simp: FaultOf_def fault_meta_def faults_def faultByCode_def)
qed

text \<open>
  C19: A broken Metering never blames the caller. An error of a Metering request is an error of
  the context or the encoder, an internal error that names Metering and counts as Nexus's
  fault, or an error Metering means for the caller: then its status, type and code are the ones
  expected at that endpoint and it has a message. Such an error counts as the caller's fault,
  except the one for a spent daily token limit, which the fault table does not list.
\<close>

theorem meter_error_names_the_right_party:
  assumes "plain_env env" and "fst (requestJSON env meth path pl dec retries) = Inl e"
  shows "plain_error e
    \<or> (\<exists>g. e = GwErr g \<and> meter_fault g \<and> FaultOf e = FaultNexus)
    \<or> (\<exists>g. e = GwErr g \<and> caller_error meth path g
         \<and> FaultOf e = (if ge_Code g = ErrCodeDailyTokenLimit then FaultNexus else FaultCaller))"
proof -
  obtain r ms where "requestJSON env meth path pl dec retries = (r, ms)" by force
  then have "request_from env meth path pl dec 0 (retries + 1) CtxCanceled = (r, ms)" by (simp add: requestJSON_def)
  moreover have "attempt_error meth path CtxCanceled" by (simp add: attempt_error_def plain_error_def)
  ultimately have "\<forall>e. r = Inl e \<longrightarrow> plain_error e \<or> (\<exists>g. e = GwErr g \<and> (meter_fault g \<or> caller_error meth path g))"
    using request_from_effects [OF assms(1)] by blast
  then show ?thesis
    using assms(2) \<open>requestJSON env meth path pl dec retries = (r, ms)\<close> meter_fault_is_nexus caller_error_party by auto
qed

text \<open>A toy Metering: it answers 500 once and then as given.\<close>

definition toy_meter :: "http_answer \<Rightarrow> json \<Rightarrow> meter_env" where
  "toy_meter answer v = \<lparr>mt_baseURL = ''http://m'', mt_token = ''t'', mt_marshal = (\<lambda>p. Inr []),
     mt_new_request = (\<lambda>m u. None), mt_do = (\<lambda>m u b t n. if n = 0 then Response 500 [] else answer), mt_ended = (\<lambda>n. None),
     mt_parse = (\<lambda>t. Some v), mt_first = (\<lambda>t. Some v), mt_parse_error = (\<lambda>t. []), mt_time = (\<lambda>t. Some 1), mt_raw = (\<lambda>t. ''{}'')\<rparr>"

lemma toy_meter_plain: "100 \<le> st \<Longrightarrow> plain_env (toy_meter (Response st a) v)"
  by (auto simp: plain_env_def toy_meter_def split: if_splits)

definition toy_limit_answer :: json where
  "toy_limit_answer = JObj [(''error'', JObj [(''type'', JStr ErrTypeRateLimit), (''code'', JStr ErrCodeDailyTokenLimit),
     (''message'', JStr ''later'')])]"

definition toy_limited :: "(go_error + reserve_response option) \<times> (string \<times> string) list" where
  "toy_limited = requestJSON (toy_meter (Response 429 []) toy_limit_answer) ''POST'' ''/internal/metering/reservations''
     (Some PEmpty) (Some dec_reserve_response) 2"

theorem meter_error_names_the_right_party_witness:
  "\<exists>e g. fst toy_limited = Inl e \<and> e = GwErr g \<and> ge_HTTPStatus g = 429 \<and> FaultOf e = FaultNexus"
proof -
  have "isl (fst toy_limited)" by code_simp
  then obtain e where e: "fst toy_limited = Inl e" by (cases "fst toy_limited") auto
  have st: "map_option ge_HTTPStatus (as_gateway (projl (fst toy_limited))) = Some 429" by code_simp
  have run: "fst (requestJSON (toy_meter (Response 429 []) toy_limit_answer) ''POST'' ''/internal/metering/reservations''
      (Some PEmpty) (Some dec_reserve_response) 2) = Inl e" using e by (simp add: toy_limited_def)
  have "FaultOf (projl (fst toy_limited)) = FaultNexus" by code_simp
  then show ?thesis
    using meter_error_names_the_right_party [OF toy_meter_plain run] e st by (auto simp: plain_error_def)
qed

text \<open>
  A Metering request is bounded. At most one attempt more than the retries allowed is made,
  another is made only after a transport failure, a status of 500 or above or an answer that
  does not decode, and what comes back is never the internal wrapper of a retry.
\<close>

theorem meter_attempts_bounded:
  assumes "plain_env env" and "requestJSON env meth path pl dec retries = (r, ms)"
  shows "length ms \<le> retries + 1
    \<and> (\<forall>m \<in> set (butlast ms). snd m \<in> {''transport_error'', ''protocol_error''} \<or> (\<exists>st \<ge> 500. snd m = itoa_int st))
    \<and> (\<forall>e. r = Inl e \<longrightarrow> \<not> isRetryableRequestError e)"
proof -
  have "request_from env meth path pl dec 0 (retries + 1) CtxCanceled = (r, ms)" using assms(2) by (simp add: requestJSON_def)
  moreover have "attempt_error meth path CtxCanceled" by (simp add: attempt_error_def plain_error_def)
  ultimately show ?thesis
    using request_from_effects [OF assms(1), of meth path pl dec 0 "retries + 1" CtxCanceled r ms]
    by (auto simp: plain_error_def)
qed

theorem meter_attempts_bounded_witness:
  "length (snd toy_limited) = 2 \<and> length (snd toy_limited) \<le> 3 \<and> snd (last (snd toy_limited)) = ''429''"
proof -
  have "snd toy_limited = [(''reserve'', ''500''), (''reserve'', ''429'')]" by code_simp
  moreover have run: "requestJSON (toy_meter (Response 429 []) toy_limit_answer) ''POST'' ''/internal/metering/reservations''
      (Some PEmpty) (Some dec_reserve_response) 2 = (fst toy_limited, snd toy_limited)" by (simp add: toy_limited_def)
  have "length (snd toy_limited) \<le> 2 + 1"
    using meter_attempts_bounded [OF toy_meter_plain run] by simp
  ultimately show ?thesis by simp
qed

end
