(* ===== verification/CatalogFacts.thy ===== *)
theory CatalogFacts
  imports MeteringFacts Proxy
begin

text \<open>
  What holds of the keys, models, routers and proofs that the Metering client hands on, the
  contract of a catalog, and the paths of single lookups.
\<close>

section \<open>Keys\<close>

text \<open>
  An authenticated key is sound. When the client authenticates a key, the key given was not
  empty, the account and the key that come back are active and named, the key belongs to the
  account, and its masking mode is one the gateway knows.
\<close>

theorem authenticated_key_is_sound:
  assumes "AuthenticateAPIKey env sha256 rawKey = Inr auth"
  shows "rawKey \<noteq> [] \<and> IsActive (auth_Account auth) \<and> IsKeyActive (auth_APIKey auth)
    \<and> key_AccountID (auth_APIKey auth) = acc_ID (auth_Account auth) \<and> \<not> blank (acc_ID (auth_Account auth))
    \<and> \<not> blank (key_ID (auth_APIKey auth)) \<and> NormalizeAPIKeyPIIMode (key_PIIMode (auth_APIKey auth)) = (key_PIIMode (auth_APIKey auth), True)"
proof -
  obtain r where v: "validateAuthenticateResponse r = None" and auth: "auth = auth_to_domain r" and raw: "rawKey \<noteq> []"
    using assms by (auto simp: AuthenticateAPIKey_def split: if_splits sum.splits option.splits)
  have "rk_PIIMode (ar_APIKey r) \<noteq> []" "snd (NormalizeAPIKeyPIIMode (rk_PIIMode (ar_APIKey r)))"
    and rest: "\<not> blank (ra_ID (ar_Account r))" "\<not> blank (rk_ID (ar_APIKey r))"
      "rk_AccountID (ar_APIKey r) = ra_ID (ar_Account r)" "ra_Status (ar_Account r) = AccountStatusActive" "rk_Active (ar_APIKey r)"
    using v by (simp_all add: validateAuthenticateResponse_def first_failure_None Let_def)
  then have "NormalizeAPIKeyPIIMode (rk_PIIMode (ar_APIKey r)) = (rk_PIIMode (ar_APIKey r), True)"
    by (auto simp: NormalizeAPIKeyPIIMode_def split: if_splits)
  then show ?thesis
    using raw rest by (simp add: auth auth_to_domain_def IsActive_def IsKeyActive_def Let_def)
qed

definition toy_answer :: json where
  "toy_answer = JObj
     [(''account'', JObj [(''id'', JStr ''a''), (''status'', JStr ''active'')]),
      (''api_key'', JObj [(''id'', JStr ''k''), (''account_id'', JStr ''a''), (''active'', JBool True), (''pii_mode'', JStr ''high'')])]"

definition toy_auth :: "go_error + auth_context" where
  "toy_auth = AuthenticateAPIKey (toy_meter (Response 200 []) toy_answer) (\<lambda>s. s) ''key''"

theorem authenticated_key_is_sound_witness:
  "\<not> isl toy_auth \<and> IsActive (auth_Account (projr toy_auth)) \<and> key_PIIMode (auth_APIKey (projr toy_auth)) = ''high''"
proof -
  have ok: "\<not> isl toy_auth" by code_simp
  then have "AuthenticateAPIKey (toy_meter (Response 200 []) toy_answer) (\<lambda>s. s) ''key'' = Inr (projr toy_auth)"
    by (simp add: toy_auth_def)
  from authenticated_key_is_sound [OF this] have "IsActive (auth_Account (projr toy_auth))" by simp
  moreover have "key_PIIMode (auth_APIKey (projr toy_auth)) = ''high''" by code_simp
  ultimately show ?thesis using ok by simp
qed

section \<open>Models\<close>

text \<open>What the gateway relies on of a model of the catalog.\<close>

definition config_ok :: "provider_config \<Rightarrow> bool" where
  "config_ok pc = (pc_Active pc \<and> \<not> blank (pc_ID pc) \<and> \<not> blank (pc_ProviderName pc) \<and> \<not> blank (pc_BaseURL pc)
     \<and> \<not> blank (pc_APIKeySecretRef pc))"

definition model_ok :: "'d public_model \<Rightarrow> bool" where
  "model_ok m = (m_Active m \<and> \<not> blank (m_ID m) \<and> \<not> blank (m_PublicModelID m) \<and> \<not> blank (m_UpstreamModelName m)
     \<and> config_ok (m_ProviderConfig m) \<and> 0 < m_MaxOutputTokens m \<and> 0 < m_MaxContextWindow m
     \<and> m_ProofMode m \<in> {ProofModeNone, ProofModeTinfoilAttestedTransport}
     \<and> (\<forall>t. m_Fallback m = Some t \<longrightarrow> config_ok (target_ProviderConfig t) \<and> \<not> blank (target_UpstreamModelName t)
          \<and> (target_ProviderModelID t \<noteq> m_ProviderModelID m \<or> pc_ID (target_ProviderConfig t) \<noteq> pc_ID (m_ProviderConfig m))))"

lemma valid_model:
  assumes "validateRuntimePublicModel m expected = None"
  shows "\<exists>d. model_to_domain env price m = Some d \<and> model_ok d \<and> m_PublicModelID d = rm_PublicModelID m
    \<and> (expected \<noteq> [] \<longrightarrow> m_PublicModelID d = expected)"
proof -
  have first: "\<not> blank (rm_ID m) \<and> \<not> blank (rm_PublicModelID m) \<and> (expected \<noteq> [] \<longrightarrow> rm_PublicModelID m = expected)
      \<and> \<not> blank (rm_UpstreamModelName m) \<and> config_ok (rm_ProviderConfig m) \<and> rm_Active m
      \<and> rm_SupportsChatCompletions m \<noteq> None \<and> rm_SupportsChatCompletionsStream m \<noteq> None \<and> rm_SupportsTools m \<noteq> None
      \<and> rm_SupportsParallelToolCalls m \<noteq> None \<and> rm_SupportsStructuredOutput m \<noteq> None \<and> rm_SupportsReasoning m \<noteq> None
      \<and> (rm_ProofMode m = ProofModeNone \<or> rm_ProofMode m = ProofModeTinfoilAttestedTransport)
      \<and> 0 < rm_MaxContextWindow m \<and> 0 < rm_MaxOutputTokens m \<and> rm_InputPrice m \<noteq> None \<and> rm_OutputPrice m \<noteq> None"
    using assms unfolding validateRuntimePublicModel_def Let_def
    by (auto simp: first_failure_None config_ok_def split: option.splits)
  then obtain chat st tc pt so re ip op where flags: "rm_SupportsChatCompletions m = Some chat"
      "rm_SupportsChatCompletionsStream m = Some st" "rm_SupportsTools m = Some tc" "rm_SupportsParallelToolCalls m = Some pt"
      "rm_SupportsStructuredOutput m = Some so" "rm_SupportsReasoning m = Some re" "rm_InputPrice m = Some ip"
      "rm_OutputPrice m = Some op" unfolding not_None_eq by blast
  have fall: "config_ok (rt_ProviderConfig t) \<and> \<not> blank (rt_UpstreamModelName t)
      \<and> (rt_ProviderModelID t \<noteq> rm_ProviderModelID m \<or> pc_ID (rt_ProviderConfig t) \<noteq> pc_ID (rm_ProviderConfig m))"
    if "rm_Fallback m = Some t" for t
    using assms that unfolding validateRuntimePublicModel_def validateRuntimeProviderTarget_def Let_def
    by (auto simp: first_failure_None config_ok_def split: option.splits if_splits)
  have "\<exists>caps. capabilities env m = Some caps" using flags by (simp add: capabilities_def)
  then obtain caps where "capabilities env m = Some caps" by blast
  then have "\<exists>d. model_to_domain env price m = Some d" using flags by (simp add: model_to_domain_def)
  then obtain d where d: "model_to_domain env price m = Some d" by blast
  have same: "m_PublicModelID d = rm_PublicModelID m" "m_ID d = rm_ID m" "m_UpstreamModelName d = rm_UpstreamModelName m"
      "m_ProviderConfig d = rm_ProviderConfig m" "m_Fallback d = map_option target_to_domain (rm_Fallback m)"
      "m_MaxOutputTokens d = rm_MaxOutputTokens m" "m_MaxContextWindow d = rm_MaxContextWindow m" "m_Active d = rm_Active m"
      "m_ProviderModelID d = rm_ProviderModelID m" "m_ProofMode d = (if rm_ProofMode m = [] then ProofModeNone else rm_ProofMode m)"
    using d by (auto simp: model_to_domain_def split: option.splits)
  have "model_ok d"
    using first fall by (auto simp: model_ok_def same target_to_domain_def)
  then show ?thesis using d same first by auto
qed

text \<open>
  The contract between a catalog and the service that routes by it.
\<close>

locale model_catalog =
  fixes get :: "string \<Rightarrow> go_error + 'd public_model" and ok :: "'d public_model \<Rightarrow> bool"
  assumes get_ok: "get i = Inr m \<Longrightarrow> ok m"
    and get_named: "get i = Inr m \<Longrightarrow> i \<noteq> [] \<Longrightarrow> m_PublicModelID m = i"
begin

text \<open>Routing by the catalog: the model has the name the request is charged under.\<close>

lemma resolved:
  assumes "po_model po = get" and "resolveModel po req = Inr (m, exec)" and "req_PublicModelID req \<noteq> []"
  shows "ok m \<and> m_PublicModelID m = req_PublicModelID exec"
  using assms get_ok get_named
  by (auto simp: resolveModel_def Let_def routed_def split: sum.splits if_splits option.splits)

lemma direct: "po_model po i = Inr m \<Longrightarrow> po_model po = get \<Longrightarrow> i \<noteq> [] \<Longrightarrow> ok m \<and> m_PublicModelID m = i"
  using get_ok get_named by auto

end

lemma GetPublicModel_valid:
  assumes "GetPublicModel env price i = Inr d"
  shows "model_ok d \<and> (i \<noteq> [] \<longrightarrow> m_PublicModelID d = i)"
proof -
  obtain m where v: "validateRuntimePublicModel m i = None" and d: "d = the (model_to_domain env price m)"
    using assms by (auto simp: GetPublicModel_def split: sum.splits option.splits)
  then show ?thesis using valid_model [OF v, of env price] by auto
qed

interpretation mc: model_catalog "GetPublicModel env price" model_ok for env price
  by unfold_locales (auto dest: GetPublicModel_valid)

text \<open>
  A catalog model is sound. A model that the client hands on for an ID has that ID, is
  active with an active, complete provider configuration, has positive limits and a known proof
  mode, and its fallback, when it has one, is complete and another target. Reading it never
  dereferences a nil pointer.
\<close>

theorem catalog_model_is_sound:
  assumes "GetPublicModel env price i = Inr d" and "i \<noteq> []"
  shows "model_ok d \<and> m_PublicModelID d = i
    \<and> (\<exists>m. validateRuntimePublicModel m i = None \<and> model_to_domain env price m = Some d)"
proof -
  obtain m where v: "validateRuntimePublicModel m i = None" and d: "d = the (model_to_domain env price m)"
    using assms by (auto simp: GetPublicModel_def split: sum.splits option.splits)
  obtain d' where "model_to_domain env price m = Some d'" using valid_model [OF v, of env price] by blast
  then have "\<exists>m. validateRuntimePublicModel m i = None \<and> model_to_domain env price m = Some d" using v d by auto
  then show ?thesis using mc.get_ok [OF assms(1)] mc.get_named [OF assms] by simp
qed

definition toy_entry :: json where
  "toy_entry = JObj
     [(''id'', JStr ''m''), (''public_model_id'', JStr ''toy''), (''display_name'', JStr ''Toy''),
      (''provider_model_id'', JStr ''p''), (''upstream_model_name'', JStr ''up''), (''proof_mode'', JStr ''none''),
      (''provider_config'', JObj [(''id'', JStr ''c''), (''provider_name'', JStr ''deepseek''), (''base_url'', JStr ''u''),
         (''api_key_secret_ref'', JStr ''K''), (''active'', JBool True)]),
      (''supports_chat_completions'', JBool True), (''supports_chat_completions_stream'', JBool True),
      (''supports_tools'', JBool True), (''supports_parallel_tool_calls'', JBool False),
      (''supports_structured_output'', JBool True), (''supports_reasoning'', JBool False),
      (''max_context_window'', JNum ''100''), (''max_output_tokens'', JNum ''10''),
      (''input_price_per_1m_tokens_microcents'', JNum ''5''), (''output_price_per_1m_tokens_microcents'', JNum ''6''),
      (''currency'', JStr ''EUR''), (''active'', JBool True)]"

definition toy_found :: "go_error + int public_model" where
  "toy_found = GetPublicModel (toy_meter (Response 200 []) toy_entry) (\<lambda>p. p) ''toy''"

theorem catalog_model_is_sound_witness:
  "\<not> isl toy_found \<and> model_ok (projr toy_found) \<and> m_PublicModelID (projr toy_found) = ''toy'' \<and> m_InputPricePerMillion (projr toy_found) = 5"
proof -
  have ok: "\<not> isl toy_found" by code_simp
  then have "GetPublicModel (toy_meter (Response 200 []) toy_entry) (\<lambda>p. p) ''toy'' = Inr (projr toy_found)"
    by (simp add: toy_found_def)
  from catalog_model_is_sound [OF this] have "model_ok (projr toy_found) \<and> m_PublicModelID (projr toy_found) = ''toy''" by simp
  moreover have "m_InputPricePerMillion (projr toy_found) = 5" by code_simp
  ultimately show ?thesis using ok by simp
qed

section \<open>Lists\<close>

lemma check_models_sound:
  "check_models env price i seen ms = Inr ds \<Longrightarrow>
   map m_PublicModelID ds = map rm_PublicModelID ms \<and> distinct (map rm_PublicModelID ms)
   \<and> set (map rm_PublicModelID ms) \<inter> set seen = {} \<and> (\<forall>d \<in> set ds. model_ok d)"
proof (induction env price i seen ms arbitrary: ds rule: check_models.induct)
  case (2 env price i seen m ms)
  then obtain rest where v: "validateRuntimePublicModel m [] = None" and new: "rm_PublicModelID m \<notin> set seen"
    and rest: "check_models env price (i + 1) (rm_PublicModelID m # seen) ms = Inr rest"
    and ds: "ds = the (model_to_domain env price m) # rest"
    by (auto split: option.splits if_splits sum.splits)
  obtain d where "model_to_domain env price m = Some d" "model_ok d" "m_PublicModelID d = rm_PublicModelID m"
    using valid_model [OF v, of env price] by blast
  then show ?case using "2.IH" [OF v new rest] new ds by auto
qed simp

lemma check_routers_sound:
  "check_routers env i seen rs = Inr ds \<Longrightarrow>
   map router_RouterID ds = map ro_RouterID rs \<and> distinct (map ro_RouterID rs)
   \<and> set (map ro_RouterID rs) \<inter> set seen = {} \<and> (\<forall>d \<in> set ds. router_Active d \<and> \<not> blank (router_RouterID d))"
proof (induction env i seen rs arbitrary: ds rule: check_routers.induct)
  case (2 env i seen r rs)
  then obtain rest where v: "validateRuntimeRouter r [] = None" and new: "ro_RouterID r \<notin> set seen"
    and rest: "check_routers env (i + 1) (ro_RouterID r # seen) rs = Inr rest" and ds: "ds = router_to_domain env r # rest"
    by (auto split: option.splits if_splits sum.splits)
  have "ro_Active r" "\<not> blank (ro_RouterID r)"
    using v by (simp_all add: validateRuntimeRouter_def first_failure_None Let_def)
  then show ?case using "2.IH" [OF v new rest] new ds by (auto simp: router_to_domain_def)
qed simp

text \<open>
  A list is handed on whole or not at all. A list of models or routers that the client
  hands on names no ID twice and holds only entries that passed their checks; one bad entry, or
  a null instead of a list, is an error.
\<close>

theorem catalog_lists_are_sound:
  "(ListPublicModels env price = Inr ms \<longrightarrow> distinct (map m_PublicModelID ms) \<and> (\<forall>m \<in> set ms. model_ok m))
   \<and> (ListRouters env = Inr rs \<longrightarrow> distinct (map router_RouterID rs) \<and> (\<forall>r \<in> set rs. router_Active r \<and> \<not> blank (router_RouterID r)))"
  by (auto simp: ListPublicModels_def ListRouters_def split: sum.splits option.splits
      dest!: check_models_sound check_routers_sound)

section \<open>Paths\<close>

text \<open>The inverse of the escape of a path segment, on what it produces.\<close>

definition hex_value :: "char \<Rightarrow> nat" where
  "hex_value c = (if is_digit c then byte c - 48 else byte c - 55)"

fun path_unescape :: "string \<Rightarrow> string" where
  "path_unescape (c # a # b # s) =
     (if c = CHR ''%'' then char_of (16 * hex_value a + hex_value b) # path_unescape s else c # path_unescape (a # b # s))"
| "path_unescape s = s"

lemma hex_value_digit: "n < 16 \<Longrightarrow> hex_value (hex_digit upper_hex n) = n"
proof -
  assume "n < 16"
  then have "n \<in> set [0..<16]" by simp
  moreover have "list_all (\<lambda>n. hex_value (hex_digit upper_hex n) = n) [0..<16]" by code_simp
  ultimately show ?thesis by (auto simp: list_all_iff)
qed

lemma unescape_percent: "path_unescape (percent c @ s) = c # path_unescape s"
proof -
  have "16 * (byte c div 16) + byte c mod 16 = byte c" by simp
  moreover have "byte c div 16 < 16" by (rule less_mult_imp_div_less) simp
  ultimately show ?thesis by (simp add: percent_def hex_value_digit)
qed

lemma unescape_plain: "c \<noteq> CHR ''%'' \<Longrightarrow> path_unescape (c # s) = c # path_unescape s"
  by (cases s rule: path_unescape.cases) auto

lemma unreserved_plain: "unreserved c \<Longrightarrow> c \<notin> {CHR ''%'', CHR ''/'', CHR ''?''}"
  by (auto simp: unreserved_def is_letter_def is_upper_def is_lower_def is_digit_def)

lemma PathEscape_unescape: "path_unescape (PathEscape s) = s"
proof (induction s)
  case (Cons c s)
  show ?case
  proof (cases "unreserved c \<or> c \<in> set ''$&+:=@''")
    case True
    then have "c \<noteq> CHR ''%''" using unreserved_plain [of c] by auto
    then show ?thesis using Cons True by (simp add: PathEscape_def unescape_plain)
  next
    case False
    then show ?thesis using Cons by (simp add: PathEscape_def unescape_percent)
  qed
qed (simp add: PathEscape_def)

lemma hex_digit_plain: "n < 16 \<Longrightarrow> hex_digit upper_hex n \<notin> {CHR ''/'', CHR ''?''}"
proof -
  assume "n < 16"
  then have "n \<in> set [0..<16]" by simp
  moreover have "list_all (\<lambda>n. hex_digit upper_hex n \<noteq> CHR ''/'' \<and> hex_digit upper_hex n \<noteq> CHR ''?'') [0..<16]" by code_simp
  ultimately show ?thesis by (auto simp: list_all_iff)
qed

lemma PathEscape_chars: "set (PathEscape s) \<inter> {CHR ''/'', CHR ''?''} = {}"
proof -
  have "set (percent c) \<inter> {CHR ''/'', CHR ''?''} = {}" for c
  proof -
    have "byte c div 16 < 16" by (rule less_mult_imp_div_less) simp
    then show ?thesis
      using hex_digit_plain [of "byte c div 16"] hex_digit_plain [of "byte c mod 16"] by (auto simp: percent_def)
  qed
  moreover have "c \<noteq> CHR ''/'' \<and> c \<noteq> CHR ''?''" if "unreserved c \<or> c \<in> set ''$&+:=@''" for c
    using that unreserved_plain [of c] by auto
  ultimately show ?thesis by (fastforce simp: PathEscape_def split: if_splits)
qed

text \<open>
  A lookup stays at its endpoint. The escaped ID of a model or router has neither a slash
  nor a question mark, so the path of the lookup ends with it whatever the caller put into the
  ID; the path determines the ID, and the lookup counts as one of a model.
\<close>

theorem lookup_path_is_faithful:
  "path_unescape (PathEscape i) = i \<and> set (PathEscape i) \<inter> {CHR ''/'', CHR ''?''} = {}
   \<and> request_path (''/internal/gateway/models/'' @ PathEscape i) = ''/internal/gateway/models/'' @ PathEscape i
   \<and> expected_error ''GET'' (''/internal/gateway/models/'' @ PathEscape i) ErrCodeUnsupportedModel = (404, ErrTypeInvalidRequest)"
proof -
  have "takeWhile (\<lambda>c. c \<noteq> CHR ''?'') (PathEscape i) = PathEscape i"
    using PathEscape_chars [of i] by (auto simp: takeWhile_eq_all_conv)
  then have p: "request_path (''/internal/gateway/models/'' @ PathEscape i) = ''/internal/gateway/models/'' @ PathEscape i"
    by (simp add: request_path_def)
  then show ?thesis
    using PathEscape_unescape [of i] PathEscape_chars [of i]
    unfolding expected_error_def p by (simp add: Let_def has_prefix_def)
qed

end
