(* ===== verification/Lease.thy ===== *)
theory Lease
  imports MeteringRuntime
begin

text \<open>
  The keeper of a credit hold (\<open>KeepReservation\<close> of \<open>reservation_lease.go\<close>): the loop that renews
  a lease, one iteration per event. The clock, the timer and the answers are in the events; the
  calls of \<open>onLost\<close> are counted. What Metering itself holds is kept beside it in the facts.
\<close>

section \<open>The loop\<close>

record keeper =
  kp_held :: lease
  kp_floor :: duration
  kp_now :: time
  kp_lost :: nat
  kp_running :: bool

definition hold_floor :: "lease \<Rightarrow> duration" where
  "hold_floor held = min second (le_length held div 10)"

text \<open>\<open>LoadAndDelete\<close>: the lease is claimed once; without one there is nothing to keep.\<close>

definition KeepReservation :: "reservations \<Rightarrow> string \<Rightarrow> time \<Rightarrow> keeper option \<times> reservations" where
  "KeepReservation st ident now =
     (case map_of st ident of
        None \<Rightarrow> (None, st)
      | Some held \<Rightarrow> (Some \<lparr>kp_held = held, kp_floor = hold_floor held, kp_now = now, kp_lost = 0, kp_running = True\<rparr>,
                       AList.delete ident st))"

definition remaining :: "keeper \<Rightarrow> duration" where
  "remaining k = le_expires (kp_held k) - kp_now k"

definition timer :: "keeper \<Rightarrow> duration" where
  "timer k = min (max (remaining k div 3) (kp_floor k)) (remaining k)"

text \<open>A 4xx answer is a gateway error with its status in the metadata.\<close>

definition rejectedByMetering :: "go_error option \<Rightarrow> bool" where
  "rejectedByMetering err =
     (case err of
        None \<Rightarrow> False
      | Some e \<Rightarrow>
          (case as_gateway e of
             None \<Rightarrow> False
           | Some g \<Rightarrow> (case ge_Metadata g ''metering_status'' of Some (MInt s) \<Rightarrow> 400 \<le> s \<and> s < 500 | _ \<Rightarrow> False)))"

text \<open>
  What one iteration meets: the client stops it, or the timer fires, a request goes out and its
  answer comes. The context may have ended by the time a loss is noticed.
\<close>

datatype keeper_event =
    Cancelled
  | Woken time time "go_error + reserve_response" time   \<comment> \<open>fired, sent, answer, answered\<close>

definition lose :: "bool \<Rightarrow> keeper \<Rightarrow> keeper" where
  "lose ended k = k\<lparr>kp_lost := kp_lost k + (if ended then 0 else 1), kp_running := False\<rparr>"

definition renewal :: "string \<Rightarrow> time \<Rightarrow> reserve_response \<Rightarrow> lease \<Rightarrow> lease" where
  "renewal ident sent r held =
     (if rr_ReservationID r = ident \<and> rr_LeaseMS r > 0 \<and> le_expires (newLease sent (rr_LeaseMS r)) > le_expires held
      then newLease sent (rr_LeaseMS r) else held)"

definition keeper_next :: "string \<Rightarrow> bool \<times> keeper_event \<Rightarrow> keeper \<Rightarrow> keeper" where
  "keeper_next ident ev k =
     (case ev of (ended, e) \<Rightarrow>
        if \<not> kp_running k then k
        else if remaining k \<le> 0 then lose ended k
        else case e of
               Cancelled \<Rightarrow> k\<lparr>kp_running := False\<rparr>
             | Woken fired sent answer answered \<Rightarrow>
                 if le_expires (kp_held k) - fired \<le> 0 then k\<lparr>kp_now := fired\<rparr>
                 else case answer of
                        Inr r \<Rightarrow> k\<lparr>kp_now := answered, kp_held := renewal ident sent r (kp_held k)\<rparr>
                      | Inl err \<Rightarrow>
                          if rejectedByMetering (Some err) then lose ended (k\<lparr>kp_now := answered\<rparr>)
                          else k\<lparr>kp_now := answered\<rparr>)"

definition keeper_run :: "string \<Rightarrow> (bool \<times> keeper_event) list \<Rightarrow> keeper \<Rightarrow> keeper" where
  "keeper_run ident evs k = fold (keeper_next ident) evs k"

text \<open>The request of a renewal: one attempt.\<close>

definition renew_path :: "string \<Rightarrow> string" where
  "renew_path ident = ''/internal/metering/reservations/'' @ ident @ ''/renew''"

definition renew :: "meter_env \<Rightarrow> string \<Rightarrow> go_error + reserve_response" where
  "renew env ident =
     answer_of (fst (postJSON env (renew_path ident) PEmpty (Some dec_reserve_response) 0))"

end
