(* ===== verification/LeaseFacts.thy ===== *)
theory LeaseFacts
  imports Lease MeteringFacts
begin

text \<open>
  What the keeper of a credit hold guarantees: it never believes in a hold longer than Metering
  keeps it, it reports a loss once, and it gives up in time.
\<close>

section \<open>Clocks\<close>

lemma wrap64_le: "0 \<le> i \<Longrightarrow> wrap64 i \<le> i"
proof -
  assume "0 \<le> i"
  then have "(i + 2 ^ 63) mod 2 ^ 64 \<le> i + 2 ^ 63" by (intro zmod_le_nonneg_dividend) simp
  then show ?thesis by (simp add: wrap64_def)
qed

lemma newLease_bound: "0 \<le> ms \<Longrightarrow> le_expires (newLease sent ms) \<le> sent + ms * millisecond"
  using wrap64_le [of "ms * millisecond"] by (simp add: newLease_def millisecond_def)

lemma timer_bounds:
  assumes "0 < remaining k" and "0 < kp_floor k"
  shows "0 < timer k \<and> timer k \<le> remaining k \<and> (kp_floor k \<le> timer k \<or> timer k = remaining k)"
  using assms by (auto simp: timer_def min_def max_def)

text \<open>The timer does not fire early, and time does not run backwards.\<close>

definition timely :: "keeper \<Rightarrow> keeper_event \<Rightarrow> bool" where
  "timely k e = (case e of Cancelled \<Rightarrow> True
     | Woken fired sent answer answered \<Rightarrow> kp_now k + timer k \<le> fired \<and> fired \<le> sent \<and> sent \<le> answered)"

text \<open>A renewal that Metering grants keeps the hold for the lease it names, from when it was asked.\<close>

definition granted :: "string \<Rightarrow> keeper_event \<Rightarrow> time \<Rightarrow> bool" where
  "granted ident e g = (case e of
     Woken fired sent (Inr r) answered \<Rightarrow> rr_ReservationID r = ident \<and> rr_LeaseMS r > 0 \<longrightarrow> sent + rr_LeaseMS r * millisecond \<le> g
   | _ \<Rightarrow> True)"

text \<open>A keeper at work, with the time up to which Metering keeps the hold, which never shrinks.\<close>

inductive keeping :: "string \<Rightarrow> keeper \<Rightarrow> time \<Rightarrow> (bool \<times> keeper_event) list \<Rightarrow> keeper \<Rightarrow> time \<Rightarrow> bool" for ident k g where
  started: "keeping ident k g [] k g"
| event: "keeping ident k g evs k1 g1 \<Longrightarrow> timely k1 (snd ev) \<Longrightarrow> g1 \<le> g2 \<Longrightarrow> granted ident (snd ev) g2 \<Longrightarrow>
    keeping ident k g (evs @ [ev]) (keeper_next ident ev k1) g2"

inductive_cases keeping_emptyE: "keeping ident k g [] k' g'"

definition keeper_inv :: "keeper \<Rightarrow> time \<Rightarrow> bool" where
  "keeper_inv k g = (le_expires (kp_held k) \<le> g \<and> kp_lost k \<le> 1 \<and> (kp_running k \<longrightarrow> kp_lost k = 0) \<and> 0 < kp_floor k)"

lemma renewal_bound:
  assumes "le_expires held \<le> g" and "rr_ReservationID r = ident \<and> rr_LeaseMS r > 0 \<longrightarrow> sent + rr_LeaseMS r * millisecond \<le> g"
  shows "le_expires (renewal ident sent r held) \<le> g"
  using assms newLease_bound [of "rr_LeaseMS r" sent] by (auto simp: renewal_def)

lemma keeper_next_inv:
  assumes "keeper_inv k g" and "g \<le> g'" and "granted ident (snd ev) g'"
  shows "keeper_inv (keeper_next ident ev k) g'"
proof -
  obtain ended e where ev: "ev = (ended, e)" by force
  have held: "le_expires (kp_held k) \<le> g'" and rest: "kp_lost k \<le> 1" "kp_running k \<longrightarrow> kp_lost k = 0" "0 < kp_floor k"
    using assms(1,2) by (auto simp: keeper_inv_def)
  show ?thesis
  proof (cases "kp_running k \<and> 0 < remaining k")
    case False
    then show ?thesis using held rest by (auto simp: ev keeper_next_def keeper_inv_def lose_def)
  next
    case True
    show ?thesis
    proof (cases e)
      case Cancelled
      then show ?thesis using True held rest by (simp add: ev keeper_next_def keeper_inv_def)
    next
      case (Woken fired sent answer answered)
      show ?thesis
      proof (cases answer)
        case (Inl err)
        then show ?thesis
          using Woken True held rest by (auto simp: ev keeper_next_def keeper_inv_def lose_def)
      next
        case (Inr r)
        then have "le_expires (renewal ident sent r (kp_held k)) \<le> g'"
          using assms(3) Woken held by (intro renewal_bound) (auto simp: ev granted_def)
        then show ?thesis using Woken Inr True held rest by (simp add: ev keeper_next_def keeper_inv_def)
      qed
    qed
  qed
qed

lemma keeping_inv: "keeping ident k g evs k' g' \<Longrightarrow> keeper_inv k g \<Longrightarrow> keeper_inv k' g'"
  by (induction rule: keeping.induct) (auto intro: keeper_next_inv)

lemma hold_floor_pos: "0 < ms \<Longrightarrow> ms * millisecond < 2 ^ 63 \<Longrightarrow> 0 < hold_floor (newLease sent ms)"
  by (simp add: hold_floor_def newLease_def wrap64_def second_def millisecond_def)

text \<open>
  C14: A lease never outlives its hold. Metering keeps a hold at least for the lease it grants,
  counted from when the gateway asked. Whatever happens to a keeper that starts from such a
  lease, the hold it believes in ends no later than the one Metering keeps; it looks again
  before that end; it reports the loss of the hold at most once, and runs no longer once it has.
\<close>

theorem lease_never_outlives_hold:
  assumes "map_of st ident = Some (newLease sent ms)" and "0 < ms" and "ms * millisecond < 2 ^ 63"
    and "sent + ms * millisecond \<le> g" and "KeepReservation st ident now = (Some k, st')" and "keeping ident k g evs k' g'"
  shows "le_expires (kp_held k') \<le> g' \<and> kp_lost k' \<le> 1 \<and> (kp_running k' \<longrightarrow> kp_lost k' = 0)
    \<and> (0 < remaining k' \<longrightarrow> kp_now k' + timer k' \<le> g') \<and> map_of st' ident = None"
proof -
  have k: "k = \<lparr>kp_held = newLease sent ms, kp_floor = hold_floor (newLease sent ms), kp_now = now, kp_lost = 0, kp_running = True\<rparr>"
    and st': "st' = AList.delete ident st"
    using assms(1,5) by (auto simp: KeepReservation_def)
  have "keeper_inv k g"
    using newLease_bound [of ms sent] hold_floor_pos [OF assms(2,3)] assms(2,4) by (simp add: k keeper_inv_def)
  then have inv: "keeper_inv k' g'" by (rule keeping_inv [OF assms(6)])
  have "kp_now k' + timer k' \<le> g'" if "0 < remaining k'"
    using timer_bounds [OF that] inv by (simp add: keeper_inv_def remaining_def)
  then show ?thesis using inv by (simp add: keeper_inv_def st' delete_conv')
qed

definition toy_holds :: reservations where "toy_holds = [(''r'', newLease 0 1000)]"

definition toy_keeper :: keeper where
  "toy_keeper = \<lparr>kp_held = newLease 0 1000, kp_floor = 100000000, kp_now = 0, kp_lost = 0, kp_running = True\<rparr>"

lemma toy_keeper_start: "KeepReservation toy_holds ''r'' 0 = (Some toy_keeper, [])"
  by (simp add: KeepReservation_def toy_holds_def toy_keeper_def hold_floor_def newLease_def wrap64_def second_def
      millisecond_def)

definition toy_renewal :: "bool \<times> keeper_event" where
  "toy_renewal = (False, Woken 400000000 400000000 (Inr \<lparr>rr_ReservationID = ''r'', rr_LeaseMS = 1000\<rparr>) 500000000)"

theorem lease_never_outlives_hold_witness:
  "le_expires (kp_held (keeper_next ''r'' toy_renewal toy_keeper)) = 1400000000
   \<and> kp_lost (keeper_next ''r'' toy_renewal toy_keeper) = 0"
proof -
  have "keeping ''r'' toy_keeper 1000000000 ([] @ [toy_renewal]) (keeper_next ''r'' toy_renewal toy_keeper) 1400000000"
    by (rule keeping.event [OF keeping.started])
      (simp_all add: timely_def granted_def toy_renewal_def toy_keeper_def timer_def remaining_def newLease_def wrap64_def
        millisecond_def)
  from lease_never_outlives_hold [OF _ _ _ _ toy_keeper_start this]
  have "le_expires (kp_held (keeper_next ''r'' toy_renewal toy_keeper)) \<le> 1400000000
      \<and> (kp_running (keeper_next ''r'' toy_renewal toy_keeper) \<longrightarrow> kp_lost (keeper_next ''r'' toy_renewal toy_keeper) = 0)"
    by (simp add: toy_holds_def millisecond_def)
  moreover have "le_expires (kp_held (keeper_next ''r'' toy_renewal toy_keeper)) = 1400000000"
    and "kp_running (keeper_next ''r'' toy_renewal toy_keeper)" by code_simp+
  ultimately show ?thesis by simp
qed

text \<open>Giving up: renewals that all fail for the moment.\<close>

definition failing :: "bool \<times> keeper_event \<Rightarrow> bool" where
  "failing ev = (case ev of (ended, Woken fired sent (Inl err) answered) \<Rightarrow> \<not> ended \<and> \<not> rejectedByMetering (Some err) | _ \<Rightarrow> False)"

lemma failing_run:
  assumes "keeping ident k g evs k' g'" and "\<forall>ev \<in> set evs. failing ev" and "0 < kp_floor k" and "kp_running k" "kp_lost k = 0"
  shows "kp_held k' = kp_held k \<and> kp_floor k' = kp_floor k \<and> (kp_running k' \<longrightarrow> kp_lost k' = 0) \<and> (\<not> kp_running k' \<longrightarrow> kp_lost k' = 1)
    \<and> (kp_running k' \<longrightarrow> (evs = [] \<or> int (length evs - 1) * kp_floor k < remaining k)
         \<and> (remaining k' \<le> 0 \<or> int (length evs) * kp_floor k \<le> kp_now k' - kp_now k))"
  using assms
proof (induction rule: keeping.induct)
  case (event evs k1 g1 ev g2)
  have IH: "kp_held k1 = kp_held k" "kp_floor k1 = kp_floor k" "kp_running k1 \<longrightarrow> kp_lost k1 = 0" "\<not> kp_running k1 \<longrightarrow> kp_lost k1 = 1"
    "kp_running k1 \<longrightarrow> remaining k1 \<le> 0 \<or> int (length evs) * kp_floor k \<le> kp_now k1 - kp_now k"
    using event by simp_all
  obtain fired sent err answered where ev: "ev = (False, Woken fired sent (Inl err) answered)" "\<not> rejectedByMetering (Some err)"
    using event.prems(1) by (auto simp: failing_def split: keeper_event.splits sum.splits)
  have time: "kp_now k1 + timer k1 \<le> fired" "fired \<le> answered" using event.hyps(2) by (simp_all add: ev timely_def)
  show ?case
  proof (cases "kp_running k1 \<and> 0 < remaining k1")
    case False
    then show ?thesis using IH by (auto simp: ev keeper_next_def lose_def)
  next
    case True
    then have past: "int (length evs) * kp_floor k \<le> kp_now k1 - kp_now k" using IH by auto
    have fl: "0 < kp_floor k1" using IH event.prems by simp
    have rem: "int (length evs) * kp_floor k < remaining k"
      using past True IH(1) by (simp add: remaining_def)
    have step: "kp_held (keeper_next ident ev k1) = kp_held k" "kp_floor (keeper_next ident ev k1) = kp_floor k"
      "kp_running (keeper_next ident ev k1)" "kp_lost (keeper_next ident ev k1) = 0"
      "fired \<le> kp_now (keeper_next ident ev k1)"
      using True IH ev time by (auto simp: keeper_next_def)
    have "remaining (keeper_next ident ev k1) \<le> 0 \<or> int (length evs) * kp_floor k + kp_floor k \<le> kp_now (keeper_next ident ev k1) - kp_now k"
    proof (cases "kp_floor k1 \<le> timer k1")
      case True
      then show ?thesis using past time step(5) IH(2) by simp
    next
      case False
      then have "timer k1 = remaining k1" using timer_bounds [of k1] True fl by auto
      then show ?thesis using time step(1,5) IH(1) by (simp add: remaining_def)
    qed
    then show ?thesis using step rem by (simp add: algebra_simps)
  qed
qed simp

text \<open>
  C15: A hold that cannot be renewed is given up in time. When every renewal fails for the moment
  and the request still runs, the keeper asks no more often than its floor, a tenth of the
  lease or once a second, and after as many events as fit into what is left of the lease, and
  one more, it has reported the loss, once.
\<close>

theorem unrenewed_hold_is_given_up:
  assumes "keeping ident k g evs k' g'" and "\<forall>ev \<in> set evs. failing ev" and "0 < kp_floor k" and "kp_running k" "kp_lost k = 0"
    and "evs \<noteq> []" and "remaining k \<le> int (length evs - 1) * kp_floor k"
  shows "\<not> kp_running k' \<and> kp_lost k' = 1"
  using failing_run [OF assms(1-5)] assms(6,7) by auto

definition toy_failure :: "bool \<times> keeper_event" where
  "toy_failure = (False, Woken 1000000000 1000000000 (Inl CtxDeadline) 1000000000)"

lemma toy_failures:
  "keeping ''r'' toy_keeper 0 (replicate (Suc (Suc n)) toy_failure)
     (keeper_next ''r'' toy_failure (keeper_next ''r'' toy_failure toy_keeper)) 0"
proof (induction n)
  case 0
  have "keeping ''r'' toy_keeper 0 ([] @ [toy_failure]) (keeper_next ''r'' toy_failure toy_keeper) 0"
    by (rule keeping.event [OF keeping.started])
      (simp_all add: timely_def granted_def toy_failure_def toy_keeper_def timer_def remaining_def newLease_def wrap64_def
        millisecond_def)
  then have "keeping ''r'' toy_keeper 0 (([] @ [toy_failure]) @ [toy_failure])
      (keeper_next ''r'' toy_failure (keeper_next ''r'' toy_failure toy_keeper)) 0"
    by (rule keeping.event)
      (simp_all add: timely_def granted_def toy_failure_def toy_keeper_def timer_def remaining_def newLease_def wrap64_def
        keeper_next_def rejectedByMetering_def millisecond_def)
  then show ?case by simp
next
  case (Suc n)
  let ?k = "keeper_next ''r'' toy_failure (keeper_next ''r'' toy_failure toy_keeper)"
  have stopped: "keeper_next ''r'' toy_failure ?k = ?k"
    and "timely ?k (snd toy_failure)"
    by (simp_all add: timely_def toy_failure_def toy_keeper_def timer_def remaining_def newLease_def wrap64_def
        keeper_next_def rejectedByMetering_def lose_def millisecond_def)
  then have "keeping ''r'' toy_keeper 0 (replicate (Suc (Suc n)) toy_failure @ [toy_failure]) (keeper_next ''r'' toy_failure ?k) 0"
    by (intro keeping.event [OF Suc]) (simp_all add: granted_def toy_failure_def)
  then show ?case by (simp add: stopped replicate_append_same)
qed

theorem unrenewed_hold_is_given_up_witness:
  "\<not> kp_running (keeper_next ''r'' toy_failure (keeper_next ''r'' toy_failure toy_keeper))
   \<and> kp_lost (keeper_next ''r'' toy_failure (keeper_next ''r'' toy_failure toy_keeper)) = 1"
  by (rule unrenewed_hold_is_given_up [OF toy_failures [of 9]])
    (simp_all add: failing_def toy_failure_def toy_keeper_def remaining_def newLease_def wrap64_def
      rejectedByMetering_def millisecond_def)

section \<open>Refusals\<close>

lemma renew_path_internal: "expected_error ''POST'' (renew_path ident) code = (0, [])"
  by (simp add: expected_error_def request_path_def renew_path_def Let_def)

definition metering_status :: "gateway_error \<Rightarrow> meta option" where
  "metering_status g = ge_Metadata g ''metering_status''"

lemma response_status [simp]: "metering_status (meteringResponseError status code) = Some (MInt status)"
  by (simp add: metering_status_def meteringResponseError_def meteringInternalError_def with_meta_pair_def Let_def)

lemma internal_status [simp]: "metering_status (meteringInternalError [MStr ''cause'', v, MStr ''reason'', w]) = None"
  by (simp add: metering_status_def meteringInternalError_def with_meta_pair_def error_constructors)

definition refused :: "go_error \<Rightarrow> bool" where
  "refused err = rejectedByMetering (Some err)"

lemma refused_iff [simp]:
  "refused (GwErr g) = (case metering_status g of Some (MInt s) \<Rightarrow> 400 \<le> s \<and> s < 500 | _ \<Rightarrow> False)"
  by (simp add: refused_def rejectedByMetering_def metering_status_def)

lemma renew_once:
  "renew env ident = (case fst (requestJSONOnce env ''POST'' (renew_path ident) (Some PEmpty) (Some dec_reserve_response) 0) of
     Inr r \<Rightarrow> Inr (the r)
   | Inl err \<Rightarrow> Inl (if isRetryableRequestError err then unwrapRetryableRequestError err else err))"
  by (auto simp: renew_def postJSON_def requestJSON_def answer_of_def split: prod.splits sum.splits)

text \<open>
  A refused renewal is told from a failed one. An answer of Metering to a renewal counts as
  a refusal, which ends the keeper, exactly when its status is a 4xx: such an answer is never
  shown to the caller as an error of its own, whatever its body says, and every other answer
  leaves the keeper to try again.
\<close>

theorem renewal_refusal_is_4xx:
  assumes "mt_marshal env PEmpty = Inr body" and "mt_new_request env ''POST'' url = None"
    and "url = mt_baseURL env @ renew_path ident"
    and "mt_do env ''POST'' url (if mt_token env \<noteq> [] then Some (''Bearer '' @ mt_token env) else None) body 0 = Response status answer"
    and "0 < status"
  shows "rejectedByMetering (case renew env ident of Inl e \<Rightarrow> Some e | Inr r \<Rightarrow> None) \<longleftrightarrow> 400 \<le> status \<and> status < 500"
proof -
  let ?once = "fst (requestJSONOnce env ''POST'' (renew_path ident) (Some PEmpty) (Some dec_reserve_response) 0)"
  define e where "e = error_envelope (mt_first env answer)"
  have none: "userFacingMeteringError ''POST'' (renew_path ident) status e = None"
    using assms(5) by (simp add: userFacingMeteringError_def renew_path_internal)
  note run = assms(1-4)
  show ?thesis
  proof (cases "status < 200 \<or> 300 \<le> status")
    case True
    then have "?once = Inl (if status \<ge> 500 then RetryableErr (GwErr (meteringResponseError status (eb_Code e)))
        else GwErr (meteringResponseError status (eb_Code e)))"
      using run none by (simp add: requestJSONOnce_def Let_def e_def)
    then have "renew env ident = Inl (GwErr (meteringResponseError status (eb_Code e)))"
      by (simp add: renew_once unwrapRetryableRequestError_def)
    then show ?thesis using refused_iff by (simp add: refused_def)
  next
    case False
    have "(\<exists>r. ?once = Inr r) \<or> (\<exists>v w. ?once = Inl (RetryableErr (GwErr (meteringInternalError [MStr ''cause'', v, MStr ''reason'', w]))))"
      using run False by (auto simp: requestJSONOnce_def Let_def split: sum.splits)
    then have "\<not> rejectedByMetering (case renew env ident of Inl e \<Rightarrow> Some e | Inr r \<Rightarrow> None)"
    proof (elim disjE exE)
      fix r
      assume "?once = Inr r"
      then show ?thesis by (simp add: renew_once rejectedByMetering_def)
    next
      fix v w
      assume "?once = Inl (RetryableErr (GwErr (meteringInternalError [MStr ''cause'', v, MStr ''reason'', w])))"
      then have "renew env ident = Inl (GwErr (meteringInternalError [MStr ''cause'', v, MStr ''reason'', w]))"
        by (simp add: renew_once unwrapRetryableRequestError_def)
      then show ?thesis using refused_iff [of "meteringInternalError [MStr ''cause'', v, MStr ''reason'', w]"]
        by (simp add: refused_def)
    qed
    then show ?thesis using False by auto
  qed
qed

theorem renewal_refusal_is_4xx_witness:
  "rejectedByMetering (case renew (toy_meter (Response 200 []) JNull\<lparr>mt_do := \<lambda>m u b t n. Response 402 []\<rparr>) ''r'' of
     Inl e \<Rightarrow> Some e | Inr r \<Rightarrow> None)"
  using renewal_refusal_is_4xx [of "toy_meter (Response 200 []) JNull\<lparr>mt_do := \<lambda>m u b t n. Response 402 []\<rparr>" "[]" _ "''r''" 402 "[]"]
  by (simp add: toy_meter_def)

end
