(* ===== verification/GatewayFacts.thy ===== *)
theory GatewayFacts
  imports ServiceFacts CatalogFacts LeaseFacts
begin

text \<open>
  The generation service on the Metering client: what a request does when its keys and models
  come from Metering.
\<close>

lemma fallback_named [simp]:
  "m_PublicModelID (withProviderTarget m t) = m_PublicModelID m" "m_Active (withProviderTarget m t) = m_Active m"
  "m_ProviderConfig (withProviderTarget m t) = target_ProviderConfig t"
  by (simp_all add: withProviderTarget_def)

lemma targets_ok:
  "model_ok m \<Longrightarrow> t \<in> set (targets m) \<Longrightarrow> config_ok (m_ProviderConfig t) \<and> m_Active t \<and> m_PublicModelID t = m_PublicModelID m"
  by (auto simp: targets_def model_ok_def split: option.splits)

text \<open>The model that a request was let in for.\<close>

lemma chosen_named:
  assumes "entered po endpoint raw0 req0 auth raw req" and "chosen po endpoint req model exec"
    and "po_model po = GetPublicModel env price" and "req_PublicModelID req0 \<noteq> []"
  shows "model_ok model \<and> m_PublicModelID model = req_PublicModelID exec"
proof -
  have "req_PublicModelID req = req_PublicModelID req0"
    using assms(1) cap_text_limits [of po raw0 req0 raw req] by (auto simp: entered_def split: if_splits)
  then have named: "req_PublicModelID req \<noteq> []" using assms(4) by simp
  show ?thesis
  proof (cases "endpoint = EndpointSystemOne")
    case True
    then show ?thesis
      using assms(2) mc.direct [of po "req_PublicModelID req" model env price] assms(3) named by (auto simp: chosen_def)
  next
    case False
    then have "resolveModel po req = Inr (model, exec)" using assms(2) by (simp add: chosen_def)
    then show ?thesis using mc.resolved [OF assms(3)] named by blast
  qed
qed

text \<open>
  C8: The model that runs is the one that is charged. When models come from Metering and the
  request names one, every provider call goes to an active model with an active and complete
  provider configuration, under the public name the credit was held for, also after routing and
  on a fallback.
\<close>

theorem charged_model_is_the_one_run:
  assumes "Proxy po rid endpoint raw req token = (res, ev)"
    and "po_model po = GetPublicModel env price" and "req_PublicModelID req \<noteq> []"
  shows "\<forall>(streaming, target, body) \<in> set (providers ev). m_Active target \<and> config_ok (m_ProviderConfig target)
    \<and> (\<forall>r \<in> set (reserved ev). req_PublicModelID r = m_PublicModelID target)"
  using assms(1)
proof (cases rule: Proxy_stages)
  case (refused err)
  then show ?thesis by simp
next
  case (run auth raw' req' model exec h ev1 ev2 r)
  have prov: "providers ev = providers ev2" using run(7,8) by simp
  have held: "reserved ev = [hd_req h]"
    using run(7,8) run_held_reserved [OF run(9)] by (auto simp: reserved_def)
  have model: "model_ok model" "m_PublicModelID model = req_PublicModelID exec"
    using chosen_named [OF run(2,3) assms(2,3)] by simp_all
  have "req_PublicModelID (hd_req h) = req_PublicModelID exec" using run(6) by auto
  moreover have "t \<in> set (targets model)" if "(s, t, b) \<in> set (providers ev2)" for s t b
    using run_held_effects [OF run(9)] that by fastforce
  ultimately show ?thesis using targets_ok [OF model(1)] model(2) unfolding prov held by fastforce
qed

definition toy_metered :: "int ports" where
  "toy_metered = \<lparr>po_auth = AuthenticateAPIKey (toy_meter (Response 200 []) toy_answer) (\<lambda>s. s),
     po_model = GetPublicModel (toy_meter (Response 200 []) toy_entry) (\<lambda>p. p),
     po_router_entry = (\<lambda>i. Inl CtxCanceled), po_route = None, po_registered = (\<lambda>n. True),
     po_complete = (\<lambda>m b. Inr (''{}'', None)), po_stream = (\<lambda>m b. Inl CtxCanceled),
     po_reserve = (\<lambda>a e r m. Inr ''r1''), po_keeps_holds = True, po_proofs = False,
     po_pii = \<lparr>pii_on = True, pii_fail_open = False, pii_client_left = False\<rparr>, po_analyzer = (\<lambda>m t. Inr []),
     po_codec = toy_codec\<lparr>cd_object := \<lambda>s. Some []\<rparr>, po_marshal = (\<lambda>v. ''{}''), po_part_len = (\<lambda>t i j. 0), po_guest_limit = 8,
     po_client_gone = (\<lambda>m. False), po_lost = (\<lambda>m. None), po_now = 0, po_latency = 0, po_error_type = (\<lambda>e. [])\<rparr>"

definition toy_metered_call :: "(go_error + (held_call \<times> int call_result)) \<times> int effect list" where
  "toy_metered_call = Proxy toy_metered ''id'' EndpointChatCompletions ''{}'' (toy_req\<lparr>req_PublicModelID := ''toy''\<rparr>) ''t''"

lemma toy_metered_calls: "map fst (providers (snd toy_metered_call)) = [False]"
  by code_simp

theorem charged_model_is_the_one_run_witness:
  "length (providers (snd toy_metered_call)) = 1
   \<and> list_all (\<lambda>(streaming, target, body). m_Active target \<and> config_ok (m_ProviderConfig target))
         (providers (snd toy_metered_call))"
proof -
  have one: "length (providers (snd toy_metered_call)) = 1" using toy_metered_calls by (metis length_map length_Cons list.size(3) One_nat_def)
  have "Proxy toy_metered ''id'' EndpointChatCompletions ''{}'' (toy_req\<lparr>req_PublicModelID := ''toy''\<rparr>) ''t''
      = (fst toy_metered_call, snd toy_metered_call)" by (simp add: toy_metered_call_def)
  from charged_model_is_the_one_run [OF this, of "toy_meter (Response 200 []) toy_entry" "\<lambda>p. p"]
  show ?thesis using one by (auto simp: toy_metered_def list_all_iff)
qed

text \<open>
  C4: No unmasked body leaves for a key that masks. When keys come from Metering, the filter is
  on and does not fail open, and the mode of the key is not off, a body that reaches a provider
  is the result of scanning the caller's body (capped for a guest) under that mode: the body
  itself only if the scan found nothing, its masked form otherwise.
\<close>

theorem no_unmasked_body_leaves:
  assumes "Proxy po rid endpoint raw req token = (res, ev)" and "po_auth po = AuthenticateAPIKey env sha256"
    and "po_auth po token = Inr auth" and "key_PIIMode (auth_APIKey auth) \<noteq> APIKeyPIIModeOff"
    and "pii_on (po_pii po)" and "\<not> pii_fail_open (po_pii po)"
    and "entered po endpoint raw req auth raw' req'" and "cd_object (po_codec po) raw' = Some body0"
  shows "\<forall>(streaming, target, body) \<in> set (providers ev).
    \<exists>body' mk. masker_maskBody (cd_parse (po_codec po)) (cd_enc (po_codec po)) (po_analyzer po)
        (key_PIIMode (auth_APIKey auth)) endpoint body0 new_masker = Inr (body', mk)
      \<and> body = (if tokenToOriginal (mk_mapping mk) = [] then raw' else cd_enc (po_codec po) (JObj body'))"
  using assms(1)
proof (cases rule: Proxy_stages)
  case (refused err)
  then show ?thesis by simp
next
  case (run auth1 raw1 req1 model exec h ev1 ev2 r)
  have same: "auth1 = auth" "raw1 = raw'"
    using run(1,2) assms(3,7) by (auto simp: entered_def split: if_splits)
  have mode: "NormalizeAPIKeyPIIMode (key_PIIMode (auth_APIKey auth)) = (key_PIIMode (auth_APIKey auth), True)"
    using assms(2,3) by (auto simp: AuthenticateAPIKey_def auth_to_domain_def validateAuthenticateResponse_def
        first_failure_None NormalizeAPIKeyPIIMode_def Let_def split: if_splits sum.splits option.splits)
  let ?run = "masker_maskBody (cd_parse (po_codec po)) (cd_enc (po_codec po)) (po_analyzer po)
        (key_PIIMode (auth_APIKey auth)) endpoint body0 new_masker"
  have on: "maskBody (po_pii po) (cd_object (po_codec po)) (cd_parse (po_codec po)) (cd_enc (po_codec po)) (po_analyzer po)
      raw' (key_PIIMode (auth_APIKey auth)) endpoint = Inr (hd_masked h, hd_mapping h)"
    using run(4) same by simp
  then obtain body' mk where scan: "?run = Inr (body', mk)"
    using assms(4-6,8) mode by (cases ?run) (auto simp: maskBody_def Let_def split: if_splits)
  then have "hd_masked h = (if tokenToOriginal (mk_mapping mk) = [] then raw' else cd_enc (po_codec po) (JObj body'))"
    using on assms(4-6,8) mode by (auto simp: maskBody_def Let_def split: if_splits)
  then have "\<exists>body' mk. ?run = Inr (body', mk)
      \<and> hd_masked h = (if tokenToOriginal (mk_mapping mk) = [] then raw' else cd_enc (po_codec po) (JObj body'))"
    using scan by blast
  moreover have "b = hd_masked h" if "(s, t, b) \<in> set (providers ev)" for s t b
    using run_held_effects [OF run(9)] that run(7,8) by (fastforce simp: call_ok_def)
  ultimately show ?thesis by fast
qed

theorem no_unmasked_body_leaves_witness:
  "\<exists>t b. providers (snd toy_metered_call) = [(False, t, b)]
     \<and> (\<exists>body' (mk :: masker). b = (if tokenToOriginal (mk_mapping mk) = [] then ''{}'' else cd_enc toy_codec (JObj body')))"
proof -
  have one: "length (providers (snd toy_metered_call)) = 1" and plain: "\<not> fst (hd (providers (snd toy_metered_call)))"
    using toy_metered_calls by (cases "providers (snd toy_metered_call)"; simp)+
  have call: "Proxy toy_metered ''id'' EndpointChatCompletions ''{}'' (toy_req\<lparr>req_PublicModelID := ''toy''\<rparr>) ''t''
      = (fst toy_metered_call, snd toy_metered_call)" by (simp add: toy_metered_call_def)
  let ?auth = "projr (po_auth toy_metered ''t'')"
  have ok: "\<not> isl (po_auth toy_metered ''t'')" and mode: "key_PIIMode (auth_APIKey ?auth) \<noteq> APIKeyPIIModeOff"
    and guest: "\<not> acc_IsGuest (auth_Account ?auth)" by code_simp+
  have auth: "po_auth toy_metered ''t'' = Inr ?auth" using ok by simp
  have ent: "entered toy_metered EndpointChatCompletions ''{}'' (toy_req\<lparr>req_PublicModelID := ''toy''\<rparr>) ?auth ''{}''
      (toy_req\<lparr>req_PublicModelID := ''toy''\<rparr>)" using guest by (simp add: entered_def)
  have set: "po_auth toy_metered = AuthenticateAPIKey (toy_meter (Response 200 []) toy_answer) (\<lambda>s. s)"
    "pii_on (po_pii toy_metered)" "\<not> pii_fail_open (po_pii toy_metered)" "cd_object (po_codec toy_metered) ''{}'' = Some []"
    "cd_enc (po_codec toy_metered) = cd_enc toy_codec" by (simp_all add: toy_metered_def)
  obtain t b where p: "providers (snd toy_metered_call) = [(False, t, b)]"
    using one plain by (cases "providers (snd toy_metered_call)") auto
  have "\<exists>body' (mk :: masker). b = (if tokenToOriginal (mk_mapping mk) = [] then ''{}'' else cd_enc toy_codec (JObj body'))"
    using no_unmasked_body_leaves [OF call set(1) auth mode set(2,3) ent set(4)] unfolding p set(5)
    by (simp only: list.set ball_simps split_conv) (elim conjE exE, intro exI, assumption)
  then show ?thesis using p by blast
qed

end
