(* ===== verification/Presidio.thy ===== *)
theory Presidio
  imports PiiMapping Errors GoJson
begin

text \<open>
  The adapter of the PII analyzer (\<open>adapters/pii/presidio\<close>): the request for a masking level, the
  reading of the answer, and the conversion of its character offsets to byte offsets. The HTTP
  transport, the JSON codec and the reading of a score are parameters; the histogram of the
  duration is left out.
\<close>

section \<open>Levels\<close>

definition flattenEntityGroups :: "string list list \<Rightarrow> string list" where
  "flattenEntityGroups groups = sort (rev (fold (\<lambda>e seen. if e \<in> set seen then seen else e # seen) (concat groups) []))"

definition lowProfileEntities :: "string list" where
  "lowProfileEntities = flattenEntityGroups
     [[''EMAIL_ADDRESS'', ''IP_ADDRESS'', ''MAC_ADDRESS'', ''PHONE_NUMBER''],
      [''CREDIT_CARD'', ''CRYPTO'', ''IBAN_CODE''],
      [''MEDICAL_LICENSE''],
      [''US_BANK_NUMBER'', ''US_DRIVER_LICENSE'', ''US_ITIN'', ''US_PASSPORT'', ''US_SSN''],
      [''UK_NHS'']]"

text \<open>\<open>None\<close> is the nil slice, which asks for every entity the analyzer knows.\<close>

definition presidioEntitiesForMode :: "string \<Rightarrow> string list option" where
  "presidioEntitiesForMode mode =
     (if mode = APIKeyPIIModeLow then Some lowProfileEntities
      else if mode = APIKeyPIIModeBalanced then Some (lowProfileEntities @ [''PERSON''])
      else if mode = APIKeyPIIModeHigh \<or> mode = [] then None
      else Some lowProfileEntities)"

section \<open>Offsets\<close>

record analyze_item =
  ai_EntityType :: string
  ai_Start :: int
  ai_End :: int
  ai_Score :: float32

text \<open>The byte index of every rune, and past the end.\<close>

definition rune_table :: "string \<Rightarrow> nat list" where
  "rune_table text = rune_starts 0 text @ [length text]"

definition convert_item :: "string \<Rightarrow> analyze_item \<Rightarrow> pii_entity option" where
  "convert_item text it =
     (if ai_Start it < 0 \<or> ai_End it < ai_Start it \<or> ai_End it > int (length (rune_starts 0 text)) then None
      else Some \<lparr>ent_Type = ai_EntityType it, ent_Start = int (rune_table text ! nat (ai_Start it)),
                 ent_End = int (rune_table text ! nat (ai_End it)), ent_Score = ai_Score it\<rparr>)"

definition convertEntities :: "string \<Rightarrow> analyze_item list \<Rightarrow> pii_entity list" where
  "convertEntities text items = sort_key ent_Start (List.map_filter (convert_item text) items)"

section \<open>The call\<close>

text \<open>\<open>x < 0\<close> on a \<open>float64\<close>: sign bit set, not a zero, not a NaN.\<close>

definition f64_negative :: "float64 \<Rightarrow> bool" where
  "f64_negative x = (0x8000000000000000 < x \<and> x \<le> 0xFFF0000000000000)"

record presidio_config =
  pcf_BaseURL :: string
  pcf_DefaultLanguage :: string
  pcf_ScoreThreshold :: float64
  pcf_Timeout :: duration

definition NewAdapter :: "presidio_config \<Rightarrow> presidio_config" where
  "NewAdapter cfg =
     cfg\<lparr>pcf_DefaultLanguage := (if pcf_DefaultLanguage cfg = [] then ''en'' else pcf_DefaultLanguage cfg),
         pcf_Timeout := (if pcf_Timeout cfg \<le> 0 then 1500 * millisecond else pcf_Timeout cfg),
         pcf_ScoreThreshold := (if f64_negative (pcf_ScoreThreshold cfg) then 0 else pcf_ScoreThreshold cfg)\<rparr>"

record analyze_request =
  aq_Text :: string
  aq_Language :: string
  aq_ScoreThreshold :: float64
  aq_Entities :: "string list option"

datatype analyzer_answer = AnalyzerDown go_error | AnalyzerReply int string

record presidio_env =
  pe_config :: presidio_config
  pe_language :: string                             \<comment> \<open>of the options\<close>
  pe_marshal :: "analyze_request \<Rightarrow> go_error + string"
  pe_new_request :: "string \<Rightarrow> go_error option"
  pe_do :: "string \<Rightarrow> string \<Rightarrow> analyzer_answer"
  pe_first :: "string \<Rightarrow> go_error + json"           \<comment> \<open>the first value of the body\<close>
  pe_type_error :: go_error
  pe_score :: "string \<Rightarrow> float32 option"            \<comment> \<open>a number, read as \<open>float64\<close> and rounded\<close>

definition dec_item :: "presidio_env \<Rightarrow> jobject \<Rightarrow> analyze_item option" where
  "dec_item env fs = read_fields
     [into (value_field dec_str [] ''entity_type'' fs) ai_EntityType_update,
      into (value_field dec_int 0 ''start'' fs) ai_Start_update,
      into (value_field dec_int 0 ''end'' fs) ai_End_update,
      into (value_field (\<lambda>v. case v of JNum n \<Rightarrow> pe_score env n | _ \<Rightarrow> None) 0 ''score'' fs) ai_Score_update]
     \<lparr>ai_EntityType = [], ai_Start = 0, ai_End = 0, ai_Score = 0\<rparr>"

definition zero_item :: analyze_item where
  "zero_item = \<lparr>ai_EntityType = [], ai_Start = 0, ai_End = 0, ai_Score = 0\<rparr>"

definition dec_items_list :: "presidio_env \<Rightarrow> json \<Rightarrow> analyze_item list option" where
  "dec_items_list env v =
     (case v of JNull \<Rightarrow> Some [] | JArr vs \<Rightarrow> dec_items (dec_struct (dec_item env)) zero_item vs | _ \<Rightarrow> None)"

text \<open>The result of a call, with the counters it adds to.\<close>

definition Analyze :: "presidio_env \<Rightarrow> string \<Rightarrow> string \<Rightarrow> (go_error + pii_entity list) \<times> (string \<times> string list) list" where
  "Analyze env mode text =
     (if text = [] then (Inr [], [])
      else let cfg = pe_config env;
               language = (if pe_language env = [] then pcf_DefaultLanguage cfg else pe_language env);
               label = (if mode = [] then APIKeyPIIModeHigh else mode)
           in case pe_marshal env \<lparr>aq_Text = text, aq_Language = language, aq_ScoreThreshold = pcf_ScoreThreshold cfg,
                                   aq_Entities = presidioEntitiesForMode mode\<rparr> of
                Inl err \<Rightarrow> (Inl (WrapErr ''presidio: marshal request: '' err), [])
              | Inr body \<Rightarrow>
                  (case pe_new_request env (pcf_BaseURL cfg @ ''/analyze'') of
                     Some err \<Rightarrow> (Inl (WrapErr ''presidio: build request: '' err), [])
                   | None \<Rightarrow>
                       (case pe_do env (pcf_BaseURL cfg @ ''/analyze'') body of
                          AnalyzerDown err \<Rightarrow>
                            (Inl (WrapErr ''presidio: call analyzer: '' err), [(''pii_analyze_calls_total'', [label, ''transport_error''])])
                        | AnalyzerReply status answer \<Rightarrow>
                            (if status < 200 \<or> status \<ge> 300 then
                               (Inl (PlainErr (''presidio: analyzer http '' @ itoa_int status @ '': '' @ trim_space (take 512 answer))),
                                [(''pii_analyze_calls_total'', [label, ''http_error''])])
                             else case (case pe_first env answer of
                                          Inl err \<Rightarrow> Inl err
                                        | Inr v \<Rightarrow> (case dec_items_list env v of Some its \<Rightarrow> Inr its | None \<Rightarrow> Inl (pe_type_error env))) of
                                    Inl err \<Rightarrow>
                                      (Inl (WrapErr ''presidio: decode response: '' err), [(''pii_analyze_calls_total'', [label, ''decode_error''])])
                                  | Inr items \<Rightarrow>
                                      (let entities = convertEntities text items
                                       in (Inr entities,
                                           (''pii_analyze_calls_total'', [label, ''success''])
                                           # map (\<lambda>e. (''pii_detections_total'', [ent_Type e])) entities))))))"

text \<open>The adapter as the analyzer of the masking, and the filter that is off.\<close>

definition presidio_analyzer :: "presidio_env \<Rightarrow> string \<Rightarrow> string \<Rightarrow> go_error + pii_entity list" where
  "presidio_analyzer env mode text = fst (Analyze env mode text)"

definition NoopFilter_Analyze :: "string \<Rightarrow> string \<Rightarrow> go_error + pii_entity list" where
  "NoopFilter_Analyze mode text = Inr []"

section \<open>Runes\<close>

text \<open>The runes of a text, one after the other.\<close>

function rune_list :: "string \<Rightarrow> string list" where
  "rune_list s =
     (if s = [] then []
      else let n = (case rune_width s of None \<Rightarrow> 1 | Some n \<Rightarrow> n) in take n s # rune_list (drop n s))"
  by pat_completeness auto
termination
  by (relation "measure length") (auto dest: rune_width_pos split: option.splits)

declare rune_list.simps [simp del]

lemma concat_rune_list: "concat (rune_list s) = s"
proof (induction s rule: rune_list.induct)
  case (1 s)
  show ?case
  proof (cases "s = []")
    case False
    then show ?thesis using "1.IH" [OF False refl] by (simp add: rune_list.simps [of s] Let_def)
  qed (simp add: rune_list.simps [of "[]"])
qed

lemma rune_starts_prefix:
  "length (rune_starts i s) = length (rune_list s)
   \<and> (\<forall>k < length (rune_list s). rune_starts i s ! k = i + length (concat (take k (rune_list s))))"
proof (induction i s rule: rune_starts.induct)
  case (1 i s)
  show ?case
  proof (cases "s = []")
    case True
    then show ?thesis by (simp add: rune_starts.simps [of i "[]"] rune_list.simps [of "[]"])
  next
    case False
    define n where "n = (case rune_width s of None \<Rightarrow> 1 | Some n \<Rightarrow> n)"
    have starts: "rune_starts i s = i # rune_starts (i + n) (drop n s)" and list: "rune_list s = take n s # rune_list (drop n s)"
      using False by (simp_all add: rune_starts.simps [of i s] rune_list.simps [of s] n_def Let_def)
    have IH: "length (rune_starts (i + n) (drop n s)) = length (rune_list (drop n s))"
      "\<forall>k < length (rune_list (drop n s)). rune_starts (i + n) (drop n s) ! k = i + n + length (concat (take k (rune_list (drop n s))))"
      using "1.IH" [OF False refl] by (simp_all add: n_def)
    show ?thesis
    proof (intro conjI allI impI)
      show "length (rune_starts i s) = length (rune_list s)" using IH(1) by (simp add: starts list)
      fix k
      assume k: "k < length (rune_list s)"
      show "rune_starts i s ! k = i + length (concat (take k (rune_list s)))"
      proof (cases k)
        case (Suc j)
        have j: "j < length (rune_list (drop n s))" using k Suc by (simp add: list)
        then have "drop n s \<noteq> []" by (auto simp: rune_list.simps [of "[]"])
        then have "min (length s) n = n" by simp
        then show ?thesis using IH(2) j Suc by (simp add: starts list)
      qed (simp add: starts)
    qed
  qed
qed

lemma rune_table_nth: "k \<le> length (rune_list s) \<Longrightarrow> rune_table s ! k = length (concat (take k (rune_list s)))"
proof -
  assume k: "k \<le> length (rune_list s)"
  have len: "length (rune_starts 0 s) = length (rune_list s)" using rune_starts_prefix by blast
  show ?thesis
  proof (cases "k = length (rune_list s)")
    case True
    then show ?thesis by (simp add: rune_table_def nth_append len concat_rune_list)
  next
    case False
    then show ?thesis using k len rune_starts_prefix [of 0 s] by (simp add: rune_table_def nth_append)
  qed
qed

lemma concat_between:
  "a \<le> b \<Longrightarrow> take (length (concat (take b xs)) - length (concat (take a xs))) (drop (length (concat (take a xs))) (concat xs))
     = concat (take (b - a) (drop a xs))"
proof -
  assume "a \<le> b"
  then have b: "take b xs = take a xs @ take (b - a) (drop a xs)" by (metis le_add_diff_inverse take_add)
  have "concat xs = concat (take a xs) @ concat (take (b - a) (drop a xs)) @ concat (drop b xs)"
    by (metis append_assoc append_take_drop_id b concat_append)
  then show ?thesis by (simp add: b)
qed

lemma converted_span:
  assumes "e \<in> set (convertEntities doc items)"
  shows "\<exists>it \<in> set items. ent_Type e = ai_EntityType it \<and> 0 \<le> ai_Start it \<and> ai_Start it \<le> ai_End it
      \<and> ai_End it \<le> int (length (rune_list doc))
      \<and> take (nat (ent_End e - ent_Start e)) (drop (nat (ent_Start e)) doc)
          = concat (take (nat (ai_End it - ai_Start it)) (drop (nat (ai_Start it)) (rune_list doc)))
      \<and> 0 \<le> ent_Start e \<and> ent_Start e \<le> ent_End e \<and> ent_End e \<le> int (length doc)"
proof -
  obtain it where it: "it \<in> set items" "convert_item doc it = Some e"
    using assms by (auto simp: convertEntities_def List.map_filter_def split: option.splits)
  have len: "length (rune_starts 0 doc) = length (rune_list doc)" using rune_starts_prefix by blast
  define a b where "a = nat (ai_Start it)" and "b = nat (ai_End it)"
  have range: "0 \<le> ai_Start it" "ai_Start it \<le> ai_End it" "ai_End it \<le> int (length (rune_list doc))"
    and e: "ent_Type e = ai_EntityType it" "ent_Start e = int (rune_table doc ! a)" "ent_End e = int (rune_table doc ! b)"
    using it(2) by (auto simp: convert_item_def len a_def b_def split: if_splits)
  have ab: "a \<le> b" "b \<le> length (rune_list doc)" using range by (simp_all add: a_def b_def)
  let ?rs = "rune_list doc"
  have span: "ent_Start e = int (length (concat (take a ?rs)))" "ent_End e = int (length (concat (take b ?rs)))"
    using e ab rune_table_nth [of a doc] rune_table_nth [of b doc] by simp_all
  have "take b ?rs = take a ?rs @ take (b - a) (drop a ?rs)" by (metis ab(1) le_add_diff_inverse take_add)
  then have le: "length (concat (take a ?rs)) \<le> length (concat (take b ?rs))" by simp
  have "length (concat (take b ?rs)) \<le> length (concat ?rs)"
    by (metis append_take_drop_id concat_append le_add1 length_append)
  then have "ent_End e \<le> int (length doc)" using span by (simp add: concat_rune_list)
  moreover have "nat (ai_End it - ai_Start it) = b - a" using range by (simp add: a_def b_def nat_diff_distrib)
  moreover have "take (nat (ent_End e - ent_Start e)) (drop (nat (ent_Start e)) doc) = concat (take (b - a) (drop a ?rs))"
    using concat_between [OF ab(1), of ?rs] span le by (simp add: concat_rune_list nat_diff_distrib)
  ultimately show "\<exists>it \<in> set items. ent_Type e = ai_EntityType it \<and> 0 \<le> ai_Start it \<and> ai_Start it \<le> ai_End it
      \<and> ai_End it \<le> int (length (rune_list doc))
      \<and> take (nat (ent_End e - ent_Start e)) (drop (nat (ent_Start e)) doc)
          = concat (take (nat (ai_End it - ai_Start it)) (drop (nat (ai_Start it)) (rune_list doc)))
      \<and> 0 \<le> ent_Start e \<and> ent_Start e \<le> ent_End e \<and> ent_End e \<le> int (length doc)"
    using it(1) e(1) range span le a_def by auto
qed


definition toy_presidio :: presidio_env where
  "toy_presidio = \<lparr>pe_config = NewAdapter \<lparr>pcf_BaseURL = [], pcf_DefaultLanguage = [], pcf_ScoreThreshold = 0, pcf_Timeout = 0\<rparr>,
     pe_language = [], pe_marshal = (\<lambda>q. Inr (aq_Text q)), pe_new_request = (\<lambda>u. None), pe_do = (\<lambda>u b. AnalyzerReply 200 b),
     pe_first = (\<lambda>b. Inr (JArr [JObj [(''entity_type'', JStr ''PERSON''), (''start'', JNum ''1''), (''end'', JNum ''4'')]])),
     pe_type_error = CtxCanceled, pe_score = (\<lambda>n. Some 0)\<rparr>"

definition toy_doc :: string where "toy_doc = [CHR 0xC3, CHR 0xA9] @ ''Bob!''"

definition toy_detected :: "go_error + pii_entity list" where
  "toy_detected = presidio_analyzer toy_presidio ''high'' toy_doc"


end
