(* ===== verification/ListModels.thy ===== *)
theory ListModels
  imports Errors GoJson "HOL-Library.Multiset"
begin

text \<open>
  The public model list (\<open>services/list_models_service.go\<close>) with its cache and its coalesced
  refreshes, and the exchange rates it uses (\<open>pkg/fx/frankfurter.go\<close>). The catalog, the HTTP
  transport and the clock are parameters or part of the events.
\<close>

section \<open>Exchange rates\<close>

text \<open>A NaN; and \<open>x <= 0\<close> on a \<open>float64\<close>: a zero, or the sign bit set and not a NaN.\<close>

definition f64_nan :: "float64 \<Rightarrow> bool" where
  "f64_nan x = (0x7FF0000000000000 < x \<and> x < 0x8000000000000000 \<or> 0xFFF0000000000000 < x)"

definition f64_nonpositive :: "float64 \<Rightarrow> bool" where
  "f64_nonpositive x = (x = 0 \<or> 0x8000000000000000 \<le> x \<and> x \<le> 0xFFF0000000000000)"

definition FxCacheTTL :: duration where "FxCacheTTL = 60 * minute"

text \<open>Rates by currency pair, with when they were fetched.\<close>

type_synonym rates = "((string \<times> string) \<times> (float64 \<times> time)) list"

datatype fx_answer = FxDown go_error | FxUnreadable go_error | FxReply int string

record fx_env =
  fx_new_request :: "go_error option"
  fx_do :: "string \<Rightarrow> fx_answer"                  \<comment> \<open>by the query\<close>
  fx_parse :: "string \<Rightarrow> go_error + json"
  fx_type_error :: go_error
  fx_number :: "string \<Rightarrow> float64 option"

definition rate_value :: "fx_env \<Rightarrow> json \<Rightarrow> float64 option" where
  "rate_value env v = (case v of JNull \<Rightarrow> Some 0 | JNum n \<Rightarrow> fx_number env n | _ \<Rightarrow> None)"

definition dec_rates :: "fx_env \<Rightarrow> jobject \<Rightarrow> (string \<times> float64) list option" where
  "dec_rates env fs =
     (case nested_fields ''rates'' fs of
        None \<Rightarrow> None
      | Some rs \<Rightarrow>
          (if list_all (\<lambda>r. rate_value env (snd r) \<noteq> None) rs
           then Some (map (\<lambda>r. (fst r, the (rate_value env (snd r)))) rs) else None))"

definition fx_fetch :: "fx_env \<Rightarrow> string \<Rightarrow> string \<Rightarrow> go_error + float64" where
  "fx_fetch env source target =
     (case fx_new_request env of
        Some err \<Rightarrow> Inl (WrapErr ''fx: build request: '' err)
      | None \<Rightarrow>
          (case fx_do env (''from='' @ source @ ''&to='' @ target) of
             FxDown err \<Rightarrow> Inl (WrapErr ''fx: request failed: '' err)
           | FxUnreadable err \<Rightarrow> Inl (WrapErr ''fx: read response: '' err)
           | FxReply status body \<Rightarrow>
               (if status \<ge> 400 then Inl (PlainErr (''fx: unexpected status '' @ itoa_int status))
                else case fx_parse env (take (1024 * 1024) body) of
                       Inl err \<Rightarrow> Inl (WrapErr ''fx: decode response: '' err)
                     | Inr v \<Rightarrow>
                         (case Option.bind (body_fields (Some v)) (dec_rates env) of
                            None \<Rightarrow> Inl (WrapErr ''fx: decode response: '' (fx_type_error env))
                          | Some rs \<Rightarrow>
                              (let rate = (case map_of (rev rs) target of Some r \<Rightarrow> r | None \<Rightarrow> 0)
                               in if f64_nonpositive rate then Inl (PlainErr (''fx: missing or invalid '' @ target @ '' rate''))
                                  else Inr rate)))))"

definition Rate :: "fx_env \<Rightarrow> time \<Rightarrow> string \<Rightarrow> string \<Rightarrow> rates \<Rightarrow> (go_error + float64) \<times> rates" where
  "Rate env now source target st =
     (let cached = (case map_of st (source, target) of
                      Some (rate, at) \<Rightarrow> if f64_positive rate then Some (rate, at) else None
                    | None \<Rightarrow> None)
      in case (case cached of Some (rate, at) \<Rightarrow> if now - at < FxCacheTTL then Some rate else None | None \<Rightarrow> None) of
           Some rate \<Rightarrow> (Inr rate, st)
         | None \<Rightarrow>
             (case fx_fetch env source target of
                Inl err \<Rightarrow> (case cached of Some (rate, at) \<Rightarrow> (Inr rate, st) | None \<Rightarrow> (Inl err, st))
              | Inr rate \<Rightarrow> (Inr rate, AList.update (source, target) (rate, now) st)))"

definition USDToEUR :: "fx_env \<Rightarrow> time \<Rightarrow> rates \<Rightarrow> (go_error + float64) \<times> rates" where
  "USDToEUR env now st = Rate env now ''USD'' ''EUR'' st"

definition EURToUSD :: "fx_env \<Rightarrow> time \<Rightarrow> rates \<Rightarrow> (go_error + float64) \<times> rates" where
  "EURToUSD env now st = Rate env now ''EUR'' ''USD'' st"

section \<open>A refresh\<close>

definition CatalogCacheTTL :: duration where "CatalogCacheTTL = 60 * second"

text \<open>\<open>1.08\<close> as a \<open>float64\<close>.\<close>

definition defaultEURToUSDRate :: float64 where "defaultEURToUSDRate = 0x3FF147AE147AE148"

text \<open>What one refresh meets: the two lists and the rate.\<close>

record 'd catalog_read =
  cat_models :: "go_error + 'd public_model list"
  cat_routers :: "go_error + router_entry list"
  cat_rate :: "go_error + float64"

definition refresh_rate :: "float64 \<Rightarrow> go_error + float64 \<Rightarrow> float64" where
  "refresh_rate fallback r = (case r of Inr rate \<Rightarrow> if f64_positive rate then rate else fallback | Inl e \<Rightarrow> fallback)"

definition model_entry :: "float64 \<Rightarrow> 'd public_model \<Rightarrow> 'd model_catalog_entry" where
  "model_entry rate m = \<lparr>entry_Kind = CatalogKindPublicModel, entry_PublicModel = Some m, entry_Router = None,
     entry_EURToUSDRate = rate\<rparr>"

definition router_item :: "float64 \<Rightarrow> router_entry \<Rightarrow> 'd model_catalog_entry" where
  "router_item rate r = \<lparr>entry_Kind = CatalogKindRouter, entry_PublicModel = None, entry_Router = Some r,
     entry_EURToUSDRate = rate\<rparr>"

definition refresh :: "float64 \<Rightarrow> 'd catalog_read \<Rightarrow> go_error + 'd model_catalog_entry list" where
  "refresh fallback c =
     (case cat_models c of
        Inl e \<Rightarrow> Inl (GwErr (ErrInternal ''an internal error occurred''))
      | Inr ms \<Rightarrow>
          (case cat_routers c of
             Inl e \<Rightarrow> Inl (GwErr (ErrInternal ''an internal error occurred''))
           | Inr rs \<Rightarrow>
               (let rate = refresh_rate fallback (cat_rate c) in Inr (map (model_entry rate) ms @ map (router_item rate) rs))))"

section \<open>The service\<close>

text \<open>
  Callers arrive; one who finds the cache stale enters the singleflight group a moment later,
  starts the one flight there is or joins it, and gets its result when it lands. A flight looks
  at the cache again before it refreshes. \<open>lm_starts\<close> counts the refreshes.
\<close>

record 'd list_models =
  lm_fallback :: float64
  lm_cached :: "'d model_catalog_entry list option"
  lm_expiresAt :: time
  lm_missed :: "nat list"
  lm_flight :: "nat list option"
  lm_answers :: "(nat \<times> (go_error + 'd model_catalog_entry list)) list"
  lm_starts :: nat

definition usable_fallback :: "float64 \<Rightarrow> float64" where
  "usable_fallback fallback = (if f64_nonpositive fallback then defaultEURToUSDRate else fallback)"

definition NewListModelsServiceWithRateProvider :: "float64 \<Rightarrow> 'd list_models" where
  "NewListModelsServiceWithRateProvider fallback =
     \<lparr>lm_fallback = usable_fallback fallback, lm_cached = None,
      lm_expiresAt = zero_time, lm_missed = [], lm_flight = None, lm_answers = [], lm_starts = 0\<rparr>"

definition fromCache :: "time \<Rightarrow> 'd list_models \<Rightarrow> 'd model_catalog_entry list option" where
  "fromCache now st =
     (case lm_cached st of Some es \<Rightarrow> if now < lm_expiresAt st then Some es else None | None \<Rightarrow> None)"

datatype 'd list_event = Arrive nat time | Enter nat time | Land "'d catalog_read" time

definition Execute :: "nat \<Rightarrow> time \<Rightarrow> 'd list_models \<Rightarrow> 'd list_models" where
  "Execute caller now st =
     (case fromCache now st of
        Some es \<Rightarrow> st\<lparr>lm_answers := lm_answers st @ [(caller, Inr es)]\<rparr>
      | None \<Rightarrow> st\<lparr>lm_missed := lm_missed st @ [caller]\<rparr>)"

definition enter_flight :: "nat \<Rightarrow> time \<Rightarrow> 'd list_models \<Rightarrow> 'd list_models" where
  "enter_flight caller now st =
     (if caller \<notin> set (lm_missed st) then st
      else let st1 = st\<lparr>lm_missed := remove1 caller (lm_missed st)\<rparr>
           in case lm_flight st of
                Some ws \<Rightarrow> st1\<lparr>lm_flight := Some (ws @ [caller])\<rparr>
              | None \<Rightarrow>
                  (case fromCache now st of
                     Some es \<Rightarrow> st1\<lparr>lm_answers := lm_answers st @ [(caller, Inr es)]\<rparr>
                   | None \<Rightarrow> st1\<lparr>lm_flight := Some [caller], lm_starts := lm_starts st + 1\<rparr>))"

definition land :: "'d catalog_read \<Rightarrow> time \<Rightarrow> 'd list_models \<Rightarrow> 'd list_models" where
  "land c now st =
     (case lm_flight st of
        None \<Rightarrow> st
      | Some ws \<Rightarrow>
          (let r = refresh (lm_fallback st) c;
               st1 = st\<lparr>lm_flight := None, lm_answers := lm_answers st @ map (\<lambda>w. (w, r)) ws\<rparr>
           in case r of
                Inl e \<Rightarrow> st1
              | Inr es \<Rightarrow> st1\<lparr>lm_cached := Some es, lm_expiresAt := now + CatalogCacheTTL\<rparr>))"

fun list_step :: "'d list_event \<Rightarrow> 'd list_models \<Rightarrow> 'd list_models" where
  "list_step (Arrive caller now) st = Execute caller now st"
| "list_step (Enter caller now) st = enter_flight caller now st"
| "list_step (Land c now) st = land c now st"

fun event_time :: "'d list_event \<Rightarrow> time" where
  "event_time (Arrive caller now) = now"
| "event_time (Enter caller now) = now"
| "event_time (Land c now) = now"

section \<open>The cache bounds the load\<close>

fun arrivals :: "'d list_event list \<Rightarrow> nat list" where
  "arrivals [] = []"
| "arrivals (Arrive caller now # evs) = caller # arrivals evs"
| "arrivals (e # evs) = arrivals evs"

text \<open>Everyone who has arrived is answered once, or has missed the cache, or waits for the flight.\<close>

definition accounted :: "'d list_models \<Rightarrow> nat multiset" where
  "accounted st = mset (map fst (lm_answers st)) + mset (lm_missed st) + mset (case lm_flight st of Some ws \<Rightarrow> ws | None \<Rightarrow> [])"

lemma fst_labelled: "map fst (map (\<lambda>w. (w, r)) ws) = ws"
  by (induction ws) simp_all

lemma accounted_step: "accounted (list_step e st) = accounted st + mset (arrivals [e])"
  by (cases e) (auto simp: fst_labelled accounted_def Execute_def enter_flight_def land_def Let_def
      simp del: map_map mset_map split: option.splits sum.splits)

lemma arrivals_Cons: "arrivals (e # evs) = arrivals [e] @ arrivals evs"
  by (cases e) auto

lemma accounted_run: "accounted (fold list_step evs st) = accounted st + mset (arrivals evs)"
proof (induction evs arbitrary: st)
  case (Cons e evs)
  show ?case by (subst arrivals_Cons) (simp add: Cons accounted_step)
qed simp

text \<open>
  What holds at a time: the refreshes so far are paid for by the lifetimes of the lists they
  brought, and every list handed out or kept was brought by one of them.
\<close>

definition paced :: "time \<Rightarrow> time \<Rightarrow> 'd list_models \<Rightarrow> bool" where
  "paced t0 now st = (lm_starts st = 0 \<and> lm_flight st = None \<and> lm_cached st = None
      \<or> (if lm_flight st = None then lm_cached st \<noteq> None \<and> int (lm_starts st) * CatalogCacheTTL \<le> lm_expiresAt st - t0
             \<and> lm_expiresAt st \<le> now + CatalogCacheTTL
         else (int (lm_starts st) - 1) * CatalogCacheTTL \<le> now - t0))"

definition reads :: "'d list_event list \<Rightarrow> 'd catalog_read set" where
  "reads evs = {c. \<exists>t. Land c t \<in> set evs}"

lemma paced_step:
  assumes "paced t0 now st" and "t0 \<le> now" and "now \<le> event_time e"
    and "\<forall>c t. e = Land c t \<longrightarrow> (\<exists>es. refresh (lm_fallback st) c = Inr es)"
  shows "paced t0 (event_time e) (list_step e st)"
proof (cases e)
  case (Arrive c t)
  then show ?thesis using assms by (auto simp: paced_def Execute_def split: option.splits if_splits)
next
  case (Enter c t)
  then show ?thesis
    using assms by (auto simp: paced_def enter_flight_def fromCache_def Let_def ring_distribs split: option.splits if_splits)
next
  case (Land c t)
  then obtain es where "refresh (lm_fallback st) c = Inr es" using assms(4) by blast
  then show ?thesis
    using assms Land by (auto simp: paced_def land_def ring_distribs split: option.splits if_splits)
qed

lemma keeps_fallback: "lm_fallback (list_step e st) = lm_fallback st"
  by (cases e) (simp_all add: Execute_def enter_flight_def land_def Let_def split: option.split sum.split)

lemma paced_run:
  "paced t0 now st \<Longrightarrow> t0 \<le> now \<Longrightarrow> sorted (now # map event_time evs) \<Longrightarrow>
   (\<forall>c \<in> reads evs. \<exists>es. refresh (lm_fallback st) c = Inr es) \<Longrightarrow>
   paced t0 (last (now # map event_time evs)) (fold list_step evs st)"
proof (induction evs arbitrary: now st)
  case (Cons e evs)
  have "paced t0 (event_time e) (list_step e st)"
    using paced_step [OF Cons.prems(1,2)] Cons.prems(3,4) by (auto simp: reads_def)
  moreover have "t0 \<le> event_time e" using Cons.prems(2,3) by simp
  moreover have "sorted (event_time e # map event_time evs)" using Cons.prems(3) by simp
  moreover have "\<forall>c \<in> reads evs. \<exists>es. refresh (lm_fallback (list_step e st)) c = Inr es"
    using Cons.prems(4) by (auto simp: reads_def keeps_fallback)
  ultimately show ?case using Cons.IH [of "event_time e" "list_step e st"] by simp
qed simp

lemma paced_starts:
  assumes "paced t0 now st" and "t0 \<le> now"
  shows "(int (lm_starts st) - 1) * CatalogCacheTTL \<le> now - t0"
proof -
  have "0 < CatalogCacheTTL" by (simp add: CatalogCacheTTL_def second_def millisecond_def)
  then show ?thesis using assms by (auto simp: paced_def ring_distribs split: if_splits)
qed

definition brought :: "'d catalog_read set \<Rightarrow> 'd list_models \<Rightarrow> bool" where
  "brought cs st = (\<forall>es. Inr es \<in> snd ` set (lm_answers st) \<or> lm_cached st = Some es \<longrightarrow> (\<exists>c \<in> cs. refresh (lm_fallback st) c = Inr es))"

lemma brought_step: "brought cs st \<Longrightarrow> (\<forall>c t. e = Land c t \<longrightarrow> c \<in> cs) \<Longrightarrow> brought cs (list_step e st)"
  unfolding brought_def keeps_fallback
  by (cases e) (fastforce simp: Execute_def enter_flight_def fromCache_def land_def Let_def split: option.splits sum.splits if_splits)+

lemma brought_run: "brought cs st \<Longrightarrow> reads evs \<subseteq> cs \<Longrightarrow> brought cs (fold list_step evs st)"
proof (induction evs arbitrary: st)
  case (Cons e evs)
  then show ?case using brought_step [of cs st e] by (auto simp: reads_def)
qed simp

text \<open>
  C36: A flood of list requests costs one refresh per lifetime of the cache. However the callers
  interleave, every one who arrives is answered at most once and counted, every list handed out
  is one that a refresh brought, and while refreshes succeed their number is at most one more
  than the lifetimes of the cache that have passed, no matter how many callers come.
\<close>

theorem flood_costs_one_refresh:
  assumes "sorted (t0 # map event_time evs)"
    and "\<forall>c \<in> reads evs. \<exists>es. refresh (usable_fallback fallback) c = Inr es"
  shows "let st = fold list_step evs (NewListModelsServiceWithRateProvider fallback)
    in (int (lm_starts st) - 1) * CatalogCacheTTL \<le> last (t0 # map event_time evs) - t0
       \<and> accounted st = mset (arrivals evs)
       \<and> (\<forall>(caller, r) \<in> set (lm_answers st). \<forall>es. r = Inr es \<longrightarrow>
            (\<exists>c \<in> reads evs. refresh (usable_fallback fallback) c = Inr es))"
proof -
  let ?st0 = "NewListModelsServiceWithRateProvider fallback"
  let ?st = "fold list_step evs ?st0" and ?t1 = "last (t0 # map event_time evs)"
  have "paced t0 ?t1 ?st"
    using assms by (intro paced_run) (simp_all add: paced_def NewListModelsServiceWithRateProvider_def)
  moreover have "t0 \<le> ?t1" using assms(1) by (cases evs rule: rev_cases) auto
  ultimately have pace: "(int (lm_starts ?st) - 1) * CatalogCacheTTL \<le> ?t1 - t0" by (rule paced_starts)
  have count: "accounted ?st = mset (arrivals evs)"
    by (simp add: accounted_run) (simp add: accounted_def NewListModelsServiceWithRateProvider_def)
  have "brought (reads evs) ?st"
    by (intro brought_run) (simp_all add: brought_def NewListModelsServiceWithRateProvider_def)
  moreover have "lm_fallback ?st = usable_fallback fallback" by (induction evs rule: rev_induct) (simp_all add: keeps_fallback NewListModelsServiceWithRateProvider_def)
  ultimately have "\<forall>es. Inr es \<in> snd ` set (lm_answers ?st) \<longrightarrow> (\<exists>c \<in> reads evs. refresh (usable_fallback fallback) c = Inr es)"
    unfolding brought_def by auto
  then have "\<forall>(caller, r) \<in> set (lm_answers ?st). \<forall>es. r = Inr es \<longrightarrow> (\<exists>c \<in> reads evs. refresh (usable_fallback fallback) c = Inr es)"
    by force
  with pace count show ?thesis by (simp only: Let_def)
qed

definition toy_read :: "unit catalog_read" where
  "toy_read = \<lparr>cat_models = Inr [], cat_routers = Inr [], cat_rate = Inl CtxDeadline\<rparr>"

definition toy_flood :: "unit list_event list" where
  "toy_flood = [Arrive 1 5, Arrive 2 6, Enter 1 6, Arrive 3 6, Enter 2 6, Land toy_read 7, Enter 3 8, Arrive 4 9]"

theorem flood_costs_one_refresh_witness:
  "let st = fold list_step toy_flood (NewListModelsServiceWithRateProvider 0)
   in map fst (lm_answers st) = [1, 2, 3, 4] \<and> lm_starts st = 1 \<and> (int (lm_starts st) - 1) * CatalogCacheTTL \<le> 4"
proof -
  have ok: "\<exists>es. refresh fb toy_read = Inr es" for fb by (simp add: refresh_def toy_read_def Let_def)
  have "reads toy_flood = {toy_read}" by (auto simp: reads_def toy_flood_def)
  then have lands: "\<forall>c \<in> reads toy_flood. \<exists>es. refresh (usable_fallback 0) c = Inr es"
    using ok by simp
  have sorted: "sorted (5 # map event_time toy_flood)" and last: "last (5 # map event_time toy_flood) = 9"
    by (simp_all add: toy_flood_def)
  have "(int (lm_starts (fold list_step toy_flood (NewListModelsServiceWithRateProvider 0 :: unit list_models))) - 1)
      * CatalogCacheTTL \<le> 4"
    using flood_costs_one_refresh [OF sorted lands] unfolding Let_def last by simp
  moreover have "map fst (lm_answers (fold list_step toy_flood (NewListModelsServiceWithRateProvider 0))) = [1, 2, 3, 4]"
    and "lm_starts (fold list_step toy_flood (NewListModelsServiceWithRateProvider 0 :: unit list_models)) = 1"
    by code_simp+
  ultimately show ?thesis by (simp add: Let_def)
qed

section \<open>Rates\<close>

text \<open>
  An exchange rate is never zero or negative, and a fresh one is served as it was fetched.
  Within the lifetime of a cached rate no request is made; once a rate has been fetched for a
  pair, asking for it never fails again. A JSON number is never a NaN.
\<close>

lemma f64_cases: "f64_nonpositive x \<or> f64_positive x \<or> f64_nan x"
  unfolding f64_nonpositive_def f64_positive_def f64_nan_def
  by (cases "x = 0"; cases "x \<le> 0x7FF0000000000000"; cases "x < 0x8000000000000000"; cases "x \<le> 0xFFF0000000000000")
     (auto simp: word_neq_0_conv)

lemma rates_are_numbers:
  assumes "dec_rates env fs = Some rs" and "\<forall>n x. fx_number env n = Some x \<longrightarrow> \<not> f64_nan x"
    and "map_of (rev rs) target = Some rate"
  shows "\<not> f64_nan rate"
proof -
  have "(target, rate) \<in> set rs" using map_of_SomeD [OF assms(3)] by simp
  then obtain v where "rate_value env v = Some rate"
    using assms(1) by (fastforce simp: dec_rates_def list_all_iff split: option.splits if_splits)
  then show ?thesis using assms(2) by (cases v) (auto simp: rate_value_def f64_nan_def)
qed

theorem rates_stay_usable:
  assumes "\<forall>(rate, at) \<in> set (map snd st). f64_positive rate" and "Rate env now source target st = (r, st')"
    and "\<forall>n x. fx_number env n = Some x \<longrightarrow> \<not> f64_nan x"
  shows "(\<forall>(rate, at) \<in> set (map snd st'). f64_positive rate) \<and> (\<forall>rate. r = Inr rate \<longrightarrow> f64_positive rate)
    \<and> (map_of st (source, target) \<noteq> None \<longrightarrow> r \<noteq> Inl err)
    \<and> (\<forall>rate at. map_of st (source, target) = Some (rate, at) \<and> now - at < FxCacheTTL \<longrightarrow> r = Inr rate \<and> st' = st)"
proof -
  have pos: "f64_positive rate" if "map_of st k = Some (rate, at)" for k rate at
    using assms(1) map_of_SomeD [OF that] by force
  have fetched: "f64_positive rate" if "fx_fetch env source target = Inr rate" for rate
  proof -
    from that have "\<not> f64_nonpositive rate" "(\<exists>fs rs. dec_rates env fs = Some rs \<and> map_of (rev rs) target = Some rate) \<or> rate = 0"
      by (auto simp: fx_fetch_def Let_def bind_eq_Some_conv split: option.splits fx_answer.splits if_splits sum.splits)
    moreover have "\<not> f64_nonpositive 0 \<Longrightarrow> False" by (simp add: f64_nonpositive_def)
    ultimately show ?thesis using f64_cases [of rate] rates_are_numbers [OF _ assms(3)] by metis
  qed
  have upd: "\<forall>(rate, at) \<in> set (map snd (AList.update (source, target) (x, now) st)). f64_positive rate" if "f64_positive x" for x
  proof -
    have "set (map snd (AList.update (source, target) (x, now) st)) \<subseteq> insert (x, now) (set (map snd st))"
      by (induction st) auto
    then show ?thesis using that assms(1) by fast
  qed
  show ?thesis
  proof (cases "map_of st (source, target)")
    case None
    then show ?thesis
      using assms fetched upd by (auto simp: Rate_def split: sum.splits)
  next
    case (Some ra)
    obtain rate at where ra: "ra = (rate, at)" by force
    then have p: "f64_positive rate" using pos Some by blast
    show ?thesis
      using assms fetched upd p Some ra by (auto simp: Rate_def split: sum.splits if_splits)
  qed
qed

end
