(* ===== verification/Encodings.thy ===== *)
theory Encodings
  imports GoBase
begin

text \<open>
  The encodings of \<open>encoding/hex\<close> and \<open>encoding/base64\<close> that the enclave and its tools use, with
  their round trips.
\<close>

section \<open>Hexadecimal\<close>

definition hexDigit :: "nat \<Rightarrow> char" where
  "hexDigit d = (if d < 10 then char_of (48 + d) else char_of (87 + d))"

definition hexEncode :: "string \<Rightarrow> string" where
  "hexEncode s = concat (map (\<lambda>c. [hexDigit (byte c div 16), hexDigit (byte c mod 16)]) s)"

definition hexValue :: "char \<Rightarrow> nat option" where
  "hexValue c =
     (if is_digit c then Some (byte c - 48)
      else if 97 \<le> byte c \<and> byte c \<le> 102 then Some (byte c - 87)
      else if 65 \<le> byte c \<and> byte c \<le> 70 then Some (byte c - 55)
      else None)"

fun hexDecode :: "string \<Rightarrow> string option" where
  "hexDecode [] = Some []"
| "hexDecode [c] = None"
| "hexDecode (c # d # s) =
     (case (hexValue c, hexValue d, hexDecode s) of
        (Some a, Some b, Some r) \<Rightarrow> Some (char_of (a * 16 + b) # r)
      | _ \<Rightarrow> None)"

lemma byte_less: "byte c < 256"
  using of_char_mod_256 [of c, where 'a = nat] mod_less_divisor [of 256 "byte c"] by simp

lemma byte_of: "n < 256 \<Longrightarrow> byte (char_of n) = n"
  by simp

lemma hexValue_digit: "d < 16 \<Longrightarrow> hexValue (hexDigit d) = Some d"
  by (auto simp: hexDigit_def hexValue_def is_digit_def)

lemma byte_halves: "byte c div 16 < 16" "byte c mod 16 < 16"
  using byte_less [of c] by (simp_all add: less_mult_imp_div_less)

lemma hex_decode_encode [simp]: "hexDecode (hexEncode s) = Some s"
  by (induction s) (simp_all add: hexEncode_def hexValue_digit byte_halves)

lemma length_hex_encode [simp]: "length (hexEncode s) = 2 * length s"
  by (induction s) (simp_all add: hexEncode_def)

lemma length_hex_decode: "hexDecode s = Some d \<Longrightarrow> length s = 2 * length d"
  by (induction s arbitrary: d rule: hexDecode.induct) (auto split: option.splits)

section \<open>Base64\<close>

definition std_alphabet :: string where
  "std_alphabet = ''ABCDEFGHIJKLMNOPQRSTUVWXYZabcdefghijklmnopqrstuvwxyz0123456789+/''"

definition url_alphabet :: string where
  "url_alphabet = ''ABCDEFGHIJKLMNOPQRSTUVWXYZabcdefghijklmnopqrstuvwxyz0123456789-_''"

record base64 =
  b64_alphabet :: string
  b64_padded :: bool
  b64_strict :: bool

definition StdEncoding :: base64 where
  "StdEncoding = \<lparr>b64_alphabet = std_alphabet, b64_padded = True, b64_strict = False\<rparr>"

definition RawURLEncoding :: base64 where
  "RawURLEncoding = \<lparr>b64_alphabet = url_alphabet, b64_padded = False, b64_strict = False\<rparr>"

definition Strict :: "base64 \<Rightarrow> base64" where
  "Strict e = e\<lparr>b64_strict := True\<rparr>"

definition digit64 :: "base64 \<Rightarrow> nat \<Rightarrow> char" where
  "digit64 e d = b64_alphabet e ! d"

definition value64 :: "base64 \<Rightarrow> char \<Rightarrow> nat option" where
  "value64 e c = find (\<lambda>d. b64_alphabet e ! d = c) [0..<64]"

definition pad64 :: "base64 \<Rightarrow> nat \<Rightarrow> string" where
  "pad64 e n = (if b64_padded e then replicate n (CHR ''='') else [])"

fun EncodeToString :: "base64 \<Rightarrow> string \<Rightarrow> string" where
  "EncodeToString e [] = []"
| "EncodeToString e [a] = [digit64 e (byte a div 4), digit64 e (byte a mod 4 * 16)] @ pad64 e 2"
| "EncodeToString e [a, b] =
     [digit64 e (byte a div 4), digit64 e (byte a mod 4 * 16 + byte b div 16), digit64 e (byte b mod 16 * 4)] @ pad64 e 1"
| "EncodeToString e (a # b # c # s) =
     [digit64 e (byte a div 4), digit64 e (byte a mod 4 * 16 + byte b div 16),
      digit64 e (byte b mod 16 * 4 + byte c div 64), digit64 e (byte c mod 64)] @ EncodeToString e s"

text \<open>The last group: two digits give one byte, three give two; a strict reader wants no bits left over.\<close>

definition tail64 :: "base64 \<Rightarrow> char list \<Rightarrow> string option" where
  "tail64 e cs =
     (case map (value64 e) cs of
        [Some a, Some b] \<Rightarrow>
          if b64_strict e \<and> b mod 16 \<noteq> 0 then None else Some [char_of (a * 4 + b div 16)]
      | [Some a, Some b, Some c] \<Rightarrow>
          if b64_strict e \<and> c mod 4 \<noteq> 0 then None
          else Some [char_of (a * 4 + b div 16), char_of (b mod 16 * 16 + c div 4)]
      | _ \<Rightarrow> None)"

fun groups64 :: "base64 \<Rightarrow> string \<Rightarrow> string option" where
  "groups64 e [] = Some []"
| "groups64 e (p # q # r # t # s) =
     (case (value64 e p, value64 e q, value64 e r, value64 e t) of
        (Some a, Some b, Some c, Some d) \<Rightarrow>
          map_option (\<lambda>rest. [char_of (a * 4 + b div 16), char_of (b mod 16 * 16 + c div 4), char_of (c mod 4 * 64 + d)] @ rest)
            (groups64 e s)
      | _ \<Rightarrow>
          if b64_padded e \<and> s = [] \<and> t = CHR ''=''
          then tail64 e (if r = CHR ''='' then [p, q] else [p, q, r]) else None)"
| "groups64 e s = (if b64_padded e then None else tail64 e s)"

text \<open>The reader skips line ends wherever they stand.\<close>

definition DecodeString :: "base64 \<Rightarrow> string \<Rightarrow> string option" where
  "DecodeString e s = groups64 e (filter (\<lambda>c. c \<noteq> CHR 10 \<and> c \<noteq> CHR 13) s)"

definition EncodedLen :: "nat \<Rightarrow> nat" where
  "EncodedLen n = (n + 2) div 3 * 4"

text \<open>An alphabet of 64 distinct digits, without the padding and the line ends.\<close>

definition alphabet64 :: "base64 \<Rightarrow> bool" where
  "alphabet64 e = (length (b64_alphabet e) = 64 \<and> distinct (b64_alphabet e)
     \<and> set (b64_alphabet e) \<inter> {CHR ''='', CHR 10, CHR 13} = {})"

lemma alphabet_std: "alphabet64 StdEncoding"
  by (simp add: alphabet64_def StdEncoding_def std_alphabet_def)

lemma alphabet_url: "alphabet64 RawURLEncoding"
  by (simp add: alphabet64_def RawURLEncoding_def url_alphabet_def)

lemma alphabet_strict [simp]: "alphabet64 (Strict e) = alphabet64 e"
  by (simp add: alphabet64_def Strict_def)

lemma value64_digit:
  assumes "alphabet64 e" and "d < 64"
  shows "value64 e (digit64 e d) = Some d"
proof -
  have "find (\<lambda>k. b64_alphabet e ! k = b64_alphabet e ! d) [0..<64] = Some d"
    using assms by (auto simp: find_Some_iff alphabet64_def nth_eq_iff_index_eq intro!: exI [of _ d])
  then show ?thesis by (simp add: value64_def digit64_def)
qed

lemma digit64_plain: "alphabet64 e \<Longrightarrow> d < 64 \<Longrightarrow> digit64 e d \<noteq> CHR ''='' \<and> digit64 e d \<noteq> CHR 10 \<and> digit64 e d \<noteq> CHR 13"
  unfolding alphabet64_def digit64_def by (metis disjoint_iff insertCI nth_mem)

lemma value64_pad: "alphabet64 e \<Longrightarrow> value64 e (CHR ''='') = None"
  by (auto simp: value64_def find_None_iff alphabet64_def) (metis disjoint_iff insertCI nth_mem)

lemma byte_parts: "byte c div 4 < 64" "byte c div 16 < 16" "byte c div 64 < 4" "byte c div 16 div 16 = 0" "byte c div 16 mod 16 = byte c div 16"
  "byte c div 64 div 4 = 0" "byte c div 64 mod 4 = byte c div 64"
  using byte_less [of c] by (simp_all add: less_mult_imp_div_less flip: div_mult2_eq)

lemma sextets:
  "byte a div 4 < 64" "byte a mod 4 * 16 + byte b div 16 < 64" "byte b mod 16 * 4 + byte c div 64 < 64" "byte c mod 64 < 64"
  "byte a mod 4 * 16 < 64" "byte b mod 16 * 4 < 64"
proof -
  have "byte a mod 4 < 4" "byte b mod 16 < 16" by simp_all
  then show "byte a mod 4 * 16 + byte b div 16 < 64" "byte b mod 16 * 4 + byte c div 64 < 64"
    using byte_parts(2) [of b] byte_parts(3) [of c] by linarith+
  show "byte a mod 4 * 16 < 64" "byte b mod 16 * 4 < 64"
    using \<open>byte a mod 4 < 4\<close> \<open>byte b mod 16 < 16\<close> by linarith+
qed (simp_all add: byte_parts)

lemma regroup:
  "char_of (byte a div 4 * 4 + (byte a mod 4 * 16 + byte b div 16) div 16) = a"
  "char_of ((byte a mod 4 * 16 + byte b div 16) mod 16 * 16 + (byte b mod 16 * 4 + byte c div 64) div 4) = b"
  "char_of ((byte b mod 16 * 4 + byte c div 64) mod 4 * 64 + byte c mod 64) = c"
  "char_of (byte a div 4 * 4 + byte a mod 4 * 16 div 16) = a"
  "char_of ((byte a mod 4 * 16 + byte b div 16) mod 16 * 16 + byte b mod 16 * 4 div 4) = b"
proof -
  note b16 = byte_parts(2) [of b] and c64 = byte_parts(3) [of c]
  have "byte a div 4 * 4 + (byte a mod 4 * 16 + byte b div 16) div 16 = byte a" using b16 by simp
  then show "char_of (byte a div 4 * 4 + (byte a mod 4 * 16 + byte b div 16) div 16) = a" by simp
  have "(byte a mod 4 * 16 + byte b div 16) mod 16 = byte b div 16" using b16 by simp
  moreover have "(byte b mod 16 * 4 + byte c div 64) div 4 = byte b mod 16" using c64 by simp
  ultimately show "char_of ((byte a mod 4 * 16 + byte b div 16) mod 16 * 16 + (byte b mod 16 * 4 + byte c div 64) div 4) = b"
    by (simp add: div_mult_mod_eq)
  have "(byte b mod 16 * 4 + byte c div 64) mod 4 = byte c div 64" using c64 by simp
  then show "char_of ((byte b mod 16 * 4 + byte c div 64) mod 4 * 64 + byte c mod 64) = c" by (simp add: div_mult_mod_eq)
  show "char_of (byte a div 4 * 4 + byte a mod 4 * 16 div 16) = a" by (simp add: div_mult_mod_eq)
  show "char_of ((byte a mod 4 * 16 + byte b div 16) mod 16 * 16 + byte b mod 16 * 4 div 4) = b"
    using b16 by (simp add: div_mult_mod_eq)
qed

lemma groups64_encode: "alphabet64 e \<Longrightarrow> groups64 e (EncodeToString e s) = Some s"
proof (induction e s rule: EncodeToString.induct)
  case (2 e a)
  then show ?case
    by (simp add: pad64_def tail64_def numeral_2_eq_2 value64_digit value64_pad digit64_plain sextets regroup)
next
  case (3 e a b)
  then show ?case
    by (simp add: pad64_def tail64_def value64_digit value64_pad digit64_plain sextets regroup byte_parts div_mult_mod_eq)
next
  case (4 e a b c s)
  then show ?case by (simp add: value64_digit sextets regroup byte_parts div_mult_mod_eq)
qed simp

lemma EncodeToString_plain: "alphabet64 e \<Longrightarrow> c \<in> set (EncodeToString e s) \<Longrightarrow> c \<noteq> CHR 10 \<and> c \<noteq> CHR 13"
  by (induction e s rule: EncodeToString.induct) (auto simp: pad64_def digit64_plain sextets split: if_splits)

lemma EncodeToString_ascii:
  "alphabet64 e \<Longrightarrow> (\<forall>c \<in> set (b64_alphabet e). byte c < 128) \<Longrightarrow> c \<in> set (EncodeToString e s) \<Longrightarrow> byte c < 128"
proof (induction e s rule: EncodeToString.induct)
  case (1 e)
  then show ?case by simp
qed (auto simp: pad64_def digit64_def alphabet64_def sextets split: if_splits)

lemma StdEncoding_utf8: "utf8_valid (EncodeToString StdEncoding s)"
  using EncodeToString_ascii [OF alphabet_std, of _ s]
  by (intro utf8_valid_ascii) (simp add: StdEncoding_def std_alphabet_def)

lemma EncodeToString_Strict [simp]: "EncodeToString (Strict e) s = EncodeToString e s"
  by (induction e s rule: EncodeToString.induct) (simp_all add: Strict_def digit64_def pad64_def)

lemma DecodeString_EncodeToString [simp]: "alphabet64 e \<Longrightarrow> DecodeString e (EncodeToString e s) = Some s"
  using EncodeToString_plain [of e _ s] by (simp add: DecodeString_def groups64_encode filter_True)

lemma length_EncodeToString: "b64_padded e \<Longrightarrow> length (EncodeToString e s) = EncodedLen (length s)"
proof (induction e s rule: EncodeToString.induct)
  case (4 e a b c s)
  have "(length s + 2 + 3) div 3 = Suc ((length s + 2) div 3)" by simp
  then show ?case using 4 by (simp add: EncodedLen_def)
qed (simp_all add: pad64_def EncodedLen_def)

lemma length_EncodeToString_le: "length (EncodeToString e s) \<le> EncodedLen (length s)"
proof (induction e s rule: EncodeToString.induct)
  case (4 e a b c s)
  have "(length s + 2 + 3) div 3 = Suc ((length s + 2) div 3)" by simp
  then show ?case using 4 by (simp add: EncodedLen_def)
qed (simp_all add: pad64_def EncodedLen_def)

lemma EncodeToString_Nil [simp]: "EncodeToString e s = [] \<longleftrightarrow> s = []"
  by (cases "(e, s)" rule: EncodeToString.cases) auto

end
