(* ===== verification/Bundle.thy ===== *)
theory Bundle
  imports Encodings Errors "HOL-Library.Multiset"
begin

text \<open>
  The secret bundle of the enclave (\<open>internal/enclavebundle/bundle.go\<close>): the gateway's runtime
  configuration sealed under a data key and bound to the measured build. The JSON codec, the AEAD
  and the URL parser are parameters. A Go map is an association list with distinct keys, sorted by key;
  the order in which a loop ranges over it is a parameter too.
\<close>

section \<open>Data\<close>

definition SchemaVersion :: int where "SchemaVersion = 1"
definition BootstrapSchemaVersion :: int where "BootstrapSchemaVersion = 1"
definition dataKeyBytes :: nat where "dataKeyBytes = 32"
definition maxEncryptedKeySize :: nat where "maxEncryptedKeySize = 16 * 1024"
definition maxCiphertextSize :: nat where "maxCiphertextSize = 128 * 1024"
definition maxEnvironmentBytes :: nat where "maxEnvironmentBytes = 64 * 1024"
definition maxEnvironmentValue :: nat where "maxEnvironmentValue = 8 * 1024"

type_synonym string_map = "(string \<times> string) list"

definition map_value :: "string_map \<Rightarrow> string \<Rightarrow> string" where
  "map_value m k = (case map_of m k of Some v \<Rightarrow> v | None \<Rightarrow> [])"

text \<open>The regular expression \<open>^[A-Z][A-Z0-9_]{0,119}_API_KEY$\<close>.\<close>

definition key_suffix :: string where "key_suffix = ''_API_KEY''"

definition providerSecretPattern :: "string \<Rightarrow> bool" where
  "providerSecretPattern key =
     (has_suffix key key_suffix \<and>
      (case trim_suffix key key_suffix of
         [] \<Rightarrow> False
       | c # cs \<Rightarrow> is_upper c \<and> length cs \<le> 119 \<and> list_all (\<lambda>d. is_upper d \<or> is_digit d \<or> d = CHR ''_'') cs))"

definition allowedEnvironmentKeys :: "string list" where
  "allowedEnvironmentKeys =
     [''METERING_URL'', ''METERING_TOKEN'', ''ROUTER_URL'', ''LOG_LEVEL'', ''EUR_TO_USD_FALLBACK_RATE'',
      ''PII_FILTER_ENABLED'', ''PRESIDIO_ANALYZER_URL'', ''PII_FILTER_LANGUAGE'', ''PII_FILTER_SCORE_THRESHOLD'',
      ''PII_FILTER_TIMEOUT_MS'', ''PII_FILTER_FAIL_OPEN'', ''TINFOIL_PROXY_BASE_URL'', ''TINFOIL_CONFIG_REPO'',
      ''TINFOIL_ENCLAVE_HOST'', ''TINFOIL_ATTESTATION_BUNDLE_URL'']"

record sealed_envelope =
  en_SchemaVersion :: int
  en_KMSKeyARN :: string
  en_AWSRegion :: string
  en_EncryptionContext :: string_map
  en_EncryptedDataKey :: string
  en_Nonce :: string
  en_Ciphertext :: string

record secret_bundle =
  sb_SchemaVersion :: int
  sb_SourceRevision :: string
  sb_IssuedAt :: time
  sb_ExpiresAt :: "time option"
  sb_Environment :: string_map

record aws_credentials =
  cr_AccessKeyID :: string
  cr_SecretAccessKey :: string
  cr_SessionToken :: string
  cr_ExpiresAt :: time

record bootstrap_request =
  br_SchemaVersion :: int
  br_Credentials :: aws_credentials
  br_Envelope :: sealed_envelope

text \<open>The fields of the envelope that the AEAD binds.\<close>

record envelope_header =
  eh_SchemaVersion :: int
  eh_KMSKeyARN :: string
  eh_AWSRegion :: string
  eh_EncryptionContext :: string_map

record parsed_url =
  ur_Scheme :: string
  ur_Hostname :: string
  ur_User :: bool
  ur_Fragment :: string

text \<open>
  A strict JSON reader takes the first value, with unknown fields refused, and says whether the
  input ends there.
\<close>

type_synonym 'a strict_reader = "string \<Rightarrow> go_error + ('a \<times> bool)"

record bundle_env =
  be_marshal :: "secret_bundle \<Rightarrow> go_error + string"
  be_decode :: "secret_bundle strict_reader"
  be_header :: "envelope_header \<Rightarrow> go_error + string"
  be_new_aead :: "string \<Rightarrow> go_error option"                          \<comment> \<open>AES-GCM under a key\<close>
  be_seal :: "string \<Rightarrow> string \<Rightarrow> string \<Rightarrow> string \<Rightarrow> string"         \<comment> \<open>key, nonce, plaintext, data\<close>
  be_open :: "string \<Rightarrow> string \<Rightarrow> string \<Rightarrow> string \<Rightarrow> string option"
  be_url :: "string \<Rightarrow> parsed_url option"
  be_range :: "string_map \<Rightarrow> string_map"              \<comment> \<open>the order of the loop that validates\<close>
  be_range_set :: "string_map \<Rightarrow> string_map"          \<comment> \<open>the order of the loop that sets\<close>

definition NonceSize :: nat where "NonceSize = 12"

section \<open>Validation\<close>

definition bad_credential :: "nat \<Rightarrow> string \<Rightarrow> bool" where
  "bad_credential limit s = (length s < 16 \<or> length s > limit \<or> contains_any s [CHR 13, CHR 10, CHR 0x00])"

definition ValidateBootstrapRequest :: "bootstrap_request \<Rightarrow> time \<Rightarrow> go_error option" where
  "ValidateBootstrapRequest request now =
     (if br_SchemaVersion request \<noteq> BootstrapSchemaVersion
      then Some (PlainErr (''unsupported bootstrap schema '' @ itoa_int (br_SchemaVersion request)))
      else let c = br_Credentials request
           in if bad_credential 128 (cr_AccessKeyID c) then Some (PlainErr ''bootstrap AWS access key ID is invalid'')
              else if bad_credential 256 (cr_SecretAccessKey c) then Some (PlainErr ''bootstrap AWS secret access key is invalid'')
              else if bad_credential (16 * 1024) (cr_SessionToken c)
              then Some (PlainErr ''bootstrap requires temporary AWS credentials with a session token'')
              else if cr_ExpiresAt c = zero_time \<or> \<not> cr_ExpiresAt c > now + 2 * minute
              then Some (PlainErr ''bootstrap AWS credentials are expired or too close to expiration'')
              else None)"

definition EncryptionContext :: "string \<Rightarrow> string_map" where
  "EncryptionContext sourceRevision =
     [(''nexus:bundle-schema'', itoa_int SchemaVersion), (''nexus:source-revision'', sourceRevision),
      (''nexus:workload'', ''dappnode-nexus-gateway'')]"

definition validateEnvelopeHeader :: "sealed_envelope \<Rightarrow> string \<Rightarrow> string \<Rightarrow> string \<Rightarrow> go_error option" where
  "validateEnvelopeHeader e expectedKMSKeyARN expectedRegion expectedRevision =
     (if en_SchemaVersion e \<noteq> SchemaVersion
      then Some (PlainErr (''unsupported encrypted envelope schema '' @ itoa_int (en_SchemaVersion e)))
      else if en_KMSKeyARN e = [] \<or> en_KMSKeyARN e \<noteq> expectedKMSKeyARN
      then Some (PlainErr ''encrypted envelope KMS key does not match the measured build'')
      else if en_AWSRegion e = [] \<or> en_AWSRegion e \<noteq> expectedRegion
      then Some (PlainErr ''encrypted envelope AWS region does not match the measured build'')
      else let expectedContext = EncryptionContext expectedRevision
           in if length (en_EncryptionContext e) \<noteq> length expectedContext
                 \<or> \<not> list_all (\<lambda>(key, v). map_value (en_EncryptionContext e) key = v) expectedContext
              then Some (PlainErr ''encrypted envelope KMS context is invalid'')
              else None)"

definition decodeBounded :: "string \<Rightarrow> string \<Rightarrow> nat \<Rightarrow> go_error + string" where
  "decodeBounded name encoded maximum =
     (if encoded = [] \<or> length encoded > EncodedLen maximum then Inl (PlainErr (name @ '' has an invalid size''))
      else case DecodeString StdEncoding encoded of
        None \<Rightarrow> Inl (PlainErr (name @ '' is not valid bounded base64''))
      | Some decoded \<Rightarrow>
          (if decoded = [] \<or> length decoded > maximum then Inl (PlainErr (name @ '' is not valid bounded base64''))
           else Inr decoded))"

definition DecodeEncryptedDataKey :: "sealed_envelope \<Rightarrow> go_error + string" where
  "DecodeEncryptedDataKey e = decodeBounded ''encrypted_data_key'' (en_EncryptedDataKey e) maxEncryptedKeySize"

definition ValidateEnvelope :: "sealed_envelope \<Rightarrow> string \<Rightarrow> string \<Rightarrow> string \<Rightarrow> go_error option" where
  "ValidateEnvelope e expectedKMSKeyARN expectedRegion expectedRevision =
     (case validateEnvelopeHeader e expectedKMSKeyARN expectedRegion expectedRevision of
        Some err \<Rightarrow> Some err
      | None \<Rightarrow>
     (case DecodeEncryptedDataKey e of Inl err \<Rightarrow> Some err | Inr k \<Rightarrow>
     (case decodeBounded ''nonce'' (en_Nonce e) 64 of Inl err \<Rightarrow> Some err | Inr n \<Rightarrow>
     (case decodeBounded ''ciphertext'' (en_Ciphertext e) maxCiphertextSize of Inl err \<Rightarrow> Some err | Inr c \<Rightarrow> None))))"

definition allowed_key :: "string \<Rightarrow> bool" where
  "allowed_key key = (key \<in> set allowedEnvironmentKeys \<or> providerSecretPattern key)"

definition quote :: "string \<Rightarrow> string" where
  "quote s = CHR 34 # s @ [CHR 34]"

fun validateEnvironment :: "nat \<Rightarrow> string_map \<Rightarrow> go_error option" where
  "validateEnvironment used [] = None"
| "validateEnvironment used ((key, v) # environment) =
     (if \<not> allowed_key key
      then Some (PlainErr (''environment key '' @ quote key @ '' is not allowed in an enclave secret bundle''))
      else if v = [] then Some (PlainErr (''environment value '' @ quote key @ '' is empty''))
      else if length v > maxEnvironmentValue \<or> CHR 0x00 \<in> set v
      then Some (PlainErr (''environment value '' @ quote key @ '' has an invalid size or format''))
      else if used + length key + length v > maxEnvironmentBytes
      then Some (PlainErr ''secret bundle environment is too large'')
      else validateEnvironment (used + length key + length v) environment)"

definition validateHTTPSURL :: "bundle_env \<Rightarrow> string \<Rightarrow> string \<Rightarrow> go_error option" where
  "validateHTTPSURL env name v =
     (case be_url env (trim_space v) of
        Some u \<Rightarrow>
          if ur_Scheme u \<noteq> ''https'' \<or> ur_Hostname u = [] \<or> ur_User u \<or> ur_Fragment u \<noteq> []
          then Some (PlainErr (name @ '' must be an HTTPS origin without credentials or fragments'')) else None
      | None \<Rightarrow> Some (PlainErr (name @ '' must be an HTTPS origin without credentials or fragments'')))"

definition ValidateSecretBundle :: "bundle_env \<Rightarrow> secret_bundle \<Rightarrow> string \<Rightarrow> time \<Rightarrow> go_error option" where
  "ValidateSecretBundle env bundle expectedRevision now =
     (if sb_SchemaVersion bundle \<noteq> SchemaVersion
      then Some (PlainErr (''unsupported secret bundle schema '' @ itoa_int (sb_SchemaVersion bundle)))
      else if sb_SourceRevision bundle = [] \<or> sb_SourceRevision bundle \<noteq> expectedRevision
      then Some (PlainErr ''secret bundle source revision does not match the measured build'')
      else if sb_IssuedAt bundle = zero_time then Some (PlainErr ''secret bundle issued_at is required'')
      else if sb_IssuedAt bundle > now + 5 * minute then Some (PlainErr ''secret bundle issued_at is in the future'')
      else case (case sb_ExpiresAt bundle of
                   None \<Rightarrow> None
                 | Some expires \<Rightarrow>
                     if \<not> expires > sb_IssuedAt bundle then Some (PlainErr ''secret bundle expires_at must be after issued_at'')
                     else if \<not> expires > now then Some (PlainErr ''secret bundle has expired'') else None) of
        Some err \<Rightarrow> Some err
      | None \<Rightarrow>
          (if sb_Environment bundle = [] then Some (PlainErr ''secret bundle environment is empty'')
           else case validateEnvironment 0 (be_range env (sb_Environment bundle)) of
             Some err \<Rightarrow> Some err
           | None \<Rightarrow>
               (case validateHTTPSURL env ''METERING_URL'' (map_value (sb_Environment bundle) ''METERING_URL'') of
                  Some err \<Rightarrow> Some err
                | None \<Rightarrow>
                    (if trim_space (map_value (sb_Environment bundle) ''METERING_TOKEN'') = []
                     then Some (PlainErr ''METERING_TOKEN is required'')
                     else let routerURL = trim_space (map_value (sb_Environment bundle) ''ROUTER_URL'')
                          in if routerURL \<noteq> [] then validateHTTPSURL env ''ROUTER_URL'' routerURL else None))))"

section \<open>Sealing and opening\<close>

definition envelopeAAD :: "bundle_env \<Rightarrow> sealed_envelope \<Rightarrow> go_error + string" where
  "envelopeAAD env e =
     (case be_header env \<lparr>eh_SchemaVersion = en_SchemaVersion e, eh_KMSKeyARN = en_KMSKeyARN e,
         eh_AWSRegion = en_AWSRegion e, eh_EncryptionContext = en_EncryptionContext e\<rparr> of
        Inl err \<Rightarrow> Inl (WrapErr ''encode encrypted envelope header: '' err)
      | Inr aad \<Rightarrow> Inr aad)"

text \<open>The nonce is drawn by the caller of the model, or the draw fails.\<close>

definition Encrypt :: "bundle_env \<Rightarrow> time \<Rightarrow> go_error + string \<Rightarrow> secret_bundle \<Rightarrow> string \<Rightarrow> string \<Rightarrow> string \<Rightarrow> go_error + sealed_envelope" where
  "Encrypt env now drawn bundle dataKey kmsKeyARN region =
     (if length dataKey \<noteq> dataKeyBytes then Inl (PlainErr (''data key must be '' @ itoa dataKeyBytes @ '' bytes''))
      else case ValidateSecretBundle env bundle (sb_SourceRevision bundle) now of
        Some err \<Rightarrow> Inl err
      | None \<Rightarrow>
     (let e = \<lparr>en_SchemaVersion = SchemaVersion, en_KMSKeyARN = trim_space kmsKeyARN, en_AWSRegion = trim_space region,
               en_EncryptionContext = EncryptionContext (sb_SourceRevision bundle),
               en_EncryptedDataKey = [], en_Nonce = [], en_Ciphertext = []\<rparr>
      in case validateEnvelopeHeader e (en_KMSKeyARN e) (en_AWSRegion e) (sb_SourceRevision bundle) of
        Some err \<Rightarrow> Inl err
      | None \<Rightarrow>
     (case be_marshal env bundle of
        Inl err \<Rightarrow> Inl (WrapErr ''marshal secret bundle: '' err)
      | Inr plaintext \<Rightarrow>
     (case be_new_aead env dataKey of
        Some err \<Rightarrow> Inl (WrapErr ''initialize bundle cipher: '' err)
      | None \<Rightarrow>
     (case drawn of
        Inl err \<Rightarrow> Inl (WrapErr ''generate bundle nonce: '' err)
      | Inr nonce \<Rightarrow>
     (case envelopeAAD env e of
        Inl err \<Rightarrow> Inl err
      | Inr aad \<Rightarrow>
          (let ciphertext = be_seal env dataKey nonce plaintext aad
           in if length ciphertext > maxCiphertextSize then Inl (PlainErr ''encrypted secret bundle is too large'')
              else Inr (e\<lparr>en_Nonce := EncodeToString StdEncoding nonce,
                          en_Ciphertext := EncodeToString StdEncoding ciphertext\<rparr>))))))))"

definition Decrypt :: "bundle_env \<Rightarrow> sealed_envelope \<Rightarrow> string \<Rightarrow> string \<Rightarrow> string \<Rightarrow> string \<Rightarrow> time \<Rightarrow> go_error + secret_bundle" where
  "Decrypt env e dataKey expectedKMSKeyARN expectedRegion expectedRevision now =
     (if length dataKey \<noteq> dataKeyBytes then Inl (PlainErr (''data key must be '' @ itoa dataKeyBytes @ '' bytes''))
      else case validateEnvelopeHeader e expectedKMSKeyARN expectedRegion expectedRevision of
        Some err \<Rightarrow> Inl err
      | None \<Rightarrow>
     (case decodeBounded ''nonce'' (en_Nonce e) 64 of Inl err \<Rightarrow> Inl err | Inr nonce \<Rightarrow>
     (case decodeBounded ''ciphertext'' (en_Ciphertext e) maxCiphertextSize of Inl err \<Rightarrow> Inl err | Inr ciphertext \<Rightarrow>
     (case be_new_aead env dataKey of
        Some err \<Rightarrow> Inl (WrapErr ''initialize bundle cipher: '' err)
      | None \<Rightarrow>
     (if length nonce \<noteq> NonceSize then Inl (PlainErr ''secret bundle nonce has an invalid size'')
      else case envelopeAAD env e of
        Inl err \<Rightarrow> Inl err
      | Inr aad \<Rightarrow>
     (case be_open env dataKey nonce ciphertext aad of
        None \<Rightarrow> Inl (PlainErr ''authenticate and decrypt secret bundle'')
      | Some plaintext \<Rightarrow>
     (case be_decode env plaintext of
        Inl err \<Rightarrow> Inl (WrapErr ''decode secret bundle: '' err)
      | Inr (bundle, ends) \<Rightarrow>
          (if \<not> ends then Inl (PlainErr ''secret bundle must contain exactly one JSON value'')
           else case ValidateSecretBundle env bundle expectedRevision now of
             Some err \<Rightarrow> Inl err
           | None \<Rightarrow> Inr bundle))))))))"

section \<open>What validation gives\<close>

lemma validateEnvironment_sound:
  "validateEnvironment used environment = None \<Longrightarrow>
   (\<forall>(key, v) \<in> set environment. allowed_key key \<and> v \<noteq> [] \<and> length v \<le> maxEnvironmentValue \<and> CHR 0x00 \<notin> set v)
   \<and> (environment \<noteq> [] \<longrightarrow> used + (\<Sum>(key, v) \<leftarrow> environment. length key + length v) \<le> maxEnvironmentBytes)"
proof (induction used environment rule: validateEnvironment.induct)
  case (2 used key v environment)
  then show ?case by (cases "environment = []") (auto split: if_splits)
qed simp

lemma valid_bundle:
  assumes "ValidateSecretBundle env bundle revision now = None"
  shows "sb_SourceRevision bundle = revision \<and> revision \<noteq> [] \<and> sb_IssuedAt bundle \<le> now + 5 * minute
    \<and> (\<forall>expires. sb_ExpiresAt bundle = Some expires \<longrightarrow> now < expires \<and> sb_IssuedAt bundle < expires)
    \<and> sb_Environment bundle \<noteq> [] \<and> validateEnvironment 0 (be_range env (sb_Environment bundle)) = None
    \<and> trim_space (map_value (sb_Environment bundle) ''METERING_TOKEN'') \<noteq> []
    \<and> validateHTTPSURL env ''METERING_URL'' (map_value (sb_Environment bundle) ''METERING_URL'') = None"
  using assms by (auto simp: ValidateSecretBundle_def Let_def split: if_splits option.splits)

text \<open>A loop over a map visits every entry once.\<close>

definition ranges :: "bundle_env \<Rightarrow> bool" where
  "ranges env = (\<forall>m. mset (be_range env m) = mset m \<and> mset (be_range_set env m) = mset m)"

lemma ranges_set: "ranges env \<Longrightarrow> set (be_range env m) = set m \<and> set (be_range_set env m) = set m"
  unfolding ranges_def by (metis set_mset_mset)

lemma valid_entries:
  assumes "ValidateSecretBundle env bundle revision now = None" and "ranges env"
  shows "\<forall>(key, v) \<in> set (sb_Environment bundle). allowed_key key \<and> v \<noteq> [] \<and> length v \<le> maxEnvironmentValue \<and> CHR 0x00 \<notin> set v"
  using valid_bundle [OF assms(1)] validateEnvironment_sound [of 0 "be_range env (sb_Environment bundle)"] ranges_set [OF assms(2)]
  by simp

text \<open>A bundle stays valid until it expires.\<close>

lemma ValidateSecretBundle_later:
  assumes "ValidateSecretBundle env bundle revision now = None" and "now \<le> later"
    and "\<And>expires. sb_ExpiresAt bundle = Some expires \<Longrightarrow> later < expires"
  shows "ValidateSecretBundle env bundle revision later = None"
  using assms by (auto simp: ValidateSecretBundle_def Let_def split: if_splits option.splits)

lemma header_context:
  "validateEnvelopeHeader e arn region revision = None \<Longrightarrow>
   en_KMSKeyARN e = arn \<and> en_AWSRegion e = region \<and> map_value (en_EncryptionContext e) ''nexus:source-revision'' = revision"
  by (auto simp: validateEnvelopeHeader_def EncryptionContext_def Let_def split: if_splits)

lemma decodeBounded_encode:
  "s \<noteq> [] \<Longrightarrow> length s \<le> maximum \<Longrightarrow> decodeBounded name (EncodeToString StdEncoding s) maximum = Inr s"
proof -
  assume "s \<noteq> []" "length s \<le> maximum"
  moreover from this have "EncodedLen (length s) \<le> EncodedLen maximum" by (simp add: EncodedLen_def div_le_mono)
  moreover have "length (EncodeToString StdEncoding s) = EncodedLen (length s)"
    by (simp add: length_EncodeToString StdEncoding_def)
  ultimately show ?thesis by (simp add: decodeBounded_def alphabet_std)
qed

lemma header_fields [simp]:
  "validateEnvelopeHeader (e\<lparr>en_Nonce := n\<rparr>) = validateEnvelopeHeader e"
  "validateEnvelopeHeader (e\<lparr>en_Ciphertext := c\<rparr>) = validateEnvelopeHeader e"
  "validateEnvelopeHeader (e\<lparr>en_EncryptedDataKey := k\<rparr>) = validateEnvelopeHeader e"
  "envelopeAAD env (e\<lparr>en_Nonce := n\<rparr>) = envelopeAAD env e"
  "envelopeAAD env (e\<lparr>en_Ciphertext := c\<rparr>) = envelopeAAD env e"
  "envelopeAAD env (e\<lparr>en_EncryptedDataKey := k\<rparr>) = envelopeAAD env e"
  by (intro ext, simp add: validateEnvelopeHeader_def)+ (simp_all add: envelopeAAD_def)

lemma Decrypt_Encrypt:
  assumes "Encrypt env now (Inr nonce) bundle dataKey arn region = Inr e"
    and "length nonce = NonceSize" and "\<And>p. be_marshal env bundle = Inr p \<Longrightarrow> be_decode env p = Inr (bundle, True)"
    and "\<And>k n p a. be_open env k n (be_seal env k n p a) a = Some p" and "\<And>k n p a. be_seal env k n p a \<noteq> []"
    and "now \<le> later" and "\<And>expires. sb_ExpiresAt bundle = Some expires \<Longrightarrow> later < expires"
  shows "Decrypt env (e\<lparr>en_EncryptedDataKey := w\<rparr>) dataKey (trim_space arn) (trim_space region) (sb_SourceRevision bundle) later = Inr bundle"
proof -
  let ?e = "\<lparr>en_SchemaVersion = SchemaVersion, en_KMSKeyARN = trim_space arn, en_AWSRegion = trim_space region,
     en_EncryptionContext = EncryptionContext (sb_SourceRevision bundle), en_EncryptedDataKey = [], en_Nonce = [], en_Ciphertext = []\<rparr>"
  obtain p aad where parts: "length dataKey = dataKeyBytes" "ValidateSecretBundle env bundle (sb_SourceRevision bundle) now = None"
      "validateEnvelopeHeader ?e (trim_space arn) (trim_space region) (sb_SourceRevision bundle) = None"
      "be_marshal env bundle = Inr p" "be_new_aead env dataKey = None" "envelopeAAD env ?e = Inr aad"
      "length (be_seal env dataKey nonce p aad) \<le> maxCiphertextSize"
    and e: "e = ?e\<lparr>en_Nonce := EncodeToString StdEncoding nonce, en_Ciphertext := EncodeToString StdEncoding (be_seal env dataKey nonce p aad)\<rparr>"
    using assms(1) by (auto simp: Encrypt_def Let_def not_less split: if_splits option.splits sum.splits)
  let ?w = "e\<lparr>en_EncryptedDataKey := w\<rparr>"
  have "validateEnvelopeHeader ?w (trim_space arn) (trim_space region) (sb_SourceRevision bundle) = None"
    using parts(3) unfolding e header_fields .
  moreover have "envelopeAAD env ?w = Inr aad" using parts(6) unfolding e header_fields .
  moreover have "decodeBounded ''nonce'' (en_Nonce ?w) 64 = Inr nonce"
    using assms(2) by (simp add: e, subst decodeBounded_encode) (auto simp: NonceSize_def)
  moreover have "decodeBounded ''ciphertext'' (en_Ciphertext ?w) maxCiphertextSize = Inr (be_seal env dataKey nonce p aad)"
    using parts(7) assms(5) by (simp add: e decodeBounded_encode)
  moreover have "ValidateSecretBundle env bundle (sb_SourceRevision bundle) later = None"
    using ValidateSecretBundle_later [OF parts(2) assms(6,7)] .
  ultimately show ?thesis
    using parts(1,5) assms(2) assms(3) [OF parts(4)] by (simp add: Decrypt_def assms(4))
qed

end
