(* ===== verification/Ber.thy ===== *)
theory Ber
  imports Errors "HOL-Library.Word"
begin

text \<open>
  The normalisation of BER to DER of the enclave bootstrap (\<open>enclave/bootstrap/cms.go\<close>): KMS
  answers with a CMS structure in BER, and Go's ASN.1 reader takes DER only. The theory models
  the recursive reader with its limits, states BER and DER as encodings of one tree, and shows
  that the reader gives the DER encoding of the tree it read.
\<close>

unbundle bit_operations_syntax

section \<open>The reader\<close>

type_synonym octet = "8 word"
type_synonym octets = "octet list"

definition maxKMSRecipientBytes :: nat where "maxKMSRecipientBytes = 6 * 1024"
definition maxBERDepth :: nat where "maxBERDepth = 16"

text \<open>The big-endian digits of a length, base 256, most significant first.\<close>

fun length_octets :: "nat \<Rightarrow> octets" where
  "length_octets n = (if n = 0 then [] else length_octets (n div 256) @ [word_of_nat n])"

declare length_octets.simps [simp del]

definition encode_length :: "nat \<Rightarrow> octets" where
  "encode_length n =
     (if n < 128 then [word_of_nat n]
      else (0x80 OR word_of_nat (length (length_octets n))) # length_octets n)"

definition encodeDERElement :: "octets \<Rightarrow> octets \<Rightarrow> octets" where
  "encodeDERElement tag content = tag @ encode_length (length content) @ content"

text \<open>Where the identifier octets end; the high-tag form has at most four more octets.\<close>

function high_tag_end :: "octets \<Rightarrow> nat \<Rightarrow> nat \<Rightarrow> nat option" where
  "high_tag_end encoded count position =
     (if position \<ge> length encoded \<or> count \<ge> 4 then None
      else if encoded ! position AND 0x80 = 0 then Some (position + 1)
      else high_tag_end encoded (count + 1) (position + 1))"
  by pat_completeness auto
termination by (relation "measure (\<lambda>(encoded, count, position). 4 - count)") auto

declare high_tag_end.simps [simp del]

definition tag_end :: "octets \<Rightarrow> nat option" where
  "tag_end encoded = (if encoded ! 0 AND 0x1f = 0x1f then high_tag_end encoded 0 1 else Some 1)"

text \<open>
  The length octets at a position: the length, where the content starts, and whether the length
  is indefinite. Four octets never overflow an \<open>int\<close>, so the length is a natural number.
\<close>

definition octets_value :: "octets \<Rightarrow> nat" where
  "octets_value = foldl (\<lambda>l b. l * 256 + unat b) 0"

definition read_length :: "octets \<Rightarrow> nat \<Rightarrow> go_error + (nat \<times> nat \<times> bool)" where
  "read_length encoded position =
     (let lengthByte = encoded ! position; position = position + 1
      in if lengthByte = 0x80 then Inr (0, position, True)
         else case (if lengthByte AND 0x80 = 0 then Inr (unat lengthByte, position)
                    else let lengthBytes = unat (lengthByte AND 0x7f)
                         in if lengthBytes = 0 \<or> lengthBytes > 4 \<or> position + lengthBytes > length encoded
                               \<or> encoded ! position = 0
                            then Inl (PlainErr ''BER long-form length is invalid'')
                            else Inr (octets_value (take lengthBytes (drop position encoded)), position + lengthBytes)) of
                Inl err \<Rightarrow> Inl err
              | Inr (n, position) \<Rightarrow>
                  (if n > maxKMSRecipientBytes \<or> position + n > length encoded
                   then Inl (PlainErr ''BER content length is invalid'')
                   else Inr (n, position, False)))"

text \<open>What the reader gives: the DER octets, how many it consumed, and whether it met an end marker.\<close>

type_synonym ber_result = "go_error + (octets \<times> nat \<times> bool)"

text \<open>The loop over the children, with the reader of a child as an argument.\<close>

function ber_children :: "(octets \<Rightarrow> ber_result) \<Rightarrow> octets \<Rightarrow> octets \<Rightarrow> bool \<Rightarrow> nat \<Rightarrow> nat \<Rightarrow> octets \<Rightarrow> ber_result" where
  "ber_children child tag encoded indefinite limit position content =
     (if position < limit then
        (case child (take (limit - position) (drop position encoded)) of
           Inl err \<Rightarrow> Inl err
         | Inr (c, consumed, endOfContents) \<Rightarrow>
             (if endOfContents then
                (if \<not> indefinite then Inl (PlainErr ''BER definite value contains an unexpected terminator'')
                 else Inr (encodeDERElement tag content, position + consumed, False))
              else if consumed = 0 \<or> length content + length c > maxKMSRecipientBytes
              then Inl (PlainErr ''BER constructed content is invalid or too large'')
              else ber_children child tag encoded indefinite limit (position + consumed) (content @ c)))
      else if indefinite then Inl (PlainErr ''BER indefinite value has no terminator'')
      else Inr (encodeDERElement tag content, position, False))"
  by pat_completeness auto
termination by (relation "measure (\<lambda>(child, tag, encoded, indefinite, limit, position, content). limit - position)") auto

declare ber_children.simps [simp del]

function normalizeBERElement :: "octets \<Rightarrow> nat \<Rightarrow> ber_result" where
  "normalizeBERElement encoded depth =
     (if depth > maxBERDepth \<or> length encoded < 2
      then Inl (PlainErr ''BER value is truncated or nested too deeply'')
      else if encoded ! 0 = 0 \<and> encoded ! 1 = 0 then Inr ([], 2, True)
      else case tag_end encoded of
        None \<Rightarrow> Inl (PlainErr ''BER high-tag form is invalid'')
      | Some position \<Rightarrow>
          (if position \<ge> length encoded then Inl (PlainErr ''BER length is missing'')
           else case read_length encoded position of
             Inl err \<Rightarrow> Inl err
           | Inr (n, start, indefinite) \<Rightarrow>
               (let tag = take position encoded; constructed = (encoded ! 0 AND 0x20 \<noteq> 0)
                in if indefinite \<and> \<not> constructed
                   then Inl (PlainErr ''BER primitive uses an indefinite length'')
                   else if \<not> constructed
                   then Inr (encodeDERElement tag (take n (drop start encoded)), start + n, False)
                   else ber_children (\<lambda>e. normalizeBERElement e (depth + 1)) tag encoded indefinite
                     (if indefinite then length encoded else start + n) start [])))"
  by pat_completeness auto
termination by (relation "measure (\<lambda>(encoded, depth). Suc maxBERDepth - depth)") auto

declare normalizeBERElement.simps [simp del]

definition normalizeBER :: "octets \<Rightarrow> go_error + octets" where
  "normalizeBER encoded =
     (case normalizeBERElement encoded 0 of
        Inl err \<Rightarrow> Inl err
      | Inr (normalized, consumed, endOfContents) \<Rightarrow>
          (if endOfContents \<or> consumed \<noteq> length encoded
           then Inl (PlainErr ''BER value has trailing data or an unexpected terminator'')
           else Inr normalized))"

section \<open>The grammar\<close>

text \<open>A value is a primitive with its content or a constructed value with its parts.\<close>

datatype tlv = Primitive octets octets | Constructed octets "tlv list"

fun tlv_tag :: "tlv \<Rightarrow> octets" where
  "tlv_tag (Primitive tag content) = tag"
| "tlv_tag (Constructed tag parts) = tag"

text \<open>Identifier octets: one octet, or the high-tag form with its continuation bits.\<close>

definition tag_form :: "octets \<Rightarrow> bool" where
  "tag_form tag =
     (case tag of
        [] \<Rightarrow> False
      | b # cont \<Rightarrow>
          if b AND 0x1f = 0x1f
          then cont \<noteq> [] \<and> length cont \<le> 4 \<and> (\<forall>c \<in> set (butlast cont). c AND 0x80 \<noteq> 0) \<and> last cont AND 0x80 = 0
          else cont = [])"

text \<open>The definite forms of a length: one octet below 128, or a count and that many octets.\<close>

inductive length_form :: "nat \<Rightarrow> octets \<Rightarrow> bool" where
  short: "n < 128 \<Longrightarrow> length_form n [word_of_nat n]"
| long: "0 < length ds \<Longrightarrow> length ds \<le> 4 \<Longrightarrow> hd ds \<noteq> 0 \<Longrightarrow> length_form (octets_value ds) ((0x80 OR word_of_nat (length ds)) # ds)"

text \<open>BER: any definite form, and for a constructed value the indefinite form with its end marker.\<close>

inductive ber :: "tlv \<Rightarrow> octets \<Rightarrow> bool" and bers :: "tlv list \<Rightarrow> octets \<Rightarrow> bool" where
  primitive: "length_form (length content) l \<Longrightarrow> ber (Primitive tag content) (tag @ l @ content)"
| definite: "bers parts content \<Longrightarrow> length_form (length content) l \<Longrightarrow> ber (Constructed tag parts) (tag @ l @ content)"
| indefinite: "bers parts content \<Longrightarrow> ber (Constructed tag parts) (tag @ [0x80] @ content @ [0, 0])"
| none: "bers [] []"
| some: "ber t e \<Longrightarrow> bers ts es \<Longrightarrow> bers (t # ts) (e @ es)"

text \<open>DER: the one encoding with minimal definite lengths.\<close>

fun der :: "tlv \<Rightarrow> octets" where
  "der (Primitive tag content) = encodeDERElement tag content"
| "der (Constructed tag parts) = encodeDERElement tag (concat (map der parts))"

text \<open>The trees within the limits: identifiers in order, contents bounded, nesting bounded.\<close>

fun fits :: "nat \<Rightarrow> tlv \<Rightarrow> bool" where
  "fits depth (Primitive tag content) =
     (depth \<le> maxBERDepth \<and> tag_form tag \<and> hd tag AND 0x20 = 0 \<and> length content \<le> maxKMSRecipientBytes
      \<and> (tag = [0] \<longrightarrow> content \<noteq> []))"
| "fits depth (Constructed tag parts) =
     (depth \<le> maxBERDepth \<and> tag_form tag \<and> hd tag AND 0x20 \<noteq> 0
      \<and> length (concat (map der parts)) \<le> maxKMSRecipientBytes \<and> (\<forall>t \<in> set parts. fits (depth + 1) t))"


section \<open>Identifiers\<close>

lemma high_tag_end_sound:
  "high_tag_end enc count p = Some q \<Longrightarrow>
   p < q \<and> q \<le> length enc \<and> q + count \<le> p + 4 \<and> (\<forall>i. p \<le> i \<and> i < q - 1 \<longrightarrow> enc ! i AND 0x80 \<noteq> 0) \<and> enc ! (q - 1) AND 0x80 = 0"
proof (induction enc count p rule: high_tag_end.induct)
  case (1 enc count p)
  show ?case
  proof (cases "enc ! p AND 0x80 = 0")
    case True
    then show ?thesis using "1.prems" by (subst (asm) high_tag_end.simps) (auto split: if_splits)
  next
    case False
    then have range: "p < length enc" "count < 4" and rec: "high_tag_end enc (count + 1) (p + 1) = Some q"
      using "1.prems" by (subst (asm) high_tag_end.simps, simp split: if_splits)+
    have IH: "p + 1 < q" "q \<le> length enc" "q + (count + 1) \<le> p + 1 + 4"
      "\<forall>i. p + 1 \<le> i \<and> i < q - 1 \<longrightarrow> enc ! i AND 0x80 \<noteq> 0" "enc ! (q - 1) AND 0x80 = 0"
      using "1.IH" [OF _ False rec] range by auto
    have "\<forall>i. p \<le> i \<and> i < q - 1 \<longrightarrow> enc ! i AND 0x80 \<noteq> 0"
      using IH(4) False by (metis Suc_eq_plus1 not_less_eq_eq order_antisym)
    then show ?thesis using IH by simp
  qed
qed

lemma high_tag_end_complete:
  "cont \<noteq> [] \<Longrightarrow> count + length cont \<le> 4 \<Longrightarrow> (\<forall>c \<in> set (butlast cont). c AND 0x80 \<noteq> 0) \<Longrightarrow> last cont AND 0x80 = 0 \<Longrightarrow>
   high_tag_end (pre @ cont @ rest) count (length pre) = Some (length pre + length cont)"
proof (induction cont arbitrary: pre count)
  case (Cons b cont)
  show ?case
  proof (cases "cont = []")
    case True
    then show ?thesis using Cons.prems by (subst high_tag_end.simps) (simp add: nth_append)
  next
    case False
    then have "high_tag_end ((pre @ [b]) @ cont @ rest) (count + 1) (length (pre @ [b])) = Some (length (pre @ [b]) + length cont)"
      using Cons.prems by (intro Cons.IH) auto
    then show ?thesis using Cons.prems False by (subst high_tag_end.simps) (simp add: nth_append)
  qed
qed simp

lemma tag_end_sound:
  assumes "tag_end enc = Some p" and "enc \<noteq> []"
  shows "tag_form (take p enc) \<and> 1 \<le> p \<and> p \<le> length enc"
proof (cases "enc ! 0 AND 0x1f = 0x1f")
  case True
  then have "high_tag_end enc 0 1 = Some p" using assms(1) by (simp add: tag_end_def)
  from high_tag_end_sound [OF this] have p: "1 < p" "p \<le> length enc" "p \<le> 5" "enc ! (p - 1) AND 0x80 = 0"
    and bits: "\<And>i. 1 \<le> i \<Longrightarrow> i < p - 1 \<Longrightarrow> enc ! i AND 0x80 \<noteq> 0" by auto
  obtain b bs where enc: "enc = b # bs" using assms(2) by (cases enc) auto
  define cont where "cont = take (p - 1) bs"
  have len: "length cont = p - 1" using p enc by (auto simp: cont_def)
  have nth: "cont ! i = enc ! (i + 1)" if "i < p - 1" for i using that enc by (simp add: cont_def)
  have "last cont AND 0x80 = 0" using p len nth [of "p - 2"] by (simp add: last_conv_nth numeral_2_eq_2 Suc_diff_Suc flip: length_0_conv)
  moreover have "\<forall>c \<in> set (butlast cont). c AND 0x80 \<noteq> 0"
    using bits len nth by (auto simp: in_set_conv_nth nth_butlast)
  ultimately show ?thesis
    using True p len enc by (cases p) (auto simp: tag_form_def cont_def)
next
  case False
  then show ?thesis using assms by (cases enc) (auto simp: tag_end_def tag_form_def)
qed

lemma tag_end_complete: "tag_form tag \<Longrightarrow> tag_end (tag @ rest) = Some (length tag)"
proof (cases tag)
  case (Cons b cont)
  assume "tag_form tag"
  then show ?thesis
    using Cons high_tag_end_complete [of cont 0 "[b]" rest] by (auto simp: tag_form_def tag_end_def split: if_splits)
qed (simp add: tag_form_def)

section \<open>Lengths\<close>

lemma octets_value_one: "octets_value [a] = unat a"
  by (simp add: octets_value_def)

lemma octets_value_two: "octets_value [a, b] = unat a * 256 + unat b"
  by (simp add: octets_value_def)

lemma length_octets_small:
  assumes "128 \<le> n" and "n \<le> maxKMSRecipientBytes"
  shows "length_octets n = (if n < 256 then [word_of_nat n] else [word_of_nat (n div 256), word_of_nat n])"
proof -
  have zero: "length_octets 0 = []" by (simp add: length_octets.simps [of 0])
  have small: "length_octets k = [word_of_nat k]" if "0 < k" "k < 256" for k
    using that zero by (simp add: length_octets.simps [of k])
  show ?thesis
    using assms small [of n] small [of "n div 256"] by (simp add: length_octets.simps [of n] maxKMSRecipientBytes_def)
qed

lemma unat_of_small: "k < 256 \<Longrightarrow> unat (word_of_nat k :: octet) = k"
  by (simp add: unat_of_nat)

lemma and_top: "(w :: octet) AND 0x80 = 0 \<longleftrightarrow> \<not> bit w 7"
  using and_exp_eq_0_iff_not_bit [of w 7] by simp

lemma bit_seven: "bit (w :: octet) 7 \<longleftrightarrow> 128 \<le> unat w"
proof -
  have "unat w < 256" using unsigned_less [of w, where 'a = nat] by simp
  then have "unat w div 128 = (if 128 \<le> unat w then 1 else 0)" by auto
  moreover have "bit w 7 \<longleftrightarrow> odd (unat w div 128)" using bit_unsigned_iff [of w 7, where 'a = nat] by (simp add: bit_iff_odd)
  ultimately show ?thesis by simp
qed

lemma low_octet: "n < 128 \<Longrightarrow> (word_of_nat n :: octet) AND 0x80 = 0 \<and> (word_of_nat n :: octet) \<noteq> 0x80"
proof -
  assume n: "n < 128"
  then have "unat (word_of_nat n :: octet) = n" by (simp add: unat_of_small)
  moreover have "unat (0x80 :: octet) = 128" by simp
  ultimately show ?thesis using n by (metis and_top bit_seven linorder_not_le less_irrefl)
qed

lemma count_octet: "k \<in> {1, 2, 3, 4} \<Longrightarrow> (0x80 OR word_of_nat k :: octet) AND 0x80 \<noteq> 0 \<and> (0x80 OR word_of_nat k :: octet) \<noteq> 0x80
    \<and> unat ((0x80 OR word_of_nat k :: octet) AND 0x7f) = k"
  by auto

lemma counted: 
  "w AND 0x80 \<noteq> 0 \<Longrightarrow> unat (w AND 0x7f) \<le> 4 \<Longrightarrow> w = 0x80 OR word_of_nat (unat ((w :: octet) AND 0x7f))"
proof -
  assume "w AND 0x80 \<noteq> 0"
  then have "bit w 7" by (simp add: and_top)
  have "w = (w AND 0x80) OR (w AND 0x7f)" by (auto intro!: bit_word_eqI simp: bit_simps numeral_eq_Suc less_Suc_eq)
  moreover have "w AND 0x80 = 0x80"
    using \<open>bit w 7\<close> by (auto intro!: bit_word_eqI simp: bit_simps numeral_eq_Suc less_Suc_eq)
  ultimately show ?thesis by simp
qed


lemma unat_high: "(w :: octet) AND 0x80 = 0 \<Longrightarrow> unat w < 128"
  using and_top bit_seven by (metis linorder_not_le)

lemma read_length_sound:
  assumes "read_length enc p = Inr (n, start, indef)" and "p < length enc"
  shows "if indef then enc ! p = 0x80 \<and> start = p + 1 \<and> n = 0
    else length_form n (take (start - p) (drop p enc)) \<and> p < start \<and> start + n \<le> length enc \<and> n \<le> maxKMSRecipientBytes"
proof -
  consider (indef) "enc ! p = 0x80" | (low) "enc ! p \<noteq> 0x80" "enc ! p AND 0x80 = 0" | (high) "enc ! p \<noteq> 0x80" "enc ! p AND 0x80 \<noteq> 0"
    by blast
  then show ?thesis
  proof cases
    case indef
    then show ?thesis using assms by (simp add: read_length_def Let_def)
  next
    case low
    then have "indef = False" "n = unat (enc ! p)" "start = p + 1" "start + n \<le> length enc" "n \<le> maxKMSRecipientBytes"
      using assms by (auto simp: read_length_def Let_def split: if_splits)
    moreover have "take 1 (drop p enc) = [enc ! p]" using assms(2) by (simp add: take_Suc_conv_app_nth hd_drop_conv_nth take_Suc)
    moreover have "length_form (unat (enc ! p)) [enc ! p]"
      using length_form.short [OF unat_high [OF low(2)]] by simp
    ultimately show ?thesis by simp
  next
    case high
    define k where "k = unat (enc ! p AND 0x7f)"
    have facts: "indef = False" "0 < k" "k \<le> 4" "p + 1 + k \<le> length enc" "enc ! (p + 1) \<noteq> 0"
      "n = octets_value (take k (drop (p + 1) enc))" "start = p + 1 + k" "start + n \<le> length enc" "n \<le> maxKMSRecipientBytes"
      using assms high by (auto simp: read_length_def Let_def k_def split: if_splits)
    let ?ds = "take k (drop (p + 1) enc)"
    have len: "length ?ds = k" and hd: "hd ?ds \<noteq> 0"
      using facts by (auto simp: hd_drop_conv_nth)
    have "length_form (octets_value ?ds) ((0x80 OR word_of_nat (length ?ds)) # ?ds)"
      using facts len hd by (intro length_form.long) simp_all
    moreover have "(0x80 OR word_of_nat (length ?ds)) # ?ds = take (start - p) (drop p enc)"
      using counted [OF high(2)] facts len assms(2) by (simp add: k_def Cons_nth_drop_Suc [symmetric])
    ultimately show ?thesis using facts by simp
  qed
qed

lemma encode_length_head:
  assumes "n \<le> maxKMSRecipientBytes"
  shows "read_length (pre @ encode_length n @ rest) (length pre) =
    (if n \<le> length rest then Inr (n, length pre + length (encode_length n), False)
     else Inl (PlainErr ''BER content length is invalid''))"
proof (cases "n < 128")
  case True
  then show ?thesis
    using assms low_octet [OF True] unat_of_small [of n] by (simp add: encode_length_def read_length_def Let_def nth_append)
next
  case False
  note digits = length_octets_small [OF _ assms] count_octet [of 1] count_octet [of 2]
  show ?thesis
  proof (cases "n < 256")
    case True
    have "(word_of_nat n :: octet) \<noteq> 0" using False True unat_of_small [of n] by auto
    then show ?thesis
      using False True digits assms
      by (simp add: encode_length_def read_length_def Let_def nth_append octets_value_one unat_of_small)
  next
    case False
    then have "unat (word_of_nat (n div 256) :: octet) = n div 256"
      using assms by (intro unat_of_small) (simp add: maxKMSRecipientBytes_def)
    moreover have "unat (word_of_nat n :: octet) = n mod 256" by (simp add: unat_of_nat)
    moreover have "(word_of_nat (n div 256) :: octet) \<noteq> 0" using calculation(1) False by auto
    ultimately show ?thesis
      using False digits assms
      by (simp add: encode_length_def read_length_def Let_def nth_append octets_value_two)
  qed
qed

lemma encode_length_form: "n \<le> maxKMSRecipientBytes \<Longrightarrow> length_form n (encode_length n)"
  using read_length_sound [of "encode_length n @ replicate n 0" 0 n "length (encode_length n)" False]
    encode_length_head [of n "[]" "replicate n 0"]
  by (auto simp: encode_length_def)

section \<open>The reader reads the grammar\<close>

lemma bers_snoc: "bers ts es \<Longrightarrow> ber t e \<Longrightarrow> bers (ts @ [t]) (es @ e)"
proof (induction ts arbitrary: es)
  case Nil
  then show ?case using ber_bers.some [of t e "[]" "[]"] ber_bers.none by (auto elim: bers.cases)
next
  case (Cons u ts)
  then obtain e' es' where "ber u e'" "bers ts es'" "es = e' @ es'" by (auto elim: bers.cases)
  then show ?case using Cons ber_bers.some by (metis append.assoc append_Cons)
qed

lemma octets_value_pos: "0 < foldl (\<lambda>l b. l * 256 + unat b) k ds \<longleftrightarrow> 0 < k \<or> (\<exists>d \<in> set ds. (d :: octet) \<noteq> 0)"
  by (induction ds arbitrary: k) (auto simp: unat_gt_0)

lemma length_form_zero: "length_form 0 l \<Longrightarrow> l = [0]"
proof (erule length_form.cases)
  fix ds :: octets
  assume "0 = octets_value ds" and "0 < length ds" and "hd ds \<noteq> 0"
  moreover have "0 < octets_value ds"
    using \<open>0 < length ds\<close> \<open>hd ds \<noteq> 0\<close> unfolding octets_value_def octets_value_pos by (cases ds) auto
  ultimately show ?thesis by simp
qed simp

text \<open>What a reader of one value must deliver at a depth.\<close>

definition reads_ber :: "(octets \<Rightarrow> ber_result) \<Rightarrow> nat \<Rightarrow> bool" where
  "reads_ber child depth =
     (\<forall>e out n eoc. child e = Inr (out, n, eoc) \<longrightarrow> 2 \<le> n \<and> n \<le> length e \<and>
        (if eoc then n = 2 \<and> take 2 e = [0, 0] else \<exists>t. fits depth t \<and> out = der t \<and> ber t (take n e)))"

lemma ber_children_sound:
  assumes "reads_ber child depth" and "ber_children child tag enc indef limit p content = Inr (out, n, eoc)"
    and "start \<le> p" and "p \<le> limit" and "limit \<le> length enc"
    and "content = concat (map der ts)" and "length content \<le> maxKMSRecipientBytes" and "\<forall>t \<in> set ts. fits depth t"
    and "bers ts (take (p - start) (drop start enc))"
  shows "\<not> eoc \<and> start \<le> n \<and> n \<le> limit \<and> (\<exists>ts'. out = encodeDERElement tag (concat (map der ts'))
      \<and> length (concat (map der ts')) \<le> maxKMSRecipientBytes \<and> (\<forall>t \<in> set ts'. fits depth t)
      \<and> (\<exists>es. bers ts' es \<and> take (n - start) (drop start enc) = es @ (if indef then [0, 0] else []) \<and> (\<not> indef \<longrightarrow> n = limit)))"
  using assms
proof (induction child tag enc indef limit p content arbitrary: ts rule: ber_children.induct)
  case (1 child tag enc indef limit p content)
  show ?case
  proof (cases "p < limit")
    case False
    then have "out = encodeDERElement tag content" "n = p" "\<not> eoc" "\<not> indef" "p = limit"
      using "1.prems" by (simp_all add: ber_children.simps [of child] split: if_splits)
    then show ?thesis using "1.prems" by auto
  next
    case True
    let ?part = "take (limit - p) (drop p enc)"
    obtain c k e where c: "child ?part = Inr (c, k, e)"
      using "1.prems"(2) True by (simp add: ber_children.simps [of child] split: sum.splits prod.splits)
    note read = "1.prems"(1) [unfolded reads_ber_def, rule_format, OF c]
    then have k: "2 \<le> k" "k \<le> length ?part" by simp_all
    have cut: "take (p + k - start) (drop start enc) = take (p - start) (drop start enc) @ take k ?part"
    proof -
      have "take (p + k - start) (drop start enc) = take (p - start) (drop start enc) @ take k (drop (p - start) (drop start enc))"
        using "1.prems"(3) by (metis Nat.add_diff_assoc2 take_add)
      moreover have "take k ?part = take k (drop p enc)" using k(2) by (simp add: min_absorb1)
      ultimately show ?thesis using "1.prems"(3) by simp
    qed
    show ?thesis
    proof (cases e)
      case True': True
      then have "indef" "out = encodeDERElement tag content" "n = p + k" "\<not> eoc"
        using "1.prems"(2) True c by (simp_all add: ber_children.simps [of child] split: if_splits)
      moreover have "k = 2 \<and> take k ?part = [0, 0]" using read True' by auto
      ultimately show ?thesis using "1.prems" k cut by auto
    next
      case False': False
      obtain t where t: "fits depth t" "c = der t" "ber t (take k ?part)"
        using read False' by auto
      have bound: "length content + length c \<le> maxKMSRecipientBytes"
        and rec: "ber_children child tag enc indef limit (p + k) (content @ c) = Inr (out, n, eoc)"
        using "1.prems"(2) True c False' by (simp_all add: ber_children.simps [of child _ _ _ _ p] split: if_splits)
      show ?thesis
      proof (rule "1.IH" [OF True c refl refl _ _ "1.prems"(1) rec, of "ts @ [t]"])
        show "bers (ts @ [t]) (take (p + k - start) (drop start enc))"
          unfolding cut using "1.prems"(9) t(3) by (rule bers_snoc)
      qed (use "1.prems" k t bound False' in auto)
    qed
  qed
qed


theorem normalizeBERElement_sound: "reads_ber (\<lambda>e. normalizeBERElement e depth) depth"
proof -
  have "normalizeBERElement enc depth = Inr (out, n, eoc) \<Longrightarrow> 2 \<le> n \<and> n \<le> length enc
      \<and> (if eoc then n = 2 \<and> take 2 enc = [0, 0] else \<exists>t. fits depth t \<and> out = der t \<and> ber t (take n enc))" for enc out n eoc
  proof (induction enc depth arbitrary: out n eoc rule: normalizeBERElement.induct)
    case (1 enc depth)
    note unfold = normalizeBERElement.simps [of enc depth]
    have size: "depth \<le> maxBERDepth" "2 \<le> length enc" using "1.prems" unfold by (auto split: if_splits)
    show ?case
    proof (cases "enc ! 0 = 0 \<and> enc ! 1 = 0")
      case True
      then have "take 2 enc = [0, 0]" using size(2) by (cases enc; cases "tl enc") (auto simp: numeral_2_eq_2)
      then show ?thesis using "1.prems" True size unfold by auto
    next
      case False
      obtain p where p: "tag_end enc = Some p" "p < length enc"
        using "1.prems" False size unfold by (auto split: option.splits if_splits)
      obtain len start indef where l: "read_length enc p = Inr (len, start, indef)"
        using "1.prems" False size p unfold by (auto split: sum.splits)
      have ne: "enc \<noteq> []" using size(2) by auto
      have tag: "tag_form (take p enc)" "1 \<le> p" using tag_end_sound [OF p(1) ne] by auto
      have hd: "hd (take p enc) = enc ! 0" using tag(2) ne by (cases enc; cases p) auto
      have len: "if indef then enc ! p = 0x80 \<and> start = p + 1 \<and> len = 0
          else length_form len (take (start - p) (drop p enc)) \<and> p < start \<and> start + len \<le> length enc \<and> len \<le> maxKMSRecipientBytes"
        using read_length_sound [OF l p(2)] .
      have start: "p < start" "start \<le> length enc" using len p(2) by (auto split: if_splits)
      have split: "take k enc = take p enc @ take (start - p) (drop p enc) @ take (k - start) (drop start enc)" if "start \<le> k" for k
        using that start by (metis le_add_diff_inverse less_imp_le_nat drop_drop add.commute append.assoc take_add)
      show ?thesis
      proof (cases "enc ! 0 AND 0x20 = 0")
        case True
        then have res: "\<not> indef" "out = encodeDERElement (take p enc) (take len (drop start enc))" "n = start + len" "\<not> eoc"
          using "1.prems" False size p l unfold by (auto simp: Let_def split: if_splits)
        let ?content = "take len (drop start enc)"
        have len': "length_form len (take (start - p) (drop p enc))" "start + len \<le> length enc" "len \<le> maxKMSRecipientBytes"
          using len res(1) by auto
        then have size_content: "length ?content = len" by simp
        have nonempty: "?content \<noteq> []" if "take p enc = [0]"
        proof
          assume "?content = []"
          then have "len = 0" using len'(2) start(2) by (cases "len = 0") auto
          then have "take (start - p) (drop p enc) = [0]" using len'(1) length_form_zero by metis
          then have "enc ! p = 0" using p(2) by (cases "drop p enc"; cases "start - p") (auto simp: nth_via_drop)
          moreover have "p = 1" "enc ! 0 = 0" using that p(2) by (cases p; cases enc; auto)+
          ultimately show False using False by simp
        qed
        have "ber (Primitive (take p enc) ?content) (take n enc)"
          using ber_bers.primitive [of ?content "take (start - p) (drop p enc)" "take p enc"] len'(1) size_content split [of "start + len"] res(3)
          by simp
        moreover have "fits depth (Primitive (take p enc) ?content)"
          using size tag hd True len'(3) nonempty by (auto simp: size_content)
        ultimately show ?thesis using res len'(2) start tag(2) by (intro conjI) (auto intro: exI [of _ "Primitive (take p enc) ?content"])
      next
        case constructed: False
        let ?limit = "if indef then length enc else start + len"
        have loop: "ber_children (\<lambda>e. normalizeBERElement e (depth + 1)) (take p enc) enc indef ?limit start [] = Inr (out, n, eoc)"
          using "1.prems" False size p l constructed unfold by (auto simp: Let_def split: if_splits)
        have "reads_ber (\<lambda>e. normalizeBERElement e (depth + 1)) (depth + 1)"
          unfolding reads_ber_def
        proof (intro allI impI)
          fix e out' n' eoc'
          assume "normalizeBERElement e (depth + 1) = Inr (out', n', eoc')"
          then show "2 \<le> n' \<and> n' \<le> length e
              \<and> (if eoc' then n' = 2 \<and> take 2 e = [0, 0] else \<exists>t. fits (depth + 1) t \<and> out' = der t \<and> ber t (take n' e))"
            using size p(2) constructed by (intro "1.IH" [OF _ False p(1) _ l refl refl refl]) auto
        qed
        from ber_children_sound [OF this loop, of start "[]"]
        obtain ts es where ts: "\<not> eoc" "start \<le> n" "n \<le> ?limit" "out = encodeDERElement (take p enc) (concat (map der ts))"
          "length (concat (map der ts)) \<le> maxKMSRecipientBytes" "\<forall>t \<in> set ts. fits (depth + 1) t" "bers ts es"
          "take (n - start) (drop start enc) = es @ (if indef then [0, 0] else [])" "\<not> indef \<Longrightarrow> n = ?limit"
          using len start by (auto simp: ber_bers.none split: if_splits)
        let ?t = "Constructed (take p enc) ts"
        have "fits depth ?t" using size tag hd constructed ts by auto
        moreover have "out = der ?t" using ts(4) by simp
        moreover have "ber ?t (take n enc)"
        proof (cases indef)
          case True
          then have "take (start - p) (drop p enc) = [0x80]" using len p(2) by (simp add: take_Suc_conv_app_nth hd_drop_conv_nth take_Suc)
          then show ?thesis
            using ber_bers.indefinite [OF ts(7), of "take p enc"] split [OF ts(2)] ts(8) True by simp
        next
          case False': False
          then have len': "start + len \<le> length enc" "n = start + len" "take (n - start) (drop start enc) = es"
            using ts(8,9) len by simp_all
          then have "length es = len" by (metis add_diff_cancel_left' le_diff_conv2 add.commute length_drop length_take min_absorb2 start(2))
          then show ?thesis
            using ber_bers.definite [OF ts(7), of "take (start - p) (drop p enc)" "take p enc"] split [OF ts(2)] ts(8) False' len by simp
        qed
        moreover have "n \<le> length enc" using ts(3) len by (auto split: if_splits)
        ultimately have "\<exists>t. fits depth t \<and> out = der t \<and> ber t (take n enc)" and "n \<le> length enc" by blast+
        then show ?thesis using ts(1,2) start tag(2) by auto
      qed
    qed
  qed
  then show ?thesis unfolding reads_ber_def by blast
qed


section \<open>The reader reads DER as it is\<close>

lemma ber_children_der:
  assumes "\<And>t rest. t \<in> set ts \<Longrightarrow> child (der t @ rest) = Inr (der t, length (der t), False)"
    and "\<And>t. t \<in> set ts \<Longrightarrow> der t \<noteq> []"
    and "length content + length (concat (map der ts)) \<le> maxKMSRecipientBytes"
    and "take (limit - p) (drop p enc) = concat (map der ts)" and "p \<le> limit" and "limit \<le> length enc"
  shows "ber_children child tag enc False limit p content = Inr (encodeDERElement tag (content @ concat (map der ts)), limit, False)"
  using assms
proof (induction ts arbitrary: p content)
  case Nil
  then have "limit \<le> p" by auto
  then show ?case using Nil.prems by (simp add: ber_children.simps [of child])
next
  case (Cons t ts)
  have part: "take (limit - p) (drop p enc) = der t @ concat (map der ts)" using Cons.prems(4) by simp
  have len: "limit - p = length (der t) + length (concat (map der ts))"
    using arg_cong [OF part, of length] Cons.prems(5,6) by (simp add: min_def split: if_splits)
  have ne: "der t \<noteq> []" using Cons.prems(2) by simp
  then have less: "p < limit" and step: "p + length (der t) \<le> limit" using len by (cases "der t"; auto)+
  have rest: "take (limit - (p + length (der t))) (drop (p + length (der t)) enc) = concat (map der ts)"
  proof -
    have "drop (length (der t)) (take (limit - p) (drop p enc)) = concat (map der ts)" by (simp add: part)
    then show ?thesis by (simp add: drop_take add.commute)
  qed
  have "ber_children child tag enc False limit p content
      = ber_children child tag enc False limit (p + length (der t)) (content @ der t)"
    using less ne Cons.prems(1) [of t "concat (map der ts)"] Cons.prems(3)
    by (simp add: ber_children.simps [of child _ _ _ _ p] part del: take_append drop_append)
  also have "\<dots> = Inr (encodeDERElement tag ((content @ der t) @ concat (map der ts)), limit, False)"
    using Cons.prems rest step by (intro Cons.IH) simp_all
  finally show ?case by simp
qed

lemma tag_form_head: "tag_form tag \<Longrightarrow> tag \<noteq> [] \<and> (hd tag = 0 \<longrightarrow> tag = [0])"
  by (cases tag) (auto simp: tag_form_def split: if_splits)

lemma encode_length_not_Nil: "encode_length n \<noteq> []"
  by (simp add: encode_length_def)

lemma encodeDERElement_read:
  assumes "tag_form tag" and "length content \<le> maxKMSRecipientBytes" and "depth \<le> maxBERDepth" and "tag = [0] \<Longrightarrow> content \<noteq> []"
  shows "normalizeBERElement (encodeDERElement tag content @ rest) depth =
    (if hd tag AND 0x20 = 0 then Inr (encodeDERElement tag content, length (encodeDERElement tag content), False)
     else ber_children (\<lambda>e. normalizeBERElement e (depth + 1)) tag (encodeDERElement tag content @ rest) False
       (length (encodeDERElement tag content)) (length tag + length (encode_length (length content))) [])"
proof -
  let ?enc = "encodeDERElement tag content @ rest"
  let ?n = "length content" and ?p = "length tag"
  have ne: "tag \<noteq> []" using tag_form_head [OF assms(1)] by simp
  have tag: "tag_end ?enc = Some ?p" using tag_end_complete [OF assms(1)] by (simp add: encodeDERElement_def)
  have len: "read_length ?enc ?p = Inr (?n, ?p + length (encode_length ?n), False)"
    using encode_length_head [OF assms(2), of tag "content @ rest"] by (simp add: encodeDERElement_def)
  have p: "?p < length ?enc" using encode_length_not_Nil [of ?n] by (simp add: encodeDERElement_def)
  have size: "2 \<le> length ?enc" using p ne by (cases tag) auto
  have head: "?enc ! 0 = hd tag" using ne by (cases tag) (auto simp: encodeDERElement_def)
  have mark: "\<not> (?enc ! 0 = 0 \<and> ?enc ! 1 = 0)"
  proof
    assume zero: "?enc ! 0 = 0 \<and> ?enc ! 1 = 0"
    then have "tag = [0]" using tag_form_head [OF assms(1)] head by simp
    moreover from this have "hd (encode_length ?n) = 0"
      using zero encode_length_not_Nil [of ?n] by (cases "encode_length ?n") (auto simp: encodeDERElement_def)
    moreover have "0 < ?n" using assms(4) calculation(1) by simp
    ultimately show False
    proof (cases "?n < 128")
      case True
      then have "unat (word_of_nat ?n :: octet) = ?n" by (simp add: unat_of_small)
      then show False using True \<open>hd (encode_length ?n) = 0\<close> \<open>0 < ?n\<close> by (auto simp: encode_length_def)
    next
      case False
      then show False
        using \<open>hd (encode_length ?n) = 0\<close> length_octets_small [OF _ assms(2)] by (auto simp: encode_length_def split: if_splits)
    qed
  qed
  have "\<not> (depth > maxBERDepth \<or> length ?enc < 2)" using assms(3) size by simp
  moreover have "take ?p ?enc = tag" "take ?n (drop (?p + length (encode_length ?n)) ?enc) = content"
    "length (encodeDERElement tag content) = ?p + length (encode_length ?n) + ?n"
    by (simp_all add: encodeDERElement_def)
  ultimately show ?thesis
    using mark p unfolding normalizeBERElement.simps [of ?enc] by (simp add: tag len head Let_def del: length_append)
qed

theorem der_is_read: "fits depth t \<Longrightarrow> normalizeBERElement (der t @ rest) depth = Inr (der t, length (der t), False)"
proof (induction depth t arbitrary: rest rule: fits.induct)
  case (1 depth tag content)
  then show ?case by (simp add: encodeDERElement_read)
next
  case (2 depth tag parts)
  let ?content = "concat (map der parts)"
  have not_zero: "tag \<noteq> [0]" using "2.prems" by auto
  have der_ne: "der t \<noteq> []" for t by (cases t) (simp_all add: encodeDERElement_def encode_length_not_Nil)
  have "ber_children (\<lambda>e. normalizeBERElement e (depth + 1)) tag (der (Constructed tag parts) @ rest) False
      (length (der (Constructed tag parts))) (length tag + length (encode_length (length ?content))) []
    = Inr (encodeDERElement tag ([] @ ?content), length (der (Constructed tag parts)), False)"
    by (rule ber_children_der) (use "2.IH" "2.prems" der_ne in \<open>simp_all add: encodeDERElement_def\<close>)
  then show ?case using encodeDERElement_read [of tag ?content depth rest] "2.prems" not_zero by simp
qed

lemma der_is_ber: "fits depth t \<Longrightarrow> ber t (der t)"
proof (induction depth t rule: fits.induct)
  case (1 depth tag content)
  then show ?case
    using ber_bers.primitive [OF encode_length_form, of content tag] by (simp add: encodeDERElement_def)
next
  case (2 depth tag parts)
  have "bers parts (concat (map der parts))"
    using "2.IH" "2.prems" by (induction parts) (auto intro: ber_bers.none ber_bers.some)
  then show ?case
    using ber_bers.definite [OF _ encode_length_form, of parts "concat (map der parts)" tag] "2.prems"
    by (simp add: encodeDERElement_def)
qed

lemma normalized_tree:
  assumes "normalizeBER encoded = Inr normalized"
  shows "\<exists>t. fits 0 t \<and> ber t encoded \<and> normalized = der t"
proof -
  obtain n where n: "normalizeBERElement encoded 0 = Inr (normalized, n, False)" "n = length encoded"
    using assms by (auto simp: normalizeBER_def split: sum.splits if_splits)
  then show ?thesis
    using normalizeBERElement_sound [of 0, unfolded reads_ber_def, rule_format, OF n(1)] by auto
qed

lemma der_is_normal: "fits 0 t \<Longrightarrow> normalizeBER (der t) = Inr (der t)"
  using der_is_read [of 0 t "[]"] by (simp add: normalizeBER_def)

text \<open>
  C26: The BER normalisation of the enclave is sound, exact on DER, and idempotent. Whatever it
  accepts is the BER encoding of one tree, with definite or indefinite lengths, and what it gives
  is the DER encoding of the same tree; that tree is within the nesting and size limits, every
  DER encoding of a tree within the limits is accepted and given back unchanged, and so
  normalising twice changes nothing.
\<close>

theorem normalizeBER_gives_der:
  assumes "normalizeBER encoded = Inr normalized"
  shows "(\<exists>t. fits 0 t \<and> ber t encoded \<and> normalized = der t \<and> normalizeBER (der t) = Inr (der t))
    \<and> normalizeBER normalized = Inr normalized"
  using normalized_tree [OF assms] der_is_normal by blast

text \<open>An octet string in two fragments with indefinite lengths, and its DER form.\<close>

definition toy_ber :: octets where
  "toy_ber = [0x24, 0x80, 0x04, 0x81, 0x02, 1, 2, 0x04, 1, 3, 0, 0]"

theorem normalizeBER_gives_der_witness:
  "\<exists>t. ber t toy_ber \<and> der t = [0x24, 7, 0x04, 2, 1, 2, 0x04, 1, 3]"
proof -
  have "case normalizeBER toy_ber of Inr d \<Rightarrow> d = [0x24, 7, 0x04, 2, 1, 2, 0x04, 1, 3] | Inl e \<Rightarrow> False" by code_simp
  then have "normalizeBER toy_ber = Inr [0x24, 7, 0x04, 2, 1, 2, 0x04, 1, 3]" by (simp split: sum.splits)
  from normalizeBER_gives_der [OF this] show ?thesis by metis
qed

end
