(* ===== verification/Cms.thy ===== *)
theory Cms
  imports Ber
begin

text \<open>
  The unwrapping of the data key that KMS sends to the enclave (\<open>enclave/bootstrap/cms.go\<close>): the
  CMS envelope with its checks, the fragments of its content and the AES-CBC decryption with its
  constant-time padding check. Go's ASN.1 reader for each of the structures, RSA-OAEP and the
  block cipher are parameters.
\<close>

section \<open>ASN.1 values\<close>

type_synonym oid = "nat list"

definition oidCMSData :: oid where "oidCMSData = [1, 2, 840, 113549, 1, 7, 1]"
definition oidCMSEnvelopedData :: oid where "oidCMSEnvelopedData = [1, 2, 840, 113549, 1, 7, 3]"
definition oidRSAESOAEP :: oid where "oidRSAESOAEP = [1, 2, 840, 113549, 1, 1, 7]"
definition oidMGF1 :: oid where "oidMGF1 = [1, 2, 840, 113549, 1, 1, 8]"
definition oidPSpecified :: oid where "oidPSpecified = [1, 2, 840, 113549, 1, 1, 9]"
definition oidSHA256 :: oid where "oidSHA256 = [2, 16, 840, 1, 101, 3, 4, 2, 1]"
definition oidAES256CBC :: oid where "oidAES256CBC = [2, 16, 840, 1, 101, 3, 4, 1, 42]"

record raw_value =
  rv_Class :: nat
  rv_Tag :: nat
  rv_IsCompound :: bool
  rv_Bytes :: octets
  rv_FullBytes :: octets

record algorithm_identifier =
  al_Algorithm :: oid
  al_Parameters :: raw_value

record cms_content_info =
  ci_ContentType :: oid
  ci_Content :: raw_value

record cms_recipient_info =
  ri_Version :: int
  ri_RecipientIdentifier :: raw_value
  ri_KeyEncryptionAlgorithm :: algorithm_identifier
  ri_EncryptedKey :: octets

record cms_encrypted_content_info =
  ec_ContentType :: oid
  ec_ContentEncryptionAlgorithm :: algorithm_identifier
  ec_EncryptedContent :: raw_value

record cms_enveloped_data =
  ev_Version :: int
  ev_RecipientInfos :: "cms_recipient_info list"
  ev_EncryptedContentInfo :: cms_encrypted_content_info

record rsa_oaep_parameters =
  op_HashAlgorithm :: algorithm_identifier
  op_MaskGenAlgorithm :: algorithm_identifier
  op_PSourceAlgorithm :: algorithm_identifier

text \<open>A reader gives a value and how many octets it took; the rest of them is left.\<close>

type_synonym 'a reader = "octets \<Rightarrow> go_error + ('a \<times> nat)"

record 'key cms_env =
  cm_content_info :: "cms_content_info reader"
  cm_enveloped_data :: "cms_enveloped_data reader"
  cm_oaep_parameters :: "rsa_oaep_parameters reader"
  cm_algorithm :: "algorithm_identifier reader"
  cm_octets :: "octets reader"
  cm_key_size :: "'key \<Rightarrow> nat"
  cm_oaep :: "'key \<Rightarrow> octets \<Rightarrow> go_error + octets"                \<comment> \<open>with SHA-256 and no label\<close>
  cm_cipher :: "octets \<Rightarrow> (octets \<Rightarrow> octets \<Rightarrow> octets) option"      \<comment> \<open>CBC decryption under a key: IV, ciphertext\<close>

definition unmarshalExact :: "'a reader \<Rightarrow> octets \<Rightarrow> go_error + 'a" where
  "unmarshalExact reader encoded =
     (if encoded = [] then Inl (PlainErr ''ASN.1 value is empty'')
      else case reader encoded of
        Inl err \<Rightarrow> Inl err
      | Inr (v, consumed) \<Rightarrow>
          (if drop consumed encoded \<noteq> [] then Inl (PlainErr ''ASN.1 value has trailing data'') else Inr v))"

definition TagNull :: nat where "TagNull = 5"
definition ClassContextSpecific :: nat where "ClassContextSpecific = 2"

definition isNullParameters :: "raw_value \<Rightarrow> bool" where
  "isNullParameters raw = (rv_Tag raw = TagNull \<and> rv_Bytes raw = [])"

definition validateOAEPParameters :: "'key cms_env \<Rightarrow> raw_value \<Rightarrow> go_error option" where
  "validateOAEPParameters env raw =
     (case unmarshalExact (cm_oaep_parameters env) (rv_FullBytes raw) of
        Inl err \<Rightarrow> Some (PlainErr ''KMS recipient RSAES-OAEP parameters are invalid'')
      | Inr ps \<Rightarrow>
          (if al_Algorithm (op_HashAlgorithm ps) \<noteq> oidSHA256 \<or> \<not> isNullParameters (al_Parameters (op_HashAlgorithm ps))
           then Some (PlainErr ''KMS recipient OAEP hash is not SHA-256'')
           else if al_Algorithm (op_MaskGenAlgorithm ps) \<noteq> oidMGF1
           then Some (PlainErr ''KMS recipient OAEP mask algorithm is not MGF1'')
           else if (case unmarshalExact (cm_algorithm env) (rv_FullBytes (al_Parameters (op_MaskGenAlgorithm ps))) of
                      Inl err \<Rightarrow> True
                    | Inr maskHash \<Rightarrow> al_Algorithm maskHash \<noteq> oidSHA256 \<or> \<not> isNullParameters (al_Parameters maskHash))
           then Some (PlainErr ''KMS recipient MGF1 hash is not SHA-256'')
           else if al_Algorithm (op_PSourceAlgorithm ps) = [] then None
           else if al_Algorithm (op_PSourceAlgorithm ps) \<noteq> oidPSpecified
           then Some (PlainErr ''KMS recipient OAEP label algorithm is unsupported'')
           else if (case unmarshalExact (cm_octets env) (rv_FullBytes (al_Parameters (op_PSourceAlgorithm ps))) of
                      Inl err \<Rightarrow> True | Inr label \<Rightarrow> label \<noteq> [])
           then Some (PlainErr ''KMS recipient OAEP label is not empty'')
           else None))"

section \<open>The content\<close>

text \<open>The fragments of a constructed octet string; a fragment that takes no octets ends the loop.\<close>

function content_fragments :: "octets reader \<Rightarrow> octets \<Rightarrow> octets \<Rightarrow> go_error + octets" where
  "content_fragments reader remaining ciphertext =
     (if remaining = [] then Inr ciphertext
      else case reader remaining of
        Inl err \<Rightarrow> Inl (PlainErr ''KMS recipient encrypted content fragments are invalid'')
      | Inr (part, consumed) \<Rightarrow>
          (if consumed = 0 \<or> part = []
           then Inl (PlainErr ''KMS recipient encrypted content fragments are invalid'')
           else if length ciphertext + length part > maxKMSRecipientBytes
           then Inl (PlainErr ''KMS recipient encrypted content is too large'')
           else content_fragments reader (drop consumed remaining) (ciphertext @ part)))"
  by pat_completeness auto
termination by (relation "measure (\<lambda>(reader, remaining, ciphertext). length remaining)") auto

declare content_fragments.simps [simp del]

definition cmsEncryptedContent :: "'key cms_env \<Rightarrow> raw_value \<Rightarrow> go_error + octets" where
  "cmsEncryptedContent env raw =
     (if rv_FullBytes raw = [] then Inl (PlainErr ''KMS recipient encrypted content is missing'')
      else if \<not> rv_IsCompound raw then
        (if rv_Bytes raw = [] then Inl (PlainErr ''KMS recipient encrypted content is empty'') else Inr (rv_Bytes raw))
      else content_fragments (cm_octets env) (rv_Bytes raw) [])"

section \<open>Decryption\<close>

definition BlockSize :: nat where "BlockSize = 16"

text \<open>The constant-time comparisons of \<open>crypto/subtle\<close> give 0 or 1.\<close>

definition ConstantTimeLessOrEq :: "nat \<Rightarrow> nat \<Rightarrow> nat" where
  "ConstantTimeLessOrEq x y = (if x \<le> y then 1 else 0)"

definition ConstantTimeByteEq :: "octet \<Rightarrow> octet \<Rightarrow> nat" where
  "ConstantTimeByteEq x y = (if x = y then 1 else 0)"

definition ConstantTimeSelect :: "nat \<Rightarrow> nat \<Rightarrow> nat \<Rightarrow> nat" where
  "ConstantTimeSelect v x y = (if v = 1 then x else y)"

definition padding_valid :: "octets \<Rightarrow> nat \<Rightarrow> nat" where
  "padding_valid plaintext padding =
     fold (\<lambda>offset valid.
         let withinPadding = ConstantTimeLessOrEq (offset + 1) padding;
             matches = ConstantTimeByteEq (plaintext ! (length plaintext - 1 - offset)) (word_of_nat padding)
         in valid AND ConstantTimeSelect withinPadding matches 1)
       [0..<BlockSize]
       (ConstantTimeLessOrEq 1 padding AND ConstantTimeLessOrEq padding BlockSize)"

definition decryptAESCBC :: "'key cms_env \<Rightarrow> octets \<Rightarrow> octets \<Rightarrow> octets \<Rightarrow> go_error + octets" where
  "decryptAESCBC env key iv ciphertext =
     (if length key \<noteq> 32 \<or> length iv \<noteq> BlockSize \<or> length ciphertext = 0 \<or> length ciphertext mod BlockSize \<noteq> 0
      then Inl (PlainErr ''KMS recipient AES-CBC inputs are invalid'')
      else case cm_cipher env key of
        None \<Rightarrow> Inl (PlainErr ''initialize KMS recipient content cipher'')
      | Some decrypt \<Rightarrow>
          (let plaintext = decrypt iv ciphertext;
               padding = unat (plaintext ! (length plaintext - 1))
           in if padding_valid plaintext padding \<noteq> 1
              then Inl (PlainErr ''KMS recipient AES-CBC padding is invalid'')
              else Inr (take (length plaintext - padding) plaintext)))"

definition decryptKMSRecipient :: "'key cms_env \<Rightarrow> 'key option \<Rightarrow> octets \<Rightarrow> go_error + octets" where
  "decryptKMSRecipient env privateKey encoded =
     (case privateKey of None \<Rightarrow> Inl (PlainErr ''KMS recipient private key is unavailable'')
      | Some key \<Rightarrow>
     (if length encoded = 0 \<or> length encoded > maxKMSRecipientBytes
      then Inl (PlainErr ''KMS recipient CMS response has an invalid size'')
      else case normalizeBER encoded of
        Inl err \<Rightarrow> Inl (WrapErr ''normalize KMS recipient CMS: '' err)
      | Inr d \<Rightarrow>
     (case unmarshalExact (cm_content_info env) d of
        Inl err \<Rightarrow> Inl (WrapErr ''decode KMS recipient content info: '' err)
      | Inr contentInfo \<Rightarrow>
     (if ci_ContentType contentInfo \<noteq> oidCMSEnvelopedData
      then Inl (PlainErr ''KMS recipient content is not CMS EnvelopedData'')
      else case unmarshalExact (cm_enveloped_data env) (rv_Bytes (ci_Content contentInfo)) of
        Inl err \<Rightarrow> Inl (WrapErr ''decode KMS recipient envelope: '' err)
      | Inr envelope \<Rightarrow>
     (if ev_Version envelope \<noteq> 2 \<or> length (ev_RecipientInfos envelope) \<noteq> 1
      then Inl (PlainErr ''KMS recipient envelope has an unsupported version or recipient count'')
      else
        let recipient = ev_RecipientInfos envelope ! 0;
            rid = ri_RecipientIdentifier recipient;
            kea = ri_KeyEncryptionAlgorithm recipient;
            content = ev_EncryptedContentInfo envelope;
            cea = ec_ContentEncryptionAlgorithm content
        in if ri_Version recipient \<noteq> 2 \<or> rv_Class rid \<noteq> ClassContextSpecific \<or> rv_Tag rid \<noteq> 0
              \<or> rv_IsCompound rid \<or> rv_Bytes rid = []
           then Inl (PlainErr ''KMS recipient identifier is unsupported'')
           else if al_Algorithm kea \<noteq> oidRSAESOAEP
           then Inl (PlainErr ''KMS recipient key algorithm is not RSAES-OAEP'')
           else case validateOAEPParameters env (al_Parameters kea) of
             Some err \<Rightarrow> Inl err
           | None \<Rightarrow>
          (if length (ri_EncryptedKey recipient) \<noteq> cm_key_size env key
           then Inl (PlainErr ''KMS recipient encrypted content key has an invalid size'')
           else case cm_oaep env key (ri_EncryptedKey recipient) of
             Inl err \<Rightarrow> Inl (WrapErr ''unwrap KMS recipient content key: '' err)
           | Inr contentKey \<Rightarrow>
          (if length contentKey \<noteq> 32 then Inl (PlainErr ''KMS recipient content key is not AES-256'')
           else if ec_ContentType content \<noteq> oidCMSData
           then Inl (PlainErr ''KMS recipient encrypted content is not CMS data'')
           else if al_Algorithm cea \<noteq> oidAES256CBC
           then Inl (PlainErr ''KMS recipient content algorithm is not AES-256-CBC'')
           else case unmarshalExact (cm_octets env) (rv_FullBytes (al_Parameters cea)) of
             Inl err \<Rightarrow> Inl (PlainErr ''KMS recipient AES-CBC IV is invalid'')
           | Inr iv \<Rightarrow>
          (if length iv \<noteq> BlockSize then Inl (PlainErr ''KMS recipient AES-CBC IV is invalid'')
           else case cmsEncryptedContent env (ec_EncryptedContent content) of
             Inl err \<Rightarrow> Inl err
           | Inr ciphertext \<Rightarrow> decryptAESCBC env contentKey iv ciphertext))))))))"

section \<open>The padding check is PKCS#7\<close>

text \<open>The reference: the last octet counts the octets of the padding, and they all equal it.\<close>

definition pkcs7 :: "octets \<Rightarrow> octets \<Rightarrow> bool" where
  "pkcs7 secret plaintext = (\<exists>k. 1 \<le> k \<and> k \<le> BlockSize \<and> plaintext = secret @ replicate k (word_of_nat k))"

lemma padding_valid_fold:
  "fold (\<lambda>offset valid. let withinPadding = ConstantTimeLessOrEq (offset + 1) padding;
             matches = ConstantTimeByteEq (m offset) b
         in valid AND ConstantTimeSelect withinPadding matches 1) offsets v
   = (if \<forall>offset \<in> set offsets. offset < padding \<longrightarrow> m offset = b then v AND 1 else 0)"
  if "v \<in> {0, 1}" for v :: nat
  using that
proof (induction offsets arbitrary: v)
  case (Cons offset offsets)
  show ?case
    using Cons.prems
    by (subst fold_Cons, subst comp_apply, subst Cons.IH)
       (auto simp: Let_def ConstantTimeLessOrEq_def ConstantTimeByteEq_def ConstantTimeSelect_def)
qed auto

lemma padding_valid_iff:
  "padding_valid plaintext padding = 1 \<longleftrightarrow>
   1 \<le> padding \<and> padding \<le> BlockSize \<and> (\<forall>offset < padding. plaintext ! (length plaintext - 1 - offset) = word_of_nat padding)"
proof -
  have "ConstantTimeLessOrEq 1 padding AND ConstantTimeLessOrEq padding BlockSize = (if 1 \<le> padding \<and> padding \<le> BlockSize then 1 else 0)"
    by (simp add: ConstantTimeLessOrEq_def)
  then show ?thesis
    unfolding padding_valid_def by (subst padding_valid_fold) (auto split: if_splits)
qed

lemma nth_from_end: "offset < k \<Longrightarrow> (s @ replicate k b) ! (length (s @ replicate k b) - 1 - offset) = b"
proof -
  assume "offset < k"
  then have "length (s @ replicate k b) - 1 - offset = length s + (k - 1 - offset)" by simp
  then show ?thesis using \<open>offset < k\<close> by (simp only: nth_append_length_plus) simp
qed

lemma padding_lemma:
  assumes "cm_cipher env key = Some decrypt" and "\<forall>iv c. length (decrypt iv c) = length c"
    and "length key = 32" and "length iv = BlockSize" and "0 < length ciphertext" and "length ciphertext mod BlockSize = 0"
  shows "decryptAESCBC env key iv ciphertext = Inr secret \<longleftrightarrow> pkcs7 secret (decrypt iv ciphertext)"
proof -
  define m where "m = decrypt iv ciphertext"
  have size: "BlockSize \<le> length m"
    using assms(2,5,6) by (simp add: m_def dvd_imp_le mod_eq_0_iff_dvd)
  define n where "n = unat (m ! (length m - 1))"
  have eq: "decryptAESCBC env key iv ciphertext = Inr secret \<longleftrightarrow> padding_valid m n = 1 \<and> secret = take (length m - n) m"
    using assms(1,3-6) by (auto simp: decryptAESCBC_def Let_def m_def n_def)
  also have "\<dots> \<longleftrightarrow> pkcs7 secret m"
  proof
    assume valid: "padding_valid m n = 1 \<and> secret = take (length m - n) m"
    note pad = iffD1 [OF padding_valid_iff, OF conjunct1 [OF valid]]
    have k: "1 \<le> n" "n \<le> BlockSize" and all: "\<forall>offset < n. m ! (length m - 1 - offset) = word_of_nat n"
      using pad by blast+
    have "drop (length m - n) m = replicate n (word_of_nat n)"
    proof (rule nth_equalityI)
      show "length (drop (length m - n) m) = length (replicate n (word_of_nat n :: octet))" using k size by simp
      fix i
      assume "i < length (drop (length m - n) m)"
      then have i: "i < n" using k size by simp
      have "n - 1 - i < n" using i by simp
      then have "m ! (length m - 1 - (n - 1 - i)) = word_of_nat n" using all by blast
      moreover have "length m - 1 - (n - 1 - i) = length m - n + i" using i k size by linarith
      ultimately show "drop (length m - n) m ! i = replicate n (word_of_nat n) ! i" using i k size by simp
    qed
    then have "m = secret @ replicate n (word_of_nat n)" using valid by (metis append_take_drop_id)
    then show "pkcs7 secret m" using k unfolding pkcs7_def by blast
  next
    assume "pkcs7 secret m"
    then obtain k where k: "1 \<le> k" "k \<le> BlockSize" "m = secret @ replicate k (word_of_nat k)" unfolding pkcs7_def by blast
    have "m ! (length m - 1) = word_of_nat k" using k nth_from_end [of 0 k secret] by simp
    then have last: "n = k" using k(2) by (simp add: n_def unat_of_small BlockSize_def)
    moreover have "\<forall>offset < k. m ! (length m - 1 - offset) = word_of_nat k" using nth_from_end k(3) by metis
    ultimately show "padding_valid m n = 1 \<and> secret = take (length m - n) m"
      using k unfolding padding_valid_iff last by simp
  qed
  finally show ?thesis by (simp add: m_def)
qed


text \<open>
  C27: The constant-time padding check is PKCS#7. On a plaintext of at least one block the
  decryption gives a secret exactly when the plaintext is that secret followed by one to sixteen
  octets that all hold their own count, and it fails on every other plaintext.
\<close>

theorem padding_check_is_pkcs7:
  assumes "cm_cipher env key = Some decrypt" and "\<forall>iv c. length (decrypt iv c) = length c"
    and "length key = 32" and "length iv = BlockSize" and "0 < length ciphertext" and "length ciphertext mod BlockSize = 0"
  shows "decryptAESCBC env key iv ciphertext = Inr secret \<longleftrightarrow> pkcs7 secret (decrypt iv ciphertext)"
  by (rule padding_lemma [OF assms])

definition toy_cms :: "unit cms_env" where
  "toy_cms = \<lparr>cm_content_info = (\<lambda>e. Inl CtxCanceled), cm_enveloped_data = (\<lambda>e. Inl CtxCanceled),
     cm_oaep_parameters = (\<lambda>e. Inl CtxCanceled), cm_algorithm = (\<lambda>e. Inl CtxCanceled), cm_octets = (\<lambda>e. Inl CtxCanceled),
     cm_key_size = (\<lambda>k. 256), cm_oaep = (\<lambda>k c. Inr c), cm_cipher = (\<lambda>k. Some (\<lambda>iv c. rev c))\<rparr>"

theorem padding_check_is_pkcs7_witness:
  "decryptAESCBC toy_cms (replicate 32 7) (replicate 16 0) (replicate 14 14 @ [2, 1]) = Inr [1, 2]
   \<and> \<not> isl (decryptAESCBC toy_cms (replicate 32 7) (replicate 16 0) (replicate 14 14 @ [2, 1]))"
proof -
  have "pkcs7 [1, 2] (rev (replicate 14 14 @ [2, 1]))"
    unfolding pkcs7_def by (intro exI [of _ 14]) (simp add: BlockSize_def)
  then show ?thesis
    using padding_check_is_pkcs7 [of toy_cms "replicate 32 7" "\<lambda>iv c. rev c" "replicate 16 0" "replicate 14 14 @ [2, 1]" "[1, 2]"]
    by (simp add: toy_cms_def BlockSize_def)
qed

section \<open>What is accepted\<close>

lemmas reader_splits = sum.splits option.splits if_splits

text \<open>
  A key is released only from an envelope that is BER within the limits, has one recipient and
  the expected algorithms throughout, from the content key RSA unwraps, and with proper padding.
\<close>

theorem decryptKMSRecipient_sound:
  assumes "decryptKMSRecipient env (Some key) encoded = Inr secret" and "\<And>k d. cm_cipher env k = Some d \<Longrightarrow> \<forall>iv c. length (d iv c) = length c"
  shows "\<exists>t info envelope recipient contentKey iv ciphertext decrypt.
    fits 0 t \<and> ber t encoded \<and> unmarshalExact (cm_content_info env) (der t) = Inr info \<and> ci_ContentType info = oidCMSEnvelopedData
    \<and> unmarshalExact (cm_enveloped_data env) (rv_Bytes (ci_Content info)) = Inr envelope \<and> ev_RecipientInfos envelope = [recipient]
    \<and> al_Algorithm (ri_KeyEncryptionAlgorithm recipient) = oidRSAESOAEP
    \<and> validateOAEPParameters env (al_Parameters (ri_KeyEncryptionAlgorithm recipient)) = None
    \<and> cm_oaep env key (ri_EncryptedKey recipient) = Inr contentKey \<and> length contentKey = 32
    \<and> al_Algorithm (ec_ContentEncryptionAlgorithm (ev_EncryptedContentInfo envelope)) = oidAES256CBC
    \<and> cmsEncryptedContent env (ec_EncryptedContent (ev_EncryptedContentInfo envelope)) = Inr ciphertext
    \<and> cm_cipher env contentKey = Some decrypt \<and> pkcs7 secret (decrypt iv ciphertext)"
proof -
  obtain d info envelope where d: "normalizeBER encoded = Inr d" "unmarshalExact (cm_content_info env) d = Inr info"
      "ci_ContentType info = oidCMSEnvelopedData" "unmarshalExact (cm_enveloped_data env) (rv_Bytes (ci_Content info)) = Inr envelope"
    and one: "length (ev_RecipientInfos envelope) = 1"
    using assms(1) by (auto simp: decryptKMSRecipient_def split: reader_splits)
  then obtain recipient where r: "ev_RecipientInfos envelope = [recipient]" by (auto simp: length_Suc_conv)
  obtain contentKey iv ciphertext where k: "al_Algorithm (ri_KeyEncryptionAlgorithm recipient) = oidRSAESOAEP"
      "validateOAEPParameters env (al_Parameters (ri_KeyEncryptionAlgorithm recipient)) = None"
      "cm_oaep env key (ri_EncryptedKey recipient) = Inr contentKey" "length contentKey = 32"
      "al_Algorithm (ec_ContentEncryptionAlgorithm (ev_EncryptedContentInfo envelope)) = oidAES256CBC"
      "cmsEncryptedContent env (ec_EncryptedContent (ev_EncryptedContentInfo envelope)) = Inr ciphertext"
      "decryptAESCBC env contentKey iv ciphertext = Inr secret"
    using assms(1) d r by (auto simp: decryptKMSRecipient_def Let_def split: reader_splits)
  obtain decrypt where c: "cm_cipher env contentKey = Some decrypt" "length iv = BlockSize" "0 < length ciphertext"
      "length ciphertext mod BlockSize = 0"
    using k(7) by (auto simp: decryptAESCBC_def split: reader_splits)
  have "pkcs7 secret (decrypt iv ciphertext)"
    using iffD1 [OF padding_lemma [OF c(1) assms(2) [OF c(1)] k(4) c(2-4)] k(7)] .
  moreover obtain t where "fits 0 t" "ber t encoded" "d = der t" using normalized_tree [OF d(1)] by blast
  ultimately show ?thesis using d r k c(1) by blast
qed

end
