(* ===== verification/Profile.thy ===== *)
theory Profile
  imports GoJson Errors
begin

text \<open>
  The measured profile of the enclave (\<open>enclave/profile\<close>) and the egress it allows
  (\<open>enclave/network\<close>): the values compiled into the build with their checks, the manifest whose
  digest is attested, and the mapping of destinations to the parent's vsock ports. The JSON
  encoder, SHA-384 and the dialing of a socket are parameters.
\<close>

section \<open>Splitting\<close>

text \<open>\<open>strings.Split\<close> at a byte.\<close>

fun split_byte :: "char \<Rightarrow> string \<Rightarrow> string list" where
  "split_byte sep [] = [[]]"
| "split_byte sep (c # s) =
     (if c = sep then [] # split_byte sep s
      else case split_byte sep s of [] \<Rightarrow> [[c]] | p # ps \<Rightarrow> (c # p) # ps)"

lemma split_byte_not_Nil [simp]: "split_byte sep s \<noteq> []"
  by (cases s) (simp_all split: list.splits)

lemma split_byte_parts: "p \<in> set (split_byte sep s) \<Longrightarrow> sep \<notin> set p"
  by (induction s arbitrary: p) (auto split: if_splits list.splits)

section \<open>The build\<close>

text \<open>The values the linker puts into the measured binary.\<close>

record build =
  bu_SourceRevision :: string
  bu_AWSRegion :: string
  bu_KMSKeyARN :: string

definition lower_hex_byte :: "char \<Rightarrow> bool" where
  "lower_hex_byte c = (is_digit c \<or> 97 \<le> byte c \<and> byte c \<le> 102)"

definition any_hex :: "char \<Rightarrow> bool" where
  "any_hex c = (lower_hex_byte c \<or> 65 \<le> byte c \<and> byte c \<le> 70)"

text \<open>The regular expressions, which all match the whole text.\<close>

definition revisionPattern :: "string \<Rightarrow> bool" where
  "revisionPattern s = (length s = 40 \<and> list_all lower_hex_byte s)"

definition region_zone :: "string \<Rightarrow> string \<Rightarrow> bool" where
  "region_zone area n = (area \<noteq> [] \<and> list_all is_lower area \<and> n \<noteq> [] \<and> list_all is_digit n)"

definition regionPattern :: "string \<Rightarrow> bool" where
  "regionPattern s =
     (case split_byte (CHR ''-'') s of
        [p, area, n] \<Rightarrow> length p = 2 \<and> list_all is_lower p \<and> region_zone area n
      | [p, g, area, n] \<Rightarrow> length p = 2 \<and> list_all is_lower p \<and> g = ''gov'' \<and> region_zone area n
      | _ \<Rightarrow> False)"

definition kmsARNPattern :: "string \<Rightarrow> bool" where
  "kmsARNPattern s =
     (case split_byte (CHR '':'') s of
        [a, p, k, region, account, key] \<Rightarrow>
          a = ''arn'' \<and> p \<in> set [''aws'', ''aws-us-gov'', ''aws-cn''] \<and> k = ''kms''
          \<and> region \<noteq> [] \<and> list_all (\<lambda>c. is_lower c \<or> is_digit c \<or> c = CHR ''-'') region
          \<and> length account = 12 \<and> list_all is_digit account
          \<and> has_prefix key ''key/'' \<and> length (trim_prefix key ''key/'') = 36
          \<and> list_all (\<lambda>c. any_hex c \<or> c = CHR ''-'') (trim_prefix key ''key/'')
      | _ \<Rightarrow> False)"

definition ValidateBuild :: "build \<Rightarrow> go_error option" where
  "ValidateBuild b =
     (if \<not> revisionPattern (bu_SourceRevision b)
      then Some (PlainErr ''enclave source revision must be a full 40-character lowercase Git commit SHA'')
      else if \<not> regionPattern (bu_AWSRegion b) then Some (PlainErr ''enclave AWS region is invalid'')
      else if \<not> kmsARNPattern (bu_KMSKeyARN b)
      then Some (PlainErr ''enclave KMS key ARN must identify a customer-managed key'')
      else None)"

section \<open>The manifest\<close>

definition BootstrapPort :: nat where "BootstrapPort = 7001"
definition GatewayPort :: nat where "GatewayPort = 8080"
definition ParentCID :: nat where "ParentCID = 3"
definition KMSVsockPort :: nat where "KMSVsockPort = 8000"
definition MeteringVsockPort :: nat where "MeteringVsockPort = 8444"
definition RouterVsockPort :: nat where "RouterVsockPort = 8445"
definition SecretBundleSchema :: nat where "SecretBundleSchema = 1"
definition ManifestSchema :: nat where "ManifestSchema = 4"

record provider_egress_route =
  pr_Name :: string
  pr_Host :: string
  pr_Port :: nat
  pr_VsockPort :: nat

definition egress_route :: "string \<Rightarrow> string \<Rightarrow> nat \<Rightarrow> provider_egress_route" where
  "egress_route name host vsockPort = \<lparr>pr_Name = name, pr_Host = host, pr_Port = 443, pr_VsockPort = vsockPort\<rparr>"

definition ProviderEgressRoutes :: "provider_egress_route list" where
  "ProviderEgressRoutes =
     [egress_route ''typesafe'' ''api.typesafe.ai'' 8452,
      egress_route ''deepseek'' ''api.deepseek.com'' 8443,
      egress_route ''novita'' ''api.novita.ai'' 8446,
      egress_route ''tinfoil-inference'' ''inference.tinfoil.sh'' 8447,
      egress_route ''tinfoil-github'' ''github-proxy.tinfoil.sh'' 8448,
      egress_route ''sigstore-tuf'' ''tuf-repo-cdn.sigstore.dev'' 8449,
      egress_route ''tinfoil-kds'' ''kds-proxy.tinfoil.sh'' 8450,
      egress_route ''tinfoil-tdx'' ''tdx-proxy.tinfoil.sh'' 8451]"

definition jnum :: "nat \<Rightarrow> json" where
  "jnum n = JNum (itoa n)"

definition route_json :: "provider_egress_route \<Rightarrow> json" where
  "route_json r = JObj
     [(''name'', JStr (pr_Name r)), (''host'', JStr (pr_Host r)), (''port'', jnum (pr_Port r)), (''vsock_port'', jnum (pr_VsockPort r))]"

definition manifest :: "build \<Rightarrow> json" where
  "manifest b = JObj
     [(''schema_version'', jnum ManifestSchema),
      (''profile'', JStr ''nexus-gateway-v2''),
      (''workload'', JStr ''dappnode-nexus-gateway''),
      (''source_revision'', JStr (bu_SourceRevision b)),
      (''secret_release'', JObj
        [(''provider'', JStr ''aws-kms-nitro-recipient''), (''aws_region'', JStr (bu_AWSRegion b)),
         (''kms_key_arn'', JStr (bu_KMSKeyARN b)), (''bundle_schema'', jnum SecretBundleSchema)]),
      (''egress'', JObj
        [(''parent_cid'', jnum ParentCID), (''kms_vsock_port'', jnum KMSVsockPort),
         (''provider_routes'', JArr (map route_json ProviderEgressRoutes)),
         (''metering_vsock_port'', jnum MeteringVsockPort), (''router_vsock_port'', jnum RouterVsockPort)]),
      (''ingress'', JObj
        [(''gateway_vsock_port'', jnum GatewayPort), (''tls_in_enclave'', JBool False),
         (''e2ee'', JObj
           [(''protocol'', JStr ''ehbp-v1''), (''suite'', JStr ''DHKEM-X25519-HKDF-SHA256/HKDF-SHA256/AES-256-GCM''),
            (''endpoint'', JStr ''/v1/confidential/chat/completions''),
            (''request_encrypted'', JBool True), (''response_encrypted'', JBool True)])])]"

definition ManifestJSON :: "(json \<Rightarrow> string) \<Rightarrow> build \<Rightarrow> string" where
  "ManifestJSON enc b = enc (manifest b)"

definition ManifestDigest :: "(json \<Rightarrow> string) \<Rightarrow> (string \<Rightarrow> string) \<Rightarrow> build \<Rightarrow> string" where
  "ManifestDigest enc sha384 b = sha384 (ManifestJSON enc b)"

section \<open>Egress\<close>

text \<open>\<open>net.SplitHostPort\<close>; its errors are all refusals here.\<close>

definition SplitHostPort :: "string \<Rightarrow> (string \<times> string) option" where
  "SplitHostPort hostport =
     (case last_index_byte hostport (CHR '':'') of
        None \<Rightarrow> None
      | Some i \<Rightarrow>
          (case (if hostport ! 0 = CHR ''['' then
                   (let close = length (takeWhile (\<lambda>c. c \<noteq> CHR '']'') hostport)
                    in if close + 1 = i then Some (drop 1 (take close hostport), 1, close + 1) else None)
                 else if CHR '':'' \<in> set (take i hostport) then None
                 else Some (take i hostport, 0, 0)) of
             None \<Rightarrow> None
           | Some (host, j, k) \<Rightarrow>
               (if CHR ''['' \<in> set (drop j hostport) \<or> CHR '']'' \<in> set (drop k hostport) then None
                else Some (host, drop (i + 1) hostport))))"

text \<open>
  \<open>strings.ToLower\<close> as far as it can reach ASCII: the Kelvin sign becomes \<open>k\<close>, the dotted capital
  I becomes \<open>i\<close>, and every other rune beyond ASCII stays beyond it.
\<close>

definition lower_host :: "string \<Rightarrow> string" where
  "lower_host s =
     to_lower (replace_all (replace_all s [CHR 0xE2, CHR 0x84, CHR 0xAA] ''k'') [CHR 0xC4, CHR 0xB0] ''i'')"

definition providerVsockPort :: "string \<Rightarrow> go_error + nat" where
  "providerVsockPort address =
     (case SplitHostPort address of
        None \<Rightarrow> Inl (PlainErr (''provider egress destination '' @ address @ '' is invalid''))
      | Some (host, port) \<Rightarrow>
          (let h = lower_host (trim_suffix host ''.'')
           in case find (\<lambda>route. h = pr_Host route \<and> port = itoa (pr_Port route)) ProviderEgressRoutes of
                Some route \<Rightarrow> Inr (pr_VsockPort route)
              | None \<Rightarrow> Inl (PlainErr (''provider egress destination '' @ address @ '' is not measured or allowed''))))"

text \<open>A dial, which never goes anywhere but to a port of the parent.\<close>

datatype transport = ProviderTransport | FixedTransport nat

definition ConfigureMeteringTransport :: transport where
  "ConfigureMeteringTransport = FixedTransport MeteringVsockPort"

definition ConfigureRouterTransport :: transport where
  "ConfigureRouterTransport = FixedTransport RouterVsockPort"

definition DialContext :: "(nat \<Rightarrow> nat \<Rightarrow> go_error + 'conn) \<Rightarrow> transport \<Rightarrow> go_error option \<Rightarrow> string
    \<Rightarrow> (go_error + 'conn) \<times> (nat \<times> nat) list" where
  "DialContext dial t cancelled address =
     (case cancelled of
        Some err \<Rightarrow> (Inl err, [])
      | None \<Rightarrow>
          (case t of
             FixedTransport port \<Rightarrow> (dial ParentCID port, [(ParentCID, port)])
           | ProviderTransport \<Rightarrow>
               (case providerVsockPort address of
                  Inl err \<Rightarrow> (Inl err, [])
                | Inr port \<Rightarrow> (dial ParentCID port, [(ParentCID, port)]))))"

text \<open>The resolver of the enclave's own loopback: it answers for one name.\<close>

record dns_question =
  dq_Name :: string
  dq_Class :: nat
  dq_Type :: nat

record dns_response =
  dr_NameError :: bool
  dr_Answers :: "(nat \<times> nat \<times> nat \<times> nat) list"

text \<open>\<open>strings.EqualFold\<close> with an ASCII name: the long s and the Kelvin sign fold to ASCII letters.\<close>

definition fold_name :: "string \<Rightarrow> string" where
  "fold_name s = map fold_byte (replace_all (replace_all s [CHR 0xE2, CHR 0x84, CHR 0xAA] ''k'') [CHR 0xC5, CHR 0xBF] ''s'')"

definition ClassINET :: nat where "ClassINET = 1"
definition TypeA :: nat where "TypeA = 1"

definition buildTinfoilDNSResponse :: "dns_question list \<Rightarrow> dns_response option" where
  "buildTinfoilDNSResponse questions =
     (case questions of
        [q] \<Rightarrow>
          (let knownHost = fold_name (dq_Name q) = map fold_byte ''inference.tinfoil.sh.'' \<and> dq_Class q = ClassINET
           in Some \<lparr>dr_NameError = \<not> knownHost, dr_Answers = (if knownHost \<and> dq_Type q = TypeA then [(127, 0, 0, 1)] else [])\<rparr>)
      | _ \<Rightarrow> None)"

section \<open>Only measured destinations\<close>

text \<open>The JSON numbers of the manifest name every port that a dial can reach.\<close>

definition measured_ports :: "nat list" where
  "measured_ports = map pr_VsockPort ProviderEgressRoutes @ [MeteringVsockPort, RouterVsockPort]"

text \<open>
  C25: Egress only to what the manifest measures. Every connection the provider transport opens
  goes to the parent, on the port of a route of the manifest whose host, up to case and a final
  dot, and whose port are the ones that were asked for; nothing is dialled for any other
  destination or after the request was cancelled, and the port tells the destination.
\<close>

theorem egress_is_measured:
  "\<forall>(cid, port) \<in> set (snd (DialContext dial ProviderTransport cancelled address)).
     cid = ParentCID \<and> cancelled = None \<and> (\<exists>host route. SplitHostPort address = Some (host, itoa (pr_Port route))
       \<and> route \<in> set ProviderEgressRoutes \<and> lower_host (trim_suffix host ''.'') = pr_Host route \<and> port = pr_VsockPort route
       \<and> (\<forall>other \<in> set ProviderEgressRoutes. pr_VsockPort other = port \<longrightarrow> other = route))"
proof -
  have apart: "\<forall>r \<in> set ProviderEgressRoutes. \<forall>s \<in> set ProviderEgressRoutes. pr_VsockPort s = pr_VsockPort r \<longrightarrow> s = r"
    by (simp add: ProviderEgressRoutes_def egress_route_def)
  have route: "\<exists>host route. SplitHostPort address = Some (host, itoa (pr_Port route)) \<and> route \<in> set ProviderEgressRoutes
      \<and> lower_host (trim_suffix host ''.'') = pr_Host route \<and> port = pr_VsockPort route"
    if ok: "providerVsockPort address = Inr port" for port
  proof -
    obtain host p where hp: "SplitHostPort address = Some (host, p)"
      using ok by (cases "SplitHostPort address") (auto simp: providerVsockPort_def)
    let ?h = "lower_host (trim_suffix host ''.'')"
    obtain r where r: "find (\<lambda>route. ?h = pr_Host route \<and> p = itoa (pr_Port route)) ProviderEgressRoutes = Some r" "port = pr_VsockPort r"
      using ok hp by (auto simp: providerVsockPort_def Let_def split: option.splits)
    show ?thesis using find_SomeD [OF r(1)] r(2) hp by blast
  qed
  have dialled: "cid = ParentCID \<and> cancelled = None \<and> providerVsockPort address = Inr port"
    if "(cid, port) \<in> set (snd (DialContext dial ProviderTransport cancelled address))" for cid port
    using that by (auto simp: DialContext_def split: option.splits sum.splits)
  show ?thesis
  proof (clarify)
    fix cid port
    assume "(cid, port) \<in> set (snd (DialContext dial ProviderTransport cancelled address))"
    with dialled route apart show "cid = ParentCID \<and> cancelled = None \<and> (\<exists>host route. SplitHostPort address = Some (host, itoa (pr_Port route))
       \<and> route \<in> set ProviderEgressRoutes \<and> lower_host (trim_suffix host ''.'') = pr_Host route \<and> port = pr_VsockPort route
       \<and> (\<forall>other \<in> set ProviderEgressRoutes. pr_VsockPort other = port \<longrightarrow> other = route))" by metis
  qed
qed

theorem egress_is_measured_witness:
  "snd (DialContext (\<lambda>cid port. Inr port) ProviderTransport None ''API.deepseek.com.:443'') = [(3, 8443)]
   \<and> (\<exists>route. route \<in> set ProviderEgressRoutes \<and> pr_Host route = ''api.deepseek.com'' \<and> pr_VsockPort route = 8443)"
proof -
  have dialled: "snd (DialContext (\<lambda>cid port. Inr port) ProviderTransport None ''API.deepseek.com.:443'') = [(3, 8443)]"
    and host: "map_option fst (SplitHostPort ''API.deepseek.com.:443'') = Some ''API.deepseek.com.''"
    and lower: "lower_host (trim_suffix ''API.deepseek.com.'' ''.'') = ''api.deepseek.com''" by code_simp+
  obtain h route where "SplitHostPort ''API.deepseek.com.:443'' = Some (h, itoa (pr_Port route))" "route \<in> set ProviderEgressRoutes"
    "lower_host (trim_suffix h ''.'') = pr_Host route" "8443 = pr_VsockPort route"
    using egress_is_measured [of "\<lambda>cid port. Inr port" None "''API.deepseek.com.:443''"] unfolding dialled by auto
  then show ?thesis using dialled host lower by auto
qed

end
