(* ===== verification/Bootstrap.thy ===== *)
theory Bootstrap
  imports Bundle Cms Profile
begin

text \<open>
  The way a secret bundle takes into the enclave: the operator's tool that seals it
  (\<open>cmd/nexus-enclave-config\<close>), the parent's forwarder that sends it with temporary credentials
  (\<open>cmd/nexus-vsock-forwarder\<close>), the release of the data key by KMS against an attestation, and
  the loading of the environment (\<open>enclave/bootstrap\<close>). Files, sockets, the AWS SDK, the Nitro
  module and the JSON codec are parameters.
\<close>

section \<open>Key release\<close>

definition octets_of :: "string \<Rightarrow> octets" where
  "octets_of s = map (\<lambda>c. word_of_nat (byte c)) s"

definition bytes_of :: "octets \<Rightarrow> string" where
  "bytes_of os = map (\<lambda>w. char_of (unat w)) os"

lemma bytes_of_octets_of [simp]: "bytes_of (octets_of s) = s"
  by (induction s) (simp_all add: bytes_of_def octets_of_def unat_of_small byte_less)

lemma length_bytes_of [simp]: "length (bytes_of os) = length os"
  by (simp add: bytes_of_def)

record kms_reply =
  kr_Plaintext :: string
  kr_CiphertextForRecipient :: string
  kr_KeyId :: "string option"

record attestation_reply =
  ar_Error :: string
  ar_Document :: "string option"

record 'key kms_env =
  ke_generate :: "go_error + 'key"
  ke_public :: "'key \<Rightarrow> go_error + string"
  ke_nonce :: "go_error + string"
  ke_session :: "go_error option"
  ke_attest :: "string \<Rightarrow> string \<Rightarrow> string \<Rightarrow> go_error + attestation_reply"    \<comment> \<open>nonce, user data, public key\<close>
  ke_config :: "aws_credentials \<Rightarrow> go_error option"
  ke_decrypt :: "aws_credentials \<Rightarrow> string \<Rightarrow> string_map \<Rightarrow> string \<Rightarrow> string \<Rightarrow> go_error + kms_reply"
    \<comment> \<open>credentials, blob, context, key ID, attestation document\<close>
  ke_cms :: "'key cms_env"

definition decryptDataKey :: "'key kms_env \<Rightarrow> build \<Rightarrow> string \<Rightarrow> aws_credentials \<Rightarrow> sealed_envelope \<Rightarrow> go_error + string" where
  "decryptDataKey env b manifestDigest creds e =
     (case DecodeEncryptedDataKey e of Inl err \<Rightarrow> Inl err | Inr encryptedDataKey \<Rightarrow>
     (case ke_generate env of Inl err \<Rightarrow> Inl (WrapErr ''generate ephemeral KMS recipient key: '' err) | Inr privateKey \<Rightarrow>
     (case ke_public env privateKey of Inl err \<Rightarrow> Inl (WrapErr ''marshal ephemeral KMS recipient key: '' err) | Inr publicKey \<Rightarrow>
     (case ke_nonce env of Inl err \<Rightarrow> Inl (WrapErr ''generate KMS attestation nonce: '' err) | Inr nonce \<Rightarrow>
     (case ke_session env of Some err \<Rightarrow> Inl (WrapErr ''open Nitro Secure Module for KMS: '' err) | None \<Rightarrow>
     (case ke_attest env nonce manifestDigest publicKey of
        Inl err \<Rightarrow> Inl (WrapErr ''request KMS recipient attestation: '' err)
      | Inr attestation \<Rightarrow>
     (if ar_Error attestation \<noteq> []
      then Inl (PlainErr (''Nitro Secure Module rejected KMS attestation: '' @ ar_Error attestation))
      else case ar_Document attestation of
        None \<Rightarrow> Inl (PlainErr ''Nitro Secure Module returned no KMS attestation document'')
      | Some document \<Rightarrow>
     (if document = [] then Inl (PlainErr ''Nitro Secure Module returned no KMS attestation document'')
      else case ke_config env creds of Some err \<Rightarrow> Inl (WrapErr ''load enclave AWS KMS configuration: '' err) | None \<Rightarrow>
     (case ke_decrypt env creds encryptedDataKey (en_EncryptionContext e) (bu_KMSKeyARN b) document of
        Inl err \<Rightarrow> Inl (WrapErr ''AWS KMS attested decrypt: '' err)
      | Inr result \<Rightarrow>
     (if kr_Plaintext result \<noteq> []
      then Inl (PlainErr ''AWS KMS returned plaintext instead of CiphertextForRecipient'')
      else if kr_CiphertextForRecipient result = [] then Inl (PlainErr ''AWS KMS returned no CiphertextForRecipient'')
      else if kr_KeyId result \<noteq> Some (bu_KMSKeyARN b) then Inl (PlainErr ''AWS KMS decrypted with an unexpected key'')
      else case decryptKMSRecipient (ke_cms env) (Some privateKey) (octets_of (kr_CiphertextForRecipient result)) of
        Inl err \<Rightarrow> Inl (WrapErr ''decrypt KMS recipient response: '' err)
      | Inr dataKey \<Rightarrow>
          (if length dataKey \<noteq> 32 then Inl (PlainErr ''AWS KMS released an invalid data key size'')
           else Inr (bytes_of dataKey))))))))))))"

text \<open>The host of the KMS endpoint of a region, in the partition of the key.\<close>

definition kms_host :: "string \<Rightarrow> string \<Rightarrow> string" where
  "kms_host region keyARN =
     (let parts = split_byte (CHR '':'') keyARN; host = ''kms.'' @ region @ ''.amazonaws.com''
      in if length parts > 1 \<and> parts ! 1 = ''aws-cn'' then host @ ''.cn'' else host)"

section \<open>Loading\<close>

fun set_environment :: "(string \<Rightarrow> string \<Rightarrow> go_error option) \<Rightarrow> string_map \<Rightarrow> go_error option \<times> string_map" where
  "set_environment setenv [] = (None, [])"
| "set_environment setenv ((key, v) # environment) =
     (case setenv key v of
        Some err \<Rightarrow> (Some (WrapErr (''apply enclave configuration '' @ quote key @ '': '') err), [])
      | None \<Rightarrow> (let (res, done) = set_environment setenv environment in (res, (key, v) # done)))"

text \<open>The result of loading a payload, with the variables it has set; \<open>decode\<close> reads the request.\<close>

definition loadPayload :: "bundle_env \<Rightarrow> bootstrap_request strict_reader \<Rightarrow> string \<Rightarrow> time \<Rightarrow> build
    \<Rightarrow> (aws_credentials \<Rightarrow> sealed_envelope \<Rightarrow> go_error + string) \<Rightarrow> (string \<Rightarrow> string \<Rightarrow> go_error option) \<Rightarrow> go_error option \<times> string_map" where
  "loadPayload env decode payload now b decrypt setenv =
     (case decode payload of
        Inl err \<Rightarrow> (Some (WrapErr ''decode enclave bootstrap: '' err), [])
      | Inr (request, ends) \<Rightarrow>
     (if \<not> ends then (Some (PlainErr ''enclave bootstrap must contain exactly one JSON value''), [])
      else case ValidateBootstrapRequest request now of Some err \<Rightarrow> (Some err, []) | None \<Rightarrow>
     (case ValidateEnvelope (br_Envelope request) (bu_KMSKeyARN b) (bu_AWSRegion b) (bu_SourceRevision b) of
        Some err \<Rightarrow> (Some err, [])
      | None \<Rightarrow>
     (case decrypt (br_Credentials request) (br_Envelope request) of
        Inl err \<Rightarrow> (Some (WrapErr ''release enclave data key: '' err), [])
      | Inr dataKey \<Rightarrow>
     (case Decrypt env (br_Envelope request) dataKey (bu_KMSKeyARN b) (bu_AWSRegion b) (bu_SourceRevision b) now of
        Inl err \<Rightarrow> (Some err, [])
      | Inr bundle \<Rightarrow> set_environment setenv (be_range_set env (sb_Environment bundle)))))))"

definition maxBootstrapBytes :: nat where "maxBootstrapBytes = 256 * 1024"
definition maxBootstrapResponseBytes :: nat where "maxBootstrapResponseBytes = 4 * 1024"

definition writeBootstrapFailure :: "string \<Rightarrow> string" where
  "writeBootstrapFailure message =
     (let m = ''ERROR '' @ message @ [CHR 0x0A]
      in if length m > maxBootstrapResponseBytes then take (maxBootstrapResponseBytes - 1) m @ [CHR 0x0A] else m)"

text \<open>A connection: the CID it comes from, when it comes over vsock, and the bytes it brings.\<close>

record connection =
  co_CID :: "nat option"
  co_payload :: "go_error + string"

definition isHost :: "connection \<Rightarrow> bool" where
  "isHost c = (co_CID c = Some ParentCID)"

text \<open>What \<open>Load\<close> returns and writes back, and the variables it sets; \<open>accepted\<close> is what the listener gives.\<close>

definition Load :: "bundle_env \<Rightarrow> bootstrap_request strict_reader \<Rightarrow> go_error + connection \<Rightarrow> time \<Rightarrow> build
    \<Rightarrow> (aws_credentials \<Rightarrow> sealed_envelope \<Rightarrow> go_error + string) \<Rightarrow> (string \<Rightarrow> string \<Rightarrow> go_error option) \<Rightarrow> (go_error \<Rightarrow> string)
    \<Rightarrow> go_error option \<times> string \<times> string_map" where
  "Load env decode accepted now b decrypt setenv describe =
     (case accepted of
        Inl err \<Rightarrow> (Some (WrapErr ''accept enclave bootstrap: '' err), [], [])
      | Inr c \<Rightarrow>
          (if \<not> isHost c then (Some (PlainErr ''reject bootstrap from non-host CID''), [], [])
           else case co_payload c of
             Inl err \<Rightarrow> (Some (WrapErr ''read enclave bootstrap: '' err), [], [])
           | Inr sent \<Rightarrow>
               (let payload = take (maxBootstrapBytes + 1) sent
                in if payload = [] \<or> length payload > maxBootstrapBytes
                   then (Some (PlainErr ''enclave bootstrap payload size is invalid''), [], [])
                   else case loadPayload env decode payload now b decrypt setenv of
                     (Some err, env') \<Rightarrow> (Some err, writeBootstrapFailure (describe err), env')
                   | (None, env') \<Rightarrow> (None, ''OK'' @ [CHR 0x0A], env'))))"

section \<open>The operator's tool\<close>

record kms_wrapped =
  kw_CiphertextBlob :: string
  kw_KeyId :: "string option"

record encrypt_flags =
  ef_in :: string
  ef_out :: string
  ef_region :: string
  ef_kms_key_arn :: string
  ef_source_revision :: string
  ef_args :: nat

record secret_input =
  si_ExpiresAt :: "time option"
  si_Environment :: string_map

text \<open>An open file: whether it is regular, with its permission bits, and what reading it gives.\<close>

record input_file =
  inf_Mode :: "go_error + bool \<times> nat"
  inf_Content :: "go_error + string"

record encrypt_env =
  ee_stdin :: "go_error + string"
  ee_open :: "string \<Rightarrow> go_error + input_file"
  ee_decode :: "secret_input strict_reader"
  ee_trailing :: go_error                           \<comment> \<open>what follows the first value\<close>
  ee_now :: time
  ee_data_key :: "go_error + string"
  ee_nonce :: "go_error + string"
  ee_config :: "go_error option"
  ee_wrap :: "string \<Rightarrow> string \<Rightarrow> string_map \<Rightarrow> go_error + kms_wrapped"     \<comment> \<open>key ID, plaintext, context\<close>
  ee_marshal :: "sealed_envelope \<Rightarrow> go_error + string"

definition maxInputBytes :: nat where "maxInputBytes = 128 * 1024"

definition input_mode_error :: "bool \<Rightarrow> nat \<Rightarrow> go_error option" where
  "input_mode_error regular perm =
     (if regular \<and> perm mod 64 \<noteq> 0
      then Some (PlainErr ''secret input file must not be readable or writable by group/other (use chmod 600)'') else None)"

definition readSecretInput :: "encrypt_env \<Rightarrow> string \<Rightarrow> go_error + string" where
  "readSecretInput env path =
     (case (if path = ''-'' then Inr (ee_stdin env)
            else case ee_open env path of
              Inl err \<Rightarrow> Inl (WrapErr ''open secret input: '' err)
            | Inr f \<Rightarrow>
           (case inf_Mode f of
              Inl err \<Rightarrow> Inl (WrapErr ''inspect secret input: '' err)
            | Inr (regular, perm) \<Rightarrow>
           (case input_mode_error regular perm of Some err \<Rightarrow> Inl err | None \<Rightarrow> Inr (inf_Content f)))) of
        Inl err \<Rightarrow> Inl err
      | Inr reader \<Rightarrow>
     (case reader of
        Inl err \<Rightarrow> Inl (WrapErr ''read secret input: '' err)
      | Inr all \<Rightarrow>
          (let payload = take (maxInputBytes + 1) all
           in if payload = [] \<or> length payload > maxInputBytes then Inl (PlainErr ''secret input has an invalid size'')
              else Inr payload)))"

definition runEncrypt :: "bundle_env \<Rightarrow> encrypt_env \<Rightarrow> encrypt_flags \<Rightarrow> go_error + string" where
  "runEncrypt benv env flags =
     (if ef_args flags \<noteq> 0 \<or> ef_in flags = [] \<or> ef_out flags = [] \<or> ef_region flags = [] \<or> ef_kms_key_arn flags = []
         \<or> ef_source_revision flags = []
      then Inl (PlainErr ''--in, --out, --region, --kms-key-arn, and --source-revision are required'')
      else case readSecretInput env (ef_in flags) of Inl err \<Rightarrow> Inl err | Inr inputBytes \<Rightarrow>
     (case (case ee_decode env inputBytes of
              Inl err \<Rightarrow> Inl err | Inr (v, ends) \<Rightarrow> if ends then Inr v else Inl (ee_trailing env)) of
        Inl err \<Rightarrow> Inl (WrapErr ''decode secret input: '' err)
      | Inr input \<Rightarrow>
     (let bundle = \<lparr>sb_SchemaVersion = SchemaVersion, sb_SourceRevision = trim_space (ef_source_revision flags),
            sb_IssuedAt = ee_now env, sb_ExpiresAt = si_ExpiresAt input, sb_Environment = si_Environment input\<rparr>
      in case ValidateSecretBundle benv bundle (sb_SourceRevision bundle) (ee_now env) of
        Some err \<Rightarrow> Inl (WrapErr ''validate secret input: '' err)
      | None \<Rightarrow>
     (case ee_data_key env of Inl err \<Rightarrow> Inl (WrapErr ''generate data key: '' err) | Inr dataKey \<Rightarrow>
     (case Encrypt benv (ee_now env) (ee_nonce env) bundle dataKey (trim_space (ef_kms_key_arn flags)) (trim_space (ef_region flags)) of
        Inl err \<Rightarrow> Inl err
      | Inr e \<Rightarrow>
     (case ee_config env of Some err \<Rightarrow> Inl (WrapErr ''load AWS configuration: '' err) | None \<Rightarrow>
     (case ee_wrap env (en_KMSKeyARN e) dataKey (en_EncryptionContext e) of
        Inl err \<Rightarrow> Inl (WrapErr ''wrap data key with AWS KMS: '' err)
      | Inr result \<Rightarrow>
     (if kw_CiphertextBlob result = [] then Inl (PlainErr ''AWS KMS returned an empty encrypted data key'')
      else case kw_KeyId result of
        None \<Rightarrow> Inl (PlainErr ''AWS KMS returned no key ID'')
      | Some keyId \<Rightarrow>
     (if keyId \<noteq> en_KMSKeyARN e then Inl (PlainErr (''AWS KMS used unexpected key '' @ quote keyId))
      else case ee_marshal env (e\<lparr>en_EncryptedDataKey := EncodeToString StdEncoding (kw_CiphertextBlob result)\<rparr>) of
        Inl err \<Rightarrow> Inl (WrapErr ''encode encrypted envelope: '' err)
      | Inr encoded \<Rightarrow> Inr (encoded @ [CHR 0x0A]))))))))))"

section \<open>The forwarder\<close>

record parent_credentials =
  pa_AccessKeyID :: string
  pa_SecretAccessKey :: string
  pa_SessionToken :: string
  pa_CanExpire :: bool
  pa_Expires :: time

record forwarder_env =
  fe_read :: "string \<Rightarrow> go_error + string"
  fe_decode :: "sealed_envelope strict_reader"
  fe_trailing :: go_error
  fe_config :: "go_error option"
  fe_credentials :: "go_error + parent_credentials"
  fe_now :: time
  fe_marshal :: "bootstrap_request \<Rightarrow> go_error + string"

definition maxEnvelopeBytes :: nat where "maxEnvelopeBytes = 192 * 1024"

text \<open>\<open>log.Fatal\<close> ends the process: the error is all that is left.\<close>

definition readBootstrapPayload :: "forwarder_env \<Rightarrow> string \<Rightarrow> go_error + string" where
  "readBootstrapPayload env path =
     (case fe_read env path of Inl err \<Rightarrow> Inl (WrapErr ''read encrypted envelope: '' err) | Inr all \<Rightarrow>
     (let envelopeBytes = take (maxEnvelopeBytes + 1) all
      in if envelopeBytes = [] \<or> length envelopeBytes > maxEnvelopeBytes
      then Inl (PlainErr ''encrypted envelope has an invalid size'')
      else case fe_decode env envelopeBytes of
        Inl err \<Rightarrow> Inl (WrapErr ''decode encrypted envelope: '' err)
      | Inr (e, ends) \<Rightarrow>
     (if \<not> ends then Inl (WrapErr ''decode encrypted envelope: '' (fe_trailing env))
      else case fe_config env of Some err \<Rightarrow> Inl (WrapErr ''load parent AWS configuration: '' err) | None \<Rightarrow>
     (case fe_credentials env of Inl err \<Rightarrow> Inl (WrapErr ''retrieve parent role credentials: '' err) | Inr c \<Rightarrow>
     (if \<not> pa_CanExpire c \<or> pa_Expires c = zero_time
      then Inl (PlainErr ''bootstrap requires temporary parent-role credentials'')
      else let request = \<lparr>br_SchemaVersion = BootstrapSchemaVersion,
             br_Credentials = \<lparr>cr_AccessKeyID = pa_AccessKeyID c, cr_SecretAccessKey = pa_SecretAccessKey c,
               cr_SessionToken = pa_SessionToken c, cr_ExpiresAt = pa_Expires c\<rparr>,
             br_Envelope = e\<rparr>
      in case ValidateBootstrapRequest request (fe_now env) of
        Some err \<Rightarrow> Inl (WrapErr ''validate parent role credentials: '' err)
      | None \<Rightarrow>
     (case fe_marshal env request of
        Inl err \<Rightarrow> Inl (PlainErr ''encode encrypted bootstrap request'')
      | Inr payload \<Rightarrow>
          (if length payload > maxBootstrapBytes then Inl (PlainErr ''encrypted bootstrap request is too large'')
           else Inr payload)))))))"

definition bootstrap_answer :: "string \<Rightarrow> go_error option" where
  "bootstrap_answer response =
     (if length (take (maxBootstrapResponseBytes + 1) response) > maxBootstrapResponseBytes
      then Some (PlainErr ''enclave bootstrap response is too large'')
      else if response \<noteq> ''OK'' @ [CHR 0x0A] then
        (if trim_space response = [] then Some (PlainErr ''enclave rejected bootstrap configuration without a diagnostic'')
         else Some (PlainErr (''enclave rejected bootstrap configuration: '' @ quote (trim_space response))))
      else None)"

definition validateVsockAddress :: "nat \<Rightarrow> nat \<Rightarrow> go_error option" where
  "validateVsockAddress cid port =
     (if cid < 4 \<or> cid > 2 ^ 32 - 1 then Some (PlainErr ''cid must be between 4 and 4294967295'')
      else if port < 4 \<or> port > 2 ^ 32 - 1 then Some (PlainErr ''port must be between 4 and 4294967295'')
      else None)"

end
