(* ===== verification/BootstrapFacts.thy ===== *)
theory BootstrapFacts
  imports Bootstrap
begin

text \<open>
  What the bootstrap promises: the environment of the enclave is what was sealed for the measured
  build and released to its attestation, and what the operator seals arrives unchanged.
\<close>

section \<open>Setting variables\<close>

lemma set_environment_prefix: "set_environment setenv m = (res, vars) \<Longrightarrow> \<exists>k. vars = take k m"
proof (induction setenv m arbitrary: res vars rule: set_environment.induct)
  case (2 setenv key v environment)
  show ?case
  proof (cases "setenv key v")
    case None
    obtain res' vars' where rest: "set_environment setenv environment = (res', vars')" by force
    then obtain k where "vars' = take k environment" using "2.IH" [OF None] by blast
    then show ?thesis using "2.prems" None rest by (intro exI [of _ "Suc k"]) simp
  next
    case (Some err)
    then show ?thesis using "2.prems" by (intro exI [of _ 0]) simp
  qed
qed simp

lemma set_environment_all: "(\<And>k v. setenv k v = None) \<Longrightarrow> set_environment setenv m = (None, m)"
  by (induction m) auto

section \<open>Only what was sealed and released\<close>

lemma Decrypt_sound:
  assumes "Decrypt env e dataKey arn region revision now = Inr sb"
  shows "\<exists>nonce ciphertext aad p. validateEnvelopeHeader e arn region revision = None
    \<and> be_header env \<lparr>eh_SchemaVersion = SchemaVersion, eh_KMSKeyARN = arn, eh_AWSRegion = region,
        eh_EncryptionContext = en_EncryptionContext e\<rparr> = Inr aad
    \<and> be_open env dataKey nonce ciphertext aad = Some p \<and> be_decode env p = Inr (sb, True)
    \<and> ValidateSecretBundle env sb revision now = None"
proof -
  obtain nonce ciphertext aad p where d: "validateEnvelopeHeader e arn region revision = None" "envelopeAAD env e = Inr aad"
      "be_open env dataKey nonce ciphertext aad = Some p" "be_decode env p = Inr (sb, True)"
      "ValidateSecretBundle env sb revision now = None"
    using assms by (auto simp: Decrypt_def split: if_splits option.splits sum.splits)
  moreover have "en_SchemaVersion e = SchemaVersion" "en_KMSKeyARN e = arn" "en_AWSRegion e = region"
    using d(1) by (auto simp: validateEnvelopeHeader_def split: if_splits)
  ultimately show ?thesis by (auto simp: envelopeAAD_def split: sum.splits)
qed

lemma loadPayload_sound:
  assumes "loadPayload env decode payload now b decrypt setenv = (res, vars)" and "vars \<noteq> []"
  shows "\<exists>request dataKey sb. decode payload = Inr (request, True) \<and> ValidateBootstrapRequest request now = None
    \<and> decrypt (br_Credentials request) (br_Envelope request) = Inr dataKey
    \<and> Decrypt env (br_Envelope request) dataKey (bu_KMSKeyARN b) (bu_AWSRegion b) (bu_SourceRevision b) now = Inr sb
    \<and> (\<exists>k. vars = take k (be_range_set env (sb_Environment sb)))"
  using assms
  by (auto simp: loadPayload_def dest: set_environment_prefix split: sum.splits option.splits if_splits prod.splits)

lemma decryptDataKey_sound:
  assumes "decryptDataKey env b digest creds e = Inr dataKey"
  shows "\<exists>key publicKey nonce attestation document blob reply k. ke_public env key = Inr publicKey
    \<and> ke_attest env nonce digest publicKey = Inr attestation \<and> ar_Document attestation = Some document
    \<and> DecodeEncryptedDataKey e = Inr blob
    \<and> ke_decrypt env creds blob (en_EncryptionContext e) (bu_KMSKeyARN b) document = Inr reply
    \<and> kr_Plaintext reply = [] \<and> kr_KeyId reply = Some (bu_KMSKeyARN b)
    \<and> decryptKMSRecipient (ke_cms env) (Some key) (octets_of (kr_CiphertextForRecipient reply)) = Inr k \<and> dataKey = bytes_of k"
proof -
  obtain blob key publicKey nonce attestation document reply k where
      "DecodeEncryptedDataKey e = Inr blob" "ke_public env key = Inr publicKey" "ke_attest env nonce digest publicKey = Inr attestation"
      "ar_Document attestation = Some document"
      "ke_decrypt env creds blob (en_EncryptionContext e) (bu_KMSKeyARN b) document = Inr reply"
      "kr_Plaintext reply = []" "kr_KeyId reply = Some (bu_KMSKeyARN b)"
      "decryptKMSRecipient (ke_cms env) (Some key) (octets_of (kr_CiphertextForRecipient reply)) = Inr k" "dataKey = bytes_of k"
    using assms by (auto simp: decryptDataKey_def split: sum.splits option.splits if_splits)
  then show ?thesis by (intro exI conjI)
qed

text \<open>
  C9: The enclave takes its configuration only from a bundle sealed for its own build. When
  loading sets any variable, the payload came from the parent; KMS released the data key, under
  the measured key, to an attestation of the measured manifest and of a fresh key that alone
  unwraps the answer, and never in plaintext; the bundle opened under that data key with the
  measured key, region and revision as associated data, names the measured revision and has not
  expired; and every variable set is an entry of it, of an allowed name and bounded size.
\<close>

theorem configuration_is_sealed_for_the_build:
  assumes "Load env decode accepted now b (decryptDataKey kenv b digest) setenv describe = (res, answer, vars)"
    and "vars \<noteq> []" and "ranges env"
  shows "\<exists>c (request :: bootstrap_request) dataKey sb. accepted = Inr c \<and> co_CID c = Some ParentCID
    \<and> (\<exists>key publicKey nonce attestation document blob reply k. ke_public kenv key = Inr publicKey
        \<and> ke_attest kenv nonce digest publicKey = Inr attestation \<and> ar_Document attestation = Some document
        \<and> ke_decrypt kenv (br_Credentials request) blob (en_EncryptionContext (br_Envelope request)) (bu_KMSKeyARN b) document = Inr reply
        \<and> kr_Plaintext reply = [] \<and> kr_KeyId reply = Some (bu_KMSKeyARN b)
        \<and> decryptKMSRecipient (ke_cms kenv) (Some key) (octets_of (kr_CiphertextForRecipient reply)) = Inr k \<and> dataKey = bytes_of k)
    \<and> (\<exists>nonce ciphertext aad p. be_header env \<lparr>eh_SchemaVersion = SchemaVersion, eh_KMSKeyARN = bu_KMSKeyARN b,
          eh_AWSRegion = bu_AWSRegion b, eh_EncryptionContext = en_EncryptionContext (br_Envelope request)\<rparr> = Inr aad
        \<and> be_open env dataKey nonce ciphertext aad = Some p \<and> be_decode env p = Inr (sb, True))
    \<and> map_value (en_EncryptionContext (br_Envelope request)) ''nexus:source-revision'' = bu_SourceRevision b
    \<and> sb_SourceRevision sb = bu_SourceRevision b \<and> (\<forall>expires. sb_ExpiresAt sb = Some expires \<longrightarrow> now < expires)
    \<and> (\<forall>(key, v) \<in> set vars. (key, v) \<in> set (sb_Environment sb) \<and> allowed_key key \<and> v \<noteq> [] \<and> length v \<le> maxEnvironmentValue)"
proof -
  obtain c payload res' where load: "accepted = Inr c" "co_CID c = Some ParentCID"
      "loadPayload env decode payload now b (decryptDataKey kenv b digest) setenv = (res', vars)"
    using assms(1,2) by (auto simp: Load_def isHost_def Let_def split: sum.splits if_splits prod.splits option.splits)
  obtain request :: bootstrap_request and dataKey sb k where r: "decryptDataKey kenv b digest (br_Credentials request) (br_Envelope request) = Inr dataKey"
      "Decrypt env (br_Envelope request) dataKey (bu_KMSKeyARN b) (bu_AWSRegion b) (bu_SourceRevision b) now = Inr sb"
      "vars = take k (be_range_set env (sb_Environment sb))"
    using loadPayload_sound [OF load(3) assms(2)] by blast
  obtain nonce ciphertext aad p where d: "validateEnvelopeHeader (br_Envelope request) (bu_KMSKeyARN b) (bu_AWSRegion b) (bu_SourceRevision b) = None"
      "be_header env \<lparr>eh_SchemaVersion = SchemaVersion, eh_KMSKeyARN = bu_KMSKeyARN b, eh_AWSRegion = bu_AWSRegion b,
        eh_EncryptionContext = en_EncryptionContext (br_Envelope request)\<rparr> = Inr aad"
      "be_open env dataKey nonce ciphertext aad = Some p" "be_decode env p = Inr (sb, True)"
      "ValidateSecretBundle env sb (bu_SourceRevision b) now = None"
    using Decrypt_sound [OF r(2)] by blast
  have vars: "set vars \<subseteq> set (sb_Environment sb)"
    using ranges_set [OF assms(3)] set_take_subset [of k "be_range_set env (sb_Environment sb)"] r(3) by simp
  then have "\<forall>(key, v) \<in> set vars. (key, v) \<in> set (sb_Environment sb) \<and> allowed_key key \<and> v \<noteq> [] \<and> length v \<le> maxEnvironmentValue"
    using valid_entries [OF d(5) assms(3)] by blast
  moreover have "sb_SourceRevision sb = bu_SourceRevision b" "\<forall>expires. sb_ExpiresAt sb = Some expires \<longrightarrow> now < expires"
    using valid_bundle [OF d(5)] by blast+
  ultimately show ?thesis
    using load(1,2) decryptDataKey_sound [OF r(1)] d(2-4) header_context [OF d(1)] by blast
qed


section \<open>What is sealed arrives\<close>

text \<open>Texts a JSON codec keeps: Go replaces what is not UTF-8.\<close>

definition plain_map :: "string_map \<Rightarrow> bool" where
  "plain_map m = list_all (\<lambda>(k, v). utf8_valid k \<and> utf8_valid v) m"

definition plain_bundle :: "secret_bundle \<Rightarrow> bool" where
  "plain_bundle sb = (utf8_valid (sb_SourceRevision sb) \<and> plain_map (sb_Environment sb))"

definition plain_envelope :: "sealed_envelope \<Rightarrow> bool" where
  "plain_envelope e = (list_all utf8_valid [en_KMSKeyARN e, en_AWSRegion e, en_EncryptedDataKey e, en_Nonce e, en_Ciphertext e]
     \<and> plain_map (en_EncryptionContext e))"

definition plain_credentials :: "aws_credentials \<Rightarrow> bool" where
  "plain_credentials c = list_all utf8_valid [cr_AccessKeyID c, cr_SecretAccessKey c, cr_SessionToken c]"

text \<open>What the sealing relies on: codecs that agree, an AEAD that opens what it sealed, a KMS that unwraps what it wrapped.\<close>

definition codecs_agree :: "bundle_env \<Rightarrow> encrypt_env \<Rightarrow> forwarder_env \<Rightarrow> bootstrap_request strict_reader \<Rightarrow> bool" where
  "codecs_agree benv eenv fenv decode =
     ((\<forall>sb p. plain_bundle sb \<and> be_marshal benv sb = Inr p \<longrightarrow> be_decode benv p = Inr (sb, True))
      \<and> (\<forall>e p. plain_envelope e \<and> ee_marshal eenv e = Inr p \<longrightarrow> fe_decode fenv (p @ [CHR 0x0A]) = Inr (e, True))
      \<and> (\<forall>r p. plain_envelope (br_Envelope r) \<and> plain_credentials (br_Credentials r) \<and> fe_marshal fenv r = Inr p \<longrightarrow>
            p \<noteq> [] \<and> decode p = Inr (r, True)))"

definition aead_opens :: "bundle_env \<Rightarrow> bool" where
  "aead_opens benv = (\<forall>k n p a. be_open benv k n (be_seal benv k n p a) a = Some p \<and> be_seal benv k n p a \<noteq> [])"

definition kms_unwraps :: "encrypt_env \<Rightarrow> (aws_credentials \<Rightarrow> sealed_envelope \<Rightarrow> go_error + string) \<Rightarrow> bool" where
  "kms_unwraps eenv decrypt =
     (\<forall>k creds e w. ee_wrap eenv (en_KMSKeyARN e) k (en_EncryptionContext e) = Inr w
        \<and> DecodeEncryptedDataKey e = Inr (kw_CiphertextBlob w) \<longrightarrow> decrypt creds e = Inr k)"

lemma runEncrypt_seals:
  assumes "runEncrypt benv eenv flags = Inr file"
  shows "\<exists>text' input nonce dataKey e w. readSecretInput eenv (ef_in flags) = Inr text' \<and> ee_decode eenv text' = Inr (input, True)
    \<and> ee_data_key eenv = Inr dataKey \<and> ee_nonce eenv = Inr nonce
    \<and> Encrypt benv (ee_now eenv) (Inr nonce) \<lparr>sb_SchemaVersion = SchemaVersion, sb_SourceRevision = trim_space (ef_source_revision flags),
            sb_IssuedAt = ee_now eenv, sb_ExpiresAt = si_ExpiresAt input, sb_Environment = si_Environment input\<rparr> dataKey
            (trim_space (ef_kms_key_arn flags)) (trim_space (ef_region flags)) = Inr e
    \<and> ee_wrap eenv (en_KMSKeyARN e) dataKey (en_EncryptionContext e) = Inr w \<and> kw_CiphertextBlob w \<noteq> []
    \<and> (\<exists>encoded. ee_marshal eenv (e\<lparr>en_EncryptedDataKey := EncodeToString StdEncoding (kw_CiphertextBlob w)\<rparr>) = Inr encoded
         \<and> file = encoded @ [CHR 0x0A])"
proof -
  obtain text' input dataKey where i: "readSecretInput eenv (ef_in flags) = Inr text'" "ee_decode eenv text' = Inr (input, True)"
      "ee_data_key eenv = Inr dataKey"
    using assms by (auto simp: runEncrypt_def Let_def split: sum.splits option.splits if_splits prod.splits)
  let ?sb = "\<lparr>sb_SchemaVersion = SchemaVersion, sb_SourceRevision = trim_space (ef_source_revision flags),
            sb_IssuedAt = ee_now eenv, sb_ExpiresAt = si_ExpiresAt input, sb_Environment = si_Environment input\<rparr>"
  obtain e w encoded where e: "Encrypt benv (ee_now eenv) (ee_nonce eenv) ?sb dataKey (trim_space (ef_kms_key_arn flags)) (trim_space (ef_region flags)) = Inr e"
      "ee_wrap eenv (en_KMSKeyARN e) dataKey (en_EncryptionContext e) = Inr w" "kw_CiphertextBlob w \<noteq> []"
      "ee_marshal eenv (e\<lparr>en_EncryptedDataKey := EncodeToString StdEncoding (kw_CiphertextBlob w)\<rparr>) = Inr encoded"
      "file = encoded @ [CHR 0x0A]"
    using assms i by (auto simp: runEncrypt_def Let_def split: sum.splits option.splits if_splits prod.splits)
  obtain nonce where n: "ee_nonce eenv = Inr nonce"
    using e(1) by (cases "ee_nonce eenv") (auto simp: Encrypt_def Let_def split: if_splits option.splits sum.splits)
  show ?thesis using i e n by (intro exI conjI) simp_all
qed

lemma readBootstrapPayload_wraps:
  assumes "readBootstrapPayload fenv path = Inr payload" and "fe_read fenv path = Inr file"
  shows "\<exists>e c. fe_decode fenv file = Inr (e, True) \<and> fe_credentials fenv = Inr c
    \<and> ValidateBootstrapRequest \<lparr>br_SchemaVersion = BootstrapSchemaVersion,
             br_Credentials = \<lparr>cr_AccessKeyID = pa_AccessKeyID c, cr_SecretAccessKey = pa_SecretAccessKey c,
               cr_SessionToken = pa_SessionToken c, cr_ExpiresAt = pa_Expires c\<rparr>, br_Envelope = e\<rparr> (fe_now fenv) = None
    \<and> fe_marshal fenv \<lparr>br_SchemaVersion = BootstrapSchemaVersion,
             br_Credentials = \<lparr>cr_AccessKeyID = pa_AccessKeyID c, cr_SecretAccessKey = pa_SecretAccessKey c,
               cr_SessionToken = pa_SessionToken c, cr_ExpiresAt = pa_Expires c\<rparr>, br_Envelope = e\<rparr> = Inr payload
    \<and> length payload \<le> maxBootstrapBytes"
proof -
  have "length (take (maxEnvelopeBytes + 1) file) \<le> maxEnvelopeBytes"
    using assms by (auto simp: readBootstrapPayload_def Let_def split: if_splits)
  then have "take (maxEnvelopeBytes + 1) file = file" by simp
  then show ?thesis
    using assms by (auto simp: readBootstrapPayload_def Let_def not_less split: sum.splits option.splits if_splits prod.splits)
qed

lemma request_valid_later:
  "ValidateBootstrapRequest r now = None \<Longrightarrow> later + 2 * minute < cr_ExpiresAt (br_Credentials r) \<Longrightarrow> ValidateBootstrapRequest r later = None"
  by (auto simp: ValidateBootstrapRequest_def Let_def split: if_splits)


lemma plain_sealed:
  assumes "Encrypt benv now (Inr nonce) sb dataKey arn region = Inr e" and "utf8_valid (trim_space arn)"
    and "utf8_valid (trim_space region)" and "utf8_valid (sb_SourceRevision sb)"
  shows "plain_envelope (e\<lparr>en_EncryptedDataKey := EncodeToString StdEncoding w\<rparr>)
    \<and> en_KMSKeyARN e = trim_space arn \<and> en_AWSRegion e = trim_space region"
proof -
  obtain nonce' ciphertext where e: "en_KMSKeyARN e = trim_space arn" "en_AWSRegion e = trim_space region"
      "en_EncryptionContext e = EncryptionContext (sb_SourceRevision sb)" "en_Nonce e = EncodeToString StdEncoding nonce'"
      "en_Ciphertext e = EncodeToString StdEncoding ciphertext"
    using assms(1) by (auto simp: Encrypt_def Let_def split: if_splits option.splits sum.splits)
  have ascii: "utf8_valid ''nexus:bundle-schema''" "utf8_valid ''nexus:source-revision''" "utf8_valid ''nexus:workload''"
    "utf8_valid ''dappnode-nexus-gateway''"
    by (rule utf8_valid_ascii, auto)+
  moreover have "utf8_valid (itoa_int SchemaVersion)"
  proof (rule utf8_valid_ascii)
    fix c
    assume "c \<in> set (itoa_int SchemaVersion)"
    then have "is_digit c" using itoa_digits [of c 1] by (simp add: itoa_int_def SchemaVersion_def)
    then show "byte c < 128" by (simp add: is_digit_def)
  qed
  ultimately show ?thesis
    using e assms(2-4) by (simp add: plain_envelope_def plain_map_def EncryptionContext_def StdEncoding_utf8)
qed

lemma bootstrap_delivers:
  assumes "runEncrypt benv eenv flags = Inr file" and "fe_read fenv path = Inr file" and "readBootstrapPayload fenv path = Inr payload"
    and "codecs_agree benv eenv fenv decode" and "aead_opens benv" and "kms_unwraps eenv decrypt" and "ranges benv"
    and "\<And>input. readSecretInput eenv (ef_in flags) = Inr input \<Longrightarrow> \<exists>v. ee_decode eenv input = Inr (v, True)
      \<and> si_Environment v = environment \<and> plain_map environment \<and> (\<forall>x. si_ExpiresAt v = Some x \<longrightarrow> now < x)"
    and "\<And>n. ee_nonce eenv = Inr n \<Longrightarrow> length n = NonceSize"
    and "\<And>a k c w. ee_wrap eenv a k c = Inr w \<Longrightarrow> length (kw_CiphertextBlob w) \<le> maxEncryptedKeySize"
    and "\<And>c. fe_credentials fenv = Inr c \<Longrightarrow> now + 2 * minute < pa_Expires c
      \<and> list_all utf8_valid [pa_AccessKeyID c, pa_SecretAccessKey c, pa_SessionToken c]"
    and "ee_now eenv \<le> now" and "trim_space (ef_source_revision flags) = bu_SourceRevision b"
    and "trim_space (ef_kms_key_arn flags) = bu_KMSKeyARN b" and "trim_space (bu_KMSKeyARN b) = bu_KMSKeyARN b"
    and "trim_space (ef_region flags) = bu_AWSRegion b" and "trim_space (bu_AWSRegion b) = bu_AWSRegion b"
    and "list_all utf8_valid [bu_SourceRevision b, bu_KMSKeyARN b, bu_AWSRegion b]" and "\<And>k v. setenv k v = None"
  shows "\<exists>vars. Load benv decode (Inr \<lparr>co_CID = Some ParentCID, co_payload = Inr payload\<rparr>) now b decrypt setenv describe
      = (None, ''OK'' @ [CHR 0x0A], vars) \<and> mset vars = mset environment"
proof -
  obtain input nonce dataKey e w encoded where enc: "readSecretInput eenv (ef_in flags) = Inr input" "ee_nonce eenv = Inr nonce"
      "kw_CiphertextBlob w \<noteq> []" "ee_wrap eenv (en_KMSKeyARN e) dataKey (en_EncryptionContext e) = Inr w"
      "ee_marshal eenv (e\<lparr>en_EncryptedDataKey := EncodeToString StdEncoding (kw_CiphertextBlob w)\<rparr>) = Inr encoded"
      "file = encoded @ [CHR 0x0A]"
    and sealed: "\<exists>v. ee_decode eenv input = Inr (v, True) \<and>
      Encrypt benv (ee_now eenv) (Inr nonce) \<lparr>sb_SchemaVersion = SchemaVersion, sb_SourceRevision = bu_SourceRevision b,
            sb_IssuedAt = ee_now eenv, sb_ExpiresAt = si_ExpiresAt v, sb_Environment = si_Environment v\<rparr> dataKey
            (bu_KMSKeyARN b) (bu_AWSRegion b) = Inr e"
    using runEncrypt_seals [OF assms(1), unfolded assms(13,14,16)] by blast
  then obtain v where v: "ee_decode eenv input = Inr (v, True)" "si_Environment v = environment" "plain_map environment"
      "\<And>x. si_ExpiresAt v = Some x \<Longrightarrow> now < x"
    using assms(8) [OF enc(1)] by blast
  define sb where "sb = \<lparr>sb_SchemaVersion = SchemaVersion, sb_SourceRevision = bu_SourceRevision b,
            sb_IssuedAt = ee_now eenv, sb_ExpiresAt = si_ExpiresAt v, sb_Environment = environment\<rparr>"
  have e: "Encrypt benv (ee_now eenv) (Inr nonce) sb dataKey (bu_KMSKeyARN b) (bu_AWSRegion b) = Inr e"
    using sealed v(1,2) by (auto simp: sb_def)
  let ?w = "e\<lparr>en_EncryptedDataKey := EncodeToString StdEncoding (kw_CiphertextBlob w)\<rparr>"
  have plain: "plain_envelope ?w" "en_KMSKeyARN e = bu_KMSKeyARN b" "en_AWSRegion e = bu_AWSRegion b"
    using plain_sealed [OF e, of "kw_CiphertextBlob w"] assms(15,17,18) by (simp_all add: sb_def)
  have "plain_bundle sb" using v(3) assms(18) by (simp add: plain_bundle_def sb_def)
  then have dec: "Decrypt benv ?w dataKey (bu_KMSKeyARN b) (bu_AWSRegion b) (bu_SourceRevision b) now = Inr sb"
    using Decrypt_Encrypt [OF e assms(9) [OF enc(2)], of now] assms(4,5,12,15,17) v(4)
    by (simp add: codecs_agree_def aead_opens_def sb_def)
  have key: "DecodeEncryptedDataKey ?w = Inr (kw_CiphertextBlob w)"
    using enc(3) assms(10) [OF enc(4)] by (simp add: DecodeEncryptedDataKey_def decodeBounded_encode)
  have "fe_decode fenv file = Inr (?w, True)" using assms(4) plain(1) enc(5,6) by (simp add: codecs_agree_def)
  then obtain c where c: "fe_credentials fenv = Inr c"
    and r: "ValidateBootstrapRequest \<lparr>br_SchemaVersion = BootstrapSchemaVersion,
             br_Credentials = \<lparr>cr_AccessKeyID = pa_AccessKeyID c, cr_SecretAccessKey = pa_SecretAccessKey c,
               cr_SessionToken = pa_SessionToken c, cr_ExpiresAt = pa_Expires c\<rparr>, br_Envelope = ?w\<rparr> (fe_now fenv) = None"
      "fe_marshal fenv \<lparr>br_SchemaVersion = BootstrapSchemaVersion,
             br_Credentials = \<lparr>cr_AccessKeyID = pa_AccessKeyID c, cr_SecretAccessKey = pa_SecretAccessKey c,
               cr_SessionToken = pa_SessionToken c, cr_ExpiresAt = pa_Expires c\<rparr>, br_Envelope = ?w\<rparr> = Inr payload"
      "length payload \<le> maxBootstrapBytes"
    using readBootstrapPayload_wraps [OF assms(3,2)] by auto
  define request where "request = \<lparr>br_SchemaVersion = BootstrapSchemaVersion,
             br_Credentials = \<lparr>cr_AccessKeyID = pa_AccessKeyID c, cr_SecretAccessKey = pa_SecretAccessKey c,
               cr_SessionToken = pa_SessionToken c, cr_ExpiresAt = pa_Expires c\<rparr>, br_Envelope = ?w\<rparr>"
  have request: "payload \<noteq> []" "decode payload = Inr (request, True)"
  proof -
    have law: "plain_envelope (br_Envelope r) \<and> plain_credentials (br_Credentials r) \<and> fe_marshal fenv r = Inr p \<Longrightarrow>
        p \<noteq> [] \<and> decode p = Inr (r, True)" for r p
      using assms(4) unfolding codecs_agree_def by blast
    have "plain_envelope (br_Envelope request) \<and> plain_credentials (br_Credentials request) \<and> fe_marshal fenv request = Inr payload"
      using plain(1) assms(11) [OF c] r(2) by (simp add: plain_credentials_def request_def)
    then show "payload \<noteq> []" "decode payload = Inr (request, True)" using law by blast+
  qed
  have valid: "ValidateBootstrapRequest request now = None"
    using request_valid_later [OF r(1), of now] assms(11) [OF c] by (simp add: request_def)
  have released: "decrypt (br_Credentials request) ?w = Inr dataKey"
    using assms(6) enc(4) key by (simp add: kms_unwraps_def)
  have header: "ValidateEnvelope ?w (bu_KMSKeyARN b) (bu_AWSRegion b) (bu_SourceRevision b) = None"
  proof -
    obtain nonce' ciphertext where "validateEnvelopeHeader ?w (bu_KMSKeyARN b) (bu_AWSRegion b) (bu_SourceRevision b) = None"
      "decodeBounded ''nonce'' (en_Nonce ?w) 64 = Inr nonce'" "decodeBounded ''ciphertext'' (en_Ciphertext ?w) maxCiphertextSize = Inr ciphertext"
      using dec by (auto simp: Decrypt_def simp del: header_fields split: if_splits option.splits sum.splits)
    then show ?thesis by (simp add: ValidateEnvelope_def key del: header_fields)
  qed
  let ?vars = "be_range_set benv environment"
  have "loadPayload benv decode payload now b decrypt setenv = (None, ?vars)"
    using request(2) valid released header dec set_environment_all [of setenv ?vars, OF assms(19)]
    by (simp add: loadPayload_def request_def sb_def del: header_fields)
  moreover have "take (maxBootstrapBytes + 1) payload = payload" using r(3) by simp
  ultimately have "Load benv decode (Inr \<lparr>co_CID = Some ParentCID, co_payload = Inr payload\<rparr>) now b decrypt setenv describe
      = (None, ''OK'' @ [CHR 0x0A], ?vars)"
    using request(1) r(3) by (simp add: Load_def isHost_def Let_def)
  then show ?thesis using assms(7) by (auto simp: ranges_def)
qed



section \<open>One bootstrap\<close>

definition toy_revision :: string where "toy_revision = replicate 40 (CHR ''a'')"
definition toy_region :: string where "toy_region = ''eu-west-1''"
definition toy_arn :: string where "toy_arn = ''arn:aws:kms:eu-west-1:123456789012:key/1234abcd-12ab-34cd-56ef-1234567890ab''"

lemma toy_named [simp]: "toy_revision \<noteq> []" "toy_region \<noteq> []" "toy_arn \<noteq> []"
  by (simp_all add: toy_revision_def toy_region_def toy_arn_def)

definition toy_build :: build where
  "toy_build = \<lparr>bu_SourceRevision = toy_revision, bu_AWSRegion = toy_region, bu_KMSKeyARN = toy_arn\<rparr>"

definition toy_environment :: string_map where
  "toy_environment = [(''METERING_TOKEN'', ''t''), (''METERING_URL'', ''https://m''), (''NOVITA_API_KEY'', ''s'')]"

definition toy_sb :: secret_bundle where
  "toy_sb = \<lparr>sb_SchemaVersion = SchemaVersion, sb_SourceRevision = toy_revision, sb_IssuedAt = 5, sb_ExpiresAt = None,
     sb_Environment = toy_environment\<rparr>"

definition toy_key :: string where "toy_key = replicate 32 (CHR ''k'')"

definition toy_benv :: bundle_env where
  "toy_benv = \<lparr>be_marshal = (\<lambda>sb. if sb = toy_sb then Inr ''b'' else Inl CtxCanceled), be_decode = (\<lambda>p. Inr (toy_sb, True)),
     be_header = (\<lambda>h. Inr (eh_KMSKeyARN h)), be_new_aead = (\<lambda>k. None), be_seal = (\<lambda>k n p a. CHR ''s'' # p),
     be_open = (\<lambda>k n c a. Some (tl c)), be_url = (\<lambda>u. Some \<lparr>ur_Scheme = ''https'', ur_Hostname = ''m'', ur_User = False, ur_Fragment = []\<rparr>),
     be_range = rev, be_range_set = (\<lambda>m. m)\<rparr>"

definition toy_envelope :: sealed_envelope where
  "toy_envelope = (projr (Encrypt toy_benv 5 (Inr (replicate 12 (CHR ''n''))) toy_sb toy_key toy_arn toy_region))
     \<lparr>en_EncryptedDataKey := EncodeToString StdEncoding toy_key\<rparr>"

definition toy_eenv :: encrypt_env where
  "toy_eenv = \<lparr>ee_stdin = Inl CtxCanceled, ee_open = (\<lambda>path. Inr \<lparr>inf_Mode = Inr (True, 384), inf_Content = Inr ''i''\<rparr>), ee_decode = (\<lambda>s. Inr (\<lparr>si_ExpiresAt = None, si_Environment = toy_environment\<rparr>, True)),
     ee_trailing = CtxCanceled, ee_now = 5, ee_data_key = Inr toy_key, ee_nonce = Inr (replicate 12 (CHR ''n'')), ee_config = None,
     ee_wrap = (\<lambda>a k c. if k = toy_key then Inr \<lparr>kw_CiphertextBlob = k, kw_KeyId = Some a\<rparr> else Inl CtxCanceled),
     ee_marshal = (\<lambda>e. if e = toy_envelope then Inr ''e'' else Inl CtxCanceled)\<rparr>"

definition toy_flags :: encrypt_flags where
  "toy_flags = \<lparr>ef_in = ''f'', ef_out = ''o'', ef_region = ('' '' @ toy_region), ef_kms_key_arn = toy_arn, ef_source_revision = (toy_revision @ '' ''), ef_args = 0\<rparr>"

definition toy_credentials :: parent_credentials where
  "toy_credentials = \<lparr>pa_AccessKeyID = replicate 16 (CHR ''i''), pa_SecretAccessKey = replicate 16 (CHR ''s''),
     pa_SessionToken = replicate 16 (CHR ''t''), pa_CanExpire = True, pa_Expires = 60 * minute\<rparr>"

definition toy_request :: bootstrap_request where
  "toy_request = \<lparr>br_SchemaVersion = BootstrapSchemaVersion,
     br_Credentials = \<lparr>cr_AccessKeyID = pa_AccessKeyID toy_credentials, cr_SecretAccessKey = pa_SecretAccessKey toy_credentials,
       cr_SessionToken = pa_SessionToken toy_credentials, cr_ExpiresAt = pa_Expires toy_credentials\<rparr>,
     br_Envelope = toy_envelope\<rparr>"

definition toy_fenv :: forwarder_env where
  "toy_fenv = \<lparr>fe_read = (\<lambda>path. Inr (''e'' @ [CHR 0x0A])), fe_decode = (\<lambda>s. Inr (toy_envelope, True)), fe_trailing = CtxCanceled,
     fe_config = None, fe_credentials = Inr toy_credentials, fe_now = 6,
     fe_marshal = (\<lambda>r. if r = toy_request then Inr ''p'' else Inl CtxCanceled)\<rparr>"

definition toy_raw :: "octets \<Rightarrow> raw_value" where
  "toy_raw bs = \<lparr>rv_Class = ClassContextSpecific, rv_Tag = 0, rv_IsCompound = False, rv_Bytes = bs, rv_FullBytes = bs\<rparr>"

definition toy_sha :: algorithm_identifier where
  "toy_sha = \<lparr>al_Algorithm = oidSHA256, al_Parameters = \<lparr>rv_Class = 0, rv_Tag = TagNull, rv_IsCompound = False, rv_Bytes = [], rv_FullBytes = []\<rparr>\<rparr>"

definition toy_recipient :: cms_recipient_info where
  "toy_recipient = \<lparr>ri_Version = 2, ri_RecipientIdentifier = toy_raw [1],
     ri_KeyEncryptionAlgorithm = \<lparr>al_Algorithm = oidRSAESOAEP, al_Parameters = toy_raw [1]\<rparr>, ri_EncryptedKey = [9]\<rparr>"

definition toy_content :: cms_encrypted_content_info where
  "toy_content = \<lparr>ec_ContentType = oidCMSData,
     ec_ContentEncryptionAlgorithm = \<lparr>al_Algorithm = oidAES256CBC, al_Parameters = toy_raw [1]\<rparr>,
     ec_EncryptedContent = toy_raw (octets_of toy_key @ replicate 16 16)\<rparr>"

definition toy_unwrap :: "unit cms_env" where
  "toy_unwrap = \<lparr>cm_content_info = (\<lambda>e. Inr (\<lparr>ci_ContentType = oidCMSEnvelopedData, ci_Content = toy_raw [1]\<rparr>, length e)),
     cm_enveloped_data = (\<lambda>e. Inr (\<lparr>ev_Version = 2, ev_RecipientInfos = [toy_recipient], ev_EncryptedContentInfo = toy_content\<rparr>, length e)),
     cm_oaep_parameters = (\<lambda>e. Inr (\<lparr>op_HashAlgorithm = toy_sha,
        op_MaskGenAlgorithm = \<lparr>al_Algorithm = oidMGF1, al_Parameters = toy_raw [1]\<rparr>,
        op_PSourceAlgorithm = \<lparr>al_Algorithm = [], al_Parameters = toy_raw []\<rparr>\<rparr>, length e)),
     cm_algorithm = (\<lambda>e. Inr (toy_sha, length e)), cm_octets = (\<lambda>e. Inr (replicate 16 0, length e)),
     cm_key_size = (\<lambda>k. 1), cm_oaep = (\<lambda>k c. Inr (replicate 32 7)), cm_cipher = (\<lambda>k. Some (\<lambda>iv c. c))\<rparr>"

definition toy_kms :: "unit kms_env" where
  "toy_kms = \<lparr>ke_generate = Inr (), ke_public = (\<lambda>k. Inr ''k''), ke_nonce = Inr ''n'', ke_session = None,
     ke_attest = (\<lambda>n u p. Inr \<lparr>ar_Error = [], ar_Document = Some (n @ u @ p)\<rparr>), ke_config = (\<lambda>c. None),
     ke_decrypt = (\<lambda>c blob ctx arn doc. Inr \<lparr>kr_Plaintext = [], kr_CiphertextForRecipient = [CHR 0x04, CHR 0x01, CHR 0x05], kr_KeyId = Some arn\<rparr>),
     ke_cms = toy_unwrap\<rparr>"

definition toy_decode :: "bootstrap_request strict_reader" where
  "toy_decode s = Inr (toy_request, True)"

definition toy_load :: "go_error option \<times> string \<times> string_map" where
  "toy_load = Load toy_benv toy_decode (Inr \<lparr>co_CID = Some ParentCID, co_payload = Inr ''p''\<rparr>) 7 toy_build
     (decryptDataKey toy_kms toy_build ''d'') (\<lambda>k v. None) (\<lambda>e. [])"

lemma toy_ranges: "ranges toy_benv"
  by (simp add: ranges_def toy_benv_def)

lemma toy_trims: "trim_space (CHR '' '' # toy_region) = toy_region" "trim_space toy_region = toy_region" "trim_space toy_arn = toy_arn" "trim_space (toy_revision @ '' '') = toy_revision"
  "trim_space ''t'' = ''t''" "trim_space [] = []" "trim_space ''https://m'' = ''https://m''"
  by code_simp+

lemma toy_allowed: "allowed_key ''METERING_TOKEN''" "allowed_key ''METERING_URL''" "allowed_key ''NOVITA_API_KEY''"
  by code_simp+

lemma toy_valid: "ValidateSecretBundle toy_benv toy_sb toy_revision 5 = None"
  by (simp add: ValidateSecretBundle_def toy_sb_def toy_benv_def toy_environment_def validateHTTPSURL_def map_value_def
      toy_allowed toy_trims maxEnvironmentValue_def maxEnvironmentBytes_def zero_time_def minute_def second_def millisecond_def)

lemma toy_encrypt: "Encrypt toy_benv 5 (Inr (replicate 12 (CHR ''n''))) toy_sb toy_key toy_arn toy_region
    = Inr (toy_envelope\<lparr>en_EncryptedDataKey := []\<rparr>)"
proof -
  have "\<exists>e. Encrypt toy_benv 5 (Inr (replicate 12 (CHR ''n''))) toy_sb toy_key toy_arn toy_region = Inr e \<and> en_EncryptedDataKey e = []"
    using toy_valid
    by (simp add: Encrypt_def Let_def toy_key_def dataKeyBytes_def toy_trims validateEnvelopeHeader_def EncryptionContext_def
        map_value_def envelopeAAD_def maxCiphertextSize_def toy_sb_def toy_benv_def)
  then show ?thesis by (auto simp: toy_envelope_def)
qed

lemma toy_fields:
  "readSecretInput toy_eenv (ef_in toy_flags) = Inr ''i''"
  "ee_decode toy_eenv ''i'' = Inr (\<lparr>si_ExpiresAt = None, si_Environment = toy_environment\<rparr>, True)"
  "ee_now toy_eenv = 5" "ee_data_key toy_eenv = Inr toy_key" "ee_nonce toy_eenv = Inr (replicate 12 (CHR ''n''))" "ee_config toy_eenv = None"
  "ee_wrap toy_eenv x toy_key y = Inr \<lparr>kw_CiphertextBlob = toy_key, kw_KeyId = Some x\<rparr>" "ee_marshal toy_eenv toy_envelope = Inr ''e''"
  "ef_args toy_flags = 0" "ef_in toy_flags \<noteq> []" "ef_out toy_flags \<noteq> []" "ef_region toy_flags = ('' '' @ toy_region)" "ef_kms_key_arn toy_flags = toy_arn"
  "ef_source_revision toy_flags = (toy_revision @ '' '')"
  "\<lparr>sb_SchemaVersion = SchemaVersion, sb_SourceRevision = toy_revision, sb_IssuedAt = 5, sb_ExpiresAt = None, sb_Environment = toy_environment\<rparr> = toy_sb"
  "sb_SourceRevision toy_sb = toy_revision" "toy_key \<noteq> []" "toy_envelope\<lparr>en_EncryptedDataKey := EncodeToString StdEncoding toy_key\<rparr> = toy_envelope"
  by (simp_all add: readSecretInput_def input_mode_error_def toy_eenv_def toy_flags_def maxInputBytes_def toy_sb_def toy_key_def toy_envelope_def)

lemma toy_runEncrypt: "runEncrypt toy_benv toy_eenv toy_flags = Inr (''e'' @ [CHR 0x0A])"
  by (simp add: runEncrypt_def toy_fields toy_trims toy_valid toy_encrypt Let_def)

lemma toy_answers: "fe_read toy_fenv path = Inr (''e'' @ [CHR 0x0A])" "fe_decode toy_fenv file = Inr (toy_envelope, True)"
  "fe_config toy_fenv = None" "fe_credentials toy_fenv = Inr toy_credentials" "fe_now toy_fenv = 6" "fe_marshal toy_fenv toy_request = Inr ''p''"
  by (simp_all add: toy_fenv_def)

lemma toy_payload: "readBootstrapPayload toy_fenv path = Inr ''p''"
proof -
  have "ValidateBootstrapRequest toy_request 6 = None"
    by (simp add: ValidateBootstrapRequest_def toy_request_def toy_credentials_def bad_credential_def contains_any_def list_ex_iff zero_time_def
        minute_def second_def millisecond_def Let_def)
  then show ?thesis
    by (simp add: readBootstrapPayload_def toy_answers maxEnvelopeBytes_def maxBootstrapBytes_def Let_def flip: toy_request_def)
       (simp add: toy_credentials_def zero_time_def minute_def second_def millisecond_def)
qed

lemma toy_codecs: "codecs_agree toy_benv toy_eenv toy_fenv toy_decode"
  by (simp add: codecs_agree_def toy_benv_def toy_eenv_def toy_fenv_def toy_decode_def)

lemma toy_unwrapped: "DecodeEncryptedDataKey e = Inr blob \<Longrightarrow> decryptDataKey toy_kms toy_build digest creds e = Inr toy_key"
proof -
  have norm: "normalizeBER [4, 1, 5] = Inr [4, 1, 5]"
  proof -
    have "case normalizeBER [4, 1, 5] of Inr d \<Rightarrow> d = [4, 1, 5] | Inl e \<Rightarrow> False" by code_simp
    then show ?thesis by (simp split: sum.splits)
  qed
  have key: "length (octets_of toy_key) = 32" by (simp add: octets_of_def toy_key_def)
  have opened: "decryptAESCBC toy_unwrap (replicate 32 7) (replicate 16 0) (octets_of toy_key @ replicate 16 16) = Inr (octets_of toy_key)"
  proof (rule iffD2 [OF padding_lemma])
    show "pkcs7 (octets_of toy_key) (octets_of toy_key @ replicate 16 16)"
      unfolding pkcs7_def by (intro exI [of _ 16]) (simp add: BlockSize_def)
  qed (simp_all add: toy_unwrap_def key BlockSize_def)
  have "octets_of [CHR 0x04, CHR 0x01, CHR 0x05] = [4, 1, 5]" by (simp add: octets_of_def)
  then have "decryptKMSRecipient toy_unwrap (Some ()) (octets_of [CHR 0x04, CHR 0x01, CHR 0x05]) = Inr (octets_of toy_key)"
    using opened key
    by (simp add: decryptKMSRecipient_def norm maxKMSRecipientBytes_def unmarshalExact_def validateOAEPParameters_def isNullParameters_def
        cmsEncryptedContent_def toy_unwrap_def toy_recipient_def toy_content_def toy_raw_def toy_sha_def BlockSize_def Let_def)
  moreover have "length (octets_of toy_key) = 32" by (simp add: octets_of_def toy_key_def)
  moreover assume "DecodeEncryptedDataKey e = Inr blob"
  ultimately show ?thesis by (simp add: decryptDataKey_def toy_kms_def)
qed

lemma toy_released: "kms_unwraps toy_eenv (decryptDataKey toy_kms toy_build digest)"
  unfolding kms_unwraps_def by (auto simp: toy_eenv_def toy_unwrapped split: if_splits)

lemma toy_ascii: "utf8_valid toy_revision" "utf8_valid toy_arn" "utf8_valid toy_region" "plain_map toy_environment"
  "utf8_valid (replicate 16 (CHR ''i''))" "utf8_valid (replicate 16 (CHR ''s''))" "utf8_valid (replicate 16 (CHR ''t''))"
  by (auto simp: plain_map_def toy_environment_def toy_revision_def toy_region_def toy_arn_def intro!: utf8_valid_ascii)

lemma toy_delivery:
  "\<exists>vars. Load toy_benv toy_decode (Inr \<lparr>co_CID = Some ParentCID, co_payload = Inr ''p''\<rparr>) 7 toy_build
     (decryptDataKey toy_kms toy_build ''d'') (\<lambda>k v. None) (\<lambda>e. []) = (None, ''OK'' @ [CHR 0x0A], vars) \<and> mset vars = mset toy_environment"
proof (rule bootstrap_delivers [OF toy_runEncrypt _ toy_payload toy_codecs _ toy_released toy_ranges])
qed (simp_all add: toy_fenv_def toy_benv_def toy_eenv_def toy_flags_def toy_build_def toy_trims toy_ascii aead_opens_def
      toy_credentials_def NonceSize_def maxEncryptedKeySize_def toy_key_def minute_def second_def millisecond_def split: if_splits, auto)


theorem configuration_is_sealed_for_the_build_witness:
  "\<exists>vars. snd (snd toy_load) = vars \<and> mset vars = mset toy_environment \<and> list_all (\<lambda>(key, v). allowed_key key) vars"
proof -
  obtain vars where load: "Load toy_benv toy_decode (Inr \<lparr>co_CID = Some ParentCID, co_payload = Inr ''p''\<rparr>) 7 toy_build
     (decryptDataKey toy_kms toy_build ''d'') (\<lambda>k v. None) (\<lambda>e. []) = (None, ''OK'' @ [CHR 0x0A], vars)"
    and vars: "mset vars = mset toy_environment" using toy_delivery by blast
  have "vars \<noteq> []" using vars by (auto simp: toy_environment_def)
  from configuration_is_sealed_for_the_build [OF load this toy_ranges]
  have "\<forall>(key, v) \<in> set vars. allowed_key key" by blast
  then show ?thesis using load vars by (simp add: list_all_iff toy_load_def)
qed


end
