(* ===== verification/Attestation.thy ===== *)
theory Attestation
  imports Encodings Profile
begin

text \<open>
  Remote attestation: the gateway's endpoint (\<open>handlers/attestation_handler.go\<close>), the session
  with the Nitro module (\<open>adapters/attestation/nsm\<close>) and the verifier that clients run
  (\<open>cmd/nexus-attestation-verify\<close>). The module, the checking of a document against the AWS
  root, SHA-384, the JSON codec, URLs and media types are parameters.
\<close>

section \<open>The endpoint\<close>

type_synonym 'a json_value = "string \<Rightarrow> go_error + ('a \<times> bool)"

record nsm_reply =
  nr_Error :: string
  nr_Document :: "string option"

text \<open>\<open>Attest\<close>: no session, a cancelled request, and what the module answers.\<close>

definition Attest :: "(string \<Rightarrow> string \<Rightarrow> string \<Rightarrow> go_error + nsm_reply) option \<Rightarrow> go_error option
    \<Rightarrow> string \<Rightarrow> string \<Rightarrow> string \<Rightarrow> go_error + string" where
  "Attest session cancelled nonce userData publicKey =
     (case session of
        None \<Rightarrow> Inl (PlainErr ''Nitro Secure Module session is unavailable'')
      | Some send \<Rightarrow>
     (case cancelled of Some err \<Rightarrow> Inl err | None \<Rightarrow>
     (case send nonce userData publicKey of
        Inl err \<Rightarrow> Inl (WrapErr ''request Nitro attestation: '' err)
      | Inr result \<Rightarrow>
          (if nr_Error result \<noteq> [] then Inl (PlainErr (''Nitro attestation rejected: '' @ nr_Error result))
           else case nr_Document result of
             None \<Rightarrow> Inl (PlainErr ''Nitro Secure Module returned no attestation document'')
           | Some document \<Rightarrow>
               (if document = [] then Inl (PlainErr ''Nitro Secure Module returned no attestation document'')
                else Inr document)))))"

definition attestationRequestLimit :: nat where "attestationRequestLimit = 1024"
definition attestationNonceSize :: nat where "attestationNonceSize = 32"
definition maxConcurrentAttestations :: nat where "maxConcurrentAttestations = 4"

record endpoint_response =
  er_Document :: string
  er_Format :: string
  er_Encoding :: string
  er_UserData :: string
  er_UserDataEncoding :: string
  er_HPKEPublicKey :: string
  er_HPKEKeyEncoding :: string
  er_Manifest :: string

definition decodeAttestationNonce :: "string \<Rightarrow> string option" where
  "decodeAttestationNonce encoded =
     (case DecodeString RawURLEncoding encoded of
        Some nonce \<Rightarrow> if length nonce = attestationNonceSize then Some nonce else None
      | None \<Rightarrow> None)"

definition attestation_unavailable :: gateway_error where
  "attestation_unavailable = ErrProviderUnavailable ''Nitro attestation''"

text \<open>
  What the handler holds: how many attestations run. A request is refused at once or takes a
  place, which it gives back with its answer.
\<close>

definition attestation_begin :: "string json_value \<Rightarrow> string \<Rightarrow> nat \<Rightarrow> (gateway_error + string) \<times> nat" where
  "attestation_begin decode body inflight =
     (case (if length body > attestationRequestLimit then None
            else case decode body of Inr (encoded, True) \<Rightarrow> Some encoded | _ \<Rightarrow> None) of
        None \<Rightarrow> (Inl (ErrInvalidField ''invalid attestation request''), inflight)
      | Some encoded \<Rightarrow>
          (case decodeAttestationNonce encoded of
             None \<Rightarrow> (Inl (ErrInvalidField ''nonce must be exactly 32 random bytes encoded as base64url without padding''), inflight)
           | Some nonce \<Rightarrow>
               (if inflight < maxConcurrentAttestations then (Inr nonce, inflight + 1)
                else (Inl attestation_unavailable, inflight))))"

definition attestation_answer :: "(json \<Rightarrow> string) \<Rightarrow> (string \<Rightarrow> string) \<Rightarrow> build \<Rightarrow> string
    \<Rightarrow> (string \<Rightarrow> string \<Rightarrow> string \<Rightarrow> go_error + string) \<Rightarrow> string \<Rightarrow> gateway_error + endpoint_response" where
  "attestation_answer enc sha384 b hpkePublicKey attest nonce =
     (case attest nonce (ManifestDigest enc sha384 b) hpkePublicKey of
        Inl err \<Rightarrow> Inl attestation_unavailable
      | Inr document \<Rightarrow>
          Inr \<lparr>er_Document = EncodeToString StdEncoding document, er_Format = ''aws-nitro-cose-sign1'', er_Encoding = ''base64'',
               er_UserData = hexEncode (ManifestDigest enc sha384 b), er_UserDataEncoding = ''sha384-hex'',
               er_HPKEPublicKey = hexEncode hpkePublicKey, er_HPKEKeyEncoding = ''raw-x25519-hex'',
               er_Manifest = ManifestJSON enc b\<rparr>)"

section \<open>The verifier's input\<close>

definition nonceSize :: nat where "nonceSize = 32"
definition pcrSize :: nat where "pcrSize = 48"
definition maxResponseSize :: nat where "maxResponseSize = 2 ^ 20"
definition Size384 :: nat where "Size384 = 48"

definition expectedAWSRootFingerprint :: string where
  "expectedAWSRootFingerprint = ''641a0321a3e244efe456463195d606317ed7cdcc3c1756e09893f3c68f79bb5b''"

definition allZero :: "string \<Rightarrow> bool" where
  "allZero v = (v \<noteq> [] \<and> list_all (\<lambda>c. byte c = 0) v)"

record cli_flags =
  fl_url :: string
  fl_pcr0 :: string
  fl_pcr1 :: string
  fl_pcr2 :: string
  fl_timeout :: duration
  fl_maxAge :: duration
  fl_maxFutureSkew :: duration
  fl_args :: nat

record request_uri =
  ru_Scheme :: string
  ru_Host :: string
  ru_Opaque :: string
  ru_User :: bool
  ru_Fragment :: string

record cli_config =
  cc_endpoint :: string
  cc_pcrs :: "(nat \<times> string) list"
  cc_timeout :: duration
  cc_maxAge :: duration
  cc_maxFutureSkew :: duration

definition validateEndpointURL :: "(string \<Rightarrow> go_error + request_uri) \<Rightarrow> string \<Rightarrow> go_error option" where
  "validateEndpointURL parse raw =
     (if raw = [] then Some (PlainErr ''--url is required'')
      else case parse raw of
        Inl err \<Rightarrow> Some (WrapErr ''invalid --url: '' err)
      | Inr u \<Rightarrow>
          (if ru_Scheme u \<noteq> ''https'' \<or> ru_Host u = [] \<or> ru_Opaque u \<noteq> [] then Some (PlainErr ''--url must be an absolute HTTPS URL'')
           else if ru_User u then Some (PlainErr ''--url must not contain user information'')
           else if ru_Fragment u \<noteq> [] then Some (PlainErr ''--url must not contain a fragment'')
           else None))"

definition parsePCR :: "nat \<Rightarrow> string \<Rightarrow> go_error + string" where
  "parsePCR index encoded =
     (if length encoded \<noteq> pcrSize * 2
      then Inl (PlainErr (''--pcr'' @ itoa index @ '' must contain exactly '' @ itoa (pcrSize * 2) @ '' hexadecimal characters''))
      else case hexDecode encoded of
        None \<Rightarrow> Inl (PlainErr (''invalid --pcr'' @ itoa index))
      | Some decoded \<Rightarrow>
          (if allZero decoded
           then Inl (PlainErr (''--pcr'' @ itoa index @ '' is all zero, which identifies an unsafe debug measurement''))
           else Inr decoded))"

fun parse_pcrs :: "nat \<Rightarrow> string list \<Rightarrow> go_error + (nat \<times> string) list" where
  "parse_pcrs index [] = Inr []"
| "parse_pcrs index (encoded # more_pcrs) =
     (case parsePCR index encoded of
        Inl err \<Rightarrow> Inl err
      | Inr decoded \<Rightarrow>
          (case parse_pcrs (index + 1) more_pcrs of Inl err \<Rightarrow> Inl err | Inr ps \<Rightarrow> Inr ((index, decoded) # ps)))"

text \<open>The flags after the flag package has read them.\<close>

definition parseFlags :: "(string \<Rightarrow> go_error + request_uri) \<Rightarrow> cli_flags \<Rightarrow> go_error + cli_config" where
  "parseFlags parse fl =
     (if fl_args fl \<noteq> 0 then Inl (PlainErr ''unexpected positional arguments'')
      else case validateEndpointURL parse (fl_url fl) of Some err \<Rightarrow> Inl err | None \<Rightarrow>
     (if fl_timeout fl \<le> 0 then Inl (PlainErr ''--timeout must be positive'')
      else if fl_maxAge fl \<le> 0 then Inl (PlainErr ''--max-age must be positive'')
      else if fl_maxFutureSkew fl < 0 then Inl (PlainErr ''--max-future-skew must not be negative'')
      else case parse_pcrs 0 [fl_pcr0 fl, fl_pcr1 fl, fl_pcr2 fl] of
        Inl err \<Rightarrow> Inl err
      | Inr pcrs \<Rightarrow> Inr \<lparr>cc_endpoint = fl_url fl, cc_pcrs = pcrs, cc_timeout = fl_timeout fl, cc_maxAge = fl_maxAge fl,
                          cc_maxFutureSkew = fl_maxFutureSkew fl\<rparr>))"

section \<open>Fetching\<close>

record attestation_reply_http =
  ah_Status :: int
  ah_ContentType :: string
  ah_Body :: "go_error + string"

record fetch_env =
  fv_marshal :: "string \<Rightarrow> go_error + string"                     \<comment> \<open>the request with its nonce\<close>
  fv_new_request :: "string \<Rightarrow> go_error option"
  fv_do :: "string \<Rightarrow> string \<Rightarrow> go_error + attestation_reply_http"      \<comment> \<open>URL, body\<close>
  fv_media_type :: "string \<Rightarrow> string option"
  fv_decode :: "endpoint_response json_value"
  fv_trailing :: go_error
  fv_json_valid :: "string \<Rightarrow> bool"
  fv_public_key :: "string \<Rightarrow> bool"                              \<comment> \<open>\<open>identity.FromPublicKeyBytes\<close> takes it\<close>

record fetched_attestation =
  fa_document :: string
  fa_manifest :: string
  fa_userData :: string
  fa_hpkePublicKey :: string

definition strictBase64 :: "string \<Rightarrow> string option" where
  "strictBase64 encoded =
     (case DecodeString (Strict StdEncoding) encoded of
        Some decoded \<Rightarrow> if EncodeToString StdEncoding decoded \<noteq> encoded then None else Some decoded
      | None \<Rightarrow> None)"

definition read_payload :: "fetch_env \<Rightarrow> endpoint_response \<Rightarrow> go_error + fetched_attestation" where
  "read_payload env p =
     (if er_Format p \<noteq> ''aws-nitro-cose-sign1'' \<or> er_Encoding p \<noteq> ''base64''
      then Inl (PlainErr ''unsupported attestation format or encoding'')
      else if er_UserDataEncoding p \<noteq> ''sha384-hex'' then Inl (PlainErr ''unsupported attestation user_data encoding'')
      else if er_HPKEKeyEncoding p \<noteq> ''raw-x25519-hex'' then Inl (PlainErr ''unsupported attestation HPKE public key encoding'')
      else if er_Manifest p = [] \<or> \<not> fv_json_valid env (er_Manifest p) \<or> er_Manifest p = ''null''
      then Inl (PlainErr ''attestation response contains an invalid manifest'')
      else case strictBase64 (er_Document p) of
        None \<Rightarrow> Inl (PlainErr ''attestation response contains an invalid document'')
      | Some document \<Rightarrow>
     (if document = [] then Inl (PlainErr ''attestation response contains an invalid document'')
      else case hexDecode (er_UserData p) of
        None \<Rightarrow> Inl (PlainErr ''attestation response contains invalid user_data'')
      | Some userData \<Rightarrow>
     (if length userData \<noteq> Size384 then Inl (PlainErr ''attestation response contains invalid user_data'')
      else case hexDecode (er_HPKEPublicKey p) of
        None \<Rightarrow> Inl (PlainErr ''attestation response contains an invalid HPKE public key'')
      | Some hpkePublicKey \<Rightarrow>
          (if length hpkePublicKey \<noteq> 32 \<or> hexEncode hpkePublicKey \<noteq> er_HPKEPublicKey p \<or> allZero hpkePublicKey
              \<or> \<not> fv_public_key env hpkePublicKey
           then Inl (PlainErr ''attestation response contains an invalid HPKE public key'')
           else Inr \<lparr>fa_document = document, fa_manifest = er_Manifest p, fa_userData = userData, fa_hpkePublicKey = hpkePublicKey\<rparr>))))"

definition fetchAttestation :: "fetch_env \<Rightarrow> string \<Rightarrow> string \<Rightarrow> go_error + fetched_attestation" where
  "fetchAttestation env endpoint nonce =
     (if length nonce \<noteq> nonceSize then Inl (PlainErr (''nonce must be exactly '' @ itoa nonceSize @ '' bytes''))
      else case fv_marshal env (EncodeToString RawURLEncoding nonce) of
        Inl err \<Rightarrow> Inl (WrapErr ''encode attestation request: '' err)
      | Inr body \<Rightarrow>
     (case fv_new_request env endpoint of
        Some err \<Rightarrow> Inl (WrapErr ''create attestation request: '' err)
      | None \<Rightarrow>
     (case fv_do env endpoint body of
        Inl err \<Rightarrow> Inl (WrapErr ''request attestation: '' err)
      | Inr response \<Rightarrow>
     (if ah_Status response \<noteq> 200 then Inl (PlainErr (''attestation endpoint returned HTTP '' @ itoa_int (ah_Status response)))
      else if fv_media_type env (ah_ContentType response) \<noteq> Some ''application/json''
      then Inl (PlainErr ''attestation endpoint returned a non-JSON content type'')
      else case ah_Body response of
        Inl err \<Rightarrow> Inl (WrapErr ''read attestation response: '' err)
      | Inr all \<Rightarrow>
     (let responseBytes = take (maxResponseSize + 1) all
      in if length responseBytes > maxResponseSize
      then Inl (PlainErr (''attestation response exceeds '' @ itoa maxResponseSize @ '' bytes''))
      else case fv_decode env responseBytes of
        Inl err \<Rightarrow> Inl (WrapErr ''decode attestation response: '' err)
      | Inr (payload, ends) \<Rightarrow>
          (if \<not> ends then Inl (WrapErr ''decode attestation response: '' (fv_trailing env))
           else read_payload env payload))))))"

section \<open>Validation\<close>

record attestation_document =
  ad_PublicKey :: string
  ad_Timestamp :: "64 word"
  ad_PCRs :: "(nat \<times> string) list"

record validation_result =
  vr_Valid :: bool
  vr_Errors :: "go_error option list"
  vr_ChainTrusted :: bool
  vr_RootFingerprint :: string
  vr_Nonce :: string
  vr_UserData :: string
  vr_PublicKey :: string
  vr_Document :: "attestation_document option"

record verification_summary =
  vs_AttestedAt :: string
  vs_AttestationTimestamp :: "64 word"
  vs_RootFingerprint :: string
  vs_ManifestSHA384 :: string
  vs_HPKEPublicKey :: string
  vs_PCRs :: "(nat \<times> string) list"
  vs_Manifest :: string

definition validationErrors :: "go_error option list \<Rightarrow> string" where
  "validationErrors errs =
     (case List.map_filter (map_option error_text) errs of
        [] \<Rightarrow> ''unspecified validation failure''
      | m # ms \<Rightarrow> foldl (\<lambda>t n. t @ ''; '' @ n) m ms)"

text \<open>\<open>time.UnixMilli\<close>, on the time line that starts at Go's zero time.\<close>

definition unix_epoch :: time where "unix_epoch = 62135596800 * second"
definition UnixMilli :: "int \<Rightarrow> time" where "UnixMilli ms = unix_epoch + ms * millisecond"

fun check_pcrs :: "(nat \<times> string) list \<Rightarrow> (nat \<times> string) list \<Rightarrow> nat list \<Rightarrow> go_error + (nat \<times> string) list" where
  "check_pcrs expectedPCRs measured [] = Inr []"
| "check_pcrs expectedPCRs measured (index # indices) =
     (case map_of expectedPCRs index of
        None \<Rightarrow> Inl (PlainErr (''expected PCR'' @ itoa index @ '' is missing or unsafe''))
      | Some expected \<Rightarrow>
     (if length expected \<noteq> pcrSize \<or> allZero expected
      then Inl (PlainErr (''expected PCR'' @ itoa index @ '' is missing or unsafe''))
      else case map_of measured index of
        None \<Rightarrow> Inl (PlainErr (''attestation PCR'' @ itoa index @ '' is missing or malformed''))
      | Some actual \<Rightarrow>
     (if length actual \<noteq> pcrSize then Inl (PlainErr (''attestation PCR'' @ itoa index @ '' is missing or malformed''))
      else if allZero actual then Inl (PlainErr (''attestation PCR'' @ itoa index @ '' is all zero (debug enclave)''))
      else if actual \<noteq> expected
      then Inl (PlainErr (''attestation PCR'' @ itoa index @ '' does not match the expected measurement''))
      else case check_pcrs expectedPCRs measured indices of
        Inl err \<Rightarrow> Inl err
      | Inr ps \<Rightarrow> Inr ((index, hexEncode actual) # ps))))"

definition validateAttestation :: "(string \<Rightarrow> string) \<Rightarrow> (string \<Rightarrow> go_error + validation_result option) \<Rightarrow> (time \<Rightarrow> string)
    \<Rightarrow> fetched_attestation option \<Rightarrow> string \<Rightarrow> (nat \<times> string) list \<Rightarrow> time \<Rightarrow> duration \<Rightarrow> duration \<Rightarrow> go_error + verification_summary" where
  "validateAttestation sha384 validate format fetched nonce expectedPCRs now maxAge maxFutureSkew =
     (case fetched of None \<Rightarrow> Inl (PlainErr ''attestation response is nil'') | Some f \<Rightarrow>
     (if length nonce \<noteq> nonceSize then Inl (PlainErr (''nonce must be exactly '' @ itoa nonceSize @ '' bytes''))
      else if now = zero_time \<or> maxAge \<le> 0 \<or> maxFutureSkew < 0 then Inl (PlainErr ''invalid verifier time policy'')
      else let manifestDigest = sha384 (fa_manifest f)
      in if fa_userData f \<noteq> manifestDigest then Inl (PlainErr ''response user_data does not match SHA-384(manifest)'')
      else case validate (fa_document f) of
        Inl err \<Rightarrow> Inl (WrapErr ''parse attestation document: '' err)
      | Inr None \<Rightarrow> Inl (PlainErr ''attestation verifier returned no result'')
      | Inr (Some result) \<Rightarrow>
     (if \<not> vr_Valid result
      then Inl (PlainErr (''AWS Nitro attestation validation failed: '' @ validationErrors (vr_Errors result)))
      else if \<not> vr_ChainTrusted result \<or> vr_RootFingerprint result \<noteq> expectedAWSRootFingerprint
      then Inl (PlainErr ''attestation certificate chain is not rooted in the expected AWS Nitro CA'')
      else case vr_Document result of None \<Rightarrow> Inl (PlainErr ''attestation document is missing decoded fields'') | Some doc \<Rightarrow>
     (if length (vr_Nonce result) \<noteq> nonceSize \<or> vr_Nonce result \<noteq> nonce
      then Inl (PlainErr ''attestation nonce does not match the request'')
      else if length (vr_UserData result) \<noteq> Size384 \<or> vr_UserData result \<noteq> manifestDigest
      then Inl (PlainErr ''signed user_data does not match SHA-384(manifest)'')
      else if length (fa_hpkePublicKey f) \<noteq> 32 \<or> allZero (fa_hpkePublicKey f)
      then Inl (PlainErr ''response HPKE public key is missing or malformed'')
      else if length (vr_PublicKey result) \<noteq> 32 \<or> allZero (vr_PublicKey result) \<or> vr_PublicKey result \<noteq> fa_hpkePublicKey f
      then Inl (PlainErr ''signed HPKE public key does not match the response'')
      else if length (ad_PublicKey doc) \<noteq> 32 \<or> ad_PublicKey doc \<noteq> fa_hpkePublicKey f
      then Inl (PlainErr ''attestation document HPKE public key does not match the response'')
      else if ad_Timestamp doc > 0x7FFFFFFFFFFFFFFF then Inl (PlainErr ''attestation timestamp is out of range'')
      else let attestedAt = UnixMilli (sint (ad_Timestamp doc))
      in if attestedAt > now + maxFutureSkew then Inl (PlainErr ''attestation timestamp is too far in the future'')
      else if attestedAt < now - maxAge then Inl (PlainErr ''attestation timestamp is stale'')
      else case check_pcrs expectedPCRs (ad_PCRs doc) [0, 1, 2] of
        Inl err \<Rightarrow> Inl err
      | Inr pcrSummary \<Rightarrow>
          Inr \<lparr>vs_AttestedAt = format attestedAt, vs_AttestationTimestamp = ad_Timestamp doc,
               vs_RootFingerprint = vr_RootFingerprint result, vs_ManifestSHA384 = hexEncode manifestDigest,
               vs_HPKEPublicKey = hexEncode (fa_hpkePublicKey f), vs_PCRs = pcrSummary, vs_Manifest = fa_manifest f\<rparr>))))"

section \<open>The command\<close>

text \<open>
  \<open>run\<close>: the flags, a fresh nonce, the fetch and the checks. A failure is an exit code with the
  message on standard error.
\<close>

record verifier_env =
  ve_parse :: "string \<Rightarrow> go_error + request_uri"
  ve_random :: "nat \<Rightarrow> go_error + string"
  ve_fetch :: fetch_env
  ve_sha384 :: "string \<Rightarrow> string"
  ve_validate :: "(nat \<times> string) list \<Rightarrow> string \<Rightarrow> go_error + validation_result option"
  ve_now :: time
  ve_format :: "time \<Rightarrow> string"

definition run_verifier :: "verifier_env \<Rightarrow> cli_flags \<Rightarrow> (nat \<times> go_error) + verification_summary" where
  "run_verifier env fl =
     (case parseFlags (ve_parse env) fl of
        Inl err \<Rightarrow> Inl (2, err)
      | Inr config \<Rightarrow>
     (case ve_random env nonceSize of
        Inl err \<Rightarrow> Inl (1, WrapErr ''generate nonce: '' err)
      | Inr nonce \<Rightarrow>
     (case fetchAttestation (ve_fetch env) (cc_endpoint config) nonce of
        Inl err \<Rightarrow> Inl (1, err)
      | Inr fetched \<Rightarrow>
     (case validateAttestation (ve_sha384 env) (ve_validate env (cc_pcrs config)) (ve_format env) (Some fetched) nonce
             (cc_pcrs config) (ve_now env) (cc_maxAge config) (cc_maxFutureSkew config) of
        Inl err \<Rightarrow> Inl (1, err)
      | Inr summary \<Rightarrow> Inr summary))))"

text \<open>
  The gateway's end of the exchange: it reads the body, asks the module and writes its reply as
  JSON, or an error with its status.
\<close>

definition serve_attestation :: "string json_value \<Rightarrow> (json \<Rightarrow> string) \<Rightarrow> (string \<Rightarrow> string) \<Rightarrow> build \<Rightarrow> string
    \<Rightarrow> (string \<Rightarrow> string \<Rightarrow> string \<Rightarrow> go_error + string) \<Rightarrow> (gateway_error + endpoint_response \<Rightarrow> int \<times> string)
    \<Rightarrow> string \<Rightarrow> nat \<Rightarrow> attestation_reply_http \<times> nat" where
  "serve_attestation decode enc sha384 b hpkePublicKey attest write body inflight =
     (case attestation_begin decode body inflight of
        (Inl err, n) \<Rightarrow>
          (\<lparr>ah_Status = fst (write (Inl err)), ah_ContentType = ''application/json'', ah_Body = Inr (snd (write (Inl err)))\<rparr>, n)
      | (Inr nonce, n) \<Rightarrow>
          (let reply = write (attestation_answer enc sha384 b hpkePublicKey attest nonce)
           in (\<lparr>ah_Status = fst reply, ah_ContentType = ''application/json'', ah_Body = Inr (snd reply)\<rparr>, n - 1)))"

lemma serve_gives_place_back:
  "snd (serve_attestation decode enc sha384 b key attest write body inflight) = inflight"
  by (auto simp: serve_attestation_def attestation_begin_def Let_def split: option.splits sum.splits prod.splits if_splits)

lemma attestation_begin_bounded:
  "attestation_begin decode body inflight = (Inr nonce, n) \<Longrightarrow> n \<le> maxConcurrentAttestations \<and> n = inflight + 1 \<and> length nonce = nonceSize"
  by (auto simp: attestation_begin_def decodeAttestationNonce_def attestationNonceSize_def nonceSize_def
      split: option.splits sum.splits prod.splits if_splits bool.splits)

section \<open>What verification gives\<close>

lemma check_pcrs_sound:
  "check_pcrs expected measured indices = Inr ps \<Longrightarrow>
   (\<forall>i \<in> set indices. \<exists>p. map_of expected i = Some p \<and> map_of measured i = Some p \<and> length p = pcrSize \<and> \<not> allZero p)
   \<and> ps = map (\<lambda>i. (i, hexEncode (the (map_of expected i)))) indices"
proof (induction expected measured indices arbitrary: ps rule: check_pcrs.induct)
  case (2 expected measured i indices)
  obtain p rest where p: "map_of expected i = Some p" "map_of measured i = Some p" "length p = pcrSize" "\<not> allZero p"
      "check_pcrs expected measured indices = Inr rest" "ps = (i, hexEncode p) # rest"
    using "2.prems" by (auto split: option.splits if_splits sum.splits)
  then show ?case using "2.IH" [OF p(1) _ p(2) _ _ _ p(5)] by auto
qed simp

lemma check_pcrs_complete:
  "(\<forall>i \<in> set indices. \<exists>p. map_of expected i = Some p \<and> map_of measured i = Some p \<and> length p = pcrSize \<and> \<not> allZero p) \<Longrightarrow>
   check_pcrs expected measured indices = Inr (map (\<lambda>i. (i, hexEncode (the (map_of expected i)))) indices)"
  by (induction indices) auto

lemma parse_pcrs_safe:
  "parse_pcrs index encoded = Inr ps \<Longrightarrow> map fst ps = [index..<index + length encoded] \<and> (\<forall>(i, p) \<in> set ps. length p = pcrSize \<and> \<not> allZero p)"
proof (induction index encoded arbitrary: ps rule: parse_pcrs.induct)
  case (2 index encoded rest)
  obtain p ps' where p: "parsePCR index encoded = Inr p" "parse_pcrs (index + 1) rest = Inr ps'" "ps = (index, p) # ps'"
    using "2.prems" by (auto split: sum.splits)
  have "length p = pcrSize \<and> \<not> allZero p"
    using p(1) by (auto simp: parsePCR_def dest: length_hex_decode split: if_splits option.splits)
  then show ?case using "2.IH" [OF p(1,2)] p(3) by (simp add: upt_conv_Cons del: upt_Suc)
qed simp

lemma parseFlags_policy:
  "parseFlags parse fl = Inr config \<Longrightarrow>
   cc_endpoint config = fl_url fl \<and> cc_maxAge config = fl_maxAge fl \<and> cc_maxFutureSkew config = fl_maxFutureSkew fl
   \<and> parse_pcrs 0 [fl_pcr0 fl, fl_pcr1 fl, fl_pcr2 fl] = Inr (cc_pcrs config)"
  by (auto simp: parseFlags_def simp del: parse_pcrs.simps split: option.splits if_splits sum.splits)

text \<open>What an accepted document says, \<open>bound_document\<close>, and that only such a document is accepted.\<close>

definition bound_document :: "(string \<Rightarrow> string) \<Rightarrow> validation_result \<Rightarrow> attestation_document \<Rightarrow> string \<Rightarrow> string \<Rightarrow> string
    \<Rightarrow> time \<Rightarrow> duration \<Rightarrow> duration \<Rightarrow> bool" where
  "bound_document sha384 result doc nonce manifest_text key now maxAge skew \<longleftrightarrow>
     vr_Valid result \<and> vr_ChainTrusted result \<and> vr_RootFingerprint result = expectedAWSRootFingerprint
     \<and> vr_Document result = Some doc
     \<and> vr_Nonce result = nonce \<and> length nonce = nonceSize
     \<and> vr_UserData result = sha384 manifest_text
     \<and> vr_PublicKey result = key \<and> ad_PublicKey doc = key \<and> length key = 32 \<and> \<not> allZero key
     \<and> now - maxAge \<le> UnixMilli (uint (ad_Timestamp doc)) \<and> UnixMilli (uint (ad_Timestamp doc)) \<le> now + skew"

lemma sint_small_64: "(w :: 64 word) \<le> 0x7FFFFFFFFFFFFFFF \<Longrightarrow> sint w = uint w"
  by (simp add: sint_uint word_le_def signed_take_bit_eq_if_positive bit_iff_odd take_bit_int_eq_self)

lemma validateAttestation_sound:
  assumes "validateAttestation sha384 validate format (Some f) nonce expected now maxAge skew = Inr s"
  shows "\<exists>result doc. validate (fa_document f) = Inr (Some result)
    \<and> bound_document sha384 result doc nonce (vs_Manifest s) (fa_hpkePublicKey f) now maxAge skew
    \<and> vs_Manifest s = fa_manifest f \<and> vs_HPKEPublicKey s = hexEncode (fa_hpkePublicKey f)
    \<and> vs_ManifestSHA384 s = hexEncode (sha384 (fa_manifest f))
    \<and> check_pcrs expected (ad_PCRs doc) [0, 1, 2] = Inr (vs_PCRs s)"
  using assms unfolding validateAttestation_def Let_def
  by (auto simp: bound_document_def sint_small_64 simp del: check_pcrs.simps split: sum.splits option.splits if_splits)

lemma run_verifier_sound:
  assumes "run_verifier env fl = Inr s"
  obtains nonce config f where "ve_random env nonceSize = Inr nonce" "parseFlags (ve_parse env) fl = Inr config"
    "fetchAttestation (ve_fetch env) (fl_url fl) nonce = Inr f"
    "validateAttestation (ve_sha384 env) (ve_validate env (cc_pcrs config)) (ve_format env) (Some f) nonce (cc_pcrs config)
       (ve_now env) (fl_maxAge fl) (fl_maxFutureSkew fl) = Inr s"
proof -
  obtain config where c: "parseFlags (ve_parse env) fl = Inr config"
    using assms by (auto simp: run_verifier_def split: sum.splits)
  show ?thesis
    using assms that c parseFlags_policy [OF c] by (auto simp: run_verifier_def split: sum.splits)
qed

text \<open>The measurements the flags name are the ones the document has.\<close>

definition pcr_matches :: "attestation_document \<Rightarrow> nat \<Rightarrow> string \<Rightarrow> bool" where
  "pcr_matches doc index encoded =
     (case hexDecode encoded of
        Some p \<Rightarrow> length p = pcrSize \<and> \<not> allZero p \<and> map_of (ad_PCRs doc) index = Some p
      | None \<Rightarrow> False)"

lemma checked_pcrs_match:
  assumes "parse_pcrs 0 [e0, e1, e2] = Inr expected" "check_pcrs expected (ad_PCRs doc) [0, 1, 2] = Inr ps"
  shows "pcr_matches doc 0 e0 \<and> pcr_matches doc 1 e1 \<and> pcr_matches doc 2 e2"
proof -
  obtain p0 p1 p2 where p: "hexDecode e0 = Some p0" "hexDecode e1 = Some p1" "hexDecode e2 = Some p2"
      "expected = [(0, p0), (1, p1), (2, p2)]"
    using assms(1) by (auto simp: parsePCR_def split: option.splits if_splits sum.splits)
  show ?thesis using check_pcrs_sound [OF assms(2)] p by (auto simp: pcr_matches_def)
qed

text \<open>
  C12: When the verifier exits with success, the AWS root vouches for a document that carries the
  fresh nonce of this run, the SHA-384 digest of the manifest printed, and the HPKE key printed;
  it is no older than \<open>--max-age\<close> and no further in the future than \<open>--max-future-skew\<close>, and its
  PCR0 to PCR2 are the measurements the flags name, none of them the zeros of a debug enclave.
\<close>
theorem verified_attestation_is_bound:
  assumes "run_verifier env fl = Inr s"
  shows "\<exists>nonce rules document result doc key.
    ve_random env nonceSize = Inr nonce
    \<and> ve_validate env rules document = Inr (Some result)
    \<and> bound_document (ve_sha384 env) result doc nonce (vs_Manifest s) key (ve_now env) (fl_maxAge fl) (fl_maxFutureSkew fl)
    \<and> vs_HPKEPublicKey s = hexEncode key \<and> vs_ManifestSHA384 s = hexEncode (ve_sha384 env (vs_Manifest s))
    \<and> pcr_matches doc 0 (fl_pcr0 fl) \<and> pcr_matches doc 1 (fl_pcr1 fl) \<and> pcr_matches doc 2 (fl_pcr2 fl)"
proof -
  obtain nonce config f where r: "ve_random env nonceSize = Inr nonce" "parseFlags (ve_parse env) fl = Inr config"
      "validateAttestation (ve_sha384 env) (ve_validate env (cc_pcrs config)) (ve_format env) (Some f) nonce (cc_pcrs config)
         (ve_now env) (fl_maxAge fl) (fl_maxFutureSkew fl) = Inr s"
    by (rule run_verifier_sound [OF assms])
  have "parse_pcrs 0 [fl_pcr0 fl, fl_pcr1 fl, fl_pcr2 fl] = Inr (cc_pcrs config)"
    using parseFlags_policy [OF r(2)] by simp
  then show ?thesis
    using validateAttestation_sound [OF r(3)] checked_pcrs_match r(1) by fastforce
qed

section \<open>An honest gateway\<close>

lemma strictBase64_encode: "strictBase64 (EncodeToString StdEncoding d) = Some d"
  using DecodeString_EncodeToString [of "Strict StdEncoding" d] by (simp add: strictBase64_def alphabet_std)

lemma nonce_round_trip: "length nonce = nonceSize \<Longrightarrow> decodeAttestationNonce (EncodeToString RawURLEncoding nonce) = Some nonce"
  by (simp add: decodeAttestationNonce_def alphabet_url attestationNonceSize_def nonceSize_def)

text \<open>
  What the verifier relies on: its HTTP client reaches the gateway, the JSON codecs of the two
  sides agree, and the module puts what it is given into a document that the AWS root vouches for.
\<close>

definition reply_codecs_agree :: "verifier_env \<Rightarrow> string json_value \<Rightarrow> (gateway_error + endpoint_response \<Rightarrow> int \<times> string)
    \<Rightarrow> string \<Rightarrow> endpoint_response \<Rightarrow> string \<Rightarrow> bool" where
  "reply_codecs_agree env decode write nonce reply body \<longleftrightarrow>
     fv_marshal (ve_fetch env) (EncodeToString RawURLEncoding nonce) = Inr body
     \<and> length body \<le> attestationRequestLimit
     \<and> decode body = Inr (EncodeToString RawURLEncoding nonce, True)
     \<and> fst (write (Inr reply)) = 200 \<and> length (snd (write (Inr reply))) \<le> maxResponseSize
     \<and> fv_media_type (ve_fetch env) ''application/json'' = Some ''application/json''
     \<and> fv_decode (ve_fetch env) (snd (write (Inr reply))) = Inr (reply, True)"

definition genuine_enclave :: "verifier_env \<Rightarrow> (string \<Rightarrow> string \<Rightarrow> string \<Rightarrow> go_error + nsm_reply) \<Rightarrow> (nat \<times> string) list
    \<Rightarrow> string \<Rightarrow> string \<Rightarrow> string \<Rightarrow> string \<Rightarrow> bool" where
  "genuine_enclave env send pcrs nonce userData key document \<longleftrightarrow>
     send nonce userData key = Inr \<lparr>nr_Error = [], nr_Document = Some document\<rparr> \<and> document \<noteq> []
     \<and> (\<exists>result doc. ve_validate env pcrs document = Inr (Some result)
          \<and> vr_Valid result \<and> vr_ChainTrusted result \<and> vr_RootFingerprint result = expectedAWSRootFingerprint
          \<and> vr_Document result = Some doc \<and> vr_Nonce result = nonce \<and> vr_UserData result = userData \<and> vr_PublicKey result = key
          \<and> ad_PublicKey doc = key \<and> ad_Timestamp doc \<le> 0x7FFFFFFFFFFFFFFF \<and> UnixMilli (sint (ad_Timestamp doc)) = ve_now env
          \<and> map_of (ad_PCRs doc) 0 = map_of pcrs 0 \<and> map_of (ad_PCRs doc) 1 = map_of pcrs 1 \<and> map_of (ad_PCRs doc) 2 = map_of pcrs 2)"

definition honest_reply :: "(json \<Rightarrow> string) \<Rightarrow> (string \<Rightarrow> string) \<Rightarrow> build \<Rightarrow> string \<Rightarrow> string \<Rightarrow> endpoint_response" where
  "honest_reply enc sha384 b key document =
     \<lparr>er_Document = EncodeToString StdEncoding document, er_Format = ''aws-nitro-cose-sign1'', er_Encoding = ''base64'',
      er_UserData = hexEncode (ManifestDigest enc sha384 b), er_UserDataEncoding = ''sha384-hex'',
      er_HPKEPublicKey = hexEncode key, er_HPKEKeyEncoding = ''raw-x25519-hex'', er_Manifest = ManifestJSON enc b\<rparr>"

lemma serve_honest:
  assumes "reply_codecs_agree env decode write nonce (honest_reply enc sha384 b key document) body" "length nonce = nonceSize"
    "send nonce (ManifestDigest enc sha384 b) key = Inr \<lparr>nr_Error = [], nr_Document = Some document\<rparr>" "document \<noteq> []"
    "inflight < maxConcurrentAttestations"
  shows "fst (serve_attestation decode enc sha384 b key (Attest (Some send) None) write body inflight) =
    \<lparr>ah_Status = 200, ah_ContentType = ''application/json'', ah_Body = Inr (snd (write (Inr (honest_reply enc sha384 b key document))))\<rparr>"
  using assms
  by (simp add: reply_codecs_agree_def serve_attestation_def attestation_begin_def nonce_round_trip attestation_answer_def Attest_def
      honest_reply_def Let_def)

lemma read_honest_reply:
  assumes "document \<noteq> []" "fv_json_valid env (ManifestJSON enc b)" "ManifestJSON enc b \<noteq> []" "ManifestJSON enc b \<noteq> ''null''"
    "length (ManifestDigest enc sha384 b) = Size384" "length key = 32" "\<not> allZero key" "fv_public_key env key"
  shows "read_payload env (honest_reply enc sha384 b key document) =
    Inr \<lparr>fa_document = document, fa_manifest = ManifestJSON enc b, fa_userData = ManifestDigest enc sha384 b, fa_hpkePublicKey = key\<rparr>"
  using assms by (simp add: read_payload_def honest_reply_def strictBase64_encode)

lemma parse_pcrs_three:
  assumes "parse_pcrs 0 [e0, e1, e2] = Inr pcrs" "i \<in> {0, 1, 2}"
  shows "\<exists>p. map_of pcrs i = Some p \<and> length p = pcrSize \<and> \<not> allZero p"
proof -
  have "map fst pcrs = [0, 1, 2]" "\<forall>(i, p) \<in> set pcrs. length p = pcrSize \<and> \<not> allZero p"
    using parse_pcrs_safe [OF assms(1)] by (simp_all add: upt_rec)
  then obtain p0 p1 p2 where "pcrs = [(0, p0), (1, p1), (2, p2)]" by (auto simp: map_eq_Cons_conv)
  with assms(2) \<open>\<forall>(i, p) \<in> set pcrs. _ i p\<close> show ?thesis by auto
qed

lemma sint_nonneg_64: "(w :: 64 word) \<le> 0x7FFFFFFFFFFFFFFF \<Longrightarrow> \<not> w > 0x7FFFFFFFFFFFFFFF"
  by simp

lemma validate_honest:
  fixes digest :: "string \<Rightarrow> string"
  assumes "genuine_enclave env send pcrs nonce (digest m) key document" "length nonce = nonceSize" "ve_now env \<noteq> zero_time"
    "0 < maxAge" "0 \<le> skew" "length (digest m) = Size384" "length key = 32" "\<not> allZero key"
    "parse_pcrs 0 [e0, e1, e2] = Inr pcrs"
  shows "\<exists>s. validateAttestation digest (ve_validate env pcrs) (ve_format env)
      (Some \<lparr>fa_document = document, fa_manifest = m, fa_userData = digest m, fa_hpkePublicKey = key\<rparr>) nonce pcrs (ve_now env) maxAge skew
    = Inr s \<and> vs_Manifest s = m \<and> vs_HPKEPublicKey s = hexEncode key"
proof -
  obtain result doc where r: "ve_validate env pcrs document = Inr (Some result)" "vr_Valid result" "vr_ChainTrusted result"
      "vr_RootFingerprint result = expectedAWSRootFingerprint" "vr_Document result = Some doc" "vr_Nonce result = nonce"
      "vr_UserData result = digest m" "vr_PublicKey result = key" "ad_PublicKey doc = key" "ad_Timestamp doc \<le> 0x7FFFFFFFFFFFFFFF"
      "UnixMilli (sint (ad_Timestamp doc)) = ve_now env"
      "map_of (ad_PCRs doc) 0 = map_of pcrs 0" "map_of (ad_PCRs doc) 1 = map_of pcrs 1" "map_of (ad_PCRs doc) 2 = map_of pcrs 2"
    using assms(1) by (auto simp: genuine_enclave_def)
  have "check_pcrs pcrs (ad_PCRs doc) [0, 1, 2] = Inr (map (\<lambda>i. (i, hexEncode (the (map_of pcrs i)))) [0, 1, 2])"
    using parse_pcrs_three [OF assms(9)] r(12-14) by (intro check_pcrs_complete) auto
  then show ?thesis
    using r assms by (simp add: validateAttestation_def Let_def linorder_not_le del: check_pcrs.simps list.map)
qed

lemma fetch_honest:
  assumes "reply_codecs_agree env decode write nonce (honest_reply enc sha384 b key document) body" "length nonce = nonceSize"
    "genuine_enclave env send pcrs nonce (ManifestDigest enc sha384 b) key document" "inflight < maxConcurrentAttestations"
    "fv_new_request (ve_fetch env) endpoint = None"
    "fv_do (ve_fetch env) endpoint body
       = Inr (fst (serve_attestation decode enc sha384 b key (Attest (Some send) None) write body inflight))"
    "fv_json_valid (ve_fetch env) (ManifestJSON enc b)" "ManifestJSON enc b \<noteq> []" "ManifestJSON enc b \<noteq> ''null''"
    "length (ManifestDigest enc sha384 b) = Size384" "length key = 32" "\<not> allZero key" "fv_public_key (ve_fetch env) key"
  shows "fetchAttestation (ve_fetch env) endpoint nonce =
    Inr \<lparr>fa_document = document, fa_manifest = ManifestJSON enc b, fa_userData = ManifestDigest enc sha384 b, fa_hpkePublicKey = key\<rparr>"
proof -
  have g: "send nonce (ManifestDigest enc sha384 b) key = Inr \<lparr>nr_Error = [], nr_Document = Some document\<rparr>" "document \<noteq> []"
    using assms(3) by (simp_all add: genuine_enclave_def)
  note r = serve_honest [where send = send, OF assms(1,2) g assms(4)]
  have "take (maxResponseSize + 1) (snd (write (Inr (honest_reply enc sha384 b key document))))
      = snd (write (Inr (honest_reply enc sha384 b key document)))"
    using assms(1) by (simp add: reply_codecs_agree_def)
  then show ?thesis
    using assms(1,2,5,6) read_honest_reply [OF g(2) assms(7-13)]
    by (simp add: fetchAttestation_def r reply_codecs_agree_def Let_def)
qed

lemma honest_run:
  assumes "parseFlags (ve_parse env) fl = Inr config" "ve_random env nonceSize = Inr nonce" "length nonce = nonceSize"
    "reply_codecs_agree env decode write nonce (honest_reply enc (ve_sha384 env) b key document) body"
    "genuine_enclave env send (cc_pcrs config) nonce (ManifestDigest enc (ve_sha384 env) b) key document"
    "inflight < maxConcurrentAttestations" "fv_new_request (ve_fetch env) (fl_url fl) = None"
    "fv_do (ve_fetch env) (fl_url fl) body
       = Inr (fst (serve_attestation decode enc (ve_sha384 env) b key (Attest (Some send) None) write body inflight))"
    "fv_json_valid (ve_fetch env) (ManifestJSON enc b)" "ManifestJSON enc b \<noteq> []" "ManifestJSON enc b \<noteq> ''null''"
    "length (ManifestDigest enc (ve_sha384 env) b) = Size384" "length key = 32" "\<not> allZero key" "fv_public_key (ve_fetch env) key"
    "ve_now env \<noteq> zero_time"
  shows "\<exists>s. run_verifier env fl = Inr s \<and> vs_Manifest s = ManifestJSON enc b \<and> vs_HPKEPublicKey s = hexEncode key"
proof -
  note f = fetch_honest [OF assms(4,3,5,6,7,8,9,10,11,12,13,14,15)]
  have p: "0 < cc_maxAge config" "0 \<le> cc_maxFutureSkew config"
    using assms(1) by (auto simp: parseFlags_def simp del: parse_pcrs.simps split: option.splits if_splits sum.splits)
  have q: "parse_pcrs 0 [fl_pcr0 fl, fl_pcr1 fl, fl_pcr2 fl] = Inr (cc_pcrs config)" "cc_endpoint config = fl_url fl"
    using parseFlags_policy [OF assms(1)] by simp_all
  obtain s where "validateAttestation (ve_sha384 env) (ve_validate env (cc_pcrs config)) (ve_format env)
      (Some \<lparr>fa_document = document, fa_manifest = ManifestJSON enc b, fa_userData = ve_sha384 env (ManifestJSON enc b),
         fa_hpkePublicKey = key\<rparr>) nonce (cc_pcrs config) (ve_now env) (cc_maxAge config) (cc_maxFutureSkew config) = Inr s"
      "vs_Manifest s = ManifestJSON enc b" "vs_HPKEPublicKey s = hexEncode key"
    using validate_honest [where digest = "ve_sha384 env" and m = "ManifestJSON enc b", OF assms(5) [unfolded ManifestDigest_def]
        assms(3,16) p assms(12) [unfolded ManifestDigest_def] assms(13,14) q(1)] by blast
  then show ?thesis
    using assms(1,2) f q(2) by (simp add: run_verifier_def ManifestDigest_def)
qed


subsection \<open>A concrete run\<close>

definition sample_pcr :: string where "sample_pcr = replicate 48 (CHR 0x01)"
definition sample_hpke_key :: string where "sample_hpke_key = replicate 32 (CHR 0x07)"
definition sample_nonce :: string where "sample_nonce = replicate 32 (CHR 0x05)"
definition sample_sha384 :: "string \<Rightarrow> string" where "sample_sha384 m = replicate 48 (CHR 0x09)"
definition sample_manifest :: "json \<Rightarrow> string" where "sample_manifest j = ''{}''"
definition sample_document :: string where "sample_document = ''document''"

definition sample_build :: build where
  "sample_build = \<lparr>bu_SourceRevision = [], bu_AWSRegion = [], bu_KMSKeyARN = []\<rparr>"

definition sample_send :: "string \<Rightarrow> string \<Rightarrow> string \<Rightarrow> go_error + nsm_reply" where
  "sample_send nonce userData key = Inr \<lparr>nr_Error = [], nr_Document = Some sample_document\<rparr>"

definition sample_decode :: "string json_value" where "sample_decode body = Inr (body, True)"

definition sample_write :: "gateway_error + endpoint_response \<Rightarrow> int \<times> string" where
  "sample_write r = (case r of Inl _ \<Rightarrow> (503, []) | Inr _ \<Rightarrow> (200, ''reply''))"

definition sample_reply :: endpoint_response where "sample_reply = honest_reply sample_manifest sample_sha384 sample_build sample_hpke_key sample_document"

definition sample_attested :: attestation_document where
  "sample_attested = \<lparr>ad_PublicKey = sample_hpke_key, ad_Timestamp = 1000, ad_PCRs = [(0, sample_pcr), (1, sample_pcr), (2, sample_pcr)]\<rparr>"

definition sample_result :: validation_result where
  "sample_result = \<lparr>vr_Valid = True, vr_Errors = [], vr_ChainTrusted = True, vr_RootFingerprint = expectedAWSRootFingerprint,
     vr_Nonce = sample_nonce, vr_UserData = sample_sha384 [], vr_PublicKey = sample_hpke_key, vr_Document = Some sample_attested\<rparr>"

definition sample_fetch :: fetch_env where
  "sample_fetch = \<lparr>fv_marshal = (\<lambda>s. Inr s), fv_new_request = (\<lambda>_. None),
     fv_do = (\<lambda>endpoint body. Inr (fst (serve_attestation sample_decode sample_manifest sample_sha384 sample_build sample_hpke_key
        (Attest (Some sample_send) None) sample_write body 0))),
     fv_media_type = (\<lambda>ct. Some ct), fv_decode = (\<lambda>_. Inr (sample_reply, True)), fv_trailing = PlainErr [],
     fv_json_valid = (\<lambda>m. m = ''{}''), fv_public_key = (\<lambda>k. length k = 32)\<rparr>"

definition sample_verifier :: verifier_env where
  "sample_verifier = \<lparr>ve_parse = (\<lambda>u. Inr \<lparr>ru_Scheme = ''https'', ru_Host = ''gateway'', ru_Opaque = [], ru_User = False, ru_Fragment = []\<rparr>),
     ve_random = (\<lambda>n. Inr sample_nonce), ve_fetch = sample_fetch, ve_sha384 = sample_sha384,
     ve_validate = (\<lambda>rules d. Inr (Some sample_result)), ve_now = UnixMilli 1000, ve_format = (\<lambda>_. [])\<rparr>"

definition sample_flags :: cli_flags where
  "sample_flags = \<lparr>fl_url = ''https://gateway/attestation'', fl_pcr0 = hexEncode sample_pcr, fl_pcr1 = hexEncode sample_pcr, fl_pcr2 = hexEncode sample_pcr,
     fl_timeout = 1, fl_maxAge = 1, fl_maxFutureSkew = 0, fl_args = 0\<rparr>"

definition sample_config :: cli_config where
  "sample_config = \<lparr>cc_endpoint = ''https://gateway/attestation'', cc_pcrs = [(0, sample_pcr), (1, sample_pcr), (2, sample_pcr)], cc_timeout = 1,
     cc_maxAge = 1, cc_maxFutureSkew = 0\<rparr>"

lemma sample_sizes: "length sample_pcr = pcrSize" "\<not> allZero sample_pcr" "length sample_hpke_key = 32" "\<not> allZero sample_hpke_key" "length sample_nonce = nonceSize"
  by (simp_all add: sample_pcr_def sample_hpke_key_def sample_nonce_def pcrSize_def nonceSize_def allZero_def numeral_eq_Suc)

lemma sample_flags_parse: "parseFlags (ve_parse sample_verifier) sample_flags = Inr sample_config"
  by (simp add: parseFlags_def sample_verifier_def sample_flags_def sample_config_def validateEndpointURL_def parsePCR_def sample_sizes)

lemma sample_random: "ve_random sample_verifier nonceSize = Inr sample_nonce"
  by (simp add: sample_verifier_def)

lemma sample_module:
  "genuine_enclave sample_verifier sample_send (cc_pcrs sample_config) sample_nonce (ManifestDigest sample_manifest (ve_sha384 sample_verifier) sample_build) sample_hpke_key sample_document"
  by (simp add: genuine_enclave_def sample_send_def sample_verifier_def sample_config_def sample_result_def sample_attested_def sample_document_def
      ManifestDigest_def sample_sha384_def)

lemma sample_codecs:
  "reply_codecs_agree sample_verifier sample_decode sample_write sample_nonce (honest_reply sample_manifest (ve_sha384 sample_verifier) sample_build sample_hpke_key sample_document)
     (EncodeToString RawURLEncoding sample_nonce)"
proof -
  have "length (EncodeToString RawURLEncoding sample_nonce) \<le> 1024"
    using length_EncodeToString_le [of RawURLEncoding sample_nonce] sample_sizes(5) by (simp add: nonceSize_def EncodedLen_def)
  then show ?thesis
    by (simp add: reply_codecs_agree_def sample_verifier_def sample_fetch_def sample_decode_def sample_write_def sample_reply_def maxResponseSize_def
        attestationRequestLimit_def)
qed

lemmas sample_parts = sample_verifier_def sample_fetch_def sample_flags_def sample_sha384_def sample_manifest_def sample_sizes ManifestJSON_def ManifestDigest_def

lemma sample_rest:
  "0 < maxConcurrentAttestations" "fv_new_request (ve_fetch sample_verifier) (fl_url sample_flags) = None"
  "fv_do (ve_fetch sample_verifier) (fl_url sample_flags) body = Inr (fst (serve_attestation sample_decode sample_manifest (ve_sha384 sample_verifier)
     sample_build sample_hpke_key (Attest (Some sample_send) None) sample_write body 0))"
  "fv_json_valid (ve_fetch sample_verifier) (ManifestJSON sample_manifest sample_build)" "ManifestJSON sample_manifest sample_build \<noteq> []"
  "ManifestJSON sample_manifest sample_build \<noteq> ''null''"
  "length (ManifestDigest sample_manifest (ve_sha384 sample_verifier) sample_build) = Size384"
  "length sample_hpke_key = 32" "\<not> allZero sample_hpke_key" "fv_public_key (ve_fetch sample_verifier) sample_hpke_key"
  "ve_now sample_verifier \<noteq> zero_time"
  by (simp_all add: sample_parts maxConcurrentAttestations_def Size384_def UnixMilli_def unix_epoch_def zero_time_def second_def millisecond_def)

lemma sample_run:
  "\<exists>s. run_verifier sample_verifier sample_flags = Inr s \<and> vs_Manifest s = ManifestJSON sample_manifest sample_build
     \<and> vs_HPKEPublicKey s = hexEncode sample_hpke_key"
  by (rule honest_run [where inflight = 0, OF sample_flags_parse sample_random sample_sizes(5) sample_codecs sample_module])
    (simp_all add: sample_rest)

text \<open>A verification that succeeds, and what the property says of it.\<close>

theorem verified_attestation_is_bound_witness:
  "\<exists>s. run_verifier sample_verifier sample_flags = Inr s
     \<and> (\<exists>document result doc key rules. ve_validate sample_verifier rules document = Inr (Some result)
          \<and> bound_document sample_sha384 result doc sample_nonce (vs_Manifest s) key (ve_now sample_verifier) 1 0)"
proof -
  obtain s where s: "run_verifier sample_verifier sample_flags = Inr s" using sample_run by blast
  have "ve_sha384 sample_verifier = sample_sha384" "fl_maxAge sample_flags = 1" "fl_maxFutureSkew sample_flags = 0"
    by (simp_all add: sample_verifier_def sample_flags_def)
  then show ?thesis using verified_attestation_is_bound [OF s] s sample_random by auto
qed


end
