(* ===== verification/Vsock.thy ===== *)
theory Vsock
  imports Profile Bootstrap
begin

text \<open>
  The byte pipes across the vsock boundary: the ingress of the parent
  (\<open>cmd/nexus-vsock-forwarder\<close>, \<open>runIngress\<close> and \<open>forward\<close>), the enclave's bridge for Tinfoil's TLS
  check and the DNS connection of its resolver (\<open>enclave/network/network_nitro.go\<close>). A connection is
  the bytes that have passed each way; the operations are steps in the order in which they happen.
\<close>

section \<open>Ingress\<close>

datatype half = ToEnclave | ToClient

text \<open>The two copies of \<open>forward\<close>: what each has written, and whether its source has ended.\<close>

record pipe =
  pi_to_enclave :: string
  pi_to_client :: string
  pi_client_done :: bool        \<comment> \<open>the copy to the enclave has ended and closed its write side\<close>
  pi_enclave_done :: bool
  pi_closed :: bool

datatype pipe_event = Arrived half string | Ended half

definition new_pipe :: pipe where
  "new_pipe = \<lparr>pi_to_enclave = [], pi_to_client = [], pi_client_done = False, pi_enclave_done = False, pi_closed = False\<rparr>"

text \<open>\<open>copyHalf\<close>: bytes pass while the copy runs; its end is noted, also when the copy fails.\<close>

fun copyHalf :: "pipe \<Rightarrow> pipe_event \<Rightarrow> pipe" where
  "copyHalf p (Arrived ToEnclave bs) = (if pi_closed p \<or> pi_client_done p then p else p\<lparr>pi_to_enclave := pi_to_enclave p @ bs\<rparr>)"
| "copyHalf p (Arrived ToClient bs) = (if pi_closed p \<or> pi_enclave_done p then p else p\<lparr>pi_to_client := pi_to_client p @ bs\<rparr>)"
| "copyHalf p (Ended ToEnclave) = (if pi_closed p then p else p\<lparr>pi_client_done := True\<rparr>)"
| "copyHalf p (Ended ToClient) = (if pi_closed p then p else p\<lparr>pi_enclave_done := True\<rparr>)"

text \<open>\<open>forward\<close> waits for both copies, the bridge for the first.\<close>

definition forward_step :: "pipe \<Rightarrow> pipe_event \<Rightarrow> pipe" where
  "forward_step p ev = (let q = copyHalf p ev in q\<lparr>pi_closed := pi_closed q \<or> (pi_client_done q \<and> pi_enclave_done q)\<rparr>)"

definition forward :: "go_error option \<Rightarrow> pipe_event list \<Rightarrow> pipe" where
  "forward dial evs = (case dial of Some err \<Rightarrow> new_pipe\<lparr>pi_closed := True\<rparr> | None \<Rightarrow> foldl forward_step new_pipe evs)"

definition bridge_step :: "pipe \<Rightarrow> pipe_event \<Rightarrow> pipe" where
  "bridge_step p ev = (let q = copyHalf p ev in q\<lparr>pi_closed := pi_closed q \<or> pi_client_done q \<or> pi_enclave_done q\<rparr>)"

definition bridgeTinfoilTLS :: "go_error option \<Rightarrow> pipe_event list \<Rightarrow> pipe" where
  "bridgeTinfoilTLS dial evs = (case dial of Some err \<Rightarrow> new_pipe\<lparr>pi_closed := True\<rparr> | None \<Rightarrow> foldl bridge_step new_pipe evs)"

text \<open>The accept loop: a connection takes a place or is closed at once; a forwarding that ends gives its place back.\<close>

datatype ingress_event = Accepted nat | Forwarded

record ingress =
  ig_limit :: nat
  ig_running :: nat
  ig_started :: "nat list"
  ig_refused :: "nat list"

definition max_connections_error :: "int \<Rightarrow> go_error option" where
  "max_connections_error n =
     (if n < 1 \<or> n > 4096 then Some (PlainErr ''max-connections must be between 1 and 4096'') else None)"

fun ingress_step :: "ingress \<Rightarrow> ingress_event \<Rightarrow> ingress" where
  "ingress_step g (Accepted c) =
     (if ig_running g < ig_limit g then g\<lparr>ig_running := ig_running g + 1, ig_started := ig_started g @ [c]\<rparr>
      else g\<lparr>ig_refused := ig_refused g @ [c]\<rparr>)"
| "ingress_step g Forwarded = g\<lparr>ig_running := ig_running g - 1\<rparr>"

definition runIngress :: "nat \<Rightarrow> nat \<Rightarrow> int \<Rightarrow> ingress_event list \<Rightarrow> go_error + ingress" where
  "runIngress cid port maxConnections evs =
     (case validateVsockAddress cid port of Some err \<Rightarrow> Inl err | None \<Rightarrow>
     (case max_connections_error maxConnections of Some err \<Rightarrow> Inl err | None \<Rightarrow>
        Inr (foldl ingress_step \<lparr>ig_limit = nat maxConnections, ig_running = 0, ig_started = [], ig_refused = []\<rparr> evs)))"

fun accepted :: "ingress_event list \<Rightarrow> nat list" where
  "accepted [] = []"
| "accepted (Accepted c # evs) = c # accepted evs"
| "accepted (Forwarded # evs) = accepted evs"

definition ingress_ok :: "ingress \<Rightarrow> bool" where
  "ingress_ok g = (ig_running g \<le> ig_limit g)"

lemma ingress_step_ok: "ingress_ok g \<Longrightarrow> ingress_ok (ingress_step g ev)"
  by (cases ev) (auto simp: ingress_ok_def)

lemma ingress_steps:
  "ingress_ok g \<Longrightarrow> ingress_ok (foldl ingress_step g evs)
     \<and> ig_limit (foldl ingress_step g evs) = ig_limit g
     \<and> mset (ig_started (foldl ingress_step g evs)) + mset (ig_refused (foldl ingress_step g evs))
         = mset (ig_started g) + mset (ig_refused g) + mset (accepted evs)"
proof (induction evs arbitrary: g)
  case (Cons ev evs)
  have "ig_limit (ingress_step g ev) = ig_limit g" by (cases ev) auto
  moreover have "mset (ig_started (ingress_step g ev)) + mset (ig_refused (ingress_step g ev)) + mset (accepted evs)
      = mset (ig_started g) + mset (ig_refused g) + mset (accepted (ev # evs))" by (cases ev) auto
  ultimately show ?case using Cons.IH [OF ingress_step_ok [OF Cons.prems, of ev]] by simp
qed simp

lemma runIngress_bounded:
  assumes "runIngress cid port n evs = Inr g"
  shows "ig_running g \<le> nat n \<and> n \<le> 4096 \<and> mset (ig_started g) + mset (ig_refused g) = mset (accepted evs)"
  using assms ingress_steps [of "\<lparr>ig_limit = nat n, ig_running = 0, ig_started = [], ig_refused = []\<rparr>" evs]
  by (auto simp: runIngress_def ingress_ok_def max_connections_error_def split: option.splits if_splits)

subsection \<open>What passes\<close>

fun sent :: "half \<Rightarrow> pipe_event list \<Rightarrow> string" where
  "sent h [] = []"
| "sent h (Arrived h' bs # evs) = (if h = h' then bs else []) @ sent h evs"
| "sent h (Ended h' # evs) = (if h = h' then [] else sent h evs)"

lemma forward_client_bytes:
  "\<not> pi_closed p \<Longrightarrow> \<not> pi_enclave_done p \<Longrightarrow> pi_to_client (foldl forward_step p evs) = pi_to_client p @ sent ToClient evs"
proof (induction evs arbitrary: p)
  case (Cons ev evs)
  have stop: "pi_enclave_done p \<or> pi_closed p \<Longrightarrow> pi_to_client (foldl forward_step p evs) = pi_to_client p" for p
  proof (induction evs arbitrary: p)
    case (Cons ev evs)
    have "pi_enclave_done (forward_step p ev) \<or> pi_closed (forward_step p ev)" "pi_to_client (forward_step p ev) = pi_to_client p"
      using Cons.prems by (cases "(p, ev)" rule: copyHalf.cases; auto simp: forward_step_def Let_def)+
    then show ?case using Cons.IH by simp
  qed simp
  show ?case
  proof (cases "ev = Ended ToClient")
    case True
    have "pi_enclave_done (forward_step p ev)" "pi_to_client (forward_step p ev) = pi_to_client p"
      using True Cons.prems by (simp_all add: forward_step_def Let_def)
    then show ?thesis using True stop [of "forward_step p ev"] by simp
  next
    case False
    have "\<not> pi_closed (forward_step p ev)" "\<not> pi_enclave_done (forward_step p ev)"
      using False Cons.prems by (cases "(p, ev)" rule: copyHalf.cases; auto simp: forward_step_def Let_def)+
    moreover have "pi_to_client (forward_step p ev) @ sent ToClient evs = pi_to_client p @ sent ToClient (ev # evs)"
      using False Cons.prems by (cases "(p, ev)" rule: copyHalf.cases; auto simp: forward_step_def Let_def)
    ultimately show ?thesis using Cons.IH by simp
  qed
qed simp

text \<open>
  A client that has finished sending still gets the whole answer: \<open>forward\<close> gives the client all
  that the enclave wrote before it ended, whatever the client's side does meanwhile.
\<close>

lemma forward_whole_answer: "pi_to_client (forward None evs) = sent ToClient evs"
  using forward_client_bytes [of new_pipe evs] by (simp add: forward_def new_pipe_def)

section \<open>The resolver's connection\<close>

definition writeDNSMessage :: "string \<Rightarrow> go_error + string" where
  "writeDNSMessage message =
     (if length message > 65535 then Inl (PlainErr ''DNS response exceeds TCP framing limit'')
      else Inr ([char_of (length message div 256), char_of (length message mod 256)] @ message))"

text \<open>A message and what follows it; nothing when the connection ends before its last byte.\<close>

fun readDNSMessage :: "string \<Rightarrow> (string \<times> string) option" where
  "readDNSMessage (hi # lo # rest) =
     (let n = byte hi * 256 + byte lo in if length rest < n then None else Some (take n rest, drop n rest))"
| "readDNSMessage _ = None"

lemma readDNSMessage_shorter: "readDNSMessage s = Some (m, rest) \<Longrightarrow> length rest < length s"
  by (cases s rule: readDNSMessage.cases) (auto simp: Let_def split: if_splits)

function serveTinfoilDNSConnection :: "(string \<Rightarrow> string option) \<Rightarrow> string \<Rightarrow> string" where
  "serveTinfoilDNSConnection respond s =
     (case readDNSMessage s of
        None \<Rightarrow> []
      | Some (request, rest) \<Rightarrow>
          (case respond request of
             None \<Rightarrow> []
           | Some response \<Rightarrow>
               (case writeDNSMessage response of
                  Inl err \<Rightarrow> []
                | Inr framed \<Rightarrow> framed @ serveTinfoilDNSConnection respond rest)))"
  by pat_completeness auto
termination by (relation "measure (\<lambda>(_, s). length s)") (auto dest: readDNSMessage_shorter)

declare serveTinfoilDNSConnection.simps [simp del]

lemma read_written:
  assumes "writeDNSMessage m = Inr framed"
  shows "readDNSMessage (framed @ rest) = Some (m, rest)"
proof -
  have l: "length m \<le> 65535" "framed = [char_of (length m div 256), char_of (length m mod 256)] @ m"
    using assms by (auto simp: writeDNSMessage_def split: if_splits)
  have "byte (char_of (length m div 256)) = length m div 256" using l(1) by (intro byte_of) (simp add: less_mult_imp_div_less)
  moreover have "byte (char_of (length m mod 256)) = length m mod 256" by (intro byte_of) simp
  ultimately show ?thesis using l(2) by (simp add: Let_def div_mult_mod_eq)
qed

text \<open>Every query of a connection is answered, one after the other.\<close>

lemma serve_all:
  assumes "list_all (\<lambda>m. length m \<le> 65535 \<and> (\<exists>r. respond m = Some r \<and> length r \<le> 65535)) ms"
  shows "serveTinfoilDNSConnection respond (concat (map (\<lambda>m. projr (writeDNSMessage m)) ms))
    = concat (map (\<lambda>m. projr (writeDNSMessage (the (respond m)))) ms)"
  using assms
proof (induction ms)
  case (Cons m ms)
  obtain r where r: "length m \<le> 65535" "respond m = Some r" "length r \<le> 65535" using Cons.prems by auto
  let ?rest = "concat (map (\<lambda>m. projr (writeDNSMessage m)) ms)"
  have "readDNSMessage (projr (writeDNSMessage m) @ ?rest) = Some (m, ?rest)"
    using r(1) by (intro read_written) (simp add: writeDNSMessage_def)
  then show ?case using Cons r
    by (subst serveTinfoilDNSConnection.simps) (simp add: writeDNSMessage_def)
qed (simp add: serveTinfoilDNSConnection.simps)

end
