(* ===== verification/Http.thy ===== *)
theory Http
  imports Proxy Confidential
begin

text \<open>
  What handlers do to a response (\<open>handlers/common.go\<close>, \<open>dto/error_response.go\<close>): the calls on an
  \<open>http.ResponseWriter\<close> in their order, with log lines and the effects of the services between
  them, and what a client gets of them as \<open>net/http\<close> sends it: the first status wins, with the
  headers set until then. The JSON encoder is a parameter.
\<close>

section \<open>Requests and responses\<close>

record server_request =
  hr_Method :: string
  hr_Path :: string
  hr_Header :: "string \<Rightarrow> string"        \<comment> \<open>\<open>Header.Get\<close>: empty when it is not there\<close>
  hr_Body :: string
  hr_BodyErr :: "go_error option"       \<comment> \<open>how reading ends after the body; \<open>None\<close> is \<open>io.EOF\<close>\<close>
  hr_RequestID :: string                \<comment> \<open>from the context\<close>
  hr_Gone :: bool                       \<comment> \<open>the context has ended by the end of the response\<close>

datatype 'd http_action =
    SetHeader string string
  | WriteHeader int
  | WriteBytes string
  | FlushOut
  | LogLine string string "(string \<times> meta) list"     \<comment> \<open>level, message, fields\<close>
  | Service "'d effect"

type_synonym header_map = "string \<rightharpoonup> string"

record reply =
  rp_Status :: int
  rp_Header :: header_map
  rp_Body :: string

record wire =
  wi_Header :: header_map
  wi_Sent :: "(int \<times> header_map) option"
  wi_Body :: string

definition body_allowed :: "int \<Rightarrow> bool" where
  "body_allowed status = (\<not> (100 \<le> status \<and> status \<le> 199) \<and> status \<noteq> 204 \<and> status \<noteq> 304)"

definition send_status :: "int \<Rightarrow> wire \<Rightarrow> wire" where
  "send_status status w = (case wi_Sent w of None \<Rightarrow> w\<lparr>wi_Sent := Some (status, wi_Header w)\<rparr> | Some _ \<Rightarrow> w)"

fun transmit :: "wire \<Rightarrow> 'd http_action \<Rightarrow> wire" where
  "transmit w (SetHeader k v) = w\<lparr>wi_Header := (wi_Header w)(k \<mapsto> v)\<rparr>"
| "transmit w (WriteHeader status) = send_status status w"
| "transmit w (WriteBytes b) =
     (let w1 = send_status 200 w
      in if body_allowed (fst (the (wi_Sent w1))) then w1\<lparr>wi_Body := wi_Body w1 @ b\<rparr> else w1)"
| "transmit w FlushOut = send_status 200 w"
| "transmit w (LogLine level msg fs) = w"
| "transmit w (Service e) = w"

definition new_wire :: wire where
  "new_wire = \<lparr>wi_Header = Map.empty, wi_Sent = None, wi_Body = []\<rparr>"

definition wire_reply :: "wire \<Rightarrow> reply" where
  "wire_reply w =
     (let w1 = send_status 200 w
      in \<lparr>rp_Status = fst (the (wi_Sent w1)), rp_Header = snd (the (wi_Sent w1)), rp_Body = wi_Body w1\<rparr>)"

definition client_reply :: "'d http_action list \<Rightarrow> reply" where
  "client_reply acts = wire_reply (foldl transmit new_wire acts)"

definition service_effects :: "'d http_action list \<Rightarrow> 'd effect list" where
  "service_effects acts = concat (map (\<lambda>a. case a of Service e \<Rightarrow> [e] | _ \<Rightarrow> []) acts)"

lemma service_effects_simps [simp]:
  "service_effects [] = []" "service_effects (x @ y) = service_effects x @ service_effects y"
  "service_effects (Service e # x) = e # service_effects x" "service_effects (SetHeader k v # x) = service_effects x"
  "service_effects (WriteHeader n # x) = service_effects x" "service_effects (WriteBytes b # x) = service_effects x"
  "service_effects (FlushOut # x) = service_effects x" "service_effects (LogLine l m f # x) = service_effects x"
  "service_effects (map Service ev) = ev"
  by (simp_all add: service_effects_def map_concat comp_def)

text \<open>Log lines and effects do not reach the client.\<close>

lemma transmit_services [simp]: "foldl transmit w (map Service ev) = w"
  by (induction ev) simp_all

section \<open>Common replies\<close>


definition WriteJSON :: "(json \<Rightarrow> string) \<Rightarrow> int \<Rightarrow> json \<Rightarrow> 'd http_action list" where
  "WriteJSON enc status v = [SetHeader ''Content-Type'' ''application/json'', WriteHeader status, WriteBytes (enc v @ [CHR 0x0A])]"

record error_detail =
  ed_Type :: string
  ed_Code :: string
  ed_Message :: string
  ed_Origin :: string
  ed_UpstreamStatus :: int

definition CauseUntypedError :: string where "CauseUntypedError = ''untyped_error''"

definition errorDetail :: "gateway_error \<Rightarrow> error_detail" where
  "errorDetail err =
     \<lparr>ed_Type = ge_Type err, ed_Code = ge_Code err, ed_Message = ge_Message err,
      ed_Origin = (if ge_Type err = ErrTypeProvider then ''upstream'' else ''gateway''),
      ed_UpstreamStatus = (case ge_Metadata err ''upstream_status'' of Some (MInt status) \<Rightarrow> status | _ \<Rightarrow> 0)\<rparr>"

text \<open>\<open>dto.ErrorResponse\<close>; a zero upstream status is left out.\<close>

definition error_json :: "error_detail \<Rightarrow> json" where
  "error_json d =
     JObj [(''error'', JObj ([(''type'', JStr (ed_Type d)), (''code'', JStr (ed_Code d)), (''message'', JStr (ed_Message d)),
       (''origin'', JStr (ed_Origin d))]
       @ (if ed_UpstreamStatus d = 0 then [] else [(''upstream_status'', JNum (itoa_int (ed_UpstreamStatus d)))])))]"

definition retry_header :: "gateway_error \<Rightarrow> 'd http_action list" where
  "retry_header e = (if ge_RetryAfter e \<noteq> [] then [SetHeader ''Retry-After'' (ge_RetryAfter e)] else [])"

definition internal_text :: string where "internal_text = ''an internal error occurred''"

definition WriteError :: "(json \<Rightarrow> string) \<Rightarrow> go_error \<Rightarrow> 'd http_action list" where
  "WriteError enc err =
     (let gwErr = (case err of GwErr e \<Rightarrow> e | _ \<Rightarrow> ErrInternal internal_text)
      in retry_header gwErr @ WriteJSON enc (ge_HTTPStatus gwErr) (error_json (errorDetail gwErr)))"

text \<open>\<open>type_name\<close> is \<open>fmt\<close>'s \<open>%T\<close>.\<close>

definition WriteErrorWithLog :: "(json \<Rightarrow> string) \<Rightarrow> (go_error \<Rightarrow> string) \<Rightarrow> server_request \<Rightarrow> go_error \<Rightarrow> 'd http_action list" where
  "WriteErrorWithLog enc type_name r err =
     (let (gwErr, untyped) =
            (case err of
               GwErr e \<Rightarrow> (e, [])
             | _ \<Rightarrow> (WithMeta (ErrInternal internal_text) [MStr ''cause'', MStr CauseUntypedError],
                      [LogLine ''error'' ''untyped internal error''
                         [(''request_id'', MStr (hr_RequestID r)), (''path'', MStr (hr_Path r)), (''error_type'', MStr (type_name err))]]));
          fields = [(''request_id'', MStr (hr_RequestID r)), (''path'', MStr (hr_Path r)), (''status'', MInt (ge_HTTPStatus gwErr))]
            @ DiagnosticFields (GwErr gwErr)
      in untyped
         @ (if ge_HTTPStatus gwErr \<ge> 500 then [LogLine ''error'' ''request failed'' fields]
            else if ge_HTTPStatus gwErr \<ge> 400 then [LogLine ''warn'' ''request error'' fields] else [])
         @ retry_header gwErr @ WriteJSON enc (ge_HTTPStatus gwErr) (error_json (errorDetail gwErr)))"

definition rejectRequest :: "(json \<Rightarrow> string) \<Rightarrow> (go_error \<Rightarrow> string) \<Rightarrow> server_request \<Rightarrow> string \<Rightarrow> go_error \<Rightarrow> 'd http_action list" where
  "rejectRequest enc type_name r endpoint err =
     Service (EvMetric (RecordError endpoint UnresolvedModel ''unknown'' PhaseRequest err)) # WriteErrorWithLog enc type_name r err"

definition health_Handle :: "(json \<Rightarrow> string) \<Rightarrow> 'd http_action list" where
  "health_Handle enc = WriteJSON enc 200 (JObj [(''status'', JStr ''ok'')])"

text \<open>\<open>io.ReadAll\<close> of a limited reader: what is over the limit is never read.\<close>

definition read_limited :: "nat \<Rightarrow> server_request \<Rightarrow> go_error + string" where
  "read_limited n r =
     (if length (hr_Body r) < n
      then (case hr_BodyErr r of Some err \<Rightarrow> Inl err | None \<Rightarrow> Inr (hr_Body r))
      else Inr (take n (hr_Body r)))"

text \<open>\<open>io.ReadAll\<close> of \<open>http.MaxBytesReader\<close>: what is over the limit is an error.\<close>

definition read_max :: "nat \<Rightarrow> server_request \<Rightarrow> go_error + string" where
  "read_max n r =
     (if length (hr_Body r) > n then Inl (PlainErr ''http: request body too large'')
      else case hr_BodyErr r of Some err \<Rightarrow> Inl err | None \<Rightarrow> Inr (hr_Body r))"

section \<open>What an error tells the client\<close>

text \<open>The reply to an error, as a function of what it is allowed to show.\<close>

definition error_reply :: "(json \<Rightarrow> string) \<Rightarrow> gateway_error \<Rightarrow> reply" where
  "error_reply enc e =
     \<lparr>rp_Status = ge_HTTPStatus e,
      rp_Header = (if ge_RetryAfter e = [] then Map.empty else Map.empty(''Retry-After'' \<mapsto> ge_RetryAfter e))(''Content-Type'' \<mapsto> ''application/json''),
      rp_Body = (if body_allowed (ge_HTTPStatus e) then enc (error_json (errorDetail e)) @ [CHR 0x0A] else [])\<rparr>"

definition shown_error :: "go_error \<Rightarrow> gateway_error" where
  "shown_error err = (case err of GwErr e \<Rightarrow> e | _ \<Rightarrow> ErrInternal internal_text)"

lemma errorDetail_cause [simp]: "errorDetail (WithMeta (ErrInternal internal_text) [MStr ''cause'', MStr c]) = errorDetail (ErrInternal internal_text)"
  by (simp add: errorDetail_def WithMeta_def ErrInternal_def new_error_def with_meta_pair_def)

lemma retry_header_WithMeta [simp]: "retry_header (WithMeta e fs) = retry_header e"
  by (simp add: retry_header_def WithMeta_def)

lemma json_reply:
  "client_reply (retry_header e @ WriteJSON enc (ge_HTTPStatus e) (error_json (errorDetail e))) = error_reply enc e"
  by (simp add: client_reply_def error_reply_def WriteJSON_def retry_header_def wire_reply_def new_wire_def send_status_def Let_def)

lemma client_reply_log [simp]: "client_reply (LogLine level msg fs # acts) = client_reply acts"
  "client_reply (Service e # acts) = client_reply acts"
  by (simp_all add: client_reply_def)

lemma WriteError_reply: "client_reply (WriteError enc err) = error_reply enc (shown_error err)"
  by (cases err) (simp_all add: WriteError_def Let_def shown_error_def json_reply)

lemma untyped_reply:
  "error_reply enc (WithMeta (ErrInternal internal_text) [MStr ''cause'', MStr c]) = error_reply enc (ErrInternal internal_text)"
  by (simp add: error_reply_def)

lemma WriteErrorWithLog_reply: "client_reply (WriteErrorWithLog enc type_name r err) = error_reply enc (shown_error err)"
  by (cases err) (simp_all add: WriteErrorWithLog_def shown_error_def Let_def json_reply)

lemma rejectRequest_reply: "client_reply (rejectRequest enc type_name r endpoint err) = error_reply enc (shown_error err)"
  by (simp add: rejectRequest_def WriteErrorWithLog_reply)

lemma WriteErrorWithLog_effects [simp]: "service_effects (WriteErrorWithLog enc type_name r err) = []"
  by (auto simp: WriteErrorWithLog_def WriteJSON_def retry_header_def Let_def split: go_error.splits)

lemma rejectRequest_effects [simp]:
  "service_effects (rejectRequest enc type_name r endpoint err) = [EvMetric (RecordError endpoint UnresolvedModel ''unknown'' PhaseRequest err)]"
  by (simp add: rejectRequest_def)

end
