(* ===== verification/Middleware.thy ===== *)
theory Middleware
  imports Http Profile
begin

text \<open>
  The routes (\<open>adapters/http/router.go\<close>) and what is wrapped around them (\<open>http/middleware\<close>). A
  handler is what it does with a request, and the value of the panic that ends it, if one does;
  a middleware makes a handler of a handler, as the code does. The deadlines of transfers are in
  \<open>Deadlines\<close>; durations that are only measured are left out.
\<close>

section \<open>Middleware\<close>

type_synonym 'd handler = "server_request \<Rightarrow> 'd http_action list \<times> string option"

definition valid_id_byte :: "char \<Rightarrow> bool" where
  "valid_id_byte c = (is_letter c \<or> is_digit c \<or> c \<in> set ''._:-'')"

definition validRequestID :: "string \<Rightarrow> bool" where
  "validRequestID s = (1 \<le> length s \<and> length s \<le> 128 \<and> list_all valid_id_byte s)"

definition RequestID :: "string \<Rightarrow> 'd handler \<Rightarrow> 'd handler" where
  "RequestID uuid next r =
     (let given = hr_Header r ''X-Request-ID''; id = (if validRequestID given then given else uuid);
          (acts, panic) = next (r\<lparr>hr_RequestID := id\<rparr>)
      in (SetHeader ''X-Request-ID'' id # acts, panic))"

definition cors_headers :: "string \<Rightarrow> 'd http_action list" where
  "cors_headers origin =
     (if origin \<noteq> [] then [SetHeader ''Access-Control-Allow-Origin'' origin, SetHeader ''Vary'' ''Origin''] else [])
     @ [SetHeader ''Access-Control-Allow-Methods'' ''GET, POST, OPTIONS'',
        SetHeader ''Access-Control-Allow-Headers'' ''Authorization, Content-Type, Ehbp-Encapsulated-Key, X-Request-ID'',
        SetHeader ''Access-Control-Expose-Headers'' ''Ehbp-Response-Nonce, X-Request-ID'',
        SetHeader ''Access-Control-Max-Age'' ''86400'']"

definition CORS :: "'d handler \<Rightarrow> 'd handler" where
  "CORS next r =
     (if hr_Method r = ''OPTIONS'' then (cors_headers (hr_Header r ''Origin'') @ [WriteHeader 204], None)
      else (let (acts, panic) = next r in (cors_headers (hr_Header r ''Origin'') @ acts, panic)))"

text \<open>The status a \<open>statusWriter\<close> or a \<open>metricsWriter\<close> keeps: the first that was named, 200 when none was.\<close>

fun kept_status :: "'d http_action list \<Rightarrow> int option" where
  "kept_status [] = None"
| "kept_status (WriteHeader status # acts) = Some status"
| "kept_status (a # acts) = kept_status acts"

definition recorded_status :: "'d http_action list \<Rightarrow> int" where
  "recorded_status acts = (case kept_status acts of Some status \<Rightarrow> status | None \<Rightarrow> 200)"

text \<open>A panic of the handler passes through the logging middleware, which then logs nothing.\<close>

definition Logging :: "int \<Rightarrow> 'd handler \<Rightarrow> 'd handler" where
  "Logging durationMs next r =
     (let (acts, panic) = next r; status = recorded_status acts; ua = hr_Header r ''User-Agent'';
          fields = [(''method'', MStr (hr_Method r)), (''path'', MStr (hr_Path r)), (''status'', MInt status),
                    (''duration_ms'', MInt64 durationMs), (''request_id'', MStr (hr_RequestID r))]
            @ (if ua \<noteq> [] then [(''user_agent'', MStr ua)] else [])
      in case panic of
           Some v \<Rightarrow> (acts, panic)
         | None \<Rightarrow> (acts @ [LogLine (if status \<ge> 500 then ''error'' else if status \<ge> 400 then ''warn'' else ''info'') ''request'' fields], None))"

definition panic_detail :: error_detail where
  "panic_detail = \<lparr>ed_Type = ''internal_error'', ed_Code = ''internal_error'', ed_Message = internal_text, ed_Origin = [], ed_UpstreamStatus = 0\<rparr>"

definition Recovery :: "(json \<Rightarrow> string) \<Rightarrow> 'd handler \<Rightarrow> 'd handler" where
  "Recovery enc next r =
     (let (acts, panic) = next r
      in case panic of
           None \<Rightarrow> (acts, None)
         | Some v \<Rightarrow>
             (acts @ [LogLine ''error'' ''panic recovered'' [(''error'', MStr v), (''request_id'', MStr (hr_RequestID r)), (''path'', MStr (hr_Path r))],
                SetHeader ''Content-Type'' ''application/json'', WriteHeader 500, WriteBytes (enc (error_json panic_detail) @ [CHR 0x0A])], None))"

definition statusClass :: "int \<Rightarrow> string" where
  "statusClass code =
     (if 200 \<le> code \<and> code < 300 then ''2xx'' else if 300 \<le> code \<and> code < 400 then ''3xx''
      else if 400 \<le> code \<and> code < 500 then ''4xx'' else if code \<ge> 500 then ''5xx'' else itoa_int code)"

definition inflight :: "int \<Rightarrow> 'd http_action" where
  "inflight n = Service (EvMetric (Count ''http_inflight_requests'' [] n))"

definition Metrics :: "(server_request \<Rightarrow> string) \<Rightarrow> 'd handler \<Rightarrow> 'd handler" where
  "Metrics routeOf next r =
     (let (acts, panic) = next r; route = (if routeOf r = [] then ''unmatched'' else routeOf r)
      in case panic of
           Some v \<Rightarrow> (inflight 1 # acts, panic)
         | None \<Rightarrow> (inflight 1 # acts
              @ [inflight (- 1), Service (EvMetric (Count ''http_requests_total'' [route, hr_Method r, statusClass (recorded_status acts)] 1))], None))"

section \<open>Routes\<close>

record 'd http_handlers =
  hh_health :: "'d handler"
  hh_models :: "'d handler"
  hh_chat :: "'d handler"
  hh_systemOne :: "'d handler option"
  hh_confidential :: "'d handler option"
  hh_tinfoil :: "'d handler option"
  hh_attestation :: "'d handler option"

definition route_if :: "string \<Rightarrow> string \<Rightarrow> 'd handler option \<Rightarrow> (string \<times> string \<times> 'd handler) list" where
  "route_if method path h = (case h of Some f \<Rightarrow> [(method, path, f)] | None \<Rightarrow> [])"

definition routes :: "'d http_handlers \<Rightarrow> (string \<times> string \<times> 'd handler) list" where
  "routes hs =
     [(''GET'', ''/healthz'', hh_health hs), (''GET'', ''/v1/models'', hh_models hs), (''POST'', ''/v1/chat/completions'', hh_chat hs)]
     @ route_if ''POST'' ''/v1/systemone'' (hh_systemOne hs)
     @ route_if ''POST'' ''/v1/confidential/chat/completions'' (hh_confidential hs)
     @ route_if ''GET'' ''/v1/tinfoil/proofs/{response_id}'' (hh_tinfoil hs)
     @ route_if ''POST'' ''/v1/attestation'' (hh_attestation hs)"

text \<open>
  \<open>http.ServeMux\<close> on these patterns and a path in canonical form: a segment in braces takes any
  segment that is not empty, and GET takes HEAD too.
\<close>

definition wildcard :: "string \<Rightarrow> bool" where
  "wildcard p = (p \<noteq> [] \<and> hd p = CHR ''{'')"

definition path_matches :: "string \<Rightarrow> string \<Rightarrow> bool" where
  "path_matches pattern path =
     list_all2 (\<lambda>p s. p = s \<or> wildcard p \<and> s \<noteq> []) (split_byte (CHR ''/'') pattern) (split_byte (CHR ''/'') path)"

definition method_matches :: "string \<Rightarrow> string \<Rightarrow> bool" where
  "method_matches m method = (m = method \<or> m = ''GET'' \<and> method = ''HEAD'')"

definition route_of :: "(string \<times> string \<times> 'd handler) list \<Rightarrow> server_request \<Rightarrow> (string \<times> string \<times> 'd handler) option" where
  "route_of rs r = find (\<lambda>(m, pat, h). method_matches m (hr_Method r) \<and> path_matches pat (hr_Path r)) rs"

definition mux_pattern :: "(string \<times> string \<times> 'd handler) list \<Rightarrow> server_request \<Rightarrow> string" where
  "mux_pattern rs r = (case route_of rs r of Some (m, pat, h) \<Rightarrow> m @ '' '' @ pat | None \<Rightarrow> [])"

text \<open>What the mux itself answers to a request that no pattern takes is a parameter.\<close>

definition mux_serve :: "(string \<times> string \<times> 'd handler) list \<Rightarrow> (server_request \<Rightarrow> 'd http_action list) \<Rightarrow> 'd handler" where
  "mux_serve rs unmatched r = (case route_of rs r of Some (m, pat, h) \<Rightarrow> h r | None \<Rightarrow> (unmatched r, None))"

definition NewRouter :: "(json \<Rightarrow> string) \<Rightarrow> string \<Rightarrow> int \<Rightarrow> (server_request \<Rightarrow> 'd http_action list) \<Rightarrow> 'd http_handlers \<Rightarrow> 'd handler" where
  "NewRouter enc uuid durationMs unmatched hs =
     Metrics (mux_pattern (routes hs)) (RequestID uuid (Recovery enc (Logging durationMs (CORS (mux_serve (routes hs) unmatched)))))"

section \<open>What is recorded is what was sent\<close>

text \<open>
  A handler keeps to the rule of the code when it names a status before it writes; one that ends
  without a panic may also name none at all.
\<close>

fun explicit :: "'d http_action list \<Rightarrow> bool" where
  "explicit [] = True"
| "explicit (WriteHeader status # acts) = True"
| "explicit (WriteBytes b # acts) = False"
| "explicit (FlushOut # acts) = False"
| "explicit (a # acts) = explicit acts"

definition coherent :: "'d http_action list \<times> string option \<Rightarrow> bool" where
  "coherent out = (explicit (fst out) \<or> kept_status (fst out) = None \<and> snd out = None)"

definition silent :: "'d http_action \<Rightarrow> bool" where
  "silent a = (case a of WriteHeader n \<Rightarrow> False | WriteBytes b \<Rightarrow> False | FlushOut \<Rightarrow> False | _ \<Rightarrow> True)"

lemma explicit_silent: "list_all silent pre \<Longrightarrow> explicit (pre @ acts) = explicit acts \<and> kept_status (pre @ acts) = kept_status acts"
proof (induction pre)
  case (Cons a pre)
  then show ?case by (cases a) (simp_all add: silent_def)
qed simp

lemma explicit_append: "explicit acts \<Longrightarrow> explicit (acts @ more_acts) \<or> kept_status acts = None"
  by (induction acts rule: explicit.induct) simp_all

lemma explicit_append2: "explicit acts \<Longrightarrow> (kept_status acts = None \<longrightarrow> explicit post) \<Longrightarrow> explicit (acts @ post)"
  by (induction acts rule: explicit.induct) simp_all

lemma kept_append: "kept_status (a @ b) = (case kept_status a of Some s \<Rightarrow> Some s | None \<Rightarrow> kept_status b)"
  by (induction a rule: kept_status.induct) simp_all

lemma sent_once: "wi_Sent w = Some x \<Longrightarrow> wi_Sent (foldl transmit w acts) = Some x"
proof (induction acts arbitrary: w)
  case (Cons a acts)
  have "wi_Sent (transmit w a) = Some x" using Cons.prems by (cases a) (simp_all add: send_status_def Let_def)
  then show ?case using Cons.IH by simp
qed simp

lemma explicit_status: "explicit acts \<Longrightarrow> wi_Sent w = None \<Longrightarrow> map_option fst (wi_Sent (foldl transmit w acts)) = kept_status acts"
proof (induction acts arbitrary: w rule: explicit.induct)
  case (2 status acts)
  have "wi_Sent (transmit w (WriteHeader status :: 'a http_action)) = Some (status, wi_Header w)"
    using "2.prems" by (simp add: send_status_def)
  then show ?case using sent_once [of _ "(status, wi_Header w)" acts] by simp
qed simp_all

lemma implicit_status: "kept_status acts = None \<Longrightarrow> wi_Sent w = None \<Longrightarrow> map_option fst (wi_Sent (foldl transmit w acts)) \<in> {None, Some 200}"
proof (induction acts arbitrary: w rule: explicit.induct)
  case (3 b acts)
  have "wi_Sent (transmit w (WriteBytes b :: 'a http_action)) = Some (200, wi_Header w)"
    using "3.prems" by (simp add: send_status_def Let_def)
  then show ?case using sent_once [of _ "(200, wi_Header w)" acts] by (simp del: transmit.simps)
next
  case (4 acts)
  have "wi_Sent (transmit w (FlushOut :: 'a http_action)) = Some (200, wi_Header w)"
    using "4.prems" by (simp add: send_status_def)
  then show ?case using sent_once [of _ "(200, wi_Header w)" acts] by (simp del: transmit.simps)
qed simp_all

lemma reply_status: "rp_Status (client_reply acts) = (case wi_Sent (foldl transmit new_wire acts) of Some (s, h) \<Rightarrow> s | None \<Rightarrow> 200)"
  by (auto simp: client_reply_def wire_reply_def send_status_def Let_def split: option.splits)

lemma coherent_status: "explicit acts \<or> kept_status acts = None \<Longrightarrow> rp_Status (client_reply acts) = recorded_status acts"
  using explicit_status [of acts new_wire] implicit_status [of acts new_wire]
  by (auto simp: reply_status recorded_status_def new_wire_def split: option.splits)

text \<open>Headers set before the status stay unless they are set again.\<close>

definition sets_header :: "string \<Rightarrow> 'd http_action \<Rightarrow> bool" where
  "sets_header k a = (case a of SetHeader k' v \<Rightarrow> k' = k | _ \<Rightarrow> False)"

definition keeps_header :: "string \<Rightarrow> string \<Rightarrow> wire \<Rightarrow> bool" where
  "keeps_header k v w = (wi_Header w k = Some v \<and> (case wi_Sent w of None \<Rightarrow> True | Some x \<Rightarrow> snd x k = Some v))"

lemma send_keeps: "keeps_header k v w \<Longrightarrow> keeps_header k v (send_status n w)"
  by (cases "wi_Sent w") (simp_all add: keeps_header_def send_status_def)

lemma transmit_keeps: "keeps_header k v w \<Longrightarrow> \<not> sets_header k a \<Longrightarrow> keeps_header k v (transmit w a)"
proof (cases a)
  case (WriteBytes b)
  assume "keeps_header k v w"
  then have "keeps_header k v (send_status 200 w)" by (rule send_keeps)
  then show ?thesis using WriteBytes by (simp add: Let_def keeps_header_def)
qed (simp_all add: sets_header_def send_keeps, simp add: keeps_header_def)

lemma header_kept: "keeps_header k v w \<Longrightarrow> \<not> list_ex (sets_header k) acts \<Longrightarrow> keeps_header k v (foldl transmit w acts)"
  by (induction acts arbitrary: w) (simp_all add: transmit_keeps)

lemma reply_header:
  "\<not> list_ex (sets_header k) acts \<Longrightarrow> rp_Header (client_reply (SetHeader k v # acts)) k = Some v"
proof -
  assume "\<not> list_ex (sets_header k) acts"
  then have "keeps_header k v (foldl transmit (transmit new_wire (SetHeader k v :: 'a http_action)) acts)"
    by (intro header_kept) (simp_all add: keeps_header_def new_wire_def)
  then have k: "keeps_header k v (send_status 200 (foldl transmit new_wire (SetHeader k v # acts)))" using send_keeps by simp
  have "wi_Sent (send_status 200 w) \<noteq> None" for w by (cases "wi_Sent w") (simp_all add: send_status_def)
  then obtain x where x: "wi_Sent (send_status 200 (foldl transmit new_wire (SetHeader k v # acts))) = Some x" by blast
  have "snd x k = Some v" using k x by (simp only: keeps_header_def option.case)
  then show ?thesis using x by (simp only: client_reply_def wire_reply_def Let_def reply.simps option.sel)
qed

section \<open>The chain\<close>

text \<open>A handler behind the routes: one that is coherent and leaves the request id alone.\<close>

definition well_behaved :: "'d handler \<Rightarrow> bool" where
  "well_behaved h = (\<forall>r. coherent (h r) \<and> \<not> list_ex (sets_header ''X-Request-ID'') (fst (h r)))"

text \<open>A list of actions whose recorded status is the one that is sent.\<close>

definition truthful :: "'d http_action list \<Rightarrow> bool" where
  "truthful acts = (explicit acts \<or> kept_status acts = None)"

lemma cors_silent: "list_all silent (cors_headers origin)" "\<not> list_ex (sets_header ''X-Request-ID'') (cors_headers origin)"
  by (simp_all add: cors_headers_def silent_def sets_header_def)

lemma cors_explicit [simp]:
  "explicit (cors_headers origin @ acts) = explicit acts" "kept_status (cors_headers origin @ acts) = kept_status acts"
  using explicit_silent [OF cors_silent(1)] by blast+

lemma CORS_well_behaved: "well_behaved h \<Longrightarrow> well_behaved (CORS h)"
proof -
  assume h: "well_behaved h"
  have "coherent (CORS h r) \<and> \<not> list_ex (sets_header ''X-Request-ID'') (fst (CORS h r))" for r
  proof -
    obtain acts panic where a: "h r = (acts, panic)" by force
    have "coherent (acts, panic)" "\<not> list_ex (sets_header ''X-Request-ID'') acts"
      using h a unfolding well_behaved_def by (metis, metis fst_conv)
    then show ?thesis using cors_silent(2) by (simp add: CORS_def a coherent_def list_ex_append sets_header_def)
  qed
  then show ?thesis by (simp add: well_behaved_def)
qed

lemma Logging_well_behaved: "well_behaved h \<Longrightarrow> well_behaved (Logging ms h)"
proof -
  assume h: "well_behaved h"
  have "coherent (Logging ms h r) \<and> \<not> list_ex (sets_header ''X-Request-ID'') (fst (Logging ms h r))" for r
  proof -
    obtain acts panic where a: "h r = (acts, panic)" by force
    have c: "coherent (acts, panic)" "\<not> list_ex (sets_header ''X-Request-ID'') acts"
      using h a unfolding well_behaved_def by (metis, metis fst_conv)
    then show ?thesis using explicit_append2 [of acts]
      by (cases panic) (auto simp: Logging_def a coherent_def Let_def kept_append sets_header_def split: option.splits)
  qed
  then show ?thesis by (simp add: well_behaved_def)
qed

lemma Recovery_truthful:
  assumes "well_behaved h"
  shows "\<exists>acts. Recovery enc h r = (acts, None) \<and> truthful acts \<and> \<not> list_ex (sets_header ''X-Request-ID'') acts"
proof -
  obtain acts panic where a: "h r = (acts, panic)" by force
  have c: "coherent (acts, panic)" "\<not> list_ex (sets_header ''X-Request-ID'') acts"
    using assms a unfolding well_behaved_def by (metis, metis fst_conv)
  then show ?thesis using explicit_append2 [of acts]
    by (cases panic) (auto simp: Recovery_def a coherent_def truthful_def Let_def sets_header_def)
qed

lemma mux_well_behaved:
  assumes "\<forall>(m, pat, h) \<in> set rs. well_behaved h" "well_behaved (\<lambda>r. (unmatched r, None))"
  shows "well_behaved (mux_serve rs unmatched)"
proof -
  have "coherent (mux_serve rs unmatched r) \<and> \<not> list_ex (sets_header ''X-Request-ID'') (fst (mux_serve rs unmatched r))" for r
  proof (cases "route_of rs r")
    case None
    then show ?thesis using assms(2) by (simp add: mux_serve_def well_behaved_def)
  next
    case (Some x)
    then have "x \<in> set rs" by (auto simp: route_of_def dest: find_SomeD)
    then show ?thesis using assms(1) Some by (auto simp: mux_serve_def well_behaved_def)
  qed
  then show ?thesis by (simp add: well_behaved_def)
qed

lemma reply_status_silent:
  "rp_Status (client_reply (SetHeader k v # acts)) = rp_Status (client_reply acts)" if "truthful acts"
  using that coherent_status [of "SetHeader k v # acts"] coherent_status [of acts] by (auto simp: truthful_def recorded_status_def)

definition served_route :: "'d http_handlers \<Rightarrow> server_request \<Rightarrow> string" where
  "served_route hs r = (if mux_pattern (routes hs) r = [] then ''unmatched'' else mux_pattern (routes hs) r)"

lemma Metrics_silent_tail:
  "rp_Status (client_reply (inflight 1 # acts @ [inflight n, Service e])) = rp_Status (client_reply acts)"
  by (simp add: client_reply_def inflight_def)

text \<open>One pass through the chain, for well-behaved handlers.\<close>

lemma chain_answers:
  assumes "\<forall>(m, pat, h) \<in> set (routes hs). well_behaved h" "well_behaved (\<lambda>r. (unmatched r, None))" "validRequestID uuid"
    and "NewRouter enc uuid ms unmatched hs r = (acts, panic)"
  shows "\<exists>id body. panic = None
    \<and> acts = inflight 1 # (SetHeader ''X-Request-ID'' id # body)
        @ [inflight (- 1), Service (EvMetric (Count ''http_requests_total''
             [served_route hs r, hr_Method r, statusClass (rp_Status (client_reply acts))] 1))]
    \<and> validRequestID id \<and> (validRequestID (hr_Header r ''X-Request-ID'') \<longrightarrow> id = hr_Header r ''X-Request-ID'')
    \<and> rp_Header (client_reply acts) ''X-Request-ID'' = Some id"
proof -
  let ?h = "Logging ms (CORS (mux_serve (routes hs) unmatched))"
  define id where "id = (if validRequestID (hr_Header r ''X-Request-ID'') then hr_Header r ''X-Request-ID'' else uuid)"
  have "well_behaved ?h" by (intro Logging_well_behaved CORS_well_behaved mux_well_behaved assms(1,2))
  then obtain body where b: "Recovery enc ?h (r\<lparr>hr_RequestID := id\<rparr>) = (body, None)" "truthful body"
      "\<not> list_ex (sets_header ''X-Request-ID'') body"
    using Recovery_truthful by blast
  let ?inner = "SetHeader ''X-Request-ID'' id # body"
  have "RequestID uuid (Recovery enc ?h) r = (?inner, None)" using b(1) by (simp add: RequestID_def id_def [symmetric] Let_def)
  then have out: "panic = None" "acts = inflight 1 # ?inner @ [inflight (- 1), Service (EvMetric (Count ''http_requests_total''
      [served_route hs r, hr_Method r, statusClass (recorded_status ?inner)] 1))]"
    using assms(4) by (auto simp: NewRouter_def Metrics_def served_route_def Let_def)
  have status: "rp_Status (client_reply acts) = recorded_status ?inner"
    unfolding out(2) Metrics_silent_tail using coherent_status [of ?inner] b(2) by (auto simp: truthful_def)
  have "client_reply acts = client_reply ?inner" unfolding out(2) by (simp add: client_reply_def inflight_def)
  then have "rp_Header (client_reply acts) ''X-Request-ID'' = Some id" using reply_header [OF b(3)] by simp
  then show ?thesis
    unfolding status using out assms(3) by (intro exI [of _ id] exI [of _ body]) (simp add: id_def)
qed

text \<open>
  A handler that writes before it names a status and then panics is the exception: the client keeps
  the 200 it got, and 500 is recorded.
\<close>

lemma late_panic_recorded:
  assumes "h r = ([WriteBytes b], Some v)"
  shows "recorded_status (fst (Recovery enc h r)) = 500 \<and> rp_Status (client_reply (fst (Recovery enc h r))) = 200"
  using assms by (simp add: Recovery_def recorded_status_def client_reply_def wire_reply_def new_wire_def send_status_def Let_def)

end
