(* ===== verification/ChatHandler.thy ===== *)
theory ChatHandler
  imports Http ServiceFacts
begin

text \<open>
  The generation endpoints: \<open>handlers/chat_completions_handler.go\<close> with its relay of a stream,
  \<open>handlers/systemone_handler.go\<close>, and the event writer \<open>sse/writer.go\<close>. A handler is the list of
  what it does, in order; its calls into the service are the effects between its writes.
\<close>

section \<open>The event writer\<close>

definition NewWriter :: "bool \<Rightarrow> 'd http_action list option" where
  "NewWriter flusher =
     (if \<not> flusher then None
      else Some [SetHeader ''Content-Type'' ''text/event-stream'', SetHeader ''Cache-Control'' ''no-cache, no-transform'',
                 SetHeader ''Connection'' ''keep-alive'', SetHeader ''X-Accel-Buffering'' ''no'', WriteHeader 200, FlushOut])"

definition WriteComment :: "string \<Rightarrow> 'd http_action list" where
  "WriteComment t = [WriteBytes ('': '' @ t @ [CHR 0x0A, CHR 0x0A]), FlushOut]"

definition WriteLine :: "string \<Rightarrow> 'd http_action list" where
  "WriteLine line = [WriteBytes (line @ [CHR 0x0A]), FlushOut]"

section \<open>The relay\<close>

text \<open>The ticks of the keep-alive before a write, and the time of the last write after them.\<close>

definition keepalive_after :: duration where "keepalive_after = 15 * second"

fun keepalive_ticks :: "time list \<Rightarrow> time \<Rightarrow> 'd http_action list \<times> time" where
  "keepalive_ticks [] lastWrite = ([], lastWrite)"
| "keepalive_ticks (t # ts) lastWrite =
     (if t - lastWrite \<ge> keepalive_after
      then (let (acts, l) = keepalive_ticks ts t in (WriteComment ''keepalive'' @ acts, l))
      else keepalive_ticks ts lastWrite)"

text \<open>The schedule gives, for the n-th write, the ticks that come before it and its own time.\<close>

type_synonym schedule = "nat \<Rightarrow> time list \<times> time"

fun relay_writes :: "schedule \<Rightarrow> nat \<Rightarrow> time \<Rightarrow> string list \<Rightarrow> 'd http_action list \<times> time" where
  "relay_writes sched n lastWrite [] = ([], lastWrite)"
| "relay_writes sched n lastWrite (line # ls) =
     (let (ticks, l) = keepalive_ticks (fst (sched n)) lastWrite;
          (acts, l') = relay_writes sched (n + 1) (snd (sched n)) ls
      in (ticks @ WriteLine line @ acts, l'))"

definition done_line :: string where "done_line = ''data: [DONE]''"

definition interrupted_line :: string where
  "interrupted_line = ''data: {'' @ [CHR 34] @ ''error'' @ [CHR 34] @ '':{'' @ [CHR 34] @ ''type'' @ [CHR 34] @ '':'' @ [CHR 34]
     @ ''provider_error'' @ [CHR 34] @ '','' @ [CHR 34] @ ''code'' @ [CHR 34] @ '':'' @ [CHR 34] @ ''stream_interrupted'' @ [CHR 34]
     @ '','' @ [CHR 34] @ ''message'' @ [CHR 34] @ '':'' @ [CHR 34] @ ''The provider stream ended unexpectedly.'' @ [CHR 34] @ ''}}''"

text \<open>How the client learns of the end: \<open>err\<close> is the read error, \<open>None\<close> for \<open>io.EOF\<close>.\<close>

definition relay_end :: "bool \<Rightarrow> go_error option \<Rightarrow> proxy_stream \<Rightarrow> string list" where
  "relay_end gone err q =
     (if stream_Complete q \<and> \<not> SawDone q then [done_line, []]
      else if err \<noteq> None \<and> \<not> gone then [interrupted_line, []]
      else [])"

text \<open>What closing a stream settles that was not settled before.\<close>

definition close_effects :: "'d ports \<Rightarrow> held_call \<Rightarrow> 'd public_model \<Rightarrow> proxy_stream \<Rightarrow> 'd effect list" where
  "close_effects po h m q =
     concat (map (finish_call po h m) (drop (length (ps_settled q)) (ps_settled (stream_Close q))))"

definition relay_Handle :: "(json \<Rightarrow> string) \<Rightarrow> 'd ports \<Rightarrow> server_request \<Rightarrow> bool \<Rightarrow> schedule \<Rightarrow> time
    \<Rightarrow> held_call \<Rightarrow> 'd public_model \<Rightarrow> proxy_stream \<Rightarrow> 'd http_action list" where
  "relay_Handle enc po r flusher sched start h m p =
     (case NewWriter flusher of
        None \<Rightarrow> WriteError enc (GwErr (ErrInternal internal_text)) @ map Service (close_effects po h m p)
      | Some opening \<Rightarrow>
          (let (ls, err, q) = relay (po_codec po) p;
               (body, lastWrite) = relay_writes sched 0 start ls;
               ending = relay_end (hr_Gone r) err q;
               (last_body, l) = relay_writes sched (length ls) lastWrite ending
           in opening @ body @ map Service (settle_call po h m q)
              @ (if ending = [interrupted_line, []]
                 then [LogLine ''warn'' ''proxied stream interrupted'' [(''request_id'', MStr (hr_RequestID r))]] else [])
              @ last_body @ map Service (close_effects po h m q)))"

section \<open>The handlers\<close>

record 'd gen_env =
  gn_ports :: "'d ports"
  gn_enc :: "json \<Rightarrow> string"
  gn_type_name :: "go_error \<Rightarrow> string"
  gn_parse :: "string \<Rightarrow> json option"
  gn_type_error :: "jobject \<Rightarrow> string"
  gn_id :: string                           \<comment> \<open>the id the service gives the request\<close>
  gn_flusher :: bool
  gn_schedule :: schedule
  gn_start :: time

definition json_answer :: "string \<Rightarrow> 'd http_action list" where
  "json_answer body = [SetHeader ''Content-Type'' ''application/json'', WriteHeader 200, WriteBytes body]"

definition chat_Handle :: "'d gen_env \<Rightarrow> server_request \<Rightarrow> 'd http_action list" where
  "chat_Handle env r =
     (let reject = rejectRequest (gn_enc env) (gn_type_name env) r EndpointChatCompletions
      in case ExtractBearerToken (hr_Header r ''Authorization'') of
        Inl err \<Rightarrow> reject (GwErr err)
      | Inr token \<Rightarrow>
     (case read_limited maxRequestBodySize r of
        Inl err \<Rightarrow> reject (GwErr (ErrInvalidField ''failed to read request body''))
      | Inr body \<Rightarrow>
     (case ChatCompletionRequestToDomain (gn_type_error env) (gn_parse env body) of
        Inl err \<Rightarrow> reject (GwErr err)
      | Inr genReq \<Rightarrow>
     (case Proxy (gn_ports env) (gn_id env) EndpointChatCompletions body genReq token of
        (Inl err, ev) \<Rightarrow> map Service ev @ WriteErrorWithLog (gn_enc env) (gn_type_name env) r err
      | (Inr (h, Streaming m p), ev) \<Rightarrow>
          map Service ev @ relay_Handle (gn_enc env) (gn_ports env) r (gn_flusher env) (gn_schedule env) (gn_start env) h m p
      | (Inr (h, Answered m answer), ev) \<Rightarrow> map Service ev @ json_answer answer))))"

text \<open>SystemOne writes without naming a status; its requests never stream.\<close>

definition systemone_Handle :: "'d gen_env \<Rightarrow> server_request \<Rightarrow> 'd http_action list" where
  "systemone_Handle env r =
     (let reject = rejectRequest (gn_enc env) (gn_type_name env) r EndpointSystemOne
      in case ExtractBearerToken (hr_Header r ''Authorization'') of
        Inl err \<Rightarrow> reject (GwErr err)
      | Inr token \<Rightarrow>
     (case read_max maxRequestBodySize r of
        Inl err \<Rightarrow> reject (GwErr (ErrInvalidField ''request body unreadable or too large''))
      | Inr body \<Rightarrow>
     (case SystemOneRequestToDomain (gn_parse env body) of
        Inl err \<Rightarrow> reject (GwErr err)
      | Inr req \<Rightarrow>
     (case Proxy (gn_ports env) (gn_id env) EndpointSystemOne body req token of
        (Inl err, ev) \<Rightarrow> map Service ev @ WriteErrorWithLog (gn_enc env) (gn_type_name env) r err
      | (Inr (h, Answered m answer), ev) \<Rightarrow>
          map Service ev @ [SetHeader ''Content-Type'' ''application/json'', WriteBytes answer]
      | (Inr (h, Streaming m p), ev) \<Rightarrow>
          map Service ev @ [SetHeader ''Content-Type'' ''application/json'', WriteBytes []]))))"

section \<open>A stream is read to its end\<close>

lemma relay_finished: "relay cd p = (ls, e, q) \<Longrightarrow> ps_finished q"
proof (induction cd p arbitrary: ls e q rule: relay.induct)
  case (1 cd p)
  show ?case
  proof (cases rule: Next_cases [of cd p])
    case (line l r)
    obtain ls' e' q' where rec: "relay cd r = (ls', e', q')" by (metis prod.exhaust)
    then have "q = q'" using "1.prems" line(1) by (simp add: relay.simps [of cd p])
    then show ?thesis using "1.IH" [OF line(1) [symmetric] refl rec] by simp
  next
    case (ended e' r)
    then have "q = finish_stream r" using "1.prems" by (simp add: relay.simps [of cd p])
    then show ?thesis by simp
  qed
qed

lemma Close_ended: "ps_finished q \<Longrightarrow> stream_Close q = q"
  by (simp add: stream_Close_def)

lemma close_effects_ended [simp]: "ps_finished q \<Longrightarrow> close_effects po h m q = []"
  by (simp add: close_effects_def Close_ended)

lemma close_effects_open:
  "ps_settled p = [] \<Longrightarrow> close_effects po h m p = settle_call po h m (stream_Close p)"
  by (simp add: close_effects_def settle_call_def)

subsection \<open>The last event of the provider is kept\<close>

definition is_done :: "string \<Rightarrow> bool" where
  "is_done line = (has_prefix line ''data:'' \<and> trim_space (trim_prefix (drop 5 line) '' '') = ''[DONE]'')"

lemma is_done_done_line: "is_done done_line"
  by (simp add: is_done_def done_line_def) code_simp

lemma is_done_not_blank: "is_done l \<Longrightarrow> l \<noteq> []"
  by (auto simp: is_done_def has_prefix_def)

definition done_kept :: "proxy_stream \<Rightarrow> bool" where
  "done_kept p = (ps_sawDone p \<longrightarrow> list_ex is_done (ps_pending p))"

lemma heldTail_done [simp]: "ps_sawDone (snd (heldTail cd p)) = ps_sawDone p" "ps_pending (snd (heldTail cd p)) = ps_pending p"
  using heldTail_frame [of cd p] by auto

lemma observe_done:
  "observe cd line p = (ls, c, q) \<Longrightarrow> ps_pending q = ps_pending p \<and> (ps_sawDone q \<longrightarrow> ps_sawDone p \<or> (c = None \<and> list_ex is_done ls))"
proof -
  assume ob: "observe cd line p = (ls, c, q)"
  define data where "data = trim_prefix (drop 5 line) '' ''"
  have pend: "ps_pending q = ps_pending p" using observe_frame [of cd line p] ob by auto
  have "ps_sawDone q \<longrightarrow> ps_sawDone p \<or> (c = None \<and> list_ex is_done ls)"
  proof (cases "has_prefix line ''data:'' \<and> trim_space data = ''[DONE]''")
    case True
    then have "is_done line" by (simp add: is_done_def data_def)
    then show ?thesis using True ob by (auto simp: observe_def data_def [symmetric] Let_def split: prod.splits option.splits)
  next
    case False
    show ?thesis
    proof (cases "has_prefix line ''data:''")
      case True
      then show ?thesis
      proof (cases "read_chunk cd data")
        case None
        then show ?thesis using True False ob by (auto simp: observe_def data_def [symmetric] Let_def)
      next
        case (Some ch)
        obtain n o1 where n: "note_chunk ch p = p\<lparr>ps_chunks := n, ps_o := o1\<rparr>" using note_chunk_frame by blast
        obtain d1 p1 where d1: "dropRepeatedRole cd data ch (note_chunk ch p) = (d1, p1)" by force
        obtain d2 p2 where d2: "unmask_data cd d1 ch p1 = (d2, p2)" by force
        have "ps_sawDone p2 = ps_sawDone p"
          using dropRepeatedRole_frame [of cd data ch "note_chunk ch p"] unmask_data_frame [of cd d1 ch p1] d1 d2 n by auto
        moreover have "q = p2" using ob True False Some d1 d2 by (simp add: observe_def data_def [symmetric] Let_def)
        ultimately show ?thesis by simp
      qed
    next
      case False
      then show ?thesis using ob by (simp add: observe_def)
    qed
  qed
  then show ?thesis using pend by simp
qed

lemma keep_lines_done:
  "list_ex is_done (ps_pending p) \<or> (c = None \<and> list_ex is_done ls) \<Longrightarrow> list_ex is_done (ps_pending (keep_lines ls c p))"
proof (induction ls c p rule: keep_lines.induct)
  case (2 line ls c p)
  obtain kept p1 where k: "keep line c p = (kept, p1)" by force
  have p1: "ps_pending p1 = ps_pending p" using keep_frame [of line c p] k by auto
  have "kept" if "c = None" "is_done line" using that k is_done_not_blank by (auto simp: keep_def split: if_splits)
  then show ?case using 2 k p1 by (auto simp: list_ex_append)
qed simp

lemma keep_lines_saw: "ps_sawDone (keep_lines ls c p) = ps_sawDone p"
  using keep_lines_frame [of ls c p] by auto

lemma take_line_done: "done_kept p \<Longrightarrow> take_line cd p = (c, q) \<Longrightarrow> done_kept q"
proof -
  assume p: "done_kept p" and t: "take_line cd p = (c, q)"
  obtain l p1 where s: "scan_line p = (l, p1)" by force
  have p1: "ps_sawDone p1 = ps_sawDone p" "ps_pending p1 = ps_pending p"
    using s by (auto simp: scan_line_def Let_def split: if_splits)
  show ?thesis
  proof (cases l)
    case None
    then show ?thesis using t s p p1 by (simp add: take_line_def done_kept_def)
  next
    case (Some line)
    obtain ls ch p2 where ob: "observe cd line p1 = (ls, ch, p2)" by (metis prod.exhaust)
    have "q = keep_lines ls ch p2" using t s Some ob by (simp add: take_line_def)
    then show ?thesis
      using observe_done [OF ob] keep_lines_done [of p2 ch ls] p p1 by (auto simp: done_kept_def keep_lines_saw)
  qed
qed

lemma prime_done: "done_kept p \<Longrightarrow> prime cd p = (r, q) \<Longrightarrow> done_kept q"
proof (induction cd p arbitrary: r q rule: prime.induct)
  case (1 cd p)
  obtain c p1 where t: "take_line cd p = (c, p1)" by force
  note k = take_line_done [OF "1.prems"(1) t]
  show ?case
  proof (cases c)
    case None
    then show ?thesis using "1.prems"(2) t k by (auto simp: prime.simps [of cd p] split: if_splits)
  next
    case (Some c')
    show ?thesis
    proof (cases "o_err (ps_o p1) \<noteq> None \<or> (ps_sawDone p1 \<or> (case c' of Some ch \<Rightarrow> chunk_commits ch | None \<Rightarrow> False))")
      case True
      then show ?thesis using "1.prems"(2) t k Some by (auto simp: prime.simps [of cd p] split: if_splits)
    next
      case False
      then have "prime cd p1 = (r, q)" using "1.prems"(2) t Some by (simp add: prime.simps [of cd p])
      then show ?thesis using "1.IH" [OF t [symmetric] Some] False k by simp
    qed
  qed
qed

lemma fill_done_kept: "done_kept p \<Longrightarrow> done_kept (fill cd p)"
proof (induction cd p rule: fill.induct)
  case (1 cd p)
  obtain c p1 where t: "take_line cd p = (c, p1)" by force
  show ?case
  proof (cases "ps_pending p \<noteq> [] \<or> c = None")
    case True
    then show ?thesis using 1(2) t take_line_done [OF 1(2) t] by (auto simp: fill.simps [of cd p])
  next
    case False
    then obtain c' where c: "c = Some c'" by auto
    have "fill cd p = fill cd p1" using False t c by (simp add: fill.simps [of cd p])
    then show ?thesis using 1(1) [OF _ t [symmetric] c] False take_line_done [OF 1(2) t] by simp
  qed
qed

lemma stream_end_done [simp]: "ps_sawDone (stream_end how p) = ps_sawDone p" "ps_pending (stream_end how p) = ps_pending p"
  by (simp_all add: stream_end_def Let_def)

lemma finish_stream_done [simp]: "ps_sawDone (finish_stream p) = ps_sawDone p" "ps_pending (finish_stream p) = ps_pending p"
  by (simp_all add: finish_stream_def)


lemma heldTail_pending: "heldTail cd p = (t, q) \<Longrightarrow> ps_sawDone q = ps_sawDone p \<and> ps_pending q = ps_pending p"
  using heldTail_done [of cd p] by simp

lemma relay_done:
  "relay cd p = (ls, e, q) \<Longrightarrow> ps_sawDone p \<longrightarrow> list_ex is_done (sent @ ps_pending p) \<Longrightarrow>
   ps_sawDone q \<Longrightarrow> list_ex is_done (sent @ ls)"
proof (induction cd p arbitrary: ls e q sent rule: relay.induct)
  case (1 cd p)
  define p1 where "p1 = fill cd p"
  have kept: "ps_sawDone p1 \<longrightarrow> list_ex is_done (sent @ ps_pending p1)"
  proof (cases "list_ex is_done sent")
    case False
    then have "done_kept p1" using "1.prems"(2) fill_done_kept [of p cd] by (simp add: done_kept_def p1_def list_ex_append)
    then show ?thesis by (auto simp: done_kept_def list_ex_append)
  qed (simp add: list_ex_append)
  obtain t p2 where h: "heldTail cd p1 = (t, p2)" by force
  note h2 = heldTail_pending [OF h]
  show ?case
  proof (cases "ps_pending p1")
    case (Cons l rest)
    then have nx: "Next cd p = (Line l, p1\<lparr>ps_pending := rest\<rparr>)" by (simp add: Next_def Let_def p1_def)
    obtain ls' e' q' where rec: "relay cd (p1\<lparr>ps_pending := rest\<rparr>) = (ls', e', q')" by (metis prod.exhaust)
    then have eq: "ls = l # ls'" "q = q'" using "1.prems"(1) nx by (simp_all add: relay.simps [of cd p])
    have "list_ex is_done ((sent @ [l]) @ ls')"
      using "1.IH" [OF nx [symmetric] refl rec, of "sent @ [l]"] kept Cons eq "1.prems"(3) by (simp add: list_ex_append)
    then show ?thesis using eq by (simp add: list_ex_append)
  next
    case Nil
    show ?thesis
    proof (cases t)
      case (Some tail)
      then have nx: "Next cd p = (Line tail, p2\<lparr>ps_pending := [[]]\<rparr>)" using Nil h by (simp add: Next_def Let_def p1_def)
      obtain ls' e' q' where rec: "relay cd (p2\<lparr>ps_pending := [[]]\<rparr>) = (ls', e', q')" by (metis prod.exhaust)
      then have eq: "ls = tail # ls'" "q = q'" using "1.prems"(1) nx by (simp_all add: relay.simps [of cd p])
      have "list_ex is_done ((sent @ [tail]) @ ls')"
        using "1.IH" [OF nx [symmetric] refl rec, of "sent @ [tail]"] kept Nil eq h2 "1.prems"(3) by (auto simp: list_ex_append)
      then show ?thesis using eq by (simp add: list_ex_append)
    next
      case None
      then have nx: "Next cd p = (End (ps_err p2), finish_stream p2)" using Nil h by (simp add: Next_def Let_def p1_def)
      then have "ls = []" "q = finish_stream p2" using "1.prems"(1) by (simp_all add: relay.simps [of cd p])
      then show ?thesis using kept Nil h2 "1.prems"(3) by simp
    qed
  qed
qed

text \<open>A stream as the service hands it out.\<close>

lemma attempt_stream_done:
  "attempt po h target = (Inr (Streaming m p), ev) \<Longrightarrow> done_kept p"
proof -
  assume a: "attempt po h target = (Inr (Streaming m p), ev)"
  obtain p0 q where q: "prime (po_codec po) p0 = (None, q)" "\<not> ps_sawDone p0" "p = q\<lparr>ps_onEnd := True\<rparr>"
    using a by (auto simp: attempt_def Let_def newProxyStream_def split: option.splits if_splits sum.splits prod.splits)
  have "done_kept p0" using q(2) by (simp add: done_kept_def)
  then show ?thesis using prime_done [OF _ q(1)] q(3) by (simp add: done_kept_def)
qed

lemma Proxy_stream_done:
  assumes "Proxy po rid endpoint raw req token = (Inr (h, Streaming m p), ev)"
  shows "done_kept p"
  using assms
proof (cases rule: Proxy_stages)
  case (run auth raw' req' model exec h' ev1 ev2 r)
  then have "run_held po model h' = (Inr (Streaming m p), ev2)" by (cases r) auto
  then obtain target ev3 where "attempt po h' target = (Inr (Streaming m p), ev3)"
    by (auto simp: run_held_def Let_def split: sum.splits option.splits if_splits prod.splits)
  then show ?thesis by (rule attempt_stream_done)
qed simp

end
