(* ===== verification/ChatFacts.thy ===== *)
theory ChatFacts
  imports ChatHandler
begin

text \<open>
  What a caller of the generation endpoints gets: the events a streamed answer consists of, however
  the keep-alive comments fall, the end of each stream, and the accounts that are straight when the
  handler returns.
\<close>

section \<open>Events\<close>

text \<open>
  A client reads a stream as groups of field lines between blank lines; a line that starts with a
  colon is a comment.
\<close>

fun event_groups :: "string list \<Rightarrow> string list \<Rightarrow> string list list" where
  "event_groups cur [] = (if cur = [] then [] else [cur])"
| "event_groups cur (l # ls) =
     (if l = [] then (if cur = [] then event_groups [] ls else cur # event_groups [] ls)
      else if hd l = CHR '':'' then event_groups cur ls
      else event_groups (cur @ [l]) ls)"

definition one_line_events :: "string list \<Rightarrow> bool" where
  "one_line_events ls = list_all (\<lambda>g. length g \<le> 1) (event_groups [] ls)"

lemma event_groups_first: "cur \<noteq> [] \<Longrightarrow> \<exists>g gs. event_groups cur ls = (cur @ g) # gs"
proof (induction cur ls rule: event_groups.induct)
  case (2 cur l ls)
  then show ?case by (auto simp: append_assoc intro: exI)
qed simp

lemma event_groups_early:
  "list_all (\<lambda>g. length g \<le> 1) (event_groups [x] ls) \<Longrightarrow> event_groups [x] ls = [x] # event_groups [] ls"
proof (induction ls)
  case (Cons l ls)
  show ?case
  proof (cases "l = [] \<or> hd l = CHR '':''")
    case True
    then show ?thesis using Cons by auto
  next
    case False
    obtain g gs where "event_groups [x, l] ls = ([x, l] @ g) # gs" using event_groups_first [of "[x, l]" ls] by auto
    then show ?thesis using Cons.prems False by simp
  qed
qed simp

definition keepalive_lines :: "string list" where
  "keepalive_lines = ['': keepalive'', []]"

lemma keepalive_groups:
  assumes "length cur \<le> 1" "list_all (\<lambda>g. length g \<le> 1) (event_groups cur ls)"
  shows "event_groups cur (keepalive_lines @ ls) = event_groups cur ls"
proof (cases cur)
  case (Cons x xs)
  then show ?thesis using assms event_groups_early [of x ls] by (simp add: keepalive_lines_def)
qed (simp add: keepalive_lines_def)

definition sse_text :: "string list \<Rightarrow> string" where
  "sse_text ls = concat (map (\<lambda>l. l @ [CHR 0x0A]) ls)"

lemma sse_text_append [simp]: "sse_text (a @ b) = sse_text a @ sse_text b" "sse_text [] = []" "sse_text (l # a) = l @ [CHR 0x0A] @ sse_text a"
  by (simp_all add: sse_text_def)

text \<open>A response whose status and headers are out: what is written is the body.\<close>

definition streaming_wire :: "wire \<Rightarrow> bool" where
  "streaming_wire w = (\<exists>hs. wi_Sent w = Some (200, hs))"

definition add_body :: "string \<Rightarrow> wire \<Rightarrow> wire" where
  "add_body b w = w\<lparr>wi_Body := wi_Body w @ b\<rparr>"

lemma add_body_simps [simp]: "add_body b (add_body a w) = add_body (a @ b) w" "add_body [] w = w" "streaming_wire (add_body b w) = streaming_wire w"
  by (simp_all add: add_body_def streaming_wire_def)

lemma write_streaming: "streaming_wire w \<Longrightarrow> transmit (transmit w (WriteBytes b)) FlushOut = add_body b w"
  by (auto simp: streaming_wire_def send_status_def body_allowed_def add_body_def Let_def)

text \<open>The lines that go out for the ticks before a write, and for a whole list of lines.\<close>

fun tick_lines :: "time list \<Rightarrow> time \<Rightarrow> string list" where
  "tick_lines [] lastWrite = []"
| "tick_lines (t # ts) lastWrite =
     (if t - lastWrite \<ge> keepalive_after then keepalive_lines @ tick_lines ts t else tick_lines ts lastWrite)"

fun written_lines :: "schedule \<Rightarrow> nat \<Rightarrow> time \<Rightarrow> string list \<Rightarrow> string list" where
  "written_lines sched n lastWrite [] = []"
| "written_lines sched n lastWrite (line # ls) =
     tick_lines (fst (sched n)) lastWrite @ line # written_lines sched (n + 1) (snd (sched n)) ls"

lemma comment_body: "streaming_wire w \<Longrightarrow> foldl transmit w (WriteComment ''keepalive'') = add_body (sse_text keepalive_lines) w"
  by (simp add: WriteComment_def write_streaming keepalive_lines_def del: transmit.simps)

lemma line_body: "streaming_wire w \<Longrightarrow> foldl transmit w (WriteLine l) = add_body (sse_text [l]) w"
  by (simp add: WriteLine_def write_streaming del: transmit.simps)

lemma tick_body: "streaming_wire w \<Longrightarrow> foldl transmit w (fst (keepalive_ticks ts l :: 'd http_action list \<times> time)) = add_body (sse_text (tick_lines ts l)) w"
proof (induction ts arbitrary: l w)
  case (Cons t ts)
  show ?case
  proof (cases "t - l \<ge> keepalive_after")
    case True
    then have "foldl transmit w (fst (keepalive_ticks (t # ts) l :: 'd http_action list \<times> time))
        = foldl transmit (foldl transmit w (WriteComment ''keepalive'' :: 'd http_action list)) (fst (keepalive_ticks ts t :: 'd http_action list \<times> time))"
      by (simp add: case_prod_unfold Let_def)
    also have "\<dots> = add_body (sse_text (tick_lines ts t)) (add_body (sse_text keepalive_lines) w)"
      using Cons by (simp only: comment_body add_body_simps)
    finally show ?thesis using True by simp
  next
    case False
    then show ?thesis using Cons by simp
  qed
qed simp

lemma relay_body:
  "streaming_wire w \<Longrightarrow> foldl transmit w (fst (relay_writes sched n l ls :: 'd http_action list \<times> time)) = add_body (sse_text (written_lines sched n l ls)) w"
proof (induction ls arbitrary: n l w)
  case (Cons line ls)
  have "foldl transmit w (fst (relay_writes sched n l (line # ls) :: 'd http_action list \<times> time))
      = foldl transmit (foldl transmit (foldl transmit w (fst (keepalive_ticks (fst (sched n)) l :: 'd http_action list \<times> time))) (WriteLine line :: 'd http_action list))
          (fst (relay_writes sched (n + 1) (snd (sched n)) ls :: 'd http_action list \<times> time))"
    by (simp add: case_prod_unfold Let_def)
  also have "\<dots> = add_body (sse_text (written_lines sched (n + 1) (snd (sched n)) ls))
      (add_body (sse_text [line]) (add_body (sse_text (tick_lines (fst (sched n)) l)) w))"
    using Cons by (simp only: tick_body line_body add_body_simps)
  finally show ?case by simp
qed simp

lemma tick_groups:
  "length cur \<le> 1 \<Longrightarrow> list_all (\<lambda>g. length g \<le> 1) (event_groups cur ls) \<Longrightarrow>
   event_groups cur (tick_lines ts l @ ls) = event_groups cur ls"
proof (induction ts l arbitrary: cur rule: tick_lines.induct)
  case (2 t ts l)
  show ?case
  proof (cases "t - l \<ge> keepalive_after")
    case True
    have "event_groups cur (tick_lines ts t @ ls) = event_groups cur ls" using 2 True by simp
    then show ?thesis using True 2(3,4) keepalive_groups [of cur "tick_lines ts t @ ls"] by simp
  qed (use 2 in simp)
qed simp

text \<open>The ticks that come after a line has begun an event end it, which changes nothing when it has one line.\<close>

lemma written_groups:
  "length cur \<le> 1 \<Longrightarrow> list_all (\<lambda>g. length g \<le> 1) (event_groups cur (ls @ rest)) \<Longrightarrow>
   event_groups cur (written_lines sched n l ls @ rest) = event_groups cur (ls @ rest)"
proof (induction sched n l ls arbitrary: cur rule: written_lines.induct)
  case (2 sched n l line ls)
  have step: "event_groups cur (line # written_lines sched (n + 1) (snd (sched n)) ls @ rest) = event_groups cur (line # ls @ rest)"
  proof (cases "line = [] \<or> hd line = CHR '':''")
    case True
    then show ?thesis using 2 by (auto split: if_splits)
  next
    case False
    have "cur = []"
    proof (rule ccontr)
      assume "cur \<noteq> []"
      then obtain g gs where "event_groups (cur @ [line]) (ls @ rest) = ((cur @ [line]) @ g) # gs"
        using event_groups_first [of "cur @ [line]" "ls @ rest"] by blast
      then show False using 2(3) False \<open>cur \<noteq> []\<close> by (simp add: Suc_le_eq)
    qed
    then show ?thesis using 2 False by simp
  qed
  have "event_groups cur (tick_lines (fst (sched n)) l @ line # written_lines sched (n + 1) (snd (sched n)) ls @ rest)
      = event_groups cur (line # written_lines sched (n + 1) (snd (sched n)) ls @ rest)"
    by (rule tick_groups) (use 2 step in simp_all)
  then show ?case using step by simp
qed simp


section \<open>The answer of a stream\<close>

definition event_headers :: header_map where
  "event_headers = [''Content-Type'' \<mapsto> ''text/event-stream'', ''Cache-Control'' \<mapsto> ''no-cache, no-transform'',
     ''Connection'' \<mapsto> ''keep-alive'', ''X-Accel-Buffering'' \<mapsto> ''no'']"

definition opened_wire :: wire where
  "opened_wire = \<lparr>wi_Header = event_headers, wi_Sent = Some (200, event_headers), wi_Body = []\<rparr>"

lemma opened: "NewWriter True = Some acts \<Longrightarrow> foldl transmit new_wire acts = opened_wire"
  by (auto simp: NewWriter_def new_wire_def send_status_def opened_wire_def event_headers_def)

lemma opened_streaming [simp]: "streaming_wire opened_wire"
  by (simp add: streaming_wire_def opened_wire_def)

lemma wire_reply_body [simp]:
  "wire_reply (add_body b opened_wire) = \<lparr>rp_Status = 200, rp_Header = event_headers, rp_Body = b\<rparr>"
  by (simp add: wire_reply_def add_body_def send_status_def opened_wire_def Let_def)

lemma warn_silent: "foldl transmit w (if b then [LogLine l t fs] else []) = w"
  by simp

lemma relay_reply:
  fixes po :: "'d ports"
  assumes "relay (po_codec po) p = (ls, err, q)" "ending = relay_end (hr_Gone r) err q"
  shows "client_reply (relay_Handle enc po r True sched start h m p)
    = \<lparr>rp_Status = 200, rp_Header = event_headers,
       rp_Body = sse_text (written_lines sched 0 start ls
         @ written_lines sched (length ls) (snd (relay_writes sched 0 start ls :: 'd http_action list \<times> time)) ending)\<rparr>"
proof -
  obtain acts0 where o: "NewWriter True = Some (acts0 :: 'd http_action list)" by (simp add: NewWriter_def)
  obtain body l1 where b: "(relay_writes sched 0 start ls :: 'd http_action list \<times> time) = (body, l1)" by force
  obtain lasts l2 where l: "(relay_writes sched (length ls) l1 ending :: 'd http_action list \<times> time) = (lasts, l2)" by force
  have "foldl transmit opened_wire body = add_body (sse_text (written_lines sched 0 start ls)) opened_wire"
    using relay_body [OF opened_streaming, of sched 0 start ls, where ?'d = 'd] b by simp
  moreover have "foldl transmit (add_body x opened_wire) lasts = add_body (sse_text (written_lines sched (length ls) l1 ending)) (add_body x opened_wire)" for x
    using relay_body [of "add_body x opened_wire" sched "length ls" l1 ending, where ?'d = 'd] l by simp
  ultimately show ?thesis
    using o b l opened [OF o] assms
    by (simp add: relay_Handle_def client_reply_def Let_def warn_silent del: transmit.simps)
qed

lemma written_append:
  "written_lines sched n l (ls @ es)
     = written_lines sched n l ls @ written_lines sched (n + length ls) (snd (relay_writes sched n l ls :: 'd http_action list \<times> time)) es"
  by (induction ls arbitrary: n l) (simp_all add: case_prod_unfold Let_def)

lemma written_all_groups:
  "one_line_events ls \<Longrightarrow> event_groups [] (written_lines sched n l ls) = event_groups [] ls"
  using written_groups [of "[]" ls "[]" sched n l] by (simp add: one_line_events_def)


text \<open>The schedule of a slow provider: a tick comes before every line, twenty seconds after the last write.\<close>

definition slow_schedule :: schedule where
  "slow_schedule n = ([int (n + 1) * 20 * second], int (n + 1) * 20 * second)"

definition plain_post :: server_request where
  "plain_post = \<lparr>hr_Method = ''POST'', hr_Path = ''/v1/chat/completions'',
     hr_Header = (\<lambda>k. if k = ''Authorization'' then ''Bearer t'' else []), hr_Body = ''{}'', hr_BodyErr = None,
     hr_RequestID = ''id'', hr_Gone = False\<rparr>"

definition toy_relayed :: "string list \<times> string list \<times> bool" where
  "toy_relayed =
     (case held_stream (fst (toy_call True)) of
        Some (h, m, p) \<Rightarrow> (let (ls, err, q) = relay toy_codec p in (ls, relay_end False err q, stream_Complete q))
      | None \<Rightarrow> ([], [], False))"


section \<open>The accounts are straight when a handler returns\<close>

lemma Proxy_trace:
  assumes "Proxy po rid endpoint raw req token = (res, ev)"
  shows "length (holds ev) \<le> 1 \<and>
    (case res of
       Inr (h, Streaming m p) \<Rightarrow> holds ev = [hd_reservation h] \<and> settlements ev = [] \<and> generations ev = [] \<and> settle_inv p
         \<and> ps_settled p = []
     | _ \<Rightarrow> settlements ev = holds ev \<and> length (generations ev) = 1)"
  using assms
proof (cases rule: Proxy_stages)
  case (run auth raw' req' model exec h ev1 ev2 r)
  note eff = run_held_effects [OF run(9)]
  have one: "holds ev = [hd_reservation h]" "settlements ev = settled_now (hd_reservation h) r"
    "length (generations ev) = length (settled_now (hd_reservation h) r)"
    using eff run(7,8) by simp_all
  show ?thesis
  proof (cases r)
    case (Inl e)
    then show ?thesis using one run(10) by simp
  next
    case (Inr c)
    then show ?thesis using one eff run(10) by (cases c) (auto simp: settle_inv_def)
  qed
qed simp

definition straight :: "'d effect list \<Rightarrow> bool" where
  "straight ev = (length (holds ev) \<le> 1 \<and> settlements ev = holds ev
     \<and> (length (generations ev) = 1 \<or> generations ev = [] \<and> holds ev = [] \<and> providers ev = []))"

lemma straight_reject: "straight [EvMetric (RecordError endpoint UnresolvedModel ''unknown'' PhaseRequest err)]"
  by (simp add: straight_def RecordError_def split: prod.splits)

lemma relay_ticks_silent [simp]: "service_effects (fst (keepalive_ticks ts l :: 'd http_action list \<times> time)) = []"
  by (induction ts arbitrary: l) (simp_all add: WriteComment_def case_prod_unfold Let_def)

lemma relay_writes_silent [simp]: "service_effects (fst (relay_writes sched n l ls :: 'd http_action list \<times> time)) = []"
  by (induction ls arbitrary: n l) (simp_all add: WriteLine_def case_prod_unfold Let_def)

lemma WriteError_silent [simp]: "service_effects (WriteError enc err) = []"
  by (simp add: WriteError_def retry_header_def WriteJSON_def Let_def)

lemma relay_Handle_effects:
  assumes "settle_inv p" "ps_settled p = []"
  shows "\<exists>q. service_effects (relay_Handle enc po r flusher sched start h m p) = settle_call po h m q \<and> length (ps_settled q) = 1"
proof (cases flusher)
  case True
  obtain ls err q where rl: "relay (po_codec po) p = (ls, err, q)" by (metis prod.exhaust)
  have "length (ps_settled q) = 1" using relay_ends [OF rl assms(1)] by auto
  moreover have "service_effects (relay_Handle enc po r flusher sched start h m p) = settle_call po h m q"
    using True rl relay_finished [OF rl]
    by (simp add: relay_Handle_def NewWriter_def Let_def case_prod_unfold)
  ultimately show ?thesis by blast
next
  case False
  have "length (ps_settled (stream_Close p)) = 1"
    using Close_inv [OF assms(1)] Close_finished [of p] by (auto simp: settle_inv_def)
  then show ?thesis using False assms(2)
    by (auto simp: relay_Handle_def NewWriter_def close_effects_open intro!: exI [of _ "stream_Close p"])
qed

lemma straight_streamed:
  assumes "Proxy po rid endpoint raw req token = (Inr (h, Streaming m p), ev)"
  shows "straight (ev @ service_effects (relay_Handle enc po r flusher sched start h m p))"
proof -
  have p: "holds ev = [hd_reservation h]" "settlements ev = []" "generations ev = []" "settle_inv p" "ps_settled p = []"
    using Proxy_trace [OF assms] by simp_all
  obtain q where q: "service_effects (relay_Handle enc po r flusher sched start h m p) = settle_call po h m q" "length (ps_settled q) = 1"
    using relay_Handle_effects [OF p(4,5)] by blast
  have "holds (concat (map (finish_call po h m) rs)) = []" for rs :: "outcome list" by (induction rs) simp_all
  then have "holds (settle_call po h m q) = []" by (simp add: settle_call_def)
  then show ?thesis using p q settle_call_effects [of po h m q] by (simp add: straight_def)
qed

lemma straight_whole:
  assumes "Proxy po rid endpoint raw req token = (res, ev)" "\<forall>h m p. res \<noteq> Inr (h, Streaming m p)"
  shows "straight ev"
  using Proxy_trace [OF assms(1)] assms(2) by (auto simp: straight_def split: sum.splits prod.splits call_result.splits)

lemma chat_straight: "straight (service_effects (chat_Handle env r))"
proof (cases "ExtractBearerToken (hr_Header r ''Authorization'')")
  case (Inr token)
  show ?thesis
  proof (cases "read_limited maxRequestBodySize r")
    case (Inr body)
    show ?thesis
    proof (cases "ChatCompletionRequestToDomain (gn_type_error env) (gn_parse env body)")
      case (Inr req)
      obtain res ev where P: "Proxy (gn_ports env) (gn_id env) EndpointChatCompletions body req token = (res, ev)" by force
      note here = \<open>ExtractBearerToken _ = Inr token\<close> \<open>read_limited _ r = Inr body\<close> Inr
      show ?thesis
      proof (cases "\<exists>h m p. res = Inr (h, Streaming m p)")
        case True
        then show ?thesis using here P straight_streamed by (fastforce simp: chat_Handle_def Let_def)
      next
        case False
        then have "service_effects (chat_Handle env r) = ev"
          using here P by (auto simp: chat_Handle_def Let_def json_answer_def split: sum.splits prod.splits call_result.splits)
        then show ?thesis using straight_whole [OF P] False by simp
      qed
    qed (use \<open>ExtractBearerToken _ = _\<close> Inr in \<open>simp add: chat_Handle_def Let_def straight_reject\<close>)
  qed (use Inr in \<open>simp add: chat_Handle_def Let_def straight_reject\<close>)
qed (simp add: chat_Handle_def Let_def straight_reject)

lemma attempt_whole: "attempt po h target = (Inr (Streaming m p), ev) \<Longrightarrow> req_Stream (hd_req h)"
  by (auto simp: attempt_def Let_def split: option.splits if_splits sum.splits prod.splits)

lemma systemone_never_streams:
  assumes "Proxy po rid EndpointSystemOne raw req token = (Inr (h, Streaming m p), ev)" "SystemOneRequestToDomain raw' = Inr req"
  shows False
  using assms(1)
proof (cases rule: Proxy_stages)
  case (run auth raw1 req' model exec h' ev1 ev2 r)
  have "\<not> req_Stream req"
    using assms(2) by (auto simp: SystemOneRequestToDomain_def split: option.splits if_splits list.splits)
  moreover have "\<not> acc_IsGuest (auth_Account auth)"
    using run(2) by (auto simp: entered_def checkGuestModel_def EndpointSystemOne_def EndpointChatCompletions_def split: if_splits)
  ultimately have "\<not> req_Stream (hd_req h')" using run(2,3,6) by (auto simp: entered_def chosen_def)
  moreover have "run_held po model h' = (Inr (Streaming m p), ev2)" using run(9,10) by (cases r) auto
  then have "\<exists>target ev3. attempt po h' target = (Inr (Streaming m p), ev3)"
    by (auto simp: run_held_def Let_def split: sum.splits option.splits if_splits prod.splits)
  ultimately show False using attempt_whole by blast
qed simp

lemma systemone_straight: "straight (service_effects (systemone_Handle env r))"
proof (cases "ExtractBearerToken (hr_Header r ''Authorization'')")
  case (Inr token)
  show ?thesis
  proof (cases "read_max maxRequestBodySize r")
    case (Inr body)
    show ?thesis
    proof (cases "SystemOneRequestToDomain (gn_parse env body)")
      case (Inr req)
      obtain res ev where P: "Proxy (gn_ports env) (gn_id env) EndpointSystemOne body req token = (res, ev)" by force
      have whole: "\<forall>h m p. res \<noteq> Inr (h, Streaming m p)" using systemone_never_streams [OF _ Inr] P by blast
      then have "service_effects (systemone_Handle env r) = ev"
        using \<open>ExtractBearerToken _ = Inr token\<close> \<open>read_max _ r = Inr body\<close> Inr P
        by (auto simp: systemone_Handle_def Let_def split: sum.splits prod.splits call_result.splits)
      then show ?thesis using straight_whole [OF P whole] by simp
    qed (use \<open>ExtractBearerToken _ = _\<close> Inr in \<open>simp add: systemone_Handle_def Let_def straight_reject\<close>)
  qed (use Inr in \<open>simp add: systemone_Handle_def Let_def straight_reject\<close>)
qed (simp add: systemone_Handle_def Let_def straight_reject)

text \<open>
  C40: When a handler of a generation endpoint returns, the accounts are straight: for every request,
  whatever its headers and body, the provider's stream and the keep-alive, it took at most one hold
  of credit and has settled it exactly once, and it has counted one outcome, or it was refused before
  the service, with neither hold nor provider call.
\<close>
theorem handlers_leave_accounts_straight:
  "straight (service_effects (chat_Handle env r)) \<and> straight (service_effects (systemone_Handle env r))"
  using chat_straight systemone_straight by blast

end
