(* ===== verification/PublicApi.thy ===== *)
theory PublicApi
  imports Http ListModels
begin

text \<open>
  The read-only endpoints: the model list (\<open>handlers/models_handler.go\<close>, \<open>dto/models_response.go\<close>)
  and the proofs of attested transport (\<open>handlers/tinfoil_handler.go\<close>). The decimal type of prices,
  the time formats and the JSON codec are parameters. \<open>None\<close> is a panic.
\<close>

unbundle bit_operations_syntax

section \<open>The model list\<close>

record 'd decimal =
  dc_Mul :: "'d \<Rightarrow> 'd \<Rightarrow> 'd"
  dc_FromInt :: "int \<Rightarrow> 'd"
  dc_FromFloat :: "float64 \<Rightarrow> 'd"             \<comment> \<open>for a finite number\<close>
  dc_Round :: "'d \<Rightarrow> int \<Rightarrow> 'd"
  dc_IntPart :: "'d \<Rightarrow> int"
  dc_Float64 :: "'d \<Rightarrow> float64"

text \<open>\<open>decimal.NewFromFloat\<close> panics on an infinity or a NaN.\<close>

definition f64_finite :: "float64 \<Rightarrow> bool" where
  "f64_finite x = ((x AND 0x7FF0000000000000) \<noteq> 0x7FF0000000000000)"

definition NewFromFloat :: "'d decimal \<Rightarrow> float64 \<Rightarrow> 'd option" where
  "NewFromFloat dc x = (if f64_finite x then Some (dc_FromFloat dc x) else None)"

record model_data =
  md_ID :: string
  md_Object :: string
  md_Kind :: string
  md_BaseModel :: "string option"
  md_OwnedBy :: string
  md_Created :: int
  md_DisplayName :: string
  md_Description :: "string option"
  md_ContextSize :: "int option"
  md_MaxOutputTokens :: "int option"
  md_Currency :: "string option"
  md_InputCents :: "int option"
  md_OutputCents :: "int option"
  md_CacheReadCents :: "int option"
  md_CacheWriteCents :: "int option"
  md_InputUSD :: "float64 option"
  md_OutputUSD :: "float64 option"
  md_CacheReadUSD :: "float64 option"
  md_CacheWriteUSD :: "float64 option"
  md_Capabilities :: "string option"
  md_Endpoints :: "string list"
  md_ProofMode :: string
  md_ProofsEnabled :: bool

definition empty_model_data :: model_data where
  "empty_model_data = \<lparr>md_ID = [], md_Object = [], md_Kind = [], md_BaseModel = None, md_OwnedBy = [], md_Created = 0, md_DisplayName = [],
     md_Description = None, md_ContextSize = None, md_MaxOutputTokens = None, md_Currency = None, md_InputCents = None, md_OutputCents = None,
     md_CacheReadCents = None, md_CacheWriteCents = None, md_InputUSD = None, md_OutputUSD = None, md_CacheReadUSD = None, md_CacheWriteUSD = None,
     md_Capabilities = None, md_Endpoints = [], md_ProofMode = [], md_ProofsEnabled = False\<rparr>"

definition privateBaseModel :: "string \<Rightarrow> string \<Rightarrow> string option" where
  "privateBaseModel publicModelID upstreamModelName =
     (let baseModel = trim_space upstreamModelName
      in if \<not> has_prefix publicModelID ''private/'' \<or> baseModel = [] then None else Some baseModel)"

definition eurToCents :: "'d decimal \<Rightarrow> 'd \<Rightarrow> int" where
  "eurToCents dc price = dc_IntPart dc (dc_Round dc (dc_Mul dc price (dc_FromInt dc 100)) 0)"

definition eurPtrToCentsPtr :: "'d decimal \<Rightarrow> 'd option \<Rightarrow> int option" where
  "eurPtrToCentsPtr dc price = map_option (eurToCents dc) price"

text \<open>\<open>strings.ToUpper\<close> as far as it can give ASCII letters of a currency: the long s is an S.\<close>

fun upper_currency :: "string \<Rightarrow> string" where
  "upper_currency (a # b # s) =
     (if a = CHR 0xC5 \<and> b = CHR 0xBF then CHR ''S'' # upper_currency s else fold_byte a # upper_currency (b # s))"
| "upper_currency s = map fold_byte s"

text \<open>The factor from a currency to dollars, \<open>1.0\<close> being \<open>0x3FF0000000000000\<close>.\<close>

definition usd_factor :: "string \<Rightarrow> float64 \<Rightarrow> float64" where
  "usd_factor currency eurToUSDRate =
     (let c = upper_currency (trim_space currency)
      in if c = ''USD'' then 0x3FF0000000000000 else if c = ''EUR'' then eurToUSDRate else 0)"

definition priceToUSDPtr :: "'d decimal \<Rightarrow> string \<Rightarrow> 'd \<Rightarrow> float64 \<Rightarrow> float64 option option" where
  "priceToUSDPtr dc currency price eurToUSDRate =
     (let factor = usd_factor currency eurToUSDRate
      in if f64_nonpositive factor then Some None
         else map_option (\<lambda>f. Some (dc_Float64 dc (dc_Round dc (dc_Mul dc price f) 4))) (NewFromFloat dc factor))"

definition pricePtrToUSDPtr :: "'d decimal \<Rightarrow> string \<Rightarrow> 'd option \<Rightarrow> float64 \<Rightarrow> float64 option option" where
  "pricePtrToUSDPtr dc currency price eurToUSDRate =
     (case price of None \<Rightarrow> Some None | Some p \<Rightarrow> priceToUSDPtr dc currency p eurToUSDRate)"

text \<open>\<open>object\<close> decodes a JSON object; an object with no fields states nothing.\<close>

definition publishedCapabilities :: "(string \<Rightarrow> jobject option) \<Rightarrow> 'd public_model \<Rightarrow> string option" where
  "publishedCapabilities object m =
     (case object (m_Capabilities m) of
        Some fs \<Rightarrow> if fs = [] then None else Some (m_Capabilities m)
      | None \<Rightarrow> None)"

definition modelEndpoints :: "'d public_model \<Rightarrow> string list" where
  "modelEndpoints m =
     (if SupportsEndpoint m EndpointSystemOne then [''systemone'']
      else if m_SupportsChatCompletions m then [''chat/completions''] else [])"

definition toPublicModelData :: "'d decimal \<Rightarrow> (string \<Rightarrow> jobject option) \<Rightarrow> 'd public_model \<Rightarrow> float64 \<Rightarrow> model_data option" where
  "toPublicModelData dc object m eurToUSDRate =
     (let usd = (\<lambda>p. priceToUSDPtr dc (m_Currency m) p eurToUSDRate); usd_ptr = (\<lambda>p. pricePtrToUSDPtr dc (m_Currency m) p eurToUSDRate)
      in case (usd (m_InputPricePerMillion m), usd (m_OutputPricePerMillion m),
               usd_ptr (m_CacheReadPricePerMillion m), usd_ptr (m_CacheWritePricePerMillion m)) of
           (Some input, Some output, Some cacheRead, Some cacheWrite) \<Rightarrow>
             Some \<lparr>md_ID = m_PublicModelID m, md_Object = ''model'', md_Kind = ''public_model'',
               md_BaseModel = privateBaseModel (m_PublicModelID m) (m_UpstreamModelName m), md_OwnedBy = ''nexus'', md_Created = 0,
               md_DisplayName = m_DisplayName m, md_Description = m_Description m, md_ContextSize = Some (m_MaxContextWindow m),
               md_MaxOutputTokens = Some (m_MaxOutputTokens m), md_Currency = Some (m_Currency m),
               md_InputCents = Some (eurToCents dc (m_InputPricePerMillion m)), md_OutputCents = Some (eurToCents dc (m_OutputPricePerMillion m)),
               md_CacheReadCents = eurPtrToCentsPtr dc (m_CacheReadPricePerMillion m),
               md_CacheWriteCents = eurPtrToCentsPtr dc (m_CacheWritePricePerMillion m),
               md_InputUSD = input, md_OutputUSD = output, md_CacheReadUSD = cacheRead, md_CacheWriteUSD = cacheWrite,
               md_Capabilities = publishedCapabilities object m, md_Endpoints = modelEndpoints m,
               md_ProofMode = EffectiveProofMode m, md_ProofsEnabled = ProofModeEnabled (EffectiveProofMode m)\<rparr>
         | _ \<Rightarrow> None)"

text \<open>\<open>unix\<close> is the router's creation time in seconds since 1970.\<close>

definition toRouterData :: "(time \<Rightarrow> int) \<Rightarrow> router_entry \<Rightarrow> model_data" where
  "toRouterData unix r =
     empty_model_data\<lparr>md_ID := router_RouterID r, md_Object := ''model'', md_Kind := ''router'', md_OwnedBy := ''nexus'',
       md_Created := unix (router_CreatedAt r), md_DisplayName := router_DisplayName r, md_Description := router_Description r,
       md_Endpoints := [''chat/completions''], md_ProofMode := ProofModeNone\<rparr>"

definition toModelData :: "'d decimal \<Rightarrow> (string \<Rightarrow> jobject option) \<Rightarrow> (time \<Rightarrow> int) \<Rightarrow> 'd model_catalog_entry \<Rightarrow> model_data option" where
  "toModelData dc object unix entry =
     (case (entry_Kind entry, entry_Router entry) of
        (CatalogKindRouter, Some r) \<Rightarrow> Some (toRouterData unix r)
      | _ \<Rightarrow>
          (case entry_PublicModel entry of
             None \<Rightarrow> Some empty_model_data
           | Some m \<Rightarrow> toPublicModelData dc object m (entry_EURToUSDRate entry)))"

text \<open>The reply, or the panic of a price that cannot be converted: nothing is written before it.\<close>

definition models_Handle :: "(json \<Rightarrow> string) \<Rightarrow> (model_data \<Rightarrow> json) \<Rightarrow> 'd decimal \<Rightarrow> (string \<Rightarrow> jobject option) \<Rightarrow> (time \<Rightarrow> int)
    \<Rightarrow> go_error + 'd model_catalog_entry list \<Rightarrow> 'e http_action list option" where
  "models_Handle enc data_json dc object unix models =
     (case models of
        Inl err \<Rightarrow> Some (WriteError enc err)
      | Inr entries \<Rightarrow>
          (let data = map (toModelData dc object unix) entries
           in if list_all (\<lambda>d. d \<noteq> None) data
              then Some (SetHeader ''Cache-Control'' ''public, max-age=60''
                # WriteJSON enc 200 (JObj [(''object'', JStr ''list''), (''data'', JArr (map (\<lambda>d. data_json (the d)) data))]))
              else None))"

section \<open>Proofs\<close>

record proof_response =
  pr_Provider :: string
  pr_PublicModelID :: string
  pr_UpstreamModelID :: string
  pr_ProviderResponseID :: string
  pr_EnclaveHost :: "string option"
  pr_ConfigRepo :: "string option"
  pr_Digest :: "string option"
  pr_CodeFingerprint :: "string option"
  pr_EnclaveFingerprint :: "string option"
  pr_TLSPublicKey :: "string option"
  pr_HPKEPublicKey :: "string option"
  pr_TransportMode :: "string option"
  pr_SDKVersion :: "string option"
  pr_Status :: string
  pr_FailureReason :: "string option"
  pr_VerificationEvidence :: string
  pr_CreatedAt :: string
  pr_VerifiedAt :: "string option"

definition tinfoilProofResponseFromDomain :: "(time \<Rightarrow> string) \<Rightarrow> tinfoil_proof \<Rightarrow> proof_response" where
  "tinfoilProofResponseFromDomain format p =
     \<lparr>pr_Provider = proof_Provider p, pr_PublicModelID = proof_PublicModelID p, pr_UpstreamModelID = proof_UpstreamModelID p,
      pr_ProviderResponseID = proof_ProviderResponseID p, pr_EnclaveHost = proof_EnclaveHost p, pr_ConfigRepo = proof_ConfigRepo p,
      pr_Digest = proof_Digest p, pr_CodeFingerprint = proof_CodeFingerprint p, pr_EnclaveFingerprint = proof_EnclaveFingerprint p,
      pr_TLSPublicKey = proof_TLSPublicKey p, pr_HPKEPublicKey = proof_HPKEPublicKey p, pr_TransportMode = proof_TransportMode p,
      pr_SDKVersion = proof_SDKVersion p, pr_Status = proof_Status p, pr_FailureReason = proof_FailureReason p,
      pr_VerificationEvidence = proof_VerificationEvidenceJSON p, pr_CreatedAt = format (proof_CreatedAt p),
      pr_VerifiedAt = map_option format (proof_VerifiedAt p)\<rparr>"

record proof_env =
  pe_auth :: "string \<Rightarrow> go_error + auth_context"
  pe_proofs :: "(string \<Rightarrow> string \<Rightarrow> go_error + tinfoil_proof) option"     \<comment> \<open>account id, response id\<close>
  pe_enc :: "json \<Rightarrow> string"
  pe_type_name :: "go_error \<Rightarrow> string"
  pe_json :: "proof_response \<Rightarrow> json"
  pe_format :: "time \<Rightarrow> string"

definition proof_authenticate :: "proof_env \<Rightarrow> server_request \<Rightarrow> go_error + auth_context" where
  "proof_authenticate env r =
     (case ExtractBearerToken (hr_Header r ''Authorization'') of Inl err \<Rightarrow> Inl (GwErr err) | Inr token \<Rightarrow> pe_auth env token)"

definition HandleGetProof :: "proof_env \<Rightarrow> server_request \<Rightarrow> string \<Rightarrow> 'd http_action list" where
  "HandleGetProof env r responseID =
     (let fail = WriteErrorWithLog (pe_enc env) (pe_type_name env) r
      in case proof_authenticate env r of
        Inl err \<Rightarrow> fail err
      | Inr auth \<Rightarrow>
     (if responseID = [] then fail (GwErr (ErrInvalidField ''response_id is required''))
      else case pe_proofs env of
        None \<Rightarrow> fail (GwErr (WithMeta (ErrInternal internal_text) [MStr ''reason'', MStr ''Tinfoil proof repository is not configured'']))
      | Some get \<Rightarrow>
     (case get (acc_ID (auth_Account auth)) responseID of
        Inl err \<Rightarrow> fail err
      | Inr proof' \<Rightarrow> WriteJSON (pe_enc env) 200 (pe_json env (tinfoilProofResponseFromDomain (pe_format env) proof')))))"

section \<open>What the endpoints show\<close>

lemma f64_nonpositive_zero: "f64_nonpositive 0" "\<not> f64_nonpositive 0x3FF0000000000000" "f64_finite 0x3FF0000000000000" "f64_finite 0"
  by (simp_all add: f64_nonpositive_def f64_finite_def)

lemma usd_factor_finite: "f64_finite rate \<Longrightarrow> f64_finite (usd_factor currency rate)"
  by (simp add: usd_factor_def Let_def f64_nonpositive_zero)

lemma priceToUSDPtr_total:
  "f64_finite rate \<Longrightarrow> priceToUSDPtr dc currency p rate \<noteq> None"
  "f64_finite rate \<Longrightarrow> pricePtrToUSDPtr dc currency q rate \<noteq> None"
  by (auto simp: priceToUSDPtr_def pricePtrToUSDPtr_def NewFromFloat_def Let_def usd_factor_finite split: option.splits)

lemma toModelData_total: "f64_finite (entry_EURToUSDRate entry) \<Longrightarrow> toModelData dc object unix entry \<noteq> None"
  by (auto simp: toModelData_def toPublicModelData_def Let_def priceToUSDPtr_total split: option.splits catalog_kind.splits)

text \<open>A listed model names an endpoint exactly when the service serves the model there.\<close>

lemma modelEndpoints_served:
  "''chat/completions'' \<in> set (modelEndpoints m) \<longleftrightarrow> SupportsEndpoint m EndpointChatCompletions \<or>
     (m_SupportsChatCompletions m \<and> pc_ProviderName (m_ProviderConfig m) = ''typesafe'' \<and> \<not> SupportsEndpoint m EndpointSystemOne)"
  "''systemone'' \<in> set (modelEndpoints m) \<longleftrightarrow> SupportsEndpoint m EndpointSystemOne"
  by (auto simp: modelEndpoints_def SupportsEndpoint_def endpoint_defs)

lemma modelEndpoints_exact:
  "''chat/completions'' \<in> set (modelEndpoints m) \<longleftrightarrow> SupportsEndpoint m EndpointChatCompletions"
  by (auto simp: modelEndpoints_def SupportsEndpoint_def endpoint_defs)

text \<open>With a fallback rate and fetched rates that are finite, the list is always answered.\<close>

lemma refresh_rate_finite:
  "f64_finite fallback \<Longrightarrow> (\<forall>rate. r = Inr rate \<longrightarrow> f64_finite rate) \<Longrightarrow> f64_finite (refresh_rate fallback r)"
  by (auto simp: refresh_rate_def split: sum.splits)

lemma refreshed_list_answered:
  assumes "refresh fallback c = Inr entries" "f64_finite fallback" "\<forall>rate. cat_rate c = Inr rate \<longrightarrow> f64_finite rate"
  shows "models_Handle enc data_json dc object unix (Inr entries) \<noteq> None"
proof -
  have "\<forall>e \<in> set entries. f64_finite (entry_EURToUSDRate e)"
    using assms refresh_rate_finite [OF assms(2,3)] by (auto simp: refresh_def Let_def model_entry_def router_item_def split: sum.splits)
  then show ?thesis by (simp add: models_Handle_def Let_def list_all_iff toModelData_total del: not_None_eq)
qed

text \<open>An infinite fallback rate makes a model in euros panic when the rate cannot be fetched.\<close>

lemma infinite_rate_panics:
  assumes "m_Currency m = ''EUR''"
  shows "toModelData dc object unix (model_entry 0x7FF0000000000000 m) = None"
proof -
  have "upper_currency (trim_space ''EUR'') = ''EUR''" by code_simp
  then have "usd_factor (m_Currency m) 0x7FF0000000000000 = 0x7FF0000000000000"
    by (simp only: usd_factor_def assms Let_def) simp
  then have "priceToUSDPtr dc (m_Currency m) p 0x7FF0000000000000 = None" for p
    by (simp add: priceToUSDPtr_def f64_nonpositive_def NewFromFloat_def f64_finite_def)
  then show ?thesis by (simp add: toModelData_def toPublicModelData_def model_entry_def Let_def)
qed

text \<open>A proof is asked for with the account of the key, and what is shown names neither account nor key.\<close>

lemma proof_of_own_account:
  assumes "rp_Status (client_reply (HandleGetProof env r responseID)) = 200"
    and "\<And>err. rp_Status (error_reply (pe_enc env) (shown_error err)) \<noteq> 200"
  shows "\<exists>token auth get p. hr_Header r ''Authorization'' = ''Bearer '' @ token \<and> pe_auth env token = Inr auth \<and> pe_proofs env = Some get
    \<and> get (acc_ID (auth_Account auth)) responseID = Inr p"
  using assms
  by (auto simp: HandleGetProof_def Let_def WriteErrorWithLog_reply proof_authenticate_def ExtractBearerToken_iff
      split: sum.splits if_splits option.splits)

lemma proof_shows_no_account:
  "tinfoilProofResponseFromDomain format (p\<lparr>proof_ID := i, proof_AccountID := a, proof_APIKeyID := k\<rparr>) = tinfoilProofResponseFromDomain format p"
  by (simp add: tinfoilProofResponseFromDomain_def)

end
