(* ===== verification/GatewayHttp.thy ===== *)
theory GatewayHttp
  imports Middleware ChatFacts PublicApi
begin

text \<open>
  The handlers behind the routes: each keeps to the rules the middleware relies on, so that what is
  counted and logged is what the client got.
\<close>

section \<open>The interface of a handler\<close>

text \<open>What the chain asks of a handler, and what it gives for it.\<close>

locale http_handler =
  fixes h :: "'d handler"
  assumes names_status: "coherent (h r)"
    and leaves_id: "\<not> list_ex (sets_header ''X-Request-ID'') (fst (h r))"
begin

lemma behaves: "well_behaved h"
  using names_status leaves_id by (simp add: well_behaved_def)

lemma status_seen: "snd (h r) = None \<Longrightarrow> rp_Status (client_reply (fst (h r))) = recorded_status (fst (h r))"
  using names_status [of r] by (auto simp: coherent_def intro: coherent_status)

end

section \<open>The handlers of the code\<close>

lemma no_id [simp]:
  "\<not> list_ex (sets_header ''X-Request-ID'') (WriteJSON enc status v)"
  "\<not> list_ex (sets_header ''X-Request-ID'') (retry_header e)"
  "\<not> list_ex (sets_header ''X-Request-ID'') (map Service ev)"
  "explicit (WriteJSON enc status v)"
  by (simp_all add: WriteJSON_def retry_header_def sets_header_def list_ex_iff)

lemma sets_other [simp]:
  "sets_header k (SetHeader k' v) = (k' = k)" "\<not> sets_header k (WriteHeader n)" "\<not> sets_header k (WriteBytes b)"
  "\<not> sets_header k FlushOut" "\<not> sets_header k (LogLine l m fs)" "\<not> sets_header k (Service e)"
  by (simp_all add: sets_header_def)

lemma explicit_retry [simp]: "explicit (retry_header e @ acts) = explicit acts"
  by (simp add: retry_header_def)

lemma explicit_services [simp]: "explicit (map Service ev @ acts) = explicit acts" "kept_status (map Service ev @ acts) = kept_status acts"
  by (induction ev) simp_all

lemma WriteError_behaves [simp]: "explicit (WriteError enc err)" "\<not> list_ex (sets_header ''X-Request-ID'') (WriteError enc err)"
  by (simp_all add: WriteError_def Let_def list_ex_append)

lemma WriteErrorWithLog_behaves [simp]:
  "explicit (WriteErrorWithLog enc type_name r err)" "\<not> list_ex (sets_header ''X-Request-ID'') (WriteErrorWithLog enc type_name r err)"
  by (cases err; simp add: WriteErrorWithLog_def Let_def list_ex_append)+

lemma rejectRequest_behaves [simp]:
  "explicit (rejectRequest enc type_name r endpoint err)" "\<not> list_ex (sets_header ''X-Request-ID'') (rejectRequest enc type_name r endpoint err)"
  by (simp_all add: rejectRequest_def)

lemma relay_no_id [simp]:
  "\<not> list_ex (sets_header ''X-Request-ID'') (fst (keepalive_ticks ts l :: 'd http_action list \<times> time))"
  "\<not> list_ex (sets_header ''X-Request-ID'') (fst (relay_writes sched n l ls :: 'd http_action list \<times> time))"
proof -
  show *: "\<not> list_ex (sets_header ''X-Request-ID'') (fst (keepalive_ticks ts l :: 'd http_action list \<times> time))" for ts l
    by (induction ts arbitrary: l) (simp_all add: WriteComment_def case_prod_unfold Let_def)
  show "\<not> list_ex (sets_header ''X-Request-ID'') (fst (relay_writes sched n l ls :: 'd http_action list \<times> time))"
    using * by (induction ls arbitrary: n l) (simp_all add: WriteLine_def case_prod_unfold Let_def list_ex_append)
qed

lemma NewWriter_behaves:
  "NewWriter True = Some acts \<Longrightarrow> explicit acts \<and> kept_status acts = Some 200 \<and> \<not> list_ex (sets_header ''X-Request-ID'') acts"
  by (auto simp: NewWriter_def)

lemma warn_no_id: "\<not> list_ex (sets_header k) (if b then [LogLine l m fs] else [])"
  by simp

lemma relay_Handle_behaves [simp]:
  "explicit (relay_Handle enc po r flusher sched start h m p)"
  "\<not> list_ex (sets_header ''X-Request-ID'') (relay_Handle enc po r flusher sched start h m p)"
proof -
  have "explicit (relay_Handle enc po r flusher sched start h m p)
    \<and> \<not> list_ex (sets_header ''X-Request-ID'') (relay_Handle enc po r flusher sched start h m p)"
  proof (cases flusher)
    case False
    have "explicit (map Service ev :: 'a http_action list)" for ev using explicit_services(1) [of ev "[]"] by simp
    then show ?thesis using False by (simp add: relay_Handle_def NewWriter_def list_ex_append explicit_append2)
  next
    case True
    obtain acts where o: "NewWriter True = Some (acts :: 'a http_action list)" by (simp add: NewWriter_def)
    have f: "NewWriter flusher = Some (acts :: 'a http_action list)" using o True by simp
    obtain ls err q where rl: "relay (po_codec po) p = (ls, err, q)" by (metis prod.exhaust)
    have "\<exists>rest. relay_Handle enc po r flusher sched start h m p = acts @ rest \<and> \<not> list_ex (sets_header ''X-Request-ID'') rest"
      unfolding relay_Handle_def f rl option.case prod.case Let_def case_prod_unfold
      by (intro exI conjI, rule refl) (simp only: list_ex_append relay_no_id no_id warn_no_id de_Morgan_disj simp_thms)
    then show ?thesis using NewWriter_behaves [OF o] explicit_append2 [of acts] by (auto simp: list_ex_append)
  qed
  then show "explicit (relay_Handle enc po r flusher sched start h m p)"
    "\<not> list_ex (sets_header ''X-Request-ID'') (relay_Handle enc po r flusher sched start h m p)" by simp_all
qed

definition chat_handler :: "'d gen_env \<Rightarrow> 'd handler" where
  "chat_handler env r = (chat_Handle env r, None)"

definition systemone_handler :: "'d gen_env \<Rightarrow> 'd handler" where
  "systemone_handler env r = (systemone_Handle env r, None)"

definition health_handler :: "(json \<Rightarrow> string) \<Rightarrow> 'd handler" where
  "health_handler enc r = (health_Handle enc, None)"

definition models_handler :: "(json \<Rightarrow> string) \<Rightarrow> (model_data \<Rightarrow> json) \<Rightarrow> 'd decimal \<Rightarrow> (string \<Rightarrow> jobject option) \<Rightarrow> (time \<Rightarrow> int)
    \<Rightarrow> (server_request \<Rightarrow> go_error + 'd model_catalog_entry list) \<Rightarrow> 'd handler" where
  "models_handler enc data_json dc object unix execute r =
     (case models_Handle enc data_json dc object unix (execute r) of
        Some acts \<Rightarrow> (acts, None)
      | None \<Rightarrow> ([], Some ''cannot create a Decimal from an infinity or a NaN''))"

definition proof_handler :: "proof_env \<Rightarrow> (server_request \<Rightarrow> string) \<Rightarrow> 'd handler" where
  "proof_handler env response_id r = (HandleGetProof env r (response_id r), None)"

interpretation chat: http_handler "chat_handler env" for env :: "'d gen_env"
  by unfold_locales
    (auto simp: chat_handler_def coherent_def chat_Handle_def json_answer_def Let_def list_ex_append
      split: sum.splits prod.splits call_result.splits)

interpretation systemone: http_handler "systemone_handler env" for env :: "'d gen_env"
  by unfold_locales
    (auto simp: systemone_handler_def coherent_def systemone_Handle_def Let_def list_ex_append
      split: sum.splits prod.splits call_result.splits)

interpretation health: http_handler "health_handler enc" for enc
  by unfold_locales (simp_all add: health_handler_def health_Handle_def coherent_def)

interpretation models: http_handler "models_handler enc data_json dc object unix execute" for enc data_json dc object unix execute
  by unfold_locales (auto simp: models_handler_def models_Handle_def coherent_def Let_def split: sum.splits)

interpretation proofs: http_handler "proof_handler env response_id" for env response_id
  by unfold_locales (auto simp: proof_handler_def HandleGetProof_def coherent_def Let_def split: sum.splits option.splits)

section \<open>The gateway\<close>

text \<open>The public handler of the gateway, without what \<open>net/http\<close> adds; the enclave's own routes are given.\<close>

record 'd gateway =
  gw_enc :: "json \<Rightarrow> string"
  gw_gen :: "'d gen_env"
  gw_data_json :: "model_data \<Rightarrow> json"
  gw_decimal :: "'d decimal"
  gw_object :: "string \<Rightarrow> jobject option"
  gw_unix :: "time \<Rightarrow> int"
  gw_models :: "server_request \<Rightarrow> go_error + 'd model_catalog_entry list"
  gw_proofs :: proof_env
  gw_uuid :: string
  gw_ms :: int
  gw_unmatched :: "server_request \<Rightarrow> 'd http_action list"

definition response_id :: "server_request \<Rightarrow> string" where
  "response_id r = last (split_byte (CHR ''/'') (hr_Path r))"

definition gateway_handlers :: "'d gateway \<Rightarrow> 'd handler option \<Rightarrow> 'd handler option \<Rightarrow> 'd http_handlers" where
  "gateway_handlers gw confidential attestation =
     \<lparr>hh_health = health_handler (gw_enc gw),
      hh_models = models_handler (gw_enc gw) (gw_data_json gw) (gw_decimal gw) (gw_object gw) (gw_unix gw) (gw_models gw),
      hh_chat = chat_handler (gw_gen gw), hh_systemOne = Some (systemone_handler (gw_gen gw)), hh_confidential = confidential,
      hh_tinfoil = Some (proof_handler (gw_proofs gw) response_id), hh_attestation = attestation\<rparr>"

definition gateway_serve :: "'d gateway \<Rightarrow> 'd handler option \<Rightarrow> 'd handler option \<Rightarrow> 'd handler" where
  "gateway_serve gw confidential attestation =
     NewRouter (gw_enc gw) (gw_uuid gw) (gw_ms gw) (gw_unmatched gw) (gateway_handlers gw confidential attestation)"

lemma gateway_routes_behave:
  assumes "pred_option well_behaved confidential" "pred_option well_behaved attestation"
  shows "\<forall>(m, pat, h) \<in> set (routes (gateway_handlers gw confidential attestation)). well_behaved h"
  using assms chat.behaves systemone.behaves health.behaves models.behaves proofs.behaves
  by (auto simp: routes_def gateway_handlers_def route_if_def split: option.splits)

text \<open>
  C38: Every request to the gateway is answered and counted once, with the status the client got.
  Whatever request comes in and whichever handler runs, also when it panics, no panic leaves the
  chain; the request is one in flight until it ends and then none; it is counted once, under the
  pattern of its route and the class of the status that was sent; and its reply carries a request
  id of at most 128 plain characters, which is the caller's own when that is valid. The two routes
  of the enclave and the answers of the mux itself are only asked to name their status first.
\<close>
theorem every_request_is_answered_and_counted:
  assumes "pred_option well_behaved confidential" "pred_option well_behaved attestation"
    and "well_behaved (\<lambda>r. (gw_unmatched gw r, None))" "validRequestID (gw_uuid gw)"
    and "gateway_serve gw confidential attestation r = (acts, panic)"
  shows "\<exists>id body. panic = None
    \<and> acts = inflight 1 # (SetHeader ''X-Request-ID'' id # body)
        @ [inflight (- 1), Service (EvMetric (Count ''http_requests_total''
             [served_route (gateway_handlers gw confidential attestation) r, hr_Method r, statusClass (rp_Status (client_reply acts))] 1))]
    \<and> validRequestID id \<and> (validRequestID (hr_Header r ''X-Request-ID'') \<longrightarrow> id = hr_Header r ''X-Request-ID'')
    \<and> rp_Header (client_reply acts) ''X-Request-ID'' = Some id"
  using chain_answers [OF gateway_routes_behave [OF assms(1,2)] assms(3,4)] assms(5) unfolding gateway_serve_def by blast

subsection \<open>A request that panics\<close>

definition toy_dollar :: "unit decimal" where
  "toy_dollar = \<lparr>dc_Mul = (\<lambda>a b. ()), dc_FromInt = (\<lambda>n. ()), dc_FromFloat = (\<lambda>f. ()), dc_Round = (\<lambda>d n. d), dc_IntPart = (\<lambda>d. 0),
     dc_Float64 = (\<lambda>d. 0)\<rparr>"

definition toy_gateway :: "unit gateway" where
  "toy_gateway = \<lparr>gw_enc = (\<lambda>v. ''{}''),
     gw_gen = \<lparr>gn_ports = toy_ports, gn_enc = (\<lambda>v. ''{}''), gn_type_name = (\<lambda>e. []), gn_parse = (\<lambda>s. None), gn_type_error = (\<lambda>fs. []),
       gn_id = ''id'', gn_flusher = True, gn_schedule = slow_schedule, gn_start = 0\<rparr>,
     gw_data_json = (\<lambda>d. JNull), gw_decimal = toy_dollar, gw_object = (\<lambda>s. None), gw_unix = (\<lambda>t. t),
     gw_models = (\<lambda>r. Inr [model_entry 0x7FF0000000000000 (toy_model\<lparr>m_Currency := ''EUR''\<rparr>)]),
     gw_proofs = \<lparr>pe_auth = (\<lambda>t. Inl CtxCanceled), pe_proofs = None, pe_enc = (\<lambda>v. []), pe_type_name = (\<lambda>e. []), pe_json = (\<lambda>p. JNull),
       pe_format = (\<lambda>t. [])\<rparr>,
     gw_uuid = ''u'', gw_ms = 0, gw_unmatched = (\<lambda>r. [WriteHeader 404])\<rparr>"

definition toy_get :: server_request where
  "toy_get = plain_post\<lparr>hr_Method := ''GET'', hr_Path := ''/v1/models''\<rparr>"

theorem every_request_is_answered_and_counted_witness:
  "\<exists>body. fst (gateway_serve toy_gateway None None toy_get)
     = inflight 1 # (SetHeader ''X-Request-ID'' ''u'' # body)
        @ [inflight (- 1), Service (EvMetric (Count ''http_requests_total'' [''GET /v1/models'', ''GET'', ''5xx''] 1))]
     \<and> rp_Status (client_reply (fst (gateway_serve toy_gateway None None toy_get))) = 500"
proof -
  let ?out = "gateway_serve toy_gateway None None toy_get"
  have "well_behaved (\<lambda>r. (gw_unmatched toy_gateway r, None))"
    by (simp add: well_behaved_def coherent_def toy_gateway_def)
  moreover have "validRequestID (gw_uuid toy_gateway)" "\<not> validRequestID (hr_Header toy_get ''X-Request-ID'')"
    by (simp_all add: toy_gateway_def validRequestID_def valid_id_byte_def is_letter_def is_lower_def toy_get_def plain_post_def)
  moreover have "served_route (gateway_handlers toy_gateway None None) toy_get = ''GET /v1/models''"
    "rp_Status (client_reply (fst ?out)) = 500" by code_simp+
  moreover have "statusClass 500 = ''5xx''" "hr_Method toy_get = ''GET''" by (simp_all add: statusClass_def toy_get_def)
  moreover have "?out = (fst ?out, snd ?out)" by simp
  moreover have "hd (tl (fst ?out)) = SetHeader ''X-Request-ID'' ''u''"
    by (simp add: gateway_serve_def NewRouter_def Metrics_def RequestID_def case_prod_unfold Let_def Recovery_def split: option.splits)
      (simp add: toy_gateway_def validRequestID_def toy_get_def plain_post_def)
  ultimately show ?thesis
    using every_request_is_answered_and_counted [of None None toy_gateway toy_get "fst ?out" "snd ?out"] by auto
qed

end
