(* ===== verification/ProofFacts.thy ===== *)
theory ProofFacts
  imports ServiceFacts
begin

text \<open>
  Where the transport proofs that the service stores come from: the proof of an answer or of a
  stream reaches the repository with what was measured unchanged, for the account that asked.
\<close>

text \<open>What a proof says of the enclave; the rest names the account, the model and the response.\<close>

definition measures :: "tinfoil_proof \<Rightarrow> tinfoil_proof \<Rightarrow> bool" where
  "measures p given =
     (proof_Status p = proof_Status given \<and> proof_FailureReason p = proof_FailureReason given
      \<and> proof_Digest p = proof_Digest given \<and> proof_CodeFingerprint p = proof_CodeFingerprint given
      \<and> proof_EnclaveFingerprint p = proof_EnclaveFingerprint given \<and> proof_TLSPublicKey p = proof_TLSPublicKey given
      \<and> proof_HPKEPublicKey p = proof_HPKEPublicKey given \<and> proof_ConfigRepo p = proof_ConfigRepo given
      \<and> proof_EnclaveHost p = proof_EnclaveHost given
      \<and> proof_VerificationEvidenceJSON p = proof_VerificationEvidenceJSON given)"

fun proof_of :: "'d effect \<Rightarrow> tinfoil_proof list" where
  "proof_of (EvProof p) = [p]"
| "proof_of e = []"

definition stored :: "'d effect list \<Rightarrow> tinfoil_proof list" where "stored ev = concat (map proof_of ev)"

lemma stored_simps [simp]:
  "stored [] = []" "stored (e # ev) = proof_of e @ stored ev" "stored (a @ b) = stored a @ stored b"
  by (simp_all add: stored_def)

lemma stored_metrics [simp]: "stored (map EvMetric ms) = []"
  by (induction ms) simp_all

definition stored_for :: "held_call \<Rightarrow> 'd public_model \<Rightarrow> tinfoil_proof \<Rightarrow> tinfoil_proof \<Rightarrow> bool" where
  "stored_for h target given p =
     (measures p given \<and> proof_AccountID p = acc_ID (auth_Account (hd_auth h)) \<and> proof_APIKeyID p = key_ID (auth_APIKey (hd_auth h))
      \<and> proof_ProviderResponseID p \<noteq> [] \<and> EffectiveProofMode target = ProofModeTinfoilAttestedTransport)"

lemma finish_call_stores:
  assumes "p \<in> set (stored (finish_call po h target r))"
  shows "\<exists>given. o_proof r = Some given \<and> stored_for h target given p"
  using assms
  by (auto simp: finish_call_def finishProxy_def storeTinfoilProof_def stored_for_def measures_def Let_def
      split: option.splits if_splits)

lemma prime_proof: "ps_proof (snd (prime cd p)) = ps_proof p"
proof (induction cd p rule: prime.induct)
  case (1 cd p)
  obtain t p1 where t: "take_line cd p = (t, p1)" by force
  then have "ps_proof p1 = ps_proof p" using take_line_frame [of cd p] by auto
  then show ?case using "1.IH" [OF t [symmetric]] t by (cases t) (simp_all add: prime.simps [of cd p])
qed

text \<open>What an attempt stores, and the proof of the stream it hands out, are of its own call.\<close>

lemma attempt_stores:
  assumes "attempt po h target = (res, ev)" and "p \<in> set (stored ev)"
  shows "\<exists>out given. po_complete po target (hd_masked h) = Inr (out, Some given) \<and> stored_for h target given p
    \<and> validateRequest (hd_endpoint h) (hd_req h) target = None"
  using assms finish_call_stores [of p po h target]
  by (auto simp: attempt_def Let_def split: option.splits if_splits sum.splits prod.splits) fastforce+

lemma attempt_streams:
  assumes "attempt po h target = (Inr (Streaming m q), ev)"
  shows "m = target \<and> (\<exists>text' rerr. po_stream po target (hd_masked h) = Inr (text', rerr, ps_proof q))
    \<and> validateRequest (hd_endpoint h) (hd_req h) target = None"
proof -
  define start where "start = (\<lambda>text' rerr given. (newProxyStream text' rerr (m_PublicModelID target))\<lparr>ps_proof := given,
     ps_hideUsage := \<not> wantsUsage (cd_parse (po_codec po) (hd_raw h)), ps_unmask := newUnmasker (hd_mapping h)\<rparr>)"
  obtain text' rerr given q' where s: "validateRequest (hd_endpoint h) (hd_req h) target = None"
      "po_stream po target (hd_masked h) = Inr (text', rerr, given)" "m = target" "q = q'\<lparr>ps_onEnd := True\<rparr>"
      "prime (po_codec po) (start text' rerr given) = (None, q')"
    using assms unfolding start_def by (auto simp: attempt_def Let_def split: option.splits if_splits sum.splits prod.splits)
  then have "ps_proof q' = given" using prime_proof [of "po_codec po" "start text' rerr given"] by (simp add: start_def)
  then show ?thesis using s by simp
qed

section \<open>A request\<close>

text \<open>Whatever is done comes from the attempt at a target of the model.\<close>

lemma run_held_tries:
  assumes "run_held po model h = (res, ev)"
  shows "(\<forall>p \<in> set (stored ev). \<exists>t r e. attempt po h t = (r, e) \<and> p \<in> set (stored e))
    \<and> (\<forall>c. res = Inr c \<longrightarrow> (\<exists>t e. attempt po h t = (Inr c, e)))"
proof -
  define P where "P = (\<lambda>p. \<exists>t r e. attempt po h t = (r, e) \<and> p \<in> set (stored e))"
  define Q where "Q = (\<lambda>c. \<exists>t e. attempt po h t = (Inr c, e))"
  have tried: "attempt po h t = (r, e) \<Longrightarrow> p \<in> set (stored e) \<Longrightarrow> P p" "attempt po h t = (Inr c, e) \<Longrightarrow> Q c" for t r e p c
    by (auto simp: P_def Q_def)
  have "(\<forall>p \<in> set (stored ev). P p) \<and> (\<forall>c. res = Inr c \<longrightarrow> Q c)"
    using assms
    by (auto simp: run_held_def Let_def intro: tried split: option.splits if_splits prod.splits sum.splits)
  then show ?thesis by (simp add: P_def Q_def)
qed

lemma early_stored [simp]: "stored (early_metrics endpoint req m err) = []"
  by (simp add: early_metrics_def)

lemma refusal_stored: "list_all refusal_effect ev \<Longrightarrow> stored ev = []"
  by (induction ev) (auto simp: refusal_effect_def)

lemma admit_stores_nothing: "stored (snd (admit po rid endpoint raw req token)) = []"
  by (cases rule: admit_stages [of po rid endpoint raw req token]) (simp_all add: refusal_stored)

text \<open>A proof that is stored at return, or at the end of the stream, comes from a provider call of this request.\<close>

lemma Proxy_stores:
  assumes "Proxy po rid endpoint raw req token = (res, ev)" and "p \<in> set (stored ev)"
  shows "\<exists>h target out given. po_auth po token = Inr (hd_auth h) \<and> po_complete po target (hd_masked h) = Inr (out, Some given)
    \<and> stored_for h target given p \<and> validateRequest endpoint (hd_req h) target = None"
proof -
  obtain r1 ev1 where a: "admit po rid endpoint raw req token = (r1, ev1)" by force
  then have quiet: "stored ev1 = []" using admit_stores_nothing [of po rid endpoint raw req token] by simp
  show ?thesis
  proof (cases rule: admit_stages [of po rid endpoint raw req token])
    case (refused err ev')
    then have "ev = ev1" using assms(1) a by (simp add: Proxy_def)
    then show ?thesis using assms(2) quiet by simp
  next
    case (held auth raw' req' model exec h)
    obtain r ev2 where run: "run_held po model h = (r, ev2)" by force
    have "ev = ev1 @ ev2" using assms(1) held(12) run a by (auto simp: Proxy_def split: sum.splits)
    then have "p \<in> set (stored ev2)" using assms(2) quiet by simp
    then obtain t r' e where "attempt po h t = (r', e)" "p \<in> set (stored e)" using run_held_tries [OF run] by blast
    then show ?thesis using attempt_stores held(1,7,8) by metis
  qed
qed

lemma Proxy_hands_out:
  assumes "Proxy po rid endpoint raw req token = (Inr (h, Streaming m q), ev)"
  shows "po_auth po token = Inr (hd_auth h) \<and> (\<exists>text' rerr. po_stream po m (hd_masked h) = Inr (text', rerr, ps_proof q))
    \<and> validateRequest endpoint (hd_req h) m = None"
proof (cases rule: admit_stages [of po rid endpoint raw req token])
  case (refused err ev')
  then show ?thesis using assms by (simp add: Proxy_def)
next
  case (held auth raw' req' model exec h')
  obtain r ev2 where run: "run_held po model h' = (r, ev2)" by force
  then have "h' = h" "r = Inr (Streaming m q)" using assms held(12) by (auto simp: Proxy_def split: sum.splits)
  then obtain t e where "attempt po h t = (Inr (Streaming m q), e)" using run_held_tries [OF run] by blast
  then show ?thesis using attempt_streams [of po h t m q e] held(1,7,8) \<open>h' = h\<close> by auto
qed

lemma step_proof: "stream_step cd p q \<Longrightarrow> ps_proof q = ps_proof p"
  by (cases rule: Next_cases [of cd p]) (auto simp: finish_stream_def stream_end_def stream_Close_def Let_def)

lemma steps_proof: "(stream_step cd)\<^sup>*\<^sup>* p q \<Longrightarrow> ps_proof q = ps_proof p"
  by (induction rule: rtranclp_induct) (simp_all add: step_proof)

lemma settle_call_stores:
  assumes "fresh_stream (Inr (Streaming m p) :: go_error + 'd call_result)" and "(stream_step cd)\<^sup>*\<^sup>* p q"
    and "x \<in> set (stored (settle_call po h (m :: 'd public_model) q))"
  shows "\<exists>given. ps_proof p = Some given \<and> stored_for h m given x"
proof -
  have "settle_inv p" using assms(1) by (simp add: settle_inv_def)
  then have "settle_inv q" by (rule ss.run_inv [OF assms(2)])
  then have all: "\<forall>r \<in> set (ps_settled q). o_proof r = ps_proof p"
    using steps_proof [OF assms(2)] by (auto simp: settle_inv_def split: if_splits)
  obtain r where "r \<in> set (ps_settled q)" "x \<in> set (stored (finish_call po h m r))"
    using assms(3) by (auto simp: settle_call_def stored_def)
  then show ?thesis using all finish_call_stores by metis
qed

end
