(* ===== verification/Logger.thy ===== *)
theory Logger
  imports Errors
begin

text \<open>
  The logger (\<open>pkg/observability/logger/zap.go\<close>): its configuration for a level, and the lines that
  are written. Building a logger for a configuration is \<open>zap\<close>'s.
\<close>

datatype zap_level = DebugLevel | InfoLevel | WarnLevel | ErrorLevel

text \<open>Levels are ordered as \<open>zap\<close> numbers them.\<close>

fun severity :: "zap_level \<Rightarrow> int" where
  "severity DebugLevel = -1"
| "severity InfoLevel = 0"
| "severity WarnLevel = 1"
| "severity ErrorLevel = 2"

lemma severity_inject: "severity a = severity b \<longleftrightarrow> a = b"
  by (cases a; cases b) simp_all

instantiation zap_level :: linorder
begin

definition less_eq_zap_level :: "zap_level \<Rightarrow> zap_level \<Rightarrow> bool" where
  "less_eq_zap_level a b = (severity a \<le> severity b)"

definition less_zap_level :: "zap_level \<Rightarrow> zap_level \<Rightarrow> bool" where
  "less_zap_level a b = (severity a < severity b)"

instance
  by standard (auto simp: less_eq_zap_level_def less_zap_level_def severity_inject)

end

record zap_config =
  zc_Level :: zap_level
  zc_Sampling :: bool
  zc_InitialFields :: "(string \<times> string) list"

definition requestLoggingConfig :: "string \<Rightarrow> string \<Rightarrow> zap_config \<times> bool" where
  "requestLoggingConfig version level =
     (let lv = (if level = ''debug'' then DebugLevel else if level = ''info'' then InfoLevel
                else if level = ''warn'' then WarnLevel else if level = ''error'' then ErrorLevel else InfoLevel)
      in (\<lparr>zc_Level = lv, zc_Sampling = False, zc_InitialFields = [(''version'', version)]\<rparr>, level = ''debug''))"

record zap_logger =
  zl_Config :: zap_config
  zl_Verbose :: bool

definition NewZapLogger :: "(zap_config \<Rightarrow> go_error option) \<Rightarrow> string \<Rightarrow> string \<Rightarrow> go_error + zap_logger" where
  "NewZapLogger build version level =
     (let (cfg, verbose) = requestLoggingConfig version level
      in case build cfg of Some err \<Rightarrow> Inl err | None \<Rightarrow> Inr \<lparr>zl_Config = cfg, zl_Verbose = verbose\<rparr>)"

section \<open>Lines\<close>

record log_line =
  ll_Level :: zap_level
  ll_Message :: string
  ll_Fields :: "(string \<times> meta) list"

text \<open>A line is written at its level or above; the fields of the configuration are on every line.\<close>

definition zap_write :: "zap_logger \<Rightarrow> zap_level \<Rightarrow> string \<Rightarrow> (string \<times> meta) list \<Rightarrow> log_line list \<Rightarrow> log_line list" where
  "zap_write l lv msg kvs out =
     (if zc_Level (zl_Config l) \<le> lv
      then out @ [\<lparr>ll_Level = lv, ll_Message = msg, ll_Fields = map (\<lambda>(k, v). (k, MStr v)) (zc_InitialFields (zl_Config l)) @ kvs\<rparr>]
      else out)"

datatype log_call = Debug string "(string \<times> meta) list" | Info string "(string \<times> meta) list" | Warn string "(string \<times> meta) list"
  | Error string "(string \<times> meta) list" | Printf string        \<comment> \<open>of the formatted text\<close>

fun zap_call :: "zap_logger \<Rightarrow> log_call \<Rightarrow> log_line list \<Rightarrow> log_line list" where
  "zap_call l (Debug msg kvs) out = zap_write l DebugLevel msg kvs out"
| "zap_call l (Info msg kvs) out = zap_write l InfoLevel msg kvs out"
| "zap_call l (Warn msg kvs) out = zap_write l WarnLevel msg kvs out"
| "zap_call l (Error msg kvs) out = zap_write l ErrorLevel msg kvs out"
| "zap_call l (Printf text) out = (let msg = trim_space text in if msg = [] then out else zap_write l InfoLevel msg [] out)"

definition Verbose :: "zap_logger \<Rightarrow> bool" where "Verbose l = zl_Verbose l"

text \<open>Without sampling every call of a level that is on gives a line, however often its message came before, with the version.\<close>

fun call_level :: "log_call \<Rightarrow> zap_level" where
  "call_level (Debug msg kvs) = DebugLevel"
| "call_level (Info msg kvs) = InfoLevel"
| "call_level (Warn msg kvs) = WarnLevel"
| "call_level (Error msg kvs) = ErrorLevel"
| "call_level (Printf text) = InfoLevel"

definition visible :: "zap_logger \<Rightarrow> log_call \<Rightarrow> bool" where
  "visible l c = (zc_Level (zl_Config l) \<le> call_level c \<and> (case c of Printf t \<Rightarrow> trim_space t \<noteq> [] | _ \<Rightarrow> True))"

lemma zap_call_line:
  "zap_call l c out = (if visible l c then out @ [last (zap_call l c [])] else out)"
  by (cases c) (auto simp: visible_def zap_write_def Let_def)

lemma calls_lines: "length (fold (zap_call l) cs out) = length out + length (filter (visible l) cs)"
proof (induction cs arbitrary: out)
  case (Cons c cs)
  have "length (zap_call l c out) = length out + (if visible l c then 1 else 0)" by (subst zap_call_line) simp
  then show ?case using Cons.IH by simp
qed simp

lemma every_request_line_kept:
  assumes "NewZapLogger build version level = Inr l"
  shows "length (fold (zap_call l) cs []) = length (filter (visible l) cs) \<and> visible l (Error msg kvs)
    \<and> (visible l (Debug msg kvs) \<longleftrightarrow> level = ''debug'') \<and> (Verbose l \<longleftrightarrow> level = ''debug'')
    \<and> zc_InitialFields (zl_Config l) = [(''version'', version)]"
  using assms calls_lines [of l cs "[]"]
  by (auto simp: NewZapLogger_def requestLoggingConfig_def visible_def less_eq_zap_level_def Verbose_def Let_def split: option.splits if_splits)

end
