(* ===== verification/Startup.thy ===== *)
theory Startup
  imports BootstrapFacts Attestation Presidio ListModels MeteringClient ChatRequest Logger
begin

text \<open>
  Starting the gateway (\<open>main.go\<close>, \<open>timeouts.go\<close>): what it reads from the environment, what an
  enclave does before that, and what it listens with. The environment is a function, empty where a
  variable is unset; \<open>strconv.ParseFloat\<close>, the system calls and the libraries are parameters.
\<close>

section \<open>Reading the environment\<close>

type_synonym environ = "string \<Rightarrow> string"

definition envOr :: "environ \<Rightarrow> string \<Rightarrow> string \<Rightarrow> string" where
  "envOr getenv key defaultVal = (if getenv key \<noteq> [] then getenv key else defaultVal)"

definition envFloatOr :: "environ \<Rightarrow> (string \<Rightarrow> float64 option) \<Rightarrow> string \<Rightarrow> float64 \<Rightarrow> float64" where
  "envFloatOr getenv parse key defaultVal =
     (if getenv key \<noteq> []
      then (case parse (getenv key) of Some parsed \<Rightarrow> if f64_positive parsed then parsed else defaultVal | None \<Rightarrow> defaultVal)
      else defaultVal)"

text \<open>\<open>strconv.ParseInt\<close> and \<open>Atoi\<close> in base ten: a sign, digits, and the range of \<open>int64\<close>.\<close>

definition go_parse_int :: "string \<Rightarrow> int option" where
  "go_parse_int s =
     (let v = (if has_prefix s ''-'' then map_option (\<lambda>n. - int n) (parse_digits (drop 1 s))
               else if has_prefix s ''+'' then map_option int (parse_digits (drop 1 s))
               else map_option int (parse_digits s))
      in case v of Some i \<Rightarrow> if - (2 ^ 63) \<le> i \<and> i < 2 ^ 63 then Some i else None | None \<Rightarrow> None)"

definition positiveIntEnv :: "environ \<Rightarrow> string \<Rightarrow> int \<Rightarrow> string + int" where
  "positiveIntEnv getenv name fallback =
     (let v = trim_space (getenv name)
      in if v = [] then Inr fallback
         else case go_parse_int v of
                Some n \<Rightarrow> if n \<le> 0 then Inl (name @ '' must be a positive whole number'') else Inr n
              | None \<Rightarrow> Inl (name @ '' must be a positive whole number''))"

definition timeoutSeconds :: "environ \<Rightarrow> string \<Rightarrow> duration \<Rightarrow> string + duration" where
  "timeoutSeconds getenv name fallback =
     (let v = getenv name
      in if v = [] then Inr fallback
         else case go_parse_int v of
                Some seconds \<Rightarrow>
                  if seconds \<le> 0 \<or> seconds > (2 ^ 63 - 1) div second then Inl (name @ '' must be a positive number of seconds'')
                  else Inr (wrap64 (seconds * second))
              | None \<Rightarrow> Inl (name @ '' must be a positive number of seconds''))"

record transport_timeouts =
  tt_ProviderSilence :: duration
  tt_ClientIO :: duration

definition loadTransportTimeouts :: "environ \<Rightarrow> string + transport_timeouts" where
  "loadTransportTimeouts getenv =
     (case timeoutSeconds getenv ''PROVIDER_SILENCE_TIMEOUT_SECONDS'' (15 * minute) of
        Inl err \<Rightarrow> Inl err
      | Inr provider \<Rightarrow>
          (case timeoutSeconds getenv ''CLIENT_IO_TIMEOUT_SECONDS'' minute of
             Inl err \<Rightarrow> Inl err
           | Inr clientIO \<Rightarrow> Inr \<lparr>tt_ProviderSilence = provider, tt_ClientIO = clientIO\<rparr>))"

text \<open>\<open>0.4\<close> is \<open>0x3FD999999999999A\<close>. Without a filter there is no adapter.\<close>

record pii_setup =
  ps_Filter :: "presidio_config option"
  ps_Language :: string
  ps_FailOpen :: bool

definition buildPIIFilter :: "environ \<Rightarrow> (string \<Rightarrow> float64 option) \<Rightarrow> pii_setup" where
  "buildPIIFilter getenv parse =
     (let enabled = to_lower (envOr getenv ''PII_FILTER_ENABLED'' ''true'')
      in if enabled \<in> {''false'', ''0'', ''no''} then \<lparr>ps_Filter = None, ps_Language = ''en'', ps_FailOpen = False\<rparr>
         else let url = envOr getenv ''PRESIDIO_ANALYZER_URL'' ''http://presidio-analyzer:3000'';
                  language = envOr getenv ''PII_FILTER_LANGUAGE'' ''en'';
                  failOpen = equal_fold (envOr getenv ''PII_FILTER_FAIL_OPEN'' ''false'') ''true'';
                  v = getenv ''PII_FILTER_SCORE_THRESHOLD'';
                  threshold = (if v \<noteq> [] then (case parse v of Some f \<Rightarrow> f | None \<Rightarrow> 0x3FD999999999999A) else 0x3FD999999999999A);
                  w = getenv ''PII_FILTER_TIMEOUT_MS'';
                  timeout = (if w \<noteq> [] then (case go_parse_int w of
                                 Some ms \<Rightarrow> if ms > 0 then wrap64 (ms * millisecond) else 1500 * millisecond
                               | None \<Rightarrow> 1500 * millisecond)
                             else 1500 * millisecond)
              in \<lparr>ps_Filter = Some (NewAdapter \<lparr>pcf_BaseURL = url, pcf_DefaultLanguage = language, pcf_ScoreThreshold = threshold,
                    pcf_Timeout = timeout\<rparr>),
                  ps_Language = language, ps_FailOpen = failOpen\<rparr>)"

subsection \<open>What is read is within bounds\<close>

lemma wrap64_id: "- (2 ^ 63) \<le> i \<Longrightarrow> i < 2 ^ 63 \<Longrightarrow> wrap64 i = i"
  by (simp add: wrap64_def)

lemma wrap64_range: "- (2 ^ 63) \<le> wrap64 i \<and> wrap64 i < 2 ^ 63"
  by (simp add: wrap64_def)

lemma go_parse_int_range: "go_parse_int s = Some i \<Longrightarrow> - (2 ^ 63) \<le> i \<and> i < 2 ^ 63"
  by (auto simp: go_parse_int_def Let_def split: option.splits if_splits)

lemma timeoutSeconds_sound:
  assumes "timeoutSeconds getenv name fallback = Inr d" "0 < fallback" "fallback < 2 ^ 63"
  shows "0 < d \<and> d < 2 ^ 63 \<and> (getenv name \<noteq> [] \<longrightarrow> (\<exists>n. go_parse_int (getenv name) = Some n \<and> d = n * second))"
proof (cases "getenv name = []")
  case True
  then show ?thesis using assms by (simp add: timeoutSeconds_def)
next
  case False
  then obtain n where n: "go_parse_int (getenv name) = Some n" "0 < n" "n \<le> (2 ^ 63 - 1) div second" "d = wrap64 (n * second)"
    using assms(1) by (auto simp: timeoutSeconds_def Let_def split: option.splits if_splits)
  then have "n * second < 2 ^ 63" by (simp add: second_def millisecond_def)
  then show ?thesis using n by (simp add: wrap64_id second_def millisecond_def)
qed

lemma loadTransportTimeouts_sound:
  "loadTransportTimeouts getenv = Inr t \<Longrightarrow> 0 < tt_ProviderSilence t \<and> tt_ProviderSilence t < 2 ^ 63 \<and> 0 < tt_ClientIO t \<and> tt_ClientIO t < 2 ^ 63"
  using timeoutSeconds_sound [of getenv "''PROVIDER_SILENCE_TIMEOUT_SECONDS''" "15 * minute"]
    timeoutSeconds_sound [of getenv "''CLIENT_IO_TIMEOUT_SECONDS''" minute]
  by (auto simp: loadTransportTimeouts_def minute_def second_def millisecond_def split: sum.splits)

lemma positiveIntEnv_sound: "positiveIntEnv getenv name fallback = Inr n \<Longrightarrow> 0 < fallback \<Longrightarrow> fallback < 2 ^ 63 \<Longrightarrow> 0 < n \<and> n < 2 ^ 63"
  using go_parse_int_range by (auto simp: positiveIntEnv_def Let_def split: option.splits if_splits)

lemma buildPIIFilter_sound:
  assumes "ps_Filter (buildPIIFilter getenv parse) = Some cfg"
  shows "0 < pcf_Timeout cfg \<and> pcf_Timeout cfg < 2 ^ 63 \<and> pcf_DefaultLanguage cfg \<noteq> []"
proof -
  have "pcf_Timeout (NewAdapter c) > 0" for c by (simp add: NewAdapter_def millisecond_def)
  moreover have "pcf_Timeout c < 2 ^ 63 \<Longrightarrow> pcf_Timeout (NewAdapter c) < 2 ^ 63" for c by (simp add: NewAdapter_def millisecond_def)
  moreover have "pcf_DefaultLanguage (NewAdapter c) \<noteq> []" for c by (simp add: NewAdapter_def)
  ultimately show ?thesis
    using assms wrap64_range by (auto simp: buildPIIFilter_def Let_def millisecond_def split: if_splits option.splits)
qed

lemma envFloatOr_sound: "f64_positive d \<Longrightarrow> f64_positive (envFloatOr getenv parse key d)"
  by (simp add: envFloatOr_def split: option.splits)

section \<open>The configuration\<close>

record gateway_config =
  gc_Port :: string
  gc_Logger :: zap_logger
  gc_RouterURL :: string
  gc_MeteringURL :: string
  gc_MeteringToken :: string
  gc_Timeouts :: transport_timeouts
  gc_EURToUSD :: float64
  gc_PII :: pii_setup
  gc_GuestMaxOutput :: int

text \<open>\<open>1.08\<close> is \<open>0x3FF147AE147AE148\<close>. The left side is what \<open>log.Fatal\<close> prints.\<close>

definition load_config :: "environ \<Rightarrow> (string \<Rightarrow> float64 option) \<Rightarrow> (string \<Rightarrow> go_error + zap_logger) \<Rightarrow> string + gateway_config" where
  "load_config getenv parse logger =
     (let port = envOr getenv ''PORT'' ''8080''; logLevel = envOr getenv ''LOG_LEVEL'' ''info'';
          routerURL = envOr getenv ''ROUTER_URL'' ''http://localhost:8083''; meteringURL = envOr getenv ''METERING_URL'' ''http://localhost:8084'';
          meteringToken = envOr getenv ''METERING_TOKEN'' ''dev-metering-token''
      in case loadTransportTimeouts getenv of
        Inl err \<Rightarrow> Inl err
      | Inr timeouts \<Rightarrow>
     (case logger logLevel of
        Inl err \<Rightarrow> Inl (''failed to create logger: '' @ error_text err)
      | Inr log \<Rightarrow>
     (case positiveIntEnv getenv ''GUEST_MAX_OUTPUT_TOKENS'' DefaultGuestMaxOutputTokens of
        Inl err \<Rightarrow> Inl (''invalid guest chat configuration: '' @ err)
      | Inr guestMaxOutput \<Rightarrow>
          Inr \<lparr>gc_Port = port, gc_Logger = log, gc_RouterURL = routerURL, gc_MeteringURL = meteringURL, gc_MeteringToken = meteringToken,
               gc_Timeouts = timeouts, gc_EURToUSD = envFloatOr getenv parse ''EUR_TO_USD_FALLBACK_RATE'' defaultEURToUSDRate,
               gc_PII = buildPIIFilter getenv parse, gc_GuestMaxOutput = guestMaxOutput\<rparr>)))"

definition config_bounds :: "gateway_config \<Rightarrow> bool" where
  "config_bounds c =
     (0 < tt_ProviderSilence (gc_Timeouts c) \<and> tt_ProviderSilence (gc_Timeouts c) < 2 ^ 63
      \<and> 0 < tt_ClientIO (gc_Timeouts c) \<and> tt_ClientIO (gc_Timeouts c) < 2 ^ 63
      \<and> 0 < gc_GuestMaxOutput c \<and> gc_GuestMaxOutput c < 2 ^ 63 \<and> f64_positive (gc_EURToUSD c)
      \<and> (\<forall>cfg. ps_Filter (gc_PII c) = Some cfg \<longrightarrow> 0 < pcf_Timeout cfg \<and> pcf_Timeout cfg < 2 ^ 63 \<and> pcf_DefaultLanguage cfg \<noteq> []))"

lemma load_config_bounds: "load_config getenv parse logger = Inr c \<Longrightarrow> config_bounds c"
proof -
  assume "load_config getenv parse logger = Inr c"
  then obtain timeouts n where "loadTransportTimeouts getenv = Inr timeouts"
      "positiveIntEnv getenv ''GUEST_MAX_OUTPUT_TOKENS'' DefaultGuestMaxOutputTokens = Inr n"
      "gc_Timeouts c = timeouts" "gc_GuestMaxOutput c = n" "gc_PII c = buildPIIFilter getenv parse"
      "gc_EURToUSD c = envFloatOr getenv parse ''EUR_TO_USD_FALLBACK_RATE'' defaultEURToUSDRate"
    by (auto simp: load_config_def Let_def split: sum.splits option.splits)
  moreover have "f64_positive defaultEURToUSDRate" by code_simp
  ultimately show ?thesis
    using loadTransportTimeouts_sound positiveIntEnv_sound buildPIIFilter_sound envFloatOr_sound
    by (simp add: config_bounds_def DefaultGuestMaxOutputTokens_def)
qed

section \<open>Starting\<close>

record 'key boot_env =
  bt_enabled :: bool                                    \<comment> \<open>\<open>profile.Enabled\<close>\<close>
  bt_build :: build
  bt_environ :: environ
  bt_bundle :: bundle_env
  bt_decode :: "bootstrap_request strict_reader"
  bt_accepted :: "go_error + connection"                \<comment> \<open>the connection of the parent\<close>
  bt_now :: time
  bt_kms :: "'key kms_env"
  bt_setenv :: "string \<Rightarrow> string \<Rightarrow> go_error option"
  bt_describe :: "go_error \<Rightarrow> string"
  bt_transport_type :: "string option"                  \<comment> \<open>an unexpected type of the default transport\<close>
  bt_loopback :: "go_error option"
  bt_listen_tls :: "go_error option"
  bt_parse :: "string \<Rightarrow> float64 option"
  bt_zap :: "zap_config \<Rightarrow> go_error option"
  bt_version :: string
  bt_identity :: "go_error + string"                    \<comment> \<open>the public key of a new private key\<close>
  bt_session :: "go_error + (string \<Rightarrow> string \<Rightarrow> string \<Rightarrow> go_error + nsm_reply)"
  bt_random :: "go_error + string"
  bt_json :: "json \<Rightarrow> string"
  bt_sha384 :: "string \<Rightarrow> string"
  bt_listen :: "nat \<Rightarrow> go_error option"

definition boot_digest :: "'key boot_env \<Rightarrow> string" where
  "boot_digest bt = ManifestDigest (bt_json bt) (bt_sha384 bt) (bt_build bt)"

definition boot_load :: "'key boot_env \<Rightarrow> go_error option \<times> string \<times> string_map" where
  "boot_load bt = Load (bt_bundle bt) (bt_decode bt) (bt_accepted bt) (bt_now bt) (bt_build bt)
     (decryptDataKey (bt_kms bt) (bt_build bt) (boot_digest bt)) (bt_setenv bt) (bt_describe bt)"

definition boot_logger :: "'key boot_env \<Rightarrow> string \<Rightarrow> go_error + zap_logger" where
  "boot_logger bt = NewZapLogger (bt_zap bt) (bt_version bt)"

definition tinfoilInferenceAddress :: string where "tinfoilInferenceAddress = ''inference.tinfoil.sh:443''"

definition ConfigureDefaultTransport :: "string option \<Rightarrow> go_error + transport" where
  "ConfigureDefaultTransport unexpected =
     (case unexpected of
        Some t \<Rightarrow> Inl (PlainErr (''default HTTP transport has unexpected type '' @ t))
      | None \<Rightarrow> Inr ProviderTransport)"

definition StartTinfoilTLSBridge :: "go_error option \<Rightarrow> go_error option \<Rightarrow> go_error + nat" where
  "StartTinfoilTLSBridge loopback listen =
     (case providerVsockPort tinfoilInferenceAddress of
        Inl err \<Rightarrow> Inl (WrapErr ''resolve Tinfoil inference route: '' err)
      | Inr providerPort \<Rightarrow>
     (case loopback of
        Some err \<Rightarrow> Inl (WrapErr ''configure enclave loopback: '' err)
      | None \<Rightarrow>
     (case listen of
        Some err \<Rightarrow> Inl (WrapErr ''listen for Tinfoil TLS verification: '' err)
      | None \<Rightarrow> Inr providerPort)))"

text \<open>The environment after \<open>os.Setenv\<close>, the last setting of a key counting.\<close>

definition environ_after :: "string_map \<Rightarrow> environ \<Rightarrow> environ" where
  "environ_after vars getenv key = (case map_of (rev vars) key of Some v \<Rightarrow> v | None \<Rightarrow> getenv key)"

definition enclave_prologue :: "'key boot_env \<Rightarrow> string + environ" where
  "enclave_prologue bt =
     (if \<not> bt_enabled bt then Inr (bt_environ bt)
      else case ValidateBuild (bt_build bt) of
        Some err \<Rightarrow> Inl (''invalid enclave build: '' @ error_text err)
      | None \<Rightarrow>
     (case boot_load bt of
        (Some err, answer, vars) \<Rightarrow> Inl (''failed to bootstrap enclave: '' @ error_text err)
      | (None, answer, vars) \<Rightarrow>
     (case ConfigureDefaultTransport (bt_transport_type bt) of
        Inl err \<Rightarrow> Inl (''failed to configure enclave egress: '' @ error_text err)
      | Inr t \<Rightarrow>
     (case StartTinfoilTLSBridge (bt_loopback bt) (bt_listen_tls bt) of
        Inl err \<Rightarrow> Inl (''failed to configure Tinfoil enclave verification: '' @ error_text err)
      | Inr port \<Rightarrow> Inr (environ_after vars (bt_environ bt))))))"

text \<open>The key of this process, which the attestation endpoint shows and the confidential endpoint opens requests with.\<close>

definition enclave_identity :: "'key boot_env \<Rightarrow> string + string option" where
  "enclave_identity bt =
     (if \<not> bt_enabled bt then Inr None
      else case bt_identity bt of
        Inl err \<Rightarrow> Inl (''failed to generate ephemeral EHBP identity: '' @ error_text err)
      | Inr hpkePublicKey \<Rightarrow>
     (if length hpkePublicKey \<noteq> 32
      then Inl (''invalid ephemeral EHBP public key length: '' @ itoa (length hpkePublicKey))
      else case bt_session bt of
        Inl err \<Rightarrow> Inl (''failed to initialize Nitro attestation: '' @ error_text (WrapErr ''open Nitro Secure Module: '' err))
      | Inr send \<Rightarrow>
     (case bt_random bt of
        Inl err \<Rightarrow> Inl (''failed to generate attestation self-test nonce: '' @ error_text err)
      | Inr nonce \<Rightarrow>
     (case Attest (Some send) None nonce (boot_digest bt) hpkePublicKey of
        Inl err \<Rightarrow> Inl (''Nitro attestation self-test failed: '' @ error_text err)
      | Inr document \<Rightarrow> Inr (Some hpkePublicKey)))))"

definition parse_port :: "string \<Rightarrow> nat option" where
  "parse_port s = (case parse_digits s of Some n \<Rightarrow> if n < 2 ^ 32 \<and> n \<noteq> 0 then Some n else None | None \<Rightarrow> None)"

definition metrics_bind :: "bool \<Rightarrow> environ \<Rightarrow> string" where
  "metrics_bind enabled getenv =
     (let metricsAddr = envOr getenv ''METRICS_PORT'' ''9090''
      in if enabled then ''127.0.0.1:'' @ metricsAddr else '':'' @ metricsAddr)"

text \<open>What serves in the end: the key is that of the attestation and confidential endpoints, which exist only with it.\<close>

record serving =
  sv_Environ :: environ
  sv_Config :: gateway_config
  sv_Key :: "string option"
  sv_Port :: nat
  sv_MetricsBind :: string

definition gateway_main :: "'key boot_env \<Rightarrow> string + serving" where
  "gateway_main bt =
     (case enclave_prologue bt of
        Inl err \<Rightarrow> Inl err
      | Inr getenv \<Rightarrow>
     (case load_config getenv (bt_parse bt) (boot_logger bt) of
        Inl err \<Rightarrow> Inl err
      | Inr config \<Rightarrow>
     (case enclave_identity bt of
        Inl err \<Rightarrow> Inl err
      | Inr key \<Rightarrow>
     (case parse_port (gc_Port config) of
        None \<Rightarrow> Inl (''invalid gateway port '' @ quote (gc_Port config))
      | Some port \<Rightarrow>
     (case bt_listen bt port of
        Some err \<Rightarrow> Inl (''failed to listen: '' @ error_text err)
      | None \<Rightarrow> Inr \<lparr>sv_Environ = getenv, sv_Config = config, sv_Key = key, sv_Port = port,
                      sv_MetricsBind = metrics_bind (bt_enabled bt) getenv\<rparr>)))))"

section \<open>What serves is sound\<close>

lemma providerPort_measured: "StartTinfoilTLSBridge a b = Inr port \<Longrightarrow> providerVsockPort tinfoilInferenceAddress = Inr port"
  by (simp add: StartTinfoilTLSBridge_def split: sum.splits option.splits)

lemma enclave_prologue_sound:
  assumes "enclave_prologue bt = Inr getenv" "bt_enabled bt"
  shows "ValidateBuild (bt_build bt) = None
    \<and> (\<exists>answer vars. boot_load bt = (None, answer, vars) \<and> getenv = environ_after vars (bt_environ bt))
    \<and> (\<exists>port. StartTinfoilTLSBridge (bt_loopback bt) (bt_listen_tls bt) = Inr port)"
  using assms by (auto simp: enclave_prologue_def split: option.splits sum.splits prod.splits)

lemma enclave_identity_sound:
  assumes "enclave_identity bt = Inr key" "bt_enabled bt"
  obtains hpke send nonce result document where "key = Some hpke" "length hpke = 32" "bt_identity bt = Inr hpke" "bt_session bt = Inr send"
    "send nonce (boot_digest bt) hpke = Inr result" "nr_Document result = Some document" "document \<noteq> []"
  using assms by (auto simp: enclave_identity_def Attest_def split: sum.splits option.splits if_splits)

text \<open>A gateway in an enclave, ready to serve.\<close>

definition enclave_ready :: "'key boot_env \<Rightarrow> serving \<Rightarrow> bool" where
  "enclave_ready bt sv =
     (ValidateBuild (bt_build bt) = None
      \<and> (\<exists>answer vars. boot_load bt = (None, answer, vars) \<and> sv_Environ sv = environ_after vars (bt_environ bt))
      \<and> (\<exists>hpke send nonce result document. sv_Key sv = Some hpke \<and> length hpke = 32 \<and> bt_identity bt = Inr hpke \<and> bt_session bt = Inr send
           \<and> send nonce (boot_digest bt) hpke = Inr result
           \<and> nr_Document result = Some document \<and> document \<noteq> [])
      \<and> has_prefix (sv_MetricsBind sv) ''127.0.0.1:'')"

text \<open>
  C11: The gateway serves only when it is soundly set up. It listens on a port from 1 to 2^32 - 1;
  every timeout, the guest output limit and the fallback rate are positive and no product of the
  configured numbers has wrapped around to another sign; and in an enclave the build was valid,
  loading the sealed configuration succeeded and what it set is what the gateway reads, the module
  attested the measured manifest with the very key that both enclave endpoints use, and metrics are
  served to the enclave itself alone. Outside an enclave those endpoints do not exist.
\<close>
theorem gateway_serves_soundly:
  assumes "gateway_main bt = Inr sv"
  shows "0 < sv_Port sv \<and> sv_Port sv < 2 ^ 32 \<and> bt_listen bt (sv_Port sv) = None \<and> config_bounds (sv_Config sv)
    \<and> load_config (sv_Environ sv) (bt_parse bt) (boot_logger bt) = Inr (sv_Config sv)
    \<and> (bt_enabled bt \<longrightarrow> enclave_ready bt sv) \<and> (\<not> bt_enabled bt \<longrightarrow> sv_Key sv = None \<and> sv_Environ sv = bt_environ bt)"
proof -
  obtain getenv config key port where run: "enclave_prologue bt = Inr getenv" "load_config getenv (bt_parse bt) (boot_logger bt) = Inr config"
      "enclave_identity bt = Inr key" "parse_port (gc_Port config) = Some port" "bt_listen bt port = None"
      "sv = \<lparr>sv_Environ = getenv, sv_Config = config, sv_Key = key, sv_Port = port, sv_MetricsBind = metrics_bind (bt_enabled bt) getenv\<rparr>"
    using assms by (auto simp: gateway_main_def split: sum.splits option.splits)
  have "0 < port \<and> port < 2 ^ 32" using run(4) by (auto simp: parse_port_def split: option.splits if_splits)
  moreover have "enclave_ready bt sv" if "bt_enabled bt"
  proof -
    have "has_prefix (sv_MetricsBind sv) ''127.0.0.1:''" using run(6) that by (simp add: metrics_bind_def has_prefix_def Let_def)
    then show ?thesis
      using enclave_prologue_sound [OF run(1) that] enclave_identity_sound [OF run(3) that] run(6)
      unfolding enclave_ready_def by (metis serving.select_convs(1,3))
  qed
  moreover have "key = None \<and> getenv = bt_environ bt" if "\<not> bt_enabled bt"
    using that run(1,3) by (simp add: enclave_prologue_def enclave_identity_def)
  ultimately show ?thesis using run load_config_bounds [OF run(2)] by simp
qed

subsection \<open>An enclave that starts\<close>

definition toy_environ :: environ where
  "toy_environ k = (if k = ''CLIENT_IO_TIMEOUT_SECONDS'' then ''30'' else if k = ''PORT'' then ''8081'' else [])"

definition toy_boot :: "unit boot_env" where
  "toy_boot = \<lparr>bt_enabled = True, bt_build = toy_build, bt_environ = toy_environ, bt_bundle = toy_benv, bt_decode = toy_decode,
     bt_accepted = Inr \<lparr>co_CID = Some ParentCID, co_payload = Inr ''p''\<rparr>, bt_now = 7, bt_kms = toy_kms, bt_setenv = (\<lambda>k v. None),
     bt_describe = (\<lambda>e. []), bt_transport_type = None, bt_loopback = None, bt_listen_tls = None, bt_parse = (\<lambda>s. None),
     bt_zap = (\<lambda>c. None), bt_version = ''dev'', bt_identity = Inr (replicate 32 (CHR ''h'')),
     bt_session = Inr (\<lambda>n u p. Inr \<lparr>nr_Error = [], nr_Document = Some (n @ u @ p)\<rparr>), bt_random = Inr ''n'', bt_json = (\<lambda>v. ''{}''),
     bt_sha384 = (\<lambda>s. ''d''), bt_listen = (\<lambda>p. None)\<rparr>"

lemma toy_boot_environment:
  assumes "mset vars = mset toy_environment" "k \<notin> {''METERING_TOKEN'', ''METERING_URL'', ''NOVITA_API_KEY''}"
  shows "environ_after vars toy_environ k = toy_environ k"
proof -
  have "set vars = set toy_environment" using assms(1) by (rule mset_eq_setD)
  then have "k \<notin> fst ` set (rev vars)" using assms(2) by (simp add: toy_environment_def)
  then have "map_of (rev vars) k = None" by (simp only: map_of_eq_None_iff not_False_eq_True)
  then show ?thesis by (simp add: environ_after_def)
qed

lemma toy_boot_config:
  assumes "mset vars = mset toy_environment"
  shows "\<exists>c. load_config (environ_after vars toy_environ) parse (NewZapLogger (\<lambda>c. None) v) = Inr c \<and> gc_Port c = ''8081''"
proof -
  let ?env = "environ_after vars toy_environ"
  have "?env ''PORT'' = ''8081''" "?env ''CLIENT_IO_TIMEOUT_SECONDS'' = ''30''" "?env ''PROVIDER_SILENCE_TIMEOUT_SECONDS'' = []"
      "?env ''GUEST_MAX_OUTPUT_TOKENS'' = []"
    using toy_boot_environment [OF assms] by (simp_all add: toy_environ_def)
  moreover have "go_parse_int ''30'' = Some 30" "trim_space [] = []" by code_simp+
  ultimately show ?thesis
    by (simp add: load_config_def NewZapLogger_def requestLoggingConfig_def Let_def loadTransportTimeouts_def timeoutSeconds_def positiveIntEnv_def envOr_def second_def millisecond_def)
qed

lemma toy_boot_runs: "\<exists>sv. gateway_main toy_boot = Inr sv \<and> sv_Port sv = 8081"
proof -
  obtain vars where vars: "Load toy_benv toy_decode (Inr \<lparr>co_CID = Some ParentCID, co_payload = Inr ''p''\<rparr>) 7 toy_build
     (decryptDataKey toy_kms toy_build ''d'') (\<lambda>k v. None) (\<lambda>e. []) = (None, ''OK'' @ [CHR 0x0A], vars)" "mset vars = mset toy_environment"
    using toy_delivery by blast
  obtain c where c: "load_config (environ_after vars toy_environ) (\<lambda>s. None) (NewZapLogger (\<lambda>c. None) ''dev'') = Inr c" "gc_Port c = ''8081''"
    using toy_boot_config [OF vars(2)] by blast
  have "ValidateBuild toy_build = None" by code_simp
  moreover have "boot_load toy_boot = (None, ''OK'' @ [CHR 0x0A], vars)"
    using vars(1) by (simp add: boot_load_def boot_digest_def toy_boot_def ManifestDigest_def)
  moreover have "\<exists>p. StartTinfoilTLSBridge None None = Inr p"
  proof -
    have "\<not> isl (providerVsockPort tinfoilInferenceAddress)" by code_simp
    then show ?thesis by (cases "providerVsockPort tinfoilInferenceAddress") (simp_all add: StartTinfoilTLSBridge_def)
  qed
  ultimately have "enclave_prologue toy_boot = Inr (environ_after vars toy_environ)"
    by (auto simp: enclave_prologue_def ConfigureDefaultTransport_def toy_boot_def)
  moreover have "enclave_identity toy_boot = Inr (Some (replicate 32 (CHR ''h'')))"
    by (simp add: enclave_identity_def Attest_def boot_digest_def toy_boot_def)
  moreover have "parse_port ''8081'' = Some 8081"
  proof -
    have "parse_digits ''8081'' = Some 8081" by code_simp
    then show ?thesis by (simp add: parse_port_def)
  qed
  ultimately show ?thesis using c by (simp add: gateway_main_def) (simp add: boot_logger_def toy_boot_def)
qed

theorem gateway_serves_soundly_witness:
  "\<exists>sv. gateway_main toy_boot = Inr sv \<and> sv_Port sv = 8081 \<and> enclave_ready toy_boot sv \<and> config_bounds (sv_Config sv)"
proof -
  obtain sv where "gateway_main toy_boot = Inr sv" "sv_Port sv = 8081" using toy_boot_runs by blast
  moreover have "bt_enabled toy_boot" by (simp add: toy_boot_def)
  ultimately show ?thesis using gateway_serves_soundly [of toy_boot sv] by blast
qed

end
