(* ===== verification/StreamTimeouts.thy ===== *)
theory StreamTimeouts
  imports Providers
begin

text \<open>
  How long a provider may be silent (\<open>providers/stream/idle_timeout.go\<close>, \<open>header_timeout.go\<close>). The
  body of a response and its timer are one state under a lock; the steps are what a reader, the
  caller and the timer do under that lock. A timer that fires starts a callback, which takes the
  lock later, so a read may come between the two.
\<close>

section \<open>The idle timer of a body\<close>

record idle_body =
  ib_timeout :: duration
  ib_armed :: "time option"             \<comment> \<open>when the timer is to fire\<close>
  ib_waiting :: nat                     \<comment> \<open>callbacks that wait for the lock\<close>
  ib_closed :: bool
  ib_expired :: bool
  ib_deadline :: time
  ib_bodyClosed :: bool                 \<comment> \<open>the body underneath is closed\<close>

definition idleTimeoutError :: go_error where
  "idleTimeoutError = NetErr ''provider stream idle timeout'' True"

definition WithIdleTimeout :: "duration \<Rightarrow> time \<Rightarrow> idle_body option" where
  "WithIdleTimeout timeout now =
     (if timeout \<le> 0 then None
      else Some \<lparr>ib_timeout = timeout, ib_armed = Some (now + timeout), ib_waiting = 0, ib_closed = False, ib_expired = False,
                 ib_deadline = now + timeout, ib_bodyClosed = False\<rparr>)"

text \<open>The runtime fires the timer; then the callback of \<open>time.AfterFunc\<close> has the lock.\<close>

definition timer_fires :: "idle_body \<Rightarrow> idle_body" where
  "timer_fires b = b\<lparr>ib_armed := None, ib_waiting := ib_waiting b + 1\<rparr>"

definition idle_callback :: "time \<Rightarrow> idle_body \<Rightarrow> idle_body" where
  "idle_callback now b0 =
     (let b = b0\<lparr>ib_waiting := ib_waiting b0 - 1\<rparr>
      in if ib_closed b then b
         else let remaining = ib_deadline b - now
              in if remaining > 0 then b\<lparr>ib_armed := Some (now + remaining)\<rparr>
                 else b\<lparr>ib_expired := True, ib_closed := True, ib_bodyClosed := True\<rparr>)"

text \<open>A read of the body underneath has returned \<open>n\<close> bytes and maybe an error.\<close>

definition idle_Read :: "time \<Rightarrow> nat \<Rightarrow> go_error option \<Rightarrow> idle_body \<Rightarrow> (nat \<times> go_error option) \<times> idle_body" where
  "idle_Read now n err b =
     (if ib_expired b then ((n, Some idleTimeoutError), b)
      else ((n, err),
        if n > 0 \<and> \<not> ib_closed b
        then b\<lparr>ib_deadline := now + ib_timeout b, ib_armed := Some (now + ib_timeout b)\<rparr> else b))"

definition idle_Close :: "idle_body \<Rightarrow> idle_body" where
  "idle_Close b = b\<lparr>ib_closed := True, ib_armed := None, ib_bodyClosed := True\<rparr>"

subsection \<open>Runs\<close>

datatype idle_event = Fires | Runs | Reads nat "go_error option" | Closes

fun idle_after :: "time \<Rightarrow> idle_event \<Rightarrow> idle_body \<Rightarrow> idle_body" where
  "idle_after now Fires b = timer_fires b"
| "idle_after now Runs b = idle_callback now b"
| "idle_after now (Reads n err) b = snd (idle_Read now n err b)"
| "idle_after now Closes b = idle_Close b"

fun idle_enabled :: "time \<Rightarrow> idle_event \<Rightarrow> idle_body \<Rightarrow> bool" where
  "idle_enabled now Fires b = (case ib_armed b of Some t \<Rightarrow> t \<le> now | None \<Rightarrow> False)"
| "idle_enabled now Runs b = (ib_waiting b > 0)"
| "idle_enabled now (Reads n err) b = True"
| "idle_enabled now Closes b = True"

text \<open>The events with their times so far, the latest first.\<close>

inductive idle_run :: "duration \<Rightarrow> time \<Rightarrow> (time \<times> idle_event) list \<Rightarrow> time \<Rightarrow> idle_body \<Rightarrow> bool"
  for timeout start where
  begins: "WithIdleTimeout timeout start = Some b \<Longrightarrow> idle_run timeout start [] start b"
| steps: "idle_run timeout start evs t b \<Longrightarrow> t \<le> now \<Longrightarrow> idle_enabled now e b
    \<Longrightarrow> idle_run timeout start ((now, e) # evs) now (idle_after now e b)"

text \<open>When bytes came last, the start counting as such.\<close>

fun last_bytes :: "time \<Rightarrow> (time \<times> idle_event) list \<Rightarrow> time" where
  "last_bytes start [] = start"
| "last_bytes start ((t, Reads (Suc n) err) # evs) = t"
| "last_bytes start (ev # evs) = last_bytes start evs"

definition idle_inv :: "duration \<Rightarrow> time \<Rightarrow> (time \<times> idle_event) list \<Rightarrow> time \<Rightarrow> idle_body \<Rightarrow> bool" where
  "idle_inv timeout start evs now b =
     (0 < timeout \<and> ib_timeout b = timeout
      \<and> (\<not> ib_closed b \<longrightarrow> ib_deadline b = last_bytes start evs + timeout
           \<and> (ib_armed b = Some (ib_deadline b) \<or> ib_armed b = None \<and> ib_waiting b > 0))
      \<and> (ib_expired b \<longrightarrow> ib_closed b \<and> ib_bodyClosed b)
      \<and> (ib_closed b \<longrightarrow> ib_bodyClosed b))"

lemma WithIdleTimeout_inv: "WithIdleTimeout timeout start = Some b \<Longrightarrow> idle_inv timeout start [] start b"
  by (auto simp: WithIdleTimeout_def idle_inv_def split: if_splits)

lemma callback_inv: "idle_inv timeout start evs t b \<Longrightarrow> ib_waiting b > 0 \<Longrightarrow> idle_inv timeout start ((now, Runs) # evs) now (idle_callback now b)"
  by (auto simp: idle_inv_def idle_callback_def Let_def)

lemma Read_inv: "idle_inv timeout start evs t b \<Longrightarrow> idle_inv timeout start ((now, Reads n err) # evs) now (snd (idle_Read now n err b))"
  by (cases n) (auto simp: idle_inv_def idle_Read_def)

lemma idle_run_inv: "idle_run timeout start evs t b \<Longrightarrow> idle_inv timeout start evs t b"
proof (induction rule: idle_run.induct)
  case (begins b)
  then show ?case by (rule WithIdleTimeout_inv)
next
  case (steps evs t b now e)
  then show ?case
  proof (cases e)
    case Runs
    then show ?thesis using steps callback_inv by simp
  next
    case (Reads n err)
    then show ?thesis using steps.IH Read_inv by simp
  qed (auto simp: idle_inv_def timer_fires_def idle_Close_def)
qed

text \<open>The moment a body expires, in a run: the bytes before it are long past.\<close>

inductive_cases idle_step_cases: "idle_run timeout start ((now, e) # evs) t b"

lemma expires_by_callback:
  assumes "\<not> ib_expired b" "ib_expired (idle_after now e b)"
  shows "e = Runs \<and> \<not> ib_closed b \<and> ib_deadline b \<le> now"
  using assms by (cases e) (auto simp: timer_fires_def idle_callback_def idle_Read_def idle_Close_def Let_def split: if_splits)

lemma expired_was_silent:
  "idle_run timeout start evs t b \<Longrightarrow> ib_expired b \<Longrightarrow>
   \<exists>later at earlier. evs = later @ (at, Runs) # earlier \<and> last_bytes start earlier + timeout \<le> at \<and> at \<le> t"
proof (induction rule: idle_run.induct)
  case (begins b)
  then show ?case by (auto simp: WithIdleTimeout_def split: if_splits)
next
  case (steps evs t b now e)
  show ?case
  proof (cases "ib_expired b")
    case True
    then obtain later at earlier where "evs = later @ (at, Runs) # earlier" "last_bytes start earlier + timeout \<le> at" "at \<le> t"
      using steps.IH by blast
    then have "(now, e) # evs = ((now, e) # later) @ (at, Runs) # earlier" "at \<le> now" using steps.hyps by simp_all
    then show ?thesis using \<open>last_bytes start earlier + timeout \<le> at\<close> by blast
  next
    case False
    then have e: "e = Runs" "\<not> ib_closed b" "ib_deadline b \<le> now" using expires_by_callback steps.prems by auto
    then have "ib_deadline b = last_bytes start evs + timeout" using idle_run_inv [OF steps.hyps(1)] by (simp add: idle_inv_def)
    then have "(now, e) # evs = [] @ (now, Runs) # evs \<and> last_bytes start evs + timeout \<le> now \<and> now \<le> now" using e by simp
    then show ?thesis by blast
  qed
qed

text \<open>
  C16: The idle timeout of a provider stream is exact. In every run of reads, closes, timer firings
  and callbacks, however a reset races a callback, a stream that expired was at that moment without
  bytes for the whole timeout; a read fails with the timeout error only if the stream expired; and
  a stream that is still open has its timer set for the very end of the timeout after its last
  bytes, or a callback on its way, which closes the body when it runs at or after that end.
\<close>
theorem idle_timeout_is_exact:
  assumes "idle_run timeout start evs t b" and "err \<noteq> Some idleTimeoutError"
  shows "(snd (fst (idle_Read now n err b)) = Some idleTimeoutError \<longrightarrow>
        (\<exists>later at earlier. evs = later @ (at, Runs) # earlier \<and> last_bytes start earlier + timeout \<le> at \<and> ib_bodyClosed b))
    \<and> (\<not> ib_closed b \<longrightarrow> ib_deadline b = last_bytes start evs + timeout
        \<and> (ib_armed b = Some (ib_deadline b) \<or> ib_waiting b > 0)
        \<and> (ib_bodyClosed (idle_callback now b) \<or> ib_armed (idle_callback now b) = Some (ib_deadline b))
        \<and> (ib_deadline b \<le> now \<longrightarrow> ib_bodyClosed (idle_callback now b) \<and> ib_expired (idle_callback now b)))"
proof -
  have inv: "idle_inv timeout start evs t b" by (rule idle_run_inv [OF assms(1)])
  have "ib_expired b" if "snd (fst (idle_Read now n err b)) = Some idleTimeoutError"
    using that assms(2) by (auto simp: idle_Read_def split: if_splits)
  then show ?thesis
    using expired_was_silent [OF assms(1)] inv by (auto simp: idle_inv_def idle_callback_def Let_def)
qed

subsection \<open>A reset that races a callback\<close>

fun clock :: "time \<Rightarrow> (time \<times> idle_event) list \<Rightarrow> time" where
  "clock start [] = start"
| "clock start ((now, e) # evs) = now"

fun idle_exec :: "duration \<Rightarrow> time \<Rightarrow> (time \<times> idle_event) list \<Rightarrow> idle_body option" where
  "idle_exec timeout start [] = WithIdleTimeout timeout start"
| "idle_exec timeout start ((now, e) # evs) =
     (case idle_exec timeout start evs of
        None \<Rightarrow> None
      | Some b \<Rightarrow> if clock start evs \<le> now \<and> idle_enabled now e b then Some (idle_after now e b) else None)"

lemma idle_exec_run: "idle_exec timeout start evs = Some b \<Longrightarrow> idle_run timeout start evs (clock start evs) b"
proof (induction evs arbitrary: b)
  case Nil
  then show ?case by (simp add: idle_run.begins)
next
  case (Cons ev evs)
  then show ?case
    by (cases ev) (auto split: option.splits if_splits intro: idle_run.steps)
qed

text \<open>
  A timeout of thirty: bytes come at twenty and again at fifty, when the timer has just fired; the
  callback that runs then sets the timer again, and the one at eighty-one ends the stream.
\<close>

definition toy_idle_events :: "(time \<times> idle_event) list" where
  "toy_idle_events = [(81, Runs), (80, Fires), (51, Runs), (50, Reads 5 None), (50, Fires), (20, Reads 3 None)]"

theorem idle_timeout_is_exact_witness:
  "\<exists>b. idle_exec 30 0 toy_idle_events = Some b \<and> fst (idle_Read 82 0 None b) = (0, Some idleTimeoutError) \<and> ib_bodyClosed b
     \<and> (\<exists>later at earlier. toy_idle_events = later @ (at, Runs) # earlier \<and> last_bytes 0 earlier + 30 \<le> at)"
proof -
  have "idle_exec 30 0 toy_idle_events \<noteq> None" by code_simp
  then obtain b where b: "idle_exec 30 0 toy_idle_events = Some b" by blast
  have "map_option ib_expired (idle_exec 30 0 toy_idle_events) = Some True" by code_simp
  then have "fst (idle_Read 82 0 None b) = (0, Some idleTimeoutError)" using b by (simp add: idle_Read_def)
  then show ?thesis
    using idle_timeout_is_exact [OF idle_exec_run [OF b], of None 82 0] b by (auto simp: idleTimeoutError_def)
qed

section \<open>Waiting for headers\<close>

text \<open>
  The timer of the wait is off once \<open>client.Do\<close> is back; \<open>fired\<close> says that its callback had the
  lock before that. An outcome comes with what was done to the context of the request and the body.
\<close>

datatype header_action = CancelContext | CloseResponse | CancelOnClose

definition DoWithHeaderTimeout :: "duration \<Rightarrow> bool \<Rightarrow> bool \<Rightarrow> go_error + http_response \<Rightarrow> (go_error + http_response) \<times> header_action list" where
  "DoWithHeaderTimeout timeout fired parent_done answer =
     (if timeout \<le> 0 then (answer, [])
      else let at_timer = (if fired then [CancelContext] else [])
           in if fired \<and> \<not> parent_done
              then (Inl CtxDeadline, at_timer @ [CancelContext] @ (case answer of Inr r \<Rightarrow> [CloseResponse] | Inl e \<Rightarrow> []))
              else case answer of
                     Inl err \<Rightarrow> (Inl err, at_timer @ [CancelContext])
                   | Inr r \<Rightarrow> (Inr r, at_timer @ [CancelOnClose]))"

text \<open>
  Nothing leaks: without a response the context has ended, and with one it ends when the body is
  closed. A response is handed over alive unless the request itself was given up, and a response
  that came too late is closed.
\<close>

lemma header_wait_leaks_nothing:
  assumes "0 < timeout" and "DoWithHeaderTimeout timeout fired parent_done answer = (res, acts)"
  shows "(\<forall>e. res = Inl e \<longrightarrow> CancelContext \<in> set acts \<and> ((\<exists>r. answer = Inr r) \<longrightarrow> CloseResponse \<in> set acts))"
    and "(\<forall>r. res = Inr r \<longrightarrow> answer = Inr r \<and> CancelOnClose \<in> set acts \<and> (\<not> parent_done \<longrightarrow> CancelContext \<notin> set acts))"
    and "(fired \<and> \<not> parent_done \<longleftrightarrow> res = Inl CtxDeadline) \<or> answer = Inl CtxDeadline"
  using assms by (auto simp: DoWithHeaderTimeout_def Let_def split: if_splits sum.splits)

end
