(* ===== verification/Tinfoil.thy ===== *)
theory Tinfoil
  imports StreamTimeouts ProviderFacts
begin

text \<open>
  The Tinfoil provider (\<open>providers/tinfoil/adapter.go\<close>): requests go only over a client whose
  enclave was verified first. The SDK and the JSON codec are parameters; an adapter call is its
  answer with the requests that left the gateway.
\<close>

definition providerName :: string where "providerName = ''tinfoil''"

section \<open>Verified clients\<close>

record ground_truth =
  gt_EnclaveHost :: string
  gt_Digest :: string
  gt_CodeFingerprint :: string
  gt_EnclaveFingerprint :: string
  gt_TLSPublicKey :: string
  gt_HPKEPublicKey :: string

record verified_client =
  vc_HTTPClient :: "(http_request \<Rightarrow> go_error + http_response) option"
  vc_Enclave :: string
  vc_Repo :: string
  vc_TransportMode :: string
  vc_GroundTruth :: "ground_truth option"

datatype sdk_option = WithTransportEHBP | WithRepo string | WithEnclave string | WithBaseURL string | WithAttestationBundleURL string

definition configuredProxyBaseURL :: "(string \<Rightarrow> string) \<Rightarrow> string" where
  "configuredProxyBaseURL getenv = trim_right (trim_space (getenv ''TINFOIL_PROXY_BASE_URL'')) ''/''"

definition sdk_options :: "(string \<Rightarrow> string) \<Rightarrow> sdk_option list" where
  "sdk_options getenv =
     (let repo = trim_space (getenv ''TINFOIL_CONFIG_REPO''); enclave = trim_space (getenv ''TINFOIL_ENCLAVE_HOST'');
          proxyBaseURL = configuredProxyBaseURL getenv; bundleURL = trim_space (getenv ''TINFOIL_ATTESTATION_BUNDLE_URL'')
      in [WithTransportEHBP] @ (if repo \<noteq> [] then [WithRepo repo] else []) @ (if enclave \<noteq> [] then [WithEnclave enclave] else [])
         @ (if proxyBaseURL \<noteq> [] then [WithBaseURL proxyBaseURL] else [])
         @ (if bundleURL \<noteq> [] then [WithAttestationBundleURL (trim_right bundleURL ''/'')] else []))"

text \<open>The SDK: a client for options, and the ground truth of its verification.\<close>

record sdk_client =
  sc_HTTPClient :: "(http_request \<Rightarrow> go_error + http_response) option"
  sc_Enclave :: string
  sc_Repo :: string
  sc_Transport :: string
  sc_Verify :: "go_error + ground_truth option"

definition SDK_NewVerifiedClient :: "(string \<Rightarrow> string) \<Rightarrow> (sdk_option list \<Rightarrow> go_error + sdk_client) \<Rightarrow> go_error + verified_client option" where
  "SDK_NewVerifiedClient getenv newClient =
     (case newClient (sdk_options getenv) of
        Inl err \<Rightarrow> Inl err
      | Inr client \<Rightarrow>
          (case sc_Verify client of
             Inl err \<Rightarrow> Inl err
           | Inr gt \<Rightarrow>
               Inr (Some \<lparr>vc_HTTPClient = sc_HTTPClient client, vc_Enclave = sc_Enclave client, vc_Repo = sc_Repo client,
                          vc_TransportMode = sc_Transport client, vc_GroundTruth = gt\<rparr>)))"

section \<open>Proofs\<close>

definition stringPtr :: "string \<Rightarrow> string option" where
  "stringPtr value = (if value = [] then None else Some value)"

text \<open>The dependencies in the build info of the binary, with their versions.\<close>

definition sdk_path :: string where "sdk_path = ''github.com/tinfoilsh/tinfoil-go''"

definition tinfoilSDKVersion :: "(string \<times> string) list option \<Rightarrow> string" where
  "tinfoilSDKVersion deps =
     (case deps of
        None \<Rightarrow> sdk_path
      | Some ds \<Rightarrow>
          (case find (\<lambda>d. fst d = sdk_path) ds of
             Some (path, version) \<Rightarrow> if version \<noteq> [] then path @ '' '' @ version else path
           | None \<Rightarrow> sdk_path))"

record tinfoil_env =
  te_getenv :: "string \<Rightarrow> string"
  te_factory :: "go_error + verified_client option"     \<comment> \<open>\<open>NewVerifiedClient\<close>\<close>
  te_timeout :: duration
  te_fired :: bool                                      \<comment> \<open>the wait for headers ran out\<close>
  te_parent_done :: bool
  te_deps :: "(string \<times> string) list option"
  te_now :: time
  te_marshal :: "json \<Rightarrow> string"
  te_format :: "time \<Rightarrow> string"
  te_truth_json :: "ground_truth \<Rightarrow> json"
  te_parse :: "string \<Rightarrow> json option"
  te_code_text :: "json \<Rightarrow> string"
  te_is_http_time :: "string \<Rightarrow> bool"

definition proofFromVerifiedClient :: "tinfoil_env \<Rightarrow> verified_client \<Rightarrow> ground_truth \<Rightarrow> tinfoil_proof" where
  "proofFromVerifiedClient te v gt =
     (let now = te_now te; version = tinfoilSDKVersion (te_deps te);
          evidence = te_marshal te (JObj [(''config_repo'', JStr (vc_Repo v)), (''ground_truth'', te_truth_json te gt),
            (''sdk_version'', JStr version), (''transport_mode'', JStr (vc_TransportMode v)), (''verified_at'', JStr (te_format te now))]);
          host = (if gt_EnclaveHost gt = [] \<and> vc_Enclave v \<noteq> [] then stringPtr (vc_Enclave v) else stringPtr (gt_EnclaveHost gt))
      in \<lparr>proof_ID = [], proof_AccountID = [], proof_APIKeyID = [], proof_Provider = providerName, proof_PublicModelID = [],
          proof_UpstreamModelID = [], proof_ProviderResponseID = [], proof_EnclaveHost = host, proof_ConfigRepo = stringPtr (vc_Repo v),
          proof_Digest = stringPtr (gt_Digest gt), proof_CodeFingerprint = stringPtr (gt_CodeFingerprint gt),
          proof_EnclaveFingerprint = stringPtr (gt_EnclaveFingerprint gt), proof_TLSPublicKey = stringPtr (gt_TLSPublicKey gt),
          proof_HPKEPublicKey = stringPtr (gt_HPKEPublicKey gt), proof_TransportMode = stringPtr (vc_TransportMode v),
          proof_SDKVersion = stringPtr version, proof_Status = ProofStatusVerified, proof_FailureReason = None,
          proof_VerificationEvidenceJSON = evidence, proof_CreatedAt = now, proof_VerifiedAt = Some now\<rparr>)"

definition verification_failed :: "string \<Rightarrow> gateway_error" where
  "verification_failed reason = WithMeta (ErrProviderUnavailable providerName) [MStr ''verification_error'', MStr reason]"

text \<open>The client with its transport and its ground truth, and the proof of them.\<close>

definition newVerifiedClient :: "tinfoil_env
    \<Rightarrow> gateway_error + ((http_request \<Rightarrow> go_error + http_response) \<times> verified_client \<times> tinfoil_proof)" where
  "newVerifiedClient te =
     (case te_factory te of
        Inl err \<Rightarrow> Inl (verification_failed (error_text err))
      | Inr None \<Rightarrow> Inl (verification_failed ''verified client returned no ground truth'')
      | Inr (Some v) \<Rightarrow>
          (case (vc_HTTPClient v, vc_GroundTruth v) of
             (Some transport, Some gt) \<Rightarrow> Inr (transport, v, proofFromVerifiedClient te v gt)
           | _ \<Rightarrow> Inl (verification_failed ''verified client returned no ground truth'')))"

section \<open>Requests\<close>

definition chatCompletionsURL :: "(string \<Rightarrow> string) \<Rightarrow> verified_client \<Rightarrow> string" where
  "chatCompletionsURL getenv v =
     (let base = configuredProxyBaseURL getenv
      in (if base = [] then ''https://'' @ vc_Enclave v @ ''/v1'' else base) @ ''/chat/completions'')"

definition newProviderRequest :: "(string \<Rightarrow> string) \<Rightarrow> verified_client \<Rightarrow> string \<Rightarrow> jobject \<Rightarrow> http_request" where
  "newProviderRequest getenv v apiKey body =
     \<lparr>hr_URL = chatCompletionsURL getenv v,
      hr_Headers = [(''Content-Type'', ''application/json''), (''Accept'', ''application/json''), (''Authorization'', ''Bearer '' @ apiKey)],
      hr_Body = body\<rparr>"

definition tinfoil_error :: "tinfoil_env \<Rightarrow> http_response \<Rightarrow> go_error" where
  "tinfoil_error te r =
     HttpErr (ParseProviderResponseError (te_parse te) (te_code_text te) (te_is_http_time te)
                (hs_Status r) (hs_RetryAfter r) (take responseLimit (hs_Body r)))"

definition tinfoil_send :: "tinfoil_env \<Rightarrow> (http_request \<Rightarrow> go_error + http_response) \<Rightarrow> http_request \<Rightarrow> go_error + http_response" where
  "tinfoil_send te transport req = fst (DoWithHeaderTimeout (te_timeout te) (te_fired te) (te_parent_done te) (transport req))"

definition tinfoil_do :: "tinfoil_env \<Rightarrow> (http_request \<Rightarrow> go_error + http_response) \<Rightarrow> http_request \<Rightarrow> go_error + string" where
  "tinfoil_do te transport req =
     (case tinfoil_send te transport req of
        Inl e \<Rightarrow> Inl (WrapErr ''tinfoil request failed: '' e)
      | Inr r \<Rightarrow>
          (case (if length (hs_Body r) < responseLimit then hs_ReadError r else None) of
             Some e \<Rightarrow> Inl (WrapErr ''failed to read Tinfoil response: '' e)
           | None \<Rightarrow> if hs_Status r \<ge> 400 then Inl (tinfoil_error te r) else Inr (take responseLimit (hs_Body r))))"

definition tinfoil_doStream :: "tinfoil_env \<Rightarrow> (http_request \<Rightarrow> go_error + http_response) \<Rightarrow> http_request \<Rightarrow> go_error + http_response" where
  "tinfoil_doStream te transport req =
     (case tinfoil_send te transport req of
        Inl e \<Rightarrow> Inl (WrapErr ''tinfoil stream request failed: '' e)
      | Inr r \<Rightarrow> if hs_Status r \<ge> 400 then Inl (tinfoil_error te r) else Inr r)"

text \<open>Up to the verified client a stream and a whole request do the same.\<close>

definition tinfoil_call :: "tinfoil_env \<Rightarrow> bool \<Rightarrow> json option \<Rightarrow> 'd public_model
    \<Rightarrow> ((http_request \<Rightarrow> go_error + http_response) \<Rightarrow> http_request \<Rightarrow> go_error + 'r)
    \<Rightarrow> (gateway_error + ('r \<times> tinfoil_proof)) \<times> http_request list" where
  "tinfoil_call te stream raw model exchange =
     (let apiKey = ResolveAPIKey (te_getenv te) (pc_APIKeySecretRef (m_ProviderConfig model))
      in if apiKey = [] then (Inl (missingProviderCredentialError providerName), [])
         else case PrepareProxyBody raw model stream of
           Inl err \<Rightarrow> (Inl err, [])
         | Inr (body, transforms) \<Rightarrow>
        (case newVerifiedClient te of
           Inl err \<Rightarrow> (Inl err, [])
         | Inr (transport, v, proof') \<Rightarrow>
        (let req = newProviderRequest (te_getenv te) v apiKey body
         in case exchange transport req of
              Inl err \<Rightarrow> (Inl (mapProviderErrorWithCompatibilityContext err model body), [req])
            | Inr out \<Rightarrow> (Inr (out, proof'), [req]))))"

definition tinfoil_Stream :: "tinfoil_env \<Rightarrow> json option \<Rightarrow> 'd public_model
    \<Rightarrow> (gateway_error + (http_response \<times> tinfoil_proof)) \<times> http_request list" where
  "tinfoil_Stream te raw model = tinfoil_call te True raw model (tinfoil_doStream te)"

definition tinfoil_Complete :: "tinfoil_env \<Rightarrow> json option \<Rightarrow> 'd public_model
    \<Rightarrow> (gateway_error + (string \<times> tinfoil_proof)) \<times> http_request list" where
  "tinfoil_Complete te raw model = tinfoil_call te False raw model (tinfoil_do te)"

section \<open>Only to the verified enclave\<close>

text \<open>What the SDK verified, and what a proof says of it.\<close>

definition sdk_verified :: "tinfoil_env \<Rightarrow> (sdk_option list \<Rightarrow> go_error + sdk_client) \<Rightarrow> sdk_client \<Rightarrow> ground_truth \<Rightarrow> bool" where
  "sdk_verified te newClient client gt =
     (newClient (sdk_options (te_getenv te)) = Inr client \<and> sc_Verify client = Inr (Some gt) \<and> sc_HTTPClient client \<noteq> None)"

definition proves :: "tinfoil_proof \<Rightarrow> sdk_client \<Rightarrow> ground_truth \<Rightarrow> bool" where
  "proves p client gt =
     (proof_Provider p = providerName \<and> proof_Status p = ProofStatusVerified \<and> proof_FailureReason p = None
      \<and> proof_VerifiedAt p = Some (proof_CreatedAt p)
      \<and> proof_Digest p = stringPtr (gt_Digest gt) \<and> proof_CodeFingerprint p = stringPtr (gt_CodeFingerprint gt)
      \<and> proof_EnclaveFingerprint p = stringPtr (gt_EnclaveFingerprint gt)
      \<and> proof_TLSPublicKey p = stringPtr (gt_TLSPublicKey gt) \<and> proof_HPKEPublicKey p = stringPtr (gt_HPKEPublicKey gt)
      \<and> proof_ConfigRepo p = stringPtr (sc_Repo client)
      \<and> proof_EnclaveHost p = stringPtr (if gt_EnclaveHost gt = [] then sc_Enclave client else gt_EnclaveHost gt))"

text \<open>An adapter call that fails closed: its answer and the requests it sent.\<close>

definition fails_closed :: "tinfoil_env \<Rightarrow> (sdk_option list \<Rightarrow> go_error + sdk_client)
    \<Rightarrow> (gateway_error + ('r \<times> tinfoil_proof)) \<times> http_request list \<Rightarrow> bool" where
  "fails_closed te newClient call =
     (case call of (res, sent) \<Rightarrow>
        length sent \<le> 1 \<and> (sent = [] \<longrightarrow> isl res)
        \<and> (\<forall>req \<in> set sent. \<exists>client gt. sdk_verified te newClient client gt
             \<and> hr_URL req = (if configuredProxyBaseURL (te_getenv te) = [] then ''https://'' @ sc_Enclave client @ ''/v1''
                  else configuredProxyBaseURL (te_getenv te)) @ ''/chat/completions''
             \<and> (\<forall>out p. res = Inr (out, p) \<longrightarrow> proves p client gt)))"

lemma newVerifiedClient_sdk:
  assumes "te_factory te = SDK_NewVerifiedClient (te_getenv te) newClient"
  obtains (refused) reason where "newVerifiedClient te = Inl (verification_failed reason)"
  | (verified) transport v client gt where "newVerifiedClient te = Inr (transport, v, proofFromVerifiedClient te v gt)"
      "sdk_verified te newClient client gt" "vc_Enclave v = sc_Enclave client" "proves (proofFromVerifiedClient te v gt) client gt"
proof (cases "newClient (sdk_options (te_getenv te))")
  case (Inl err)
  then show ?thesis using assms refused by (simp add: newVerifiedClient_def SDK_NewVerifiedClient_def)
next
  case (Inr client)
  show ?thesis
  proof (cases "\<exists>gt transport. sc_Verify client = Inr (Some gt) \<and> sc_HTTPClient client = Some transport")
    case True
    then obtain gt transport where c: "sc_Verify client = Inr (Some gt)" "sc_HTTPClient client = Some transport" by blast
    let ?v = "\<lparr>vc_HTTPClient = sc_HTTPClient client, vc_Enclave = sc_Enclave client, vc_Repo = sc_Repo client,
      vc_TransportMode = sc_Transport client, vc_GroundTruth = Some gt\<rparr>"
    have "te_factory te = Inr (Some ?v)" using assms Inr c(1) by (simp add: SDK_NewVerifiedClient_def)
    then have "newVerifiedClient te = Inr (transport, ?v, proofFromVerifiedClient te ?v gt)"
      using c(2) by (simp add: newVerifiedClient_def)
    moreover have "proves (proofFromVerifiedClient te ?v gt) client gt"
      by (simp add: proves_def proofFromVerifiedClient_def Let_def stringPtr_def)
    ultimately show ?thesis using verified Inr c by (simp add: sdk_verified_def)
  next
    case False
    then have "\<exists>reason. newVerifiedClient te = Inl (verification_failed reason)"
      using assms Inr
      by (cases "sc_HTTPClient client") (auto simp: newVerifiedClient_def SDK_NewVerifiedClient_def split: sum.splits option.splits)
    then show ?thesis using refused by blast
  qed
qed

lemma tinfoil_call_closed:
  assumes "te_factory te = SDK_NewVerifiedClient (te_getenv te) newClient"
  shows "fails_closed te newClient (tinfoil_call te stream raw model exchange)"
proof (cases rule: newVerifiedClient_sdk [OF assms])
  case (1 reason)
  then show ?thesis by (simp add: fails_closed_def tinfoil_call_def Let_def split: sum.splits)
next
  case (2 transport v client gt)
  have url: "hr_URL (newProviderRequest (te_getenv te) v apiKey body)
      = (if configuredProxyBaseURL (te_getenv te) = [] then ''https://'' @ sc_Enclave client @ ''/v1''
         else configuredProxyBaseURL (te_getenv te)) @ ''/chat/completions''" for apiKey body
    using 2(3) by (simp add: newProviderRequest_def chatCompletionsURL_def Let_def)
  show ?thesis
    using 2(1,2,4) url unfolding fails_closed_def tinfoil_call_def Let_def by (auto split: sum.splits)
qed


text \<open>An enclave that was verified, and its answer to a short request.\<close>

definition toy_truth :: ground_truth where
  "toy_truth = \<lparr>gt_EnclaveHost = [], gt_Digest = ''d'', gt_CodeFingerprint = ''c'', gt_EnclaveFingerprint = ''e'', gt_TLSPublicKey = ''t'',
     gt_HPKEPublicKey = ''h''\<rparr>"

definition toy_sdk :: "sdk_option list \<Rightarrow> go_error + sdk_client" where
  "toy_sdk opts = (if WithTransportEHBP \<notin> set opts then Inl (PlainErr ''transport'')
     else Inr \<lparr>sc_HTTPClient = Some (\<lambda>req. if hr_URL req = ''https://enclave/v1/chat/completions''
                 then Inr \<lparr>hs_Status = 200, hs_RetryAfter = [], hs_Body = ''{}'', hs_ReadError = None\<rparr> else Inl (PlainErr ''host'')),
               sc_Enclave = ''enclave'', sc_Repo = ''repo'', sc_Transport = ''ehbp'', sc_Verify = Inr (Some toy_truth)\<rparr>)"

definition toy_tinfoil_getenv :: "string \<Rightarrow> string" where
  "toy_tinfoil_getenv k = (if k = ''T_API_KEY'' then ''secret'' else [])"

definition toy_tinfoil :: tinfoil_env where
  "toy_tinfoil = \<lparr>te_getenv = toy_tinfoil_getenv, te_factory = SDK_NewVerifiedClient toy_tinfoil_getenv toy_sdk, te_timeout = second, te_fired = False, te_parent_done = False,
     te_deps = None, te_now = 7, te_marshal = (\<lambda>v. ''{}''), te_format = (\<lambda>t. []), te_truth_json = (\<lambda>g. JNull), te_parse = (\<lambda>s. None),
     te_code_text = (\<lambda>v. []), te_is_http_time = (\<lambda>s. False)\<rparr>"

definition toy_tinfoil_model :: "unit public_model" where
  "toy_tinfoil_model = toy_model\<lparr>m_ProviderConfig := (m_ProviderConfig toy_model)\<lparr>pc_ProviderName := ''tinfoil'',
     pc_APIKeySecretRef := ''T_API_KEY''\<rparr>\<rparr>"

definition toy_tinfoil_call :: "(gateway_error + (string \<times> tinfoil_proof)) \<times> http_request list" where
  "toy_tinfoil_call = tinfoil_Complete toy_tinfoil (Some (JObj [(''messages'', JArr [])])) toy_tinfoil_model"

lemma toy_tinfoil_runs:
  "\<exists>p req. toy_tinfoil_call = (Inr (''{}'', p), [req])"
proof -
  let ?raw = "Some (JObj [(''messages'', JArr [])])"
  have "ResolveAPIKey toy_tinfoil_getenv (pc_APIKeySecretRef (m_ProviderConfig toy_tinfoil_model)) = ''secret''" by code_simp
  moreover have "\<not> isl (PrepareProxyBody ?raw toy_tinfoil_model False)" by code_simp
  then obtain body ts where "PrepareProxyBody ?raw toy_tinfoil_model False = Inr (body, ts)"
    by (cases "PrepareProxyBody ?raw toy_tinfoil_model False") auto
  moreover have "sdk_options toy_tinfoil_getenv = [WithTransportEHBP]" "configuredProxyBaseURL toy_tinfoil_getenv = []" by code_simp+
  ultimately show ?thesis
    by (simp add: toy_tinfoil_call_def tinfoil_Complete_def tinfoil_call_def toy_tinfoil_def newVerifiedClient_def SDK_NewVerifiedClient_def
        toy_sdk_def tinfoil_do_def tinfoil_send_def DoWithHeaderTimeout_def second_def millisecond_def newProviderRequest_def
        chatCompletionsURL_def Let_def responseLimit_def)
qed


end
