(* ===== verification/RouterClient.thy ===== *)
theory RouterClient
  imports Http ProviderFacts
begin

text \<open>
  The client of the router service (\<open>adapters/router/http_client.go\<close>). The transport, the JSON codec
  and the reading of float literals are parameters; a call is its answer with what it counted.
\<close>

abbreviation CauseRouterUnreachable :: string where "CauseRouterUnreachable \<equiv> ''router_unreachable''"
abbreviation CauseRouterErrorStatus :: string where "CauseRouterErrorStatus \<equiv> ''router_error_status''"
abbreviation CauseRouterBadResponse :: string where "CauseRouterBadResponse \<equiv> ''router_bad_response''"

section \<open>Answers of the router\<close>

record router_client =
  rc_baseURL :: string
  rc_encode :: "route_request \<Rightarrow> string + string"             \<comment> \<open>\<open>json.Marshal\<close>: the text of an error, or the body\<close>
  rc_bad_url :: "string \<Rightarrow> string option"                    \<comment> \<open>why \<open>http.NewRequest\<close> refuses a URL\<close>
  rc_transport :: "string \<Rightarrow> string \<Rightarrow> string + (int \<times> string)"     \<comment> \<open>URL and body; the text of an error, or status and body\<close>
  rc_decode :: "string \<Rightarrow> json option"                       \<comment> \<open>the first value of a body\<close>
  rc_decode_error :: "string \<Rightarrow> string"
  rc_float32 :: "string \<Rightarrow> float32 option"

definition NewClient_baseURL :: "string \<Rightarrow> string" where
  "NewClient_baseURL baseURL = trim_right baseURL ''/''"

text \<open>A null leaves a struct as it is.\<close>

definition struct_fields :: "json \<Rightarrow> jobject option" where
  "struct_fields v = (case v of JNull \<Rightarrow> Some [] | JObj fs \<Rightarrow> Some fs | _ \<Rightarrow> None)"

definition dec_float32 :: "router_client \<Rightarrow> json \<Rightarrow> float32 option" where
  "dec_float32 rc v = (case v of JNum n \<Rightarrow> rc_float32 rc n | _ \<Rightarrow> None)"

definition zero_score :: routing_category_score where
  "zero_score = \<lparr>rcs_Category = [], rcs_Score = 0, rcs_Threshold = 0, rcs_PassedThreshold = False, rcs_Selected = False\<rparr>"

definition dec_score :: "router_client \<Rightarrow> jobject \<Rightarrow> routing_category_score option" where
  "dec_score rc fs =
     (case (value_field dec_str [] ''category'' fs, value_field (dec_float32 rc) 0 ''score'' fs, value_field (dec_float32 rc) 0 ''threshold'' fs,
            value_field dec_bool False ''passed_threshold'' fs, value_field dec_bool False ''selected'' fs) of
        (Some c, Some s, Some t, Some p, Some sel) \<Rightarrow>
          Some \<lparr>rcs_Category = c, rcs_Score = s, rcs_Threshold = t, rcs_PassedThreshold = p, rcs_Selected = sel\<rparr>
      | _ \<Rightarrow> None)"

definition dec_routeResponse :: "router_client \<Rightarrow> json \<Rightarrow> route_decision option" where
  "dec_routeResponse rc v =
     (case struct_fields v of
        None \<Rightarrow> None
      | Some fs \<Rightarrow>
          (case (value_field dec_str [] ''public_model_id'' fs, pointer_field dec_str ''category'' fs, pointer_field (dec_float32 rc) ''score'' fs,
                 pointer_field (dec_list (dec_struct (dec_score rc)) zero_score) ''category_scores'' fs,
                 value_field dec_bool False ''fallback_used'' fs, value_field dec_str [] ''reason'' fs) of
             (Some m, Some c, Some s, Some cs, Some f, Some r) \<Rightarrow>
               Some \<lparr>dec_PublicModelID = m, dec_Category = c, dec_Score = s, dec_CategoryScores = (case cs of Some xs \<Rightarrow> xs | None \<Rightarrow> []),
                     dec_FallbackUsed = f, dec_Reason = r\<rparr>
           | _ \<Rightarrow> None))"

text \<open>The inner struct is filled by every entry named \<open>error\<close>.\<close>

fun error_fields :: "json list \<Rightarrow> jobject option" where
  "error_fields [] = Some []"
| "error_fields (v # vs) =
     (case (struct_fields v, error_fields vs) of (Some fs, Some gs) \<Rightarrow> Some (fs @ gs) | _ \<Rightarrow> None)"

record router_error =
  re_Type :: string
  re_Code :: string
  re_Message :: string

definition dec_errorResponse :: "json \<Rightarrow> router_error option" where
  "dec_errorResponse v =
     (case Option.bind (struct_fields v) (\<lambda>fs. error_fields (values_named ''error'' fs)) of
        None \<Rightarrow> None
      | Some fs \<Rightarrow>
          (case (value_field dec_str [] ''type'' fs, value_field dec_str [] ''code'' fs, value_field dec_str [] ''message'' fs) of
             (Some t, Some c, Some m) \<Rightarrow> Some \<lparr>re_Type = t, re_Code = c, re_Message = m\<rparr>
           | _ \<Rightarrow> None))"

section \<open>A call\<close>

definition routerInternalError :: "meta list \<Rightarrow> gateway_error" where
  "routerInternalError fs = WithMeta (ErrInternal internal_text) ([MStr ''dependency'', MStr ''router''] @ fs)"

definition mapRouterError :: "string \<Rightarrow> int \<Rightarrow> router_error \<Rightarrow> gateway_error" where
  "mapRouterError routerID status err =
     (if status = 404 \<and> re_Type err = ErrTypeInvalidRequest \<and> (re_Code err = ErrCodeNotFound \<or> re_Code err = ErrCodeUnsupportedModel)
         \<and> re_Message err \<noteq> [] then ErrUnsupportedModel routerID
      else if status = 400 \<and> re_Type err = ErrTypeInvalidRequest \<and> re_Code err = ErrCodeInvalidField \<and> re_Message err \<noteq> []
      then ErrInvalidField (re_Message err)
      else routerInternalError [MStr ''cause'', MStr CauseRouterErrorStatus, MStr ''router_status'', MInt status,
             MStr ''router_code'', MStr (re_Code err), MStr ''reason'', MStr (re_Message err)])"

definition router_requests :: "string \<Rightarrow> metric" where
  "router_requests status = Count ''router_requests_total'' [status] 1"

definition Route :: "router_client \<Rightarrow> route_request \<Rightarrow> (gateway_error + route_decision) \<times> metric list" where
  "Route rc req =
     (let url = rc_baseURL rc @ ''/route''
      in case rc_encode rc req of
        Inl err \<Rightarrow> (Inl (routerInternalError [MStr ''reason'', MStr (''failed to encode router request: '' @ err)]), [])
      | Inr body \<Rightarrow>
     (case rc_bad_url rc url of
        Some err \<Rightarrow> (Inl (routerInternalError [MStr ''reason'', MStr (''failed to build router request: '' @ err)]), [])
      | None \<Rightarrow>
     (case rc_transport rc url body of
        Inl err \<Rightarrow> (Inl (routerInternalError [MStr ''cause'', MStr CauseRouterUnreachable, MStr ''reason'', MStr err]),
                     [router_requests ''transport_error''])
      | Inr (status, answer) \<Rightarrow>
          if status < 200 \<or> status \<ge> 300 then
            ((case Option.bind (rc_decode rc answer) dec_errorResponse of
                Some err \<Rightarrow>
                  if re_Code err \<noteq> [] then Inl (mapRouterError (route_RouterID req) status err)
                  else Inl (routerInternalError [MStr ''cause'', MStr CauseRouterErrorStatus, MStr ''router_status'', MInt status])
              | None \<Rightarrow> Inl (routerInternalError [MStr ''cause'', MStr CauseRouterErrorStatus, MStr ''router_status'', MInt status])),
             [router_requests (itoa_int status)])
          else case Option.bind (rc_decode rc answer) (dec_routeResponse rc) of
                 None \<Rightarrow> (Inl (routerInternalError [MStr ''cause'', MStr CauseRouterBadResponse, MStr ''reason'', MStr (rc_decode_error rc answer)]),
                           [router_requests ''protocol_error''])
               | Some out \<Rightarrow> (Inr out, [router_requests ''success'']))))"

section \<open>What a caller learns of the router\<close>

definition hidden :: "gateway_error \<Rightarrow> bool" where
  "hidden e = (FaultOf (GwErr e) = FaultNexus \<and> (\<forall>enc. error_reply enc e = error_reply enc (ErrInternal internal_text)))"

lemma routerInternalError_hidden [simp]:
  "hidden (routerInternalError [MStr ''reason'', MStr a])"
  "hidden (routerInternalError [MStr ''cause'', MStr c, MStr ''reason'', MStr a])"
  "hidden (routerInternalError [MStr ''cause'', MStr c, MStr ''router_status'', MInt n])"
  "hidden (routerInternalError [MStr ''cause'', MStr c, MStr ''router_status'', MInt n, MStr ''router_code'', MStr b, MStr ''reason'', MStr a])"
  by (simp_all add: hidden_def error_reply_def errorDetail_def routerInternalError_def with_meta_pair_def error_constructors FaultOf_def
      fault_meta_def faultByCode_def faults_def)

lemma caller_faults:
  "FaultOf (GwErr (ErrUnsupportedModel m)) = FaultCaller" "FaultOf (GwErr (ErrInvalidField s)) = FaultCaller"
  by (simp_all add: FaultOf_def fault_meta_def faultByCode_def faults_def error_constructors)

text \<open>The two refusals that are passed on.\<close>

definition router_refusal :: "string \<Rightarrow> int \<Rightarrow> router_error \<Rightarrow> gateway_error \<Rightarrow> bool" where
  "router_refusal routerID status err e =
     (re_Type err = ErrTypeInvalidRequest \<and> re_Message err \<noteq> []
      \<and> (status = 404 \<and> re_Code err \<in> {ErrCodeNotFound, ErrCodeUnsupportedModel} \<and> e = ErrUnsupportedModel routerID
         \<or> status = 400 \<and> re_Code err = ErrCodeInvalidField \<and> e = ErrInvalidField (re_Message err)))"

lemma mapRouterError_cases: "router_refusal routerID status err (mapRouterError routerID status err) \<or> hidden (mapRouterError routerID status err)"
  by (auto simp: mapRouterError_def router_refusal_def)

lemma refusal_is_callers: "router_refusal routerID status err e \<Longrightarrow> FaultOf (GwErr e) = FaultCaller"
  by (auto simp: router_refusal_def caller_faults)

lemma itoa_not_success: "itoa_int n \<noteq> ''success''"
proof
  assume "itoa_int n = ''success''"
  then have "CHR ''u'' \<in> set (itoa (nat \<bar>n\<bar>))" by (auto simp: itoa_int_def split: if_splits)
  then show False using itoa_digits by (fastforce simp: is_digit_def)
qed

definition router_refused :: "router_client \<Rightarrow> string \<Rightarrow> gateway_error \<Rightarrow> bool" where
  "router_refused rc routerID e =
     (\<exists>url body status answer v err. rc_transport rc url body = Inr (status, answer) \<and> rc_decode rc answer = Some v
        \<and> dec_errorResponse v = Some err \<and> router_refusal routerID status err e)"

lemma mapped_error:
  assumes "rc_transport rc url body = Inr (status, answer)" "Option.bind (rc_decode rc answer) dec_errorResponse = Some err"
    and "\<not> hidden (mapRouterError routerID status err)"
  shows "router_refused rc routerID (mapRouterError routerID status err)"
  using assms mapRouterError_cases [of routerID status err] unfolding router_refused_def bind_eq_Some_conv by blast

lemma Route_error:
  assumes "Route rc req = (Inl e, counted)"
  shows "router_refused rc (route_RouterID req) e \<or> hidden e"
    and "counted = [] \<or> (\<exists>s. counted = [router_requests s] \<and> s \<noteq> ''success'')"
proof -
  show "router_refused rc (route_RouterID req) e \<or> hidden e"
    using assms by (auto simp: Route_def Let_def intro: mapped_error split: sum.splits option.splits if_splits)
  show "counted = [] \<or> (\<exists>s. counted = [router_requests s] \<and> s \<noteq> ''success'')"
    using assms by (auto simp: Route_def Let_def itoa_not_success router_requests_def split: sum.splits option.splits if_splits)
qed

lemma Route_decision:
  assumes "Route rc req = (Inr d, counted)"
  shows "counted = [router_requests ''success'']
     \<and> (\<exists>url body status answer v. rc_transport rc url body = Inr (status, answer) \<and> 200 \<le> status \<and> status < 300
          \<and> rc_decode rc answer = Some v \<and> dec_routeResponse rc v = Some d)"
  using assms
  by (clarsimp simp: Route_def Let_def bind_eq_Some_conv not_less not_le split: sum.splits option.splits if_splits; blast)

text \<open>
  C18: What a caller can learn of the router. A failed route is one of two refusals of the request,
  which the router itself gave with their status and type and which are the caller's fault, or it is
  Nexus's fault and the reply is, byte for byte, that of a bare internal error, whatever the router,
  the transport or the decoder said. A decision comes only from a complete answer with a status of
  success. A call that reached the transport is counted once, as a success exactly when it was one.
\<close>
theorem router_failures_stay_inside:
  assumes "Route rc req = (res, counted)"
  shows "(\<forall>e. res = Inl e \<longrightarrow>
        (FaultOf (GwErr e) = FaultCaller \<and> router_refused rc (route_RouterID req) e)
        \<or> (FaultOf (GwErr e) = FaultNexus
          \<and> client_reply (WriteErrorWithLog enc type_name r (GwErr e)) = client_reply (WriteError enc (GwErr (ErrInternal internal_text)))))
    \<and> (\<forall>d. res = Inr d \<longrightarrow> counted = [router_requests ''success'']
         \<and> (\<exists>url body status answer v. rc_transport rc url body = Inr (status, answer) \<and> 200 \<le> status \<and> status < 300
              \<and> rc_decode rc answer = Some v \<and> dec_routeResponse rc v = Some d))
    \<and> ((\<exists>e. res = Inl e) \<longrightarrow> counted = [] \<or> (\<exists>s. counted = [router_requests s] \<and> s \<noteq> ''success''))"
proof (cases res)
  case (Inl e)
  have "FaultOf (GwErr e) = FaultCaller" if "router_refused rc (route_RouterID req) e"
    using that refusal_is_callers by (auto simp: router_refused_def)
  moreover have "client_reply (WriteErrorWithLog enc type_name r (GwErr e)) = client_reply (WriteError enc (GwErr (ErrInternal internal_text)))"
    if "hidden e"
    using that by (simp add: hidden_def WriteErrorWithLog_reply WriteError_reply shown_error_def)
  ultimately show ?thesis using Route_error [of rc req e counted] assms Inl by (auto simp: hidden_def)
next
  case (Inr d)
  then show ?thesis using Route_decision [of rc req d counted] assms by simp
qed

text \<open>A router that answers with a page of its own, and the reply the caller gets.\<close>

definition toy_router_client :: router_client where
  "toy_router_client = \<lparr>rc_baseURL = NewClient_baseURL ''http://router/'', rc_encode = (\<lambda>r. Inr ''{}''), rc_bad_url = (\<lambda>u. None),
     rc_transport = (\<lambda>u b. if u = ''http://router/route'' then Inr (502, ''secret host'') else Inl ''refused''),
     rc_decode = (\<lambda>s. None), rc_decode_error = (\<lambda>s. s), rc_float32 = (\<lambda>s. None)\<rparr>"

theorem router_failures_stay_inside_witness:
  "\<exists>e. Route toy_router_client \<lparr>route_RouterID = ''auto'', route_Request = toy_req\<rparr> = (Inl e, [router_requests ''502''])
     \<and> (\<forall>enc type_name r. client_reply (WriteErrorWithLog enc type_name r (GwErr e)) = client_reply (WriteError enc (GwErr (ErrInternal internal_text))))"
proof -
  let ?req = "\<lparr>route_RouterID = ''auto'', route_Request = toy_req\<rparr>"
  have "NewClient_baseURL ''http://router/'' = ''http://router''" "itoa_int 502 = ''502''" by code_simp+
  then obtain e where run: "Route toy_router_client ?req = (Inl e, [router_requests ''502''])"
    by (simp add: Route_def toy_router_client_def)
  have "\<not> router_refused toy_router_client s e" for s by (simp add: router_refused_def toy_router_client_def)
  then show ?thesis using router_failures_stay_inside [OF run] run by blast
qed

end
