(* ===== verification/Wiring.thy ===== *)
theory Wiring
  imports ProofFacts GatewayFacts Startup Tinfoil RouterClient
begin

text \<open>
  The gateway as \<open>main\<close> puts it together (\<open>main.go\<close>): the provider adapters under their names, and
  the ports of the generation service on the Metering client, the router client, the analyzer and
  those adapters. The transports, the SDK and the codecs stay parameters.
\<close>

section \<open>The wiring\<close>

datatype provider_adapter = TinfoilAdapter | TypeSafeAdapter | OpenAIAdapter

definition provider_registry :: "provider_adapter registry" where
  "provider_registry =
     SetDefault OpenAIAdapter (Register ''typesafe'' TypeSafeAdapter (Register ''tinfoil'' TinfoilAdapter NewRegistry))"

text \<open>What is outside: the environment after the start, and the answers the parts get during a request.\<close>

record 'd wiring =
  wr_environ :: environ
  wr_meter :: meter_env
  wr_price :: "int \<Rightarrow> 'd"
  wr_sha256 :: "string \<Rightarrow> string"
  wr_sent :: time                                     \<comment> \<open>when the reservation is sent\<close>
  wr_reservation :: string                            \<comment> \<open>its request ID\<close>
  wr_router :: router_client
  wr_presidio :: presidio_env
  wr_sdk :: "sdk_option list \<Rightarrow> go_error + sdk_client"
  wr_tinfoil :: tinfoil_env
  wr_openai :: adapter_env
  wr_typesafe :: client_env
  wr_codec :: codec
  wr_marshal :: "json \<Rightarrow> string"
  wr_part_len :: "string \<Rightarrow> nat \<Rightarrow> nat \<Rightarrow> int"
  wr_client_left :: bool                              \<comment> \<open>while the analyzer is asked\<close>
  wr_client_gone :: "moment \<Rightarrow> bool"
  wr_lost :: "moment \<Rightarrow> gateway_error option"
  wr_now :: time
  wr_latency :: int
  wr_error_type :: "go_error \<Rightarrow> string"

definition tinfoil_adapter :: "'d wiring \<Rightarrow> gateway_config \<Rightarrow> tinfoil_env" where
  "tinfoil_adapter w c =
     (wr_tinfoil w)\<lparr>te_getenv := wr_environ w, te_factory := SDK_NewVerifiedClient (wr_environ w) (wr_sdk w),
                    te_timeout := tt_ProviderSilence (gc_Timeouts c)\<rparr>"

definition openai_adapter :: "'d wiring \<Rightarrow> adapter_env" where
  "openai_adapter w = (wr_openai w)\<lparr>ae_getenv := wr_environ w\<rparr>"

definition adapter_complete :: "'d wiring \<Rightarrow> gateway_config \<Rightarrow> provider_adapter \<Rightarrow> 'd public_model \<Rightarrow> string
    \<Rightarrow> go_error + (string \<times> tinfoil_proof option)" where
  "adapter_complete w c a target body =
     (let raw = cd_parse (wr_codec w) body
      in case a of
           TinfoilAdapter \<Rightarrow> map_sum GwErr (\<lambda>(out, p). (out, Some p)) (fst (tinfoil_Complete (tinfoil_adapter w c) raw target))
         | TypeSafeAdapter \<Rightarrow> map_sum GwErr (\<lambda>out. (out, None)) (typesafe_Complete (wr_environ w) (wr_typesafe w) raw target)
         | OpenAIAdapter \<Rightarrow> map_sum GwErr (\<lambda>out. (out, None)) (fst (Adapter_Complete (openai_adapter w) raw target)))"

definition adapter_stream :: "'d wiring \<Rightarrow> gateway_config \<Rightarrow> provider_adapter \<Rightarrow> 'd public_model \<Rightarrow> string
    \<Rightarrow> go_error + (string \<times> go_error option \<times> tinfoil_proof option)" where
  "adapter_stream w c a target body =
     (let raw = cd_parse (wr_codec w) body
      in case a of
           TinfoilAdapter \<Rightarrow> map_sum GwErr (\<lambda>(r, p). (hs_Body r, hs_ReadError r, Some p)) (fst (tinfoil_Stream (tinfoil_adapter w c) raw target))
         | TypeSafeAdapter \<Rightarrow> Inl (GwErr typesafe_Stream)
         | OpenAIAdapter \<Rightarrow> map_sum GwErr (\<lambda>r. (hs_Body r, hs_ReadError r, None)) (fst (Adapter_Stream (openai_adapter w) raw target)))"

definition main_meter :: "'d wiring \<Rightarrow> gateway_config \<Rightarrow> meter_env" where
  "main_meter w c = NewClient (gc_MeteringURL c) (gc_MeteringToken c) (wr_meter w)"

definition main_router :: "'d wiring \<Rightarrow> gateway_config \<Rightarrow> router_client" where
  "main_router w c = (wr_router w)\<lparr>rc_baseURL := NewClient_baseURL (gc_RouterURL c)\<rparr>"

definition main_analyzer :: "'d wiring \<Rightarrow> gateway_config \<Rightarrow> analyzer" where
  "main_analyzer w c =
     (case ps_Filter (gc_PII c) of
        Some cfg \<Rightarrow> presidio_analyzer ((wr_presidio w)\<lparr>pe_config := cfg, pe_language := ps_Language (gc_PII c)\<rparr>)
      | None \<Rightarrow> NoopFilter_Analyze)"

definition main_ports :: "'d wiring \<Rightarrow> gateway_config \<Rightarrow> 'd ports" where
  "main_ports w c =
     (let meter = main_meter w c
      in \<lparr>po_auth = AuthenticateAPIKey meter (wr_sha256 w), po_model = GetPublicModel meter (wr_price w),
          po_router_entry = GetRouter meter,
          po_route = Some (\<lambda>r. map_sum GwErr (\<lambda>d. d) (fst (Route (main_router w c) r))),
          po_registered = (\<lambda>name. \<not> isl (GetProvider provider_registry name)),
          po_complete = (\<lambda>target body. case GetProvider provider_registry (pc_ProviderName (m_ProviderConfig target)) of
             Inl err \<Rightarrow> Inl err | Inr a \<Rightarrow> adapter_complete w c a target body),
          po_stream = (\<lambda>target body. case GetProvider provider_registry (pc_ProviderName (m_ProviderConfig target)) of
             Inl err \<Rightarrow> Inl err | Inr a \<Rightarrow> adapter_stream w c a target body),
          po_reserve = (\<lambda>auth endpoint req model. fst (Reserve meter (wr_sent w) auth endpoint req model (wr_reservation w) [])),
          po_keeps_holds = True, po_proofs = True,
          po_pii = \<lparr>pii_on = (ps_Filter (gc_PII c) \<noteq> None), pii_fail_open = ps_FailOpen (gc_PII c), pii_client_left = wr_client_left w\<rparr>,
          po_analyzer = main_analyzer w c, po_codec = wr_codec w, po_marshal = wr_marshal w, po_part_len = wr_part_len w,
          po_guest_limit = gc_GuestMaxOutput c, po_client_gone = wr_client_gone w, po_lost = wr_lost w, po_now = wr_now w,
          po_latency = wr_latency w, po_error_type = wr_error_type w\<rparr>)"

section \<open>Which adapter serves a name\<close>

lemma provider_names:
  "GetProvider provider_registry name =
     Inr (if name = ''tinfoil'' then TinfoilAdapter else if name = ''typesafe'' then TypeSafeAdapter else OpenAIAdapter)"
  by (simp add: GetProvider_def provider_registry_def SetDefault_def Register_def NewRegistry_def)

lemma main_calls:
  "po_complete (main_ports w c) target body = adapter_complete w c
     (projr (GetProvider provider_registry (pc_ProviderName (m_ProviderConfig target)))) target body"
  "po_stream (main_ports w c) target body = adapter_stream w c
     (projr (GetProvider provider_registry (pc_ProviderName (m_ProviderConfig target)))) target body"
  by (simp_all add: main_ports_def Let_def provider_names)

text \<open>A call that gives a proof is a call of the Tinfoil adapter over a client that was verified.\<close>

definition proof_verified :: "'d wiring \<Rightarrow> gateway_config \<Rightarrow> tinfoil_proof \<Rightarrow> bool" where
  "proof_verified w c p = (\<exists>client gt given. sdk_verified (tinfoil_adapter w c) (wr_sdk w) client gt \<and> proves given client gt \<and> measures p given)"

lemma tinfoil_adapter_closed: "fails_closed (tinfoil_adapter w c) (wr_sdk w) (tinfoil_call (tinfoil_adapter w c) stream raw model exchange)"
  by (rule tinfoil_call_closed) (simp add: tinfoil_adapter_def)

lemma answered_is_verified:
  assumes "fails_closed te sdk call" and "fst call = Inr (out, p)"
  shows "\<exists>client gt. sdk_verified te sdk client gt \<and> proves p client gt"
  using assms by (cases call; cases "snd call") (auto simp: fails_closed_def)

lemma complete_proof:
  assumes "po_complete (main_ports w c) target body = Inr (out, Some p)"
  shows "\<exists>client gt. sdk_verified (tinfoil_adapter w c) (wr_sdk w) client gt \<and> proves p client gt"
proof -
  have "fst (tinfoil_Complete (tinfoil_adapter w c) (cd_parse (wr_codec w) body) target) = Inr (out, p)"
    using assms by (auto simp: main_calls provider_names adapter_complete_def map_sum_def split: if_splits sum.splits)
  then show ?thesis unfolding tinfoil_Complete_def by (rule answered_is_verified [OF tinfoil_adapter_closed])
qed

lemma stream_proof:
  assumes "po_stream (main_ports w c) target body = Inr (text', rerr, Some p)"
  shows "\<exists>client gt. sdk_verified (tinfoil_adapter w c) (wr_sdk w) client gt \<and> proves p client gt"
proof -
  obtain r where "fst (tinfoil_Stream (tinfoil_adapter w c) (cd_parse (wr_codec w) body) target) = Inr (r, p)"
    using assms by (auto simp: main_calls provider_names adapter_stream_def map_sum_def split: if_splits sum.splits)
  then show ?thesis unfolding tinfoil_Stream_def by (rule answered_is_verified [OF tinfoil_adapter_closed])
qed

section \<open>Attested models\<close>

text \<open>A provider call that goes only over a verified enclave.\<close>

definition attested_call :: "'d wiring \<Rightarrow> gateway_config \<Rightarrow> bool \<Rightarrow> 'd public_model \<Rightarrow> string \<Rightarrow> bool" where
  "attested_call w c streaming target body =
     (let te = tinfoil_adapter w c; raw = cd_parse (wr_codec w) body; po = main_ports w c
      in if streaming
         then fails_closed te (wr_sdk w) (tinfoil_Stream te raw target)
            \<and> po_stream po target body = map_sum GwErr (\<lambda>(r, p). (hs_Body r, hs_ReadError r, Some p)) (fst (tinfoil_Stream te raw target))
         else fails_closed te (wr_sdk w) (tinfoil_Complete te raw target)
            \<and> po_complete po target body = map_sum GwErr (\<lambda>(out, p). (out, Some p)) (fst (tinfoil_Complete te raw target)))"

lemma tinfoil_name_attested:
  "pc_ProviderName (m_ProviderConfig target) = ''tinfoil'' \<Longrightarrow> attested_call w c streaming target body"
  by (simp add: attested_call_def Let_def main_calls provider_names adapter_complete_def adapter_stream_def tinfoil_Stream_def
      tinfoil_Complete_def tinfoil_adapter_closed)

lemma valid_attested_name:
  "validateRequest endpoint req target = None \<Longrightarrow> EffectiveProofMode target = ProofModeTinfoilAttestedTransport
   \<Longrightarrow> equal_fold (pc_ProviderName (m_ProviderConfig target)) ''tinfoil''"
  by (simp add: validateRequest_def Let_def split: if_splits)

lemma stored_for_verified:
  "stored_for h target given p \<Longrightarrow> sdk_verified (tinfoil_adapter w c) (wr_sdk w) client gt \<Longrightarrow> proves given client gt
   \<Longrightarrow> proof_verified w c p \<and> proof_AccountID p = acc_ID (auth_Account (hd_auth h)) \<and> proof_APIKeyID p = key_ID (auth_APIKey (hd_auth h))"
  by (auto simp: stored_for_def proof_verified_def)


subsection \<open>The other spellings\<close>

text \<open>A Metering with one model in attested mode, its provider named as given; no enclave can be verified.\<close>

definition toy_attested_entry :: "string \<Rightarrow> json" where
  "toy_attested_entry name = JObj
     [(''id'', JStr ''m''), (''public_model_id'', JStr ''toy''), (''display_name'', JStr ''Toy''),
      (''provider_model_id'', JStr ''p''), (''upstream_model_name'', JStr ''up''), (''proof_mode'', JStr ''tinfoil_attested_transport''),
      (''provider_config'', JObj [(''id'', JStr ''c''), (''provider_name'', JStr name), (''base_url'', JStr ''https://plain''),
         (''api_key_secret_ref'', JStr ''T_API_KEY''), (''active'', JBool True)]),
      (''supports_chat_completions'', JBool True), (''supports_chat_completions_stream'', JBool True),
      (''supports_tools'', JBool True), (''supports_parallel_tool_calls'', JBool False),
      (''supports_structured_output'', JBool True), (''supports_reasoning'', JBool False),
      (''max_context_window'', JNum ''100''), (''max_output_tokens'', JNum ''10''),
      (''input_price_per_1m_tokens_microcents'', JNum ''5''), (''output_price_per_1m_tokens_microcents'', JNum ''6''),
      (''currency'', JStr ''EUR''), (''active'', JBool True)]"

definition toy_main_meter :: "string \<Rightarrow> meter_env" where
  "toy_main_meter name = (toy_meter (Response 200 []) JNull)
     \<lparr>mt_do := \<lambda>m u b t n. Response 200 (if has_suffix u ''/authenticate'' then ''A'' else if has_suffix u ''/reservations'' then ''R'' else ''M''),
      mt_parse := \<lambda>s. Some (if s = ''A'' then toy_answer else if s = ''R'' then JObj [(''reservation_id'', JStr ''r1'')]
        else toy_attested_entry name)\<rparr>"

definition toy_config :: gateway_config where
  "toy_config = \<lparr>gc_Port = ''8080'', gc_Logger = \<lparr>zl_Config = fst (requestLoggingConfig [] ''info''), zl_Verbose = False\<rparr>, gc_RouterURL = ''http://r'',
     gc_MeteringURL = ''http://m'', gc_MeteringToken = ''t'', gc_Timeouts = \<lparr>tt_ProviderSilence = second, tt_ClientIO = second\<rparr>,
     gc_EURToUSD = defaultEURToUSDRate, gc_PII = \<lparr>ps_Filter = None, ps_Language = ''en'', ps_FailOpen = False\<rparr>, gc_GuestMaxOutput = 8\<rparr>"

definition toy_plain_client :: client_env where
  "toy_plain_client = \<lparr>ce_parse = (\<lambda>s. None), ce_code_text = (\<lambda>v. []), ce_is_http_time = (\<lambda>s. False),
     ce_transport = (\<lambda>r. Inr \<lparr>hs_Status = 200, hs_RetryAfter = [], hs_Body = ''{}'', hs_ReadError = None\<rparr>)\<rparr>"

definition toy_main_codec :: codec where
  "toy_main_codec = toy_codec\<lparr>cd_parse := \<lambda>s. Some (JObj [(''id'', JStr ''x''), (''messages'', JArr [])])\<rparr>"

definition toy_wiring :: "string \<Rightarrow> (sdk_option list \<Rightarrow> go_error + sdk_client) \<Rightarrow> int wiring" where
  "toy_wiring name sdk = \<lparr>wr_environ = toy_tinfoil_getenv, wr_meter = toy_main_meter name, wr_price = (\<lambda>p. p), wr_sha256 = (\<lambda>s. s), wr_sent = 0,
     wr_reservation = ''id'', wr_router = toy_router_client, wr_presidio = undefined, wr_sdk = sdk,
     wr_tinfoil = toy_tinfoil, wr_openai = \<lparr>ae_getenv = toy_tinfoil_getenv, ae_client = (\<lambda>n. toy_plain_client), ae_left = (\<lambda>n. None), ae_cause = CtxCanceled\<rparr>,
     wr_typesafe = toy_plain_client, wr_codec = toy_main_codec,
     wr_marshal = (\<lambda>v. ''{}''), wr_part_len = (\<lambda>t i j. 0),
     wr_client_left = False, wr_client_gone = (\<lambda>m. False), wr_lost = (\<lambda>m. None), wr_now = 0, wr_latency = 0, wr_error_type = (\<lambda>e. [])\<rparr>"

definition toy_main_ports :: "string \<Rightarrow> (sdk_option list \<Rightarrow> go_error + sdk_client) \<Rightarrow> int ports" where
  "toy_main_ports name sdk = main_ports (toy_wiring name sdk) toy_config"

definition toy_main_request :: generate_request where
  "toy_main_request = toy_req\<lparr>req_PublicModelID := ''toy'', req_Stream := False\<rparr>"

definition toy_main_model :: "string \<Rightarrow> int public_model" where
  "toy_main_model name = projr (GetPublicModel (NewClient ''http://m'' ''t'' (toy_main_meter name)) (\<lambda>p. p) ''toy'')"

definition toy_main_auth :: "string \<Rightarrow> auth_context" where
  "toy_main_auth name = projr (AuthenticateAPIKey (NewClient ''http://m'' ''t'' (toy_main_meter name)) (\<lambda>s. s) ''t'')"

definition toy_main_call :: "string \<Rightarrow> (sdk_option list \<Rightarrow> go_error + sdk_client) \<Rightarrow> (go_error + (held_call \<times> int call_result)) \<times> int effect list" where
  "toy_main_call name sdk = Proxy (toy_main_ports name sdk) ''id'' EndpointChatCompletions ''{}'' toy_main_request ''t''"

definition toy_main_summary :: "string \<Rightarrow> (bool \<times> (string \<times> bool \<times> string \<times> string) \<times> string \<times> bool) option" where
  "toy_main_summary name =
     (case (AuthenticateAPIKey (NewClient ''http://m'' ''t'' (toy_main_meter name)) (\<lambda>s. s) ''t'',
            GetPublicModel (NewClient ''http://m'' ''t'' (toy_main_meter name)) (\<lambda>p. p) ''toy'') of
        (Inr auth, Inr m) \<Rightarrow> Some (acc_IsGuest (auth_Account auth), (m_PublicModelID m, m_Fallback m = None, pc_ProviderName (m_ProviderConfig m),
          pc_APIKeySecretRef (m_ProviderConfig m)), EffectiveProofMode m, SupportsEndpoint m EndpointChatCompletions)
      | _ \<Rightarrow> None)"

lemma toy_main_summaries:
  "toy_main_summary ''tinfoil'' = Some (False, (''toy'', True, ''tinfoil'', ''T_API_KEY''), ProofModeTinfoilAttestedTransport, True)"
  "toy_main_summary ''Tinfoil'' = Some (False, (''toy'', True, ''Tinfoil'', ''T_API_KEY''), ProofModeTinfoilAttestedTransport, True)"
  by code_simp+

lemma toy_main_reserve: "fst (Reserve (NewClient ''http://m'' ''t'' (toy_main_meter name)) 0 auth endpoint req model ''id'' []) = Inr ''r1''"
proof -
  let ?env = "NewClient ''http://m'' ''t'' (toy_main_meter name)" and ?path = "''/internal/metering/reservations''"
  let ?v = "JObj [(''reservation_id'', JStr ''r1'')]"
  have suffix: "has_suffix (''http://m'' @ ?path) ''/authenticate'' = False" "has_suffix (''http://m'' @ ?path) ''/reservations'' = True" by code_simp+
  have base: "trim_right ''http://m'' ''/'' = ''http://m''" by code_simp
  have dec: "dec_reserve_response ?v = Some \<lparr>rr_ReservationID = ''r1'', rr_LeaseMS = 0\<rparr>" by code_simp
  have once: "fst (requestJSONOnce ?env ''POST'' ?path (Some pl) (Some dec_reserve_response) 0)
      = Inr (Some \<lparr>rr_ReservationID = ''r1'', rr_LeaseMS = 0\<rparr>)" for pl
    using suffix base dec
    by (simp add: requestJSONOnce_def Let_def toy_main_meter_def toy_meter_def NewClient_def decodeJSONResponse_def)
  have "fst (postJSON ?env ?path pl (Some dec_reserve_response) 2) = Inr (Some \<lparr>rr_ReservationID = ''r1'', rr_LeaseMS = 0\<rparr>)" for pl
    using once [of pl] by (cases "requestJSONOnce ?env ''POST'' ?path (Some pl) (Some dec_reserve_response) 0")
      (simp add: postJSON_def requestJSON_def numeral_3_eq_3)
  then obtain ms where "postJSON ?env ?path (PReserve (reserve_payload auth endpoint req model ''id'')) (Some dec_reserve_response) 2
      = (Inr (Some \<lparr>rr_ReservationID = ''r1'', rr_LeaseMS = 0\<rparr>), ms)" by (metis prod.collapse)
  then show ?thesis by (simp add: Reserve_def answer_of_def)
qed

lemma toy_main_facts:
  assumes "name = ''tinfoil'' \<or> name = ''Tinfoil''"
  shows "AuthenticateAPIKey (NewClient ''http://m'' ''t'' (toy_main_meter name)) (\<lambda>s. s) ''t'' = Inr (toy_main_auth name)"
    and "GetPublicModel (NewClient ''http://m'' ''t'' (toy_main_meter name)) (\<lambda>p. p) ''toy'' = Inr (toy_main_model name)"
    and "\<not> acc_IsGuest (auth_Account (toy_main_auth name))"
    and "m_PublicModelID (toy_main_model name) = ''toy''" "m_Fallback (toy_main_model name) = None"
    and "pc_ProviderName (m_ProviderConfig (toy_main_model name)) = name"
    and "pc_APIKeySecretRef (m_ProviderConfig (toy_main_model name)) = ''T_API_KEY''"
    and "EffectiveProofMode (toy_main_model name) = ProofModeTinfoilAttestedTransport"
    and "SupportsEndpoint (toy_main_model name) EndpointChatCompletions"
proof -
  have "toy_main_summary name = Some (False, (''toy'', True, name, ''T_API_KEY''), ProofModeTinfoilAttestedTransport, True)"
    using assms toy_main_summaries by auto
  then obtain auth m where "AuthenticateAPIKey (NewClient ''http://m'' ''t'' (toy_main_meter name)) (\<lambda>s. s) ''t'' = Inr auth"
      "GetPublicModel (NewClient ''http://m'' ''t'' (toy_main_meter name)) (\<lambda>p. p) ''toy'' = Inr m"
      "(acc_IsGuest (auth_Account auth), (m_PublicModelID m, m_Fallback m = None, pc_ProviderName (m_ProviderConfig m),
          pc_APIKeySecretRef (m_ProviderConfig m)), EffectiveProofMode m, SupportsEndpoint m EndpointChatCompletions)
       = (False, (''toy'', True, name, ''T_API_KEY''), ProofModeTinfoilAttestedTransport, True)"
    by (auto simp: toy_main_summary_def split: sum.splits)
  moreover from this have "toy_main_auth name = auth" "toy_main_model name = m" by (simp_all add: toy_main_auth_def toy_main_model_def)
  ultimately show "AuthenticateAPIKey (NewClient ''http://m'' ''t'' (toy_main_meter name)) (\<lambda>s. s) ''t'' = Inr (toy_main_auth name)"
    and "GetPublicModel (NewClient ''http://m'' ''t'' (toy_main_meter name)) (\<lambda>p. p) ''toy'' = Inr (toy_main_model name)"
    and "\<not> acc_IsGuest (auth_Account (toy_main_auth name))"
    and "m_PublicModelID (toy_main_model name) = ''toy''" "m_Fallback (toy_main_model name) = None"
    and "pc_ProviderName (m_ProviderConfig (toy_main_model name)) = name"
    and "pc_APIKeySecretRef (m_ProviderConfig (toy_main_model name)) = ''T_API_KEY''"
    and "EffectiveProofMode (toy_main_model name) = ProofModeTinfoilAttestedTransport"
    and "SupportsEndpoint (toy_main_model name) EndpointChatCompletions" by simp_all
qed

lemma toy_main_fields [simp]:
  "po_auth (toy_main_ports name sdk) = AuthenticateAPIKey (NewClient ''http://m'' ''t'' (toy_main_meter name)) (\<lambda>s. s)"
  "po_model (toy_main_ports name sdk) = GetPublicModel (NewClient ''http://m'' ''t'' (toy_main_meter name)) (\<lambda>p. p)"
  "po_reserve (toy_main_ports name sdk) = (\<lambda>auth endpoint req model.
     fst (Reserve (NewClient ''http://m'' ''t'' (toy_main_meter name)) 0 auth endpoint req model ''id'' []))"
  "po_pii (toy_main_ports name sdk) = \<lparr>pii_on = False, pii_fail_open = False, pii_client_left = False\<rparr>"
  "po_codec (toy_main_ports name sdk) = toy_main_codec" "po_keeps_holds (toy_main_ports name sdk)" "po_proofs (toy_main_ports name sdk)"
  "po_registered (toy_main_ports name sdk) provider" "po_lost (toy_main_ports name sdk) m = None"
  by (simp_all add: toy_main_ports_def main_ports_def Let_def main_meter_def toy_wiring_def toy_config_def provider_names)

lemma toy_main_valid:
  assumes "name = ''tinfoil'' \<or> name = ''Tinfoil''"
  shows "validateRequest EndpointChatCompletions req (toy_main_model name) = None"
proof -
  have "equal_fold name ''tinfoil''" "\<not> equal_fold name ''doubleword''" using assms by (elim disjE; hypsubst; code_simp)+
  then show ?thesis
    using toy_main_facts [OF assms] by (simp add: validateRequest_def Let_def EndpointChatCompletions_def EndpointSystemOne_def)
qed

lemma toy_main_answers:
  assumes "name = ''tinfoil'' \<or> name = ''Tinfoil''" and "po_complete (toy_main_ports name sdk) (toy_main_model name) ''{}'' = Inr (''{}'', given)"
  shows "\<exists>h body r ev. toy_main_call name sdk = (Inr (h, Answered (toy_main_model name) body), ev) \<and> o_err r = None \<and> o_providerID r = ''x''
    \<and> stored ev = stored (finish_call (toy_main_ports name sdk) h (toy_main_model name) (r\<lparr>o_proof := given\<rparr>))
    \<and> providers ev = [(False, toy_main_model name, ''{}'')]"
proof -
  note facts = toy_main_facts [OF assms(1)] toy_main_valid [OF assms(1)]
  let ?po = "toy_main_ports name sdk"
  obtain h ev1 where a: "admit ?po ''id'' EndpointChatCompletions ''{}'' toy_main_request ''t'' = (Inr (toy_main_model name, h), ev1)"
      "hd_masked h = ''{}''" "hd_mapping h = None" "hd_endpoint h = EndpointChatCompletions" "\<not> req_Stream (hd_req h)"
      "stored ev1 = []" "providers ev1 = []"
  proof -
    have req: "req_PublicModelID toy_main_request = ''toy''" "\<not> req_Stream toy_main_request" by (simp_all add: toy_main_request_def)
    have mask: "maskBody \<lparr>pii_on = False, pii_fail_open = False, pii_client_left = False\<rparr> a b d e raw m ep = Inr (raw, None)" for a b d e raw m ep
      by (simp add: maskBody_def Let_def split: prod.splits)
    obtain exec where exec: "resolveModel ?po toy_main_request = Inr (toy_main_model name, exec)" "\<not> req_Stream exec"
      using facts(2) req by (auto simp: resolveModel_def Let_def)
    define exec' where "exec' = (case estimateInputTokens (int (length ''{}'')) (po_part_len ?po ''{}'') EndpointChatCompletions
        (cd_parse toy_main_codec ''{}'') of Some t \<Rightarrow> exec\<lparr>req_EstimatedInputTokens := Some t\<rparr> | None \<Rightarrow> exec)"
    have "\<not> req_Stream exec'" using exec(2) by (simp add: exec'_def split: option.splits)
    have other: "EndpointChatCompletions \<noteq> EndpointSystemOne" by code_simp
    have adm: "admit ?po ''id'' EndpointChatCompletions ''{}'' toy_main_request ''t'' =
        (Inr (toy_main_model name, \<lparr>hd_rid = ''id'', hd_auth = toy_main_auth name, hd_endpoint = EndpointChatCompletions, hd_req = exec',
           hd_raw = ''{}'', hd_masked = ''{}'', hd_mapping = None, hd_reservation = ''r1''\<rparr>),
         [EvReserve (toy_main_auth name) exec' (toy_main_model name) (Inr ''r1''), EvKeep ''r1''])"
      using facts exec(1) other by (simp add: admit_def Let_def mask toy_main_reserve exec'_def)
    show thesis by (rule that [OF adm]) (use \<open>\<not> req_Stream exec'\<close> in simp_all)
  qed
  have "\<not> isl (observeJSON toy_main_codec ''{}'' ''toy'' None)" "o_err (snd (projr (observeJSON toy_main_codec ''{}'' ''toy'' None))) = None"
      "o_providerID (snd (projr (observeJSON toy_main_codec ''{}'' ''toy'' None))) = ''x''" by code_simp+
  then obtain body r where o: "observeJSON toy_main_codec ''{}'' ''toy'' None = Inr (body, r)" "o_err r = None" "o_providerID r = ''x''"
    by (cases "observeJSON toy_main_codec ''{}'' ''toy'' None") auto
  have "attempt ?po h (toy_main_model name) = (Inr (Answered (toy_main_model name) body),
      EvProvider False (toy_main_model name) ''{}'' # finish_call ?po h (toy_main_model name) (r\<lparr>o_proof := given\<rparr>))"
    using a facts o assms(2) by (simp add: attempt_def Let_def newUnmasker_def EndpointChatCompletions_def EndpointSystemOne_def)
  then have "toy_main_call name sdk = (Inr (h, Answered (toy_main_model name) body),
      ev1 @ EvProvider False (toy_main_model name) ''{}'' # finish_call ?po h (toy_main_model name) (r\<lparr>o_proof := given\<rparr>))"
    using a by (simp add: toy_main_call_def Proxy_def run_held_def)
  then show ?thesis using a o by auto
qed

text \<open>The exact name reaches the verified enclave of the SDK; any other spelling the plain adapter.\<close>

lemma toy_main_bodies: "\<not> isl (PrepareProxyBody (cd_parse toy_main_codec ''{}'') (toy_main_model ''tinfoil'') False)"
    "\<not> isl (PrepareProxyBody (cd_parse toy_main_codec ''{}'') (toy_main_model ''Tinfoil'') False)"
  by code_simp+

lemma toy_main_key: "ResolveAPIKey toy_tinfoil_getenv ''T_API_KEY'' = ''secret''"
  by code_simp

lemma toy_plain_completes:
  "po_complete (toy_main_ports ''Tinfoil'' sdk) (toy_main_model ''Tinfoil'') ''{}'' = Inr (''{}'', None)"
proof -
  obtain body ts where b: "PrepareProxyBody (cd_parse toy_main_codec ''{}'') (toy_main_model ''Tinfoil'') False = Inr (body, ts)"
    using toy_main_bodies(2) by (cases "PrepareProxyBody (cd_parse toy_main_codec ''{}'') (toy_main_model ''Tinfoil'') False") auto
  have do: "Do toy_plain_client url key bd = Inr ''{}''" for url key bd
    by (simp add: Do_def DoEndpoint_def toy_plain_client_def responseLimit_def)
  have "fst (Adapter_Complete (openai_adapter (toy_wiring ''Tinfoil'' sdk)) (cd_parse toy_main_codec ''{}'') (toy_main_model ''Tinfoil'')) = Inr ''{}''"
    using toy_main_facts [of "''Tinfoil''"]
    by (simp add: Adapter_Complete_def b proxy_def Let_def openai_adapter_def toy_wiring_def toy_main_key proxy_loop.simps do)
  then show ?thesis
    using toy_main_facts(6) [of "''Tinfoil''"]
    by (simp add: toy_main_ports_def main_calls provider_names adapter_complete_def Let_def) (simp add: toy_wiring_def)
qed

lemma toy_attested_completes:
  "\<exists>given. po_complete (toy_main_ports ''tinfoil'' toy_sdk) (toy_main_model ''tinfoil'') ''{}'' = Inr (''{}'', Some given)"
proof -
  let ?te = "tinfoil_adapter (toy_wiring ''tinfoil'' toy_sdk) toy_config" and ?m = "toy_main_model ''tinfoil''"
  obtain body ts where b: "PrepareProxyBody (cd_parse toy_main_codec ''{}'') ?m False = Inr (body, ts)"
    using toy_main_bodies(1) by (cases "PrepareProxyBody (cd_parse toy_main_codec ''{}'') ?m False") auto
  have "sdk_options toy_tinfoil_getenv = [WithTransportEHBP]" "configuredProxyBaseURL toy_tinfoil_getenv = []" by code_simp+
  then have "\<exists>given. fst (tinfoil_Complete ?te (cd_parse toy_main_codec ''{}'') ?m) = Inr (''{}'', given)"
    using toy_main_facts(7) [of "''tinfoil''"] b
    by (simp add: tinfoil_Complete_def tinfoil_call_def tinfoil_adapter_def toy_wiring_def toy_main_key newVerifiedClient_def
        SDK_NewVerifiedClient_def toy_sdk_def tinfoil_do_def tinfoil_send_def DoWithHeaderTimeout_def toy_config_def toy_tinfoil_def
        second_def millisecond_def newProviderRequest_def chatCompletionsURL_def Let_def responseLimit_def)
  then obtain given where "fst (tinfoil_Complete ?te (cd_parse toy_main_codec ''{}'') ?m) = Inr (''{}'', given)" by blast
  then show ?thesis
    using toy_main_facts(6) [of "''tinfoil''"]
    by (simp add: toy_main_ports_def main_calls provider_names adapter_complete_def Let_def) (simp add: toy_wiring_def)
qed



end
