(* ===== verification/Collectors.thy ===== *)
theory Collectors
  imports GatewayHttp RouterClient Presidio
begin

text \<open>
  The Prometheus collectors (\<open>observability/metrics/prometheus.go\<close>) and what the gateway records in
  them. Prometheus panics when a collector is registered twice, and when \<open>WithLabelValues\<close> is given
  another number of values than the collector has labels; values of histograms are not modelled.
\<close>

section \<open>The collectors\<close>

datatype collector_kind = CounterKind | GaugeKind | HistogramKind

record collector =
  cl_Kind :: collector_kind
  cl_Name :: string
  cl_Labels :: "string list"
  cl_Buckets :: "int list"            \<comment> \<open>of a histogram, in milliseconds\<close>

definition NewCounterVec :: "string \<Rightarrow> string list \<Rightarrow> collector" where
  "NewCounterVec name labels = \<lparr>cl_Kind = CounterKind, cl_Name = name, cl_Labels = labels, cl_Buckets = []\<rparr>"

definition NewGaugeVec :: "string \<Rightarrow> string list \<Rightarrow> collector" where
  "NewGaugeVec name labels = \<lparr>cl_Kind = GaugeKind, cl_Name = name, cl_Labels = labels, cl_Buckets = []\<rparr>"

definition NewHistogramVec :: "string \<Rightarrow> int list \<Rightarrow> string list \<Rightarrow> collector" where
  "NewHistogramVec name buckets labels = \<lparr>cl_Kind = HistogramKind, cl_Name = name, cl_Labels = labels, cl_Buckets = buckets\<rparr>"

text \<open>\<open>prometheus.ExponentialBuckets(0.25, 2, 12)\<close> and \<open>prometheus.DefBuckets\<close>.\<close>

definition ExponentialBuckets :: "int \<Rightarrow> int \<Rightarrow> nat \<Rightarrow> int list" where
  "ExponentialBuckets start factor n = map (\<lambda>i. start * factor ^ i) [0..<n]"

definition LLMBuckets :: "int list" where "LLMBuckets = ExponentialBuckets 250 2 12"

definition DefBuckets :: "int list" where
  "DefBuckets = [5, 10, 25, 50, 100, 250, 500, 1000, 2500, 5000, 10000]"

definition metric_name :: "string \<Rightarrow> string" where "metric_name n = ''nexus_gateway_'' @ n"

definition http_collectors :: "collector list" where
  "http_collectors =
     [NewCounterVec (metric_name ''http_requests_total'') [''route'', ''method'', ''status''],
      NewHistogramVec (metric_name ''http_request_duration_seconds'') LLMBuckets [''route'', ''method''],
      NewGaugeVec (metric_name ''http_inflight_requests'') []]"

definition generation_collectors :: "collector list" where
  "generation_collectors =
     [NewCounterVec (metric_name ''generations_total'') [''endpoint'', ''model'', ''provider'', ''stream'', ''outcome''],
      NewHistogramVec (metric_name ''generation_duration_seconds'') LLMBuckets [''endpoint'', ''model'', ''provider'', ''stream''],
      NewHistogramVec (metric_name ''upstream_latency_seconds'') LLMBuckets [''provider'', ''model'', ''outcome''],
      NewCounterVec (metric_name ''tokens_total'') [''direction'', ''model'', ''provider''],
      NewCounterVec (metric_name ''cache_tokens_total'') [''direction'', ''model'', ''provider'']]"

definition dependency_collectors :: "collector list" where
  "dependency_collectors =
     [NewCounterVec (metric_name ''metering_requests_total'') [''operation'', ''status''],
      NewHistogramVec (metric_name ''metering_duration_seconds'') DefBuckets [''operation''],
      NewCounterVec (metric_name ''router_requests_total'') [''status''],
      NewHistogramVec (metric_name ''router_duration_seconds'') DefBuckets [],
      NewCounterVec (metric_name ''pii_analyze_calls_total'') [''mode'', ''status''],
      NewHistogramVec (metric_name ''pii_analyze_duration_seconds'') DefBuckets [''mode''],
      NewCounterVec (metric_name ''pii_detections_total'') [''entity_type''],
      NewCounterVec (metric_name ''attestation_operations_total'') [''outcome''],
      NewHistogramVec (metric_name ''attestation_duration_seconds'') DefBuckets [],
      NewCounterVec (metric_name ''provider_retries_total'') [''provider'', ''reason'']]"

definition error_collectors :: "collector list" where
  "error_collectors =
     [NewCounterVec (metric_name ''errors_total'')
        [''endpoint'', ''model'', ''provider'', ''phase'', ''fault'', ''error_code'', ''upstream_status''],
      NewCounterVec (metric_name ''fallbacks_total'') [''endpoint'', ''model'', ''provider'', ''fallback_provider'', ''fault'', ''error_code''],
      NewGaugeVec (metric_name ''build_info'') [''version'', ''commit'']]"

definition registered :: "collector list" where
  "registered = http_collectors @ generation_collectors @ dependency_collectors @ error_collectors"

text \<open>\<open>MustRegister\<close>: the registry, or a panic when a name is there already.\<close>

fun MustRegister :: "collector list \<Rightarrow> collector list \<Rightarrow> collector list option" where
  "MustRegister reg [] = Some reg"
| "MustRegister reg (c # cs) =
     (if cl_Name c \<in> set (map cl_Name reg) then None else MustRegister (reg @ [c]) cs)"

text \<open>\<open>WithLabelValues\<close> on the collector of that name; \<open>None\<close> is a panic. A counter only grows.\<close>

definition WithLabelValues :: "collector list \<Rightarrow> string \<Rightarrow> string list \<Rightarrow> (string \<times> string) list option" where
  "WithLabelValues reg name vals =
     (case find (\<lambda>c. cl_Name c = metric_name name) reg of
        Some c \<Rightarrow> if length (cl_Labels c) = length vals then Some (zip (cl_Labels c) vals) else None
      | None \<Rightarrow> None)"

section \<open>What is recorded\<close>

definition well_labelled :: "metric \<Rightarrow> bool" where
  "well_labelled m = (case m of Count name vals n \<Rightarrow> WithLabelValues registered name vals \<noteq> None)"

fun labelled_effect :: "'d effect \<Rightarrow> bool" where
  "labelled_effect (EvMetric m) = well_labelled m"
| "labelled_effect e = True"

abbreviation labelled :: "'d effect list \<Rightarrow> bool" where "labelled ev \<equiv> list_all labelled_effect ev"

lemma registered_once: "MustRegister [] registered = Some registered"
  by code_simp

text \<open>One lemma per counter that the gateway records.\<close>

definition label_count :: "string \<Rightarrow> nat option" where
  "label_count name = map_option (\<lambda>c. length (cl_Labels c)) (find (\<lambda>c. cl_Name c = metric_name name) registered)"

lemma well_labelled_count: "well_labelled (Count name vals n) \<longleftrightarrow> label_count name = Some (length vals)"
  by (auto simp: well_labelled_def WithLabelValues_def label_count_def split: option.splits)

lemma label_counts [simp]:
  "label_count ''errors_total'' = Some 7" "label_count ''fallbacks_total'' = Some 6" "label_count ''tokens_total'' = Some 3"
  "label_count ''cache_tokens_total'' = Some 3" "label_count ''generations_total'' = Some 5" "label_count ''http_requests_total'' = Some 3"
  "label_count ''http_inflight_requests'' = Some 0" "label_count ''router_requests_total'' = Some 1"
  "label_count ''pii_analyze_calls_total'' = Some 2" "label_count ''pii_detections_total'' = Some 1"
  by code_simp+

lemma recorded_labelled [simp]:
  "well_labelled (RecordError endpoint model provider phase err)"
  "well_labelled (RecordFallback endpoint model provider fallback err)"
  "well_labelled (recordTerminalOutcome result endpoint req m)"
  "well_labelled (recordError endpoint req m phase err)"
  "well_labelled (router_requests s)"
  "labelled_effect (EvMetric (Count ''http_requests_total'' [a, b, c] n) :: 'd effect)"
  "labelled_effect (EvMetric (Count ''http_inflight_requests'' [] n) :: 'd effect)"
  by (simp_all add: well_labelled_count RecordError_def RecordFallback_def recordTerminalOutcome_def recordError_def router_requests_def Let_def
      split: prod.splits)

lemma usage_labelled [simp]: "labelled (map EvMetric (RecordUsage u m p) :: 'd effect list)"
  by (auto simp: RecordUsage_def well_labelled_count split: option.splits)

lemma finish_labelled [simp]: "labelled (finish_call po h m r)"
  by (auto simp: finish_call_def finishProxy_def storeTinfoilProof_def Let_def split: option.splits)

lemma settle_labelled [simp]: "labelled (settle_call po h m p)"
  by (auto simp: settle_call_def list_all_iff) (metis finish_labelled list_all_iff)

lemma attempt_labelled: "labelled (snd (attempt po h target))"
  by (auto simp: attempt_def Let_def split: option.splits sum.splits prod.splits)

lemma run_held_labelled: "labelled (snd (run_held po model h))"
proof -
  have "labelled ev" if "attempt po h m = (r, ev)" for m r ev using attempt_labelled [of po h m] that by simp
  then show ?thesis
    by (auto simp: run_held_def Let_def split: option.splits sum.splits prod.splits)
qed

lemma refusal_labelled: "list_all refusal_effect ev \<Longrightarrow> labelled ev"
  by (induction ev) (auto simp: refusal_effect_def)

lemma admit_labelled: "labelled (snd (admit po rid endpoint raw req token))"
  by (cases rule: admit_stages [of po rid endpoint raw req token]) (simp_all add: refusal_labelled)

lemma Proxy_labelled: "Proxy po rid endpoint raw req token = (res, ev) \<Longrightarrow> labelled ev"
proof -
  assume call: "Proxy po rid endpoint raw req token = (res, ev)"
  obtain r1 ev1 where admit: "admit po rid endpoint raw req token = (r1, ev1)" by force
  then have "labelled ev1" using admit_labelled [of po rid endpoint raw req token] by simp
  show ?thesis
  proof (cases r1)
    case (Inl err)
    then show ?thesis using call admit \<open>labelled ev1\<close> by (simp add: Proxy_def)
  next
    case (Inr mh)
    obtain model h where mh: "mh = (model, h)" by force
    obtain r2 ev2 where run: "run_held po model h = (r2, ev2)" by force
    then have "labelled ev2" using run_held_labelled [of po model h] by simp
    then show ?thesis using call admit Inr mh run \<open>labelled ev1\<close> by (auto simp: Proxy_def split: sum.splits)
  qed
qed

section \<open>Every record fits its collector\<close>

lemma reject_labelled [simp]: "labelled (service_effects (rejectRequest enc type_name r endpoint err))"
  by simp

lemma close_labelled [simp]: "labelled (close_effects po h m q)"
  by (auto simp: close_effects_def list_all_iff) (metis finish_labelled list_all_iff)

lemma relay_labelled: "labelled (service_effects (relay_Handle enc po r flusher sched start h m p))"
  by (auto simp: relay_Handle_def NewWriter_def Let_def case_prod_unfold)

lemma chat_labelled: "labelled (service_effects (chat_Handle env r))"
  using Proxy_labelled relay_labelled
  by (auto simp: chat_Handle_def json_answer_def Let_def split: sum.splits prod.splits call_result.splits)

lemma systemone_labelled: "labelled (service_effects (systemone_Handle env r))"
  using Proxy_labelled by (auto simp: systemone_Handle_def Let_def split: sum.splits prod.splits call_result.splits)

text \<open>A handler whose records all fit.\<close>

definition records_fit :: "'d handler \<Rightarrow> bool" where
  "records_fit h = (\<forall>r. labelled (service_effects (fst (h r))))"

lemma handlers_fit: "records_fit (chat_handler env)" "records_fit (systemone_handler env)" "records_fit (health_handler enc)"
    "records_fit (models_handler enc data_json dc object unix execute)" "records_fit (proof_handler penv response_id)"
  by (auto simp: records_fit_def chat_handler_def systemone_handler_def health_handler_def models_handler_def proof_handler_def chat_labelled
      systemone_labelled health_Handle_def models_Handle_def HandleGetProof_def WriteJSON_def Let_def split: sum.splits option.splits)

lemma routes_fit:
  assumes "pred_option records_fit confidential" "pred_option records_fit attestation"
  shows "\<forall>(m, pat, h) \<in> set (routes (gateway_handlers gw confidential attestation)). records_fit h"
  using assms handlers_fit by (auto simp: routes_def gateway_handlers_def route_if_def split: option.splits)

lemma mux_fits: "\<forall>(m, pat, h) \<in> set rs. records_fit h \<Longrightarrow> records_fit (\<lambda>r. (unmatched r, None)) \<Longrightarrow> records_fit (mux_serve rs unmatched)"
proof -
  assume routes: "\<forall>(m, pat, h) \<in> set rs. records_fit h" and rest: "records_fit (\<lambda>r. (unmatched r, None))"
  have "labelled (service_effects (fst (mux_serve rs unmatched r)))" for r
  proof (cases "route_of rs r")
    case None
    then show ?thesis using rest by (simp add: mux_serve_def records_fit_def)
  next
    case (Some route)
    then have "route \<in> set rs" by (simp add: route_of_def find_Some_iff) (metis nth_mem)
    then show ?thesis using routes Some by (cases route) (auto simp: mux_serve_def records_fit_def)
  qed
  then show ?thesis by (simp add: records_fit_def)
qed

lemma cors_headers_silent [simp]: "service_effects (cors_headers origin) = []"
  by (simp add: cors_headers_def)

lemma middleware_fits:
  "records_fit h \<Longrightarrow> records_fit (CORS h)" "records_fit h \<Longrightarrow> records_fit (Logging ms h)" "records_fit h \<Longrightarrow> records_fit (Recovery enc h)" "records_fit h \<Longrightarrow> records_fit (RequestID uuid h)"
  "records_fit h \<Longrightarrow> records_fit (Metrics route_of_request h)"
  by (auto simp: records_fit_def CORS_def Logging_def Recovery_def RequestID_def Metrics_def inflight_def case_prod_unfold Let_def
      well_labelled_count split: option.splits)

lemma Analyze_fits: "list_all (\<lambda>(name, vals). well_labelled (Count name vals 1)) (snd (Analyze pe mode t))"
proof -
  have calls: "well_labelled (Count ''pii_analyze_calls_total'' [a, b] n)" "well_labelled (Count ''pii_detections_total'' [a] n)" for a b n
    by (simp_all add: well_labelled_count)
  let ?label = "if mode = [] then APIKeyPIIModeHigh else mode"
  define body where "body = pe_marshal pe \<lparr>aq_Text = t, aq_Language = (if pe_language pe = [] then pcf_DefaultLanguage (pe_config pe) else pe_language pe),
      aq_ScoreThreshold = pcf_ScoreThreshold (pe_config pe), aq_Entities = presidioEntitiesForMode mode\<rparr>"
  define url where "url = pcf_BaseURL (pe_config pe) @ ''/analyze''"
  note A = Analyze_def [of pe mode t, unfolded Let_def, folded body_def url_def]
  consider (none) "snd (Analyze pe mode t) = []" | (one) c where "snd (Analyze pe mode t) = [(''pii_analyze_calls_total'', [?label, c])]"
    | (found) c es where "snd (Analyze pe mode t) = (''pii_analyze_calls_total'', [?label, c]) # map (\<lambda>e :: pii_entity. (''pii_detections_total'', [ent_Type e])) es"
  proof (cases "t = []")
    case True
    show ?thesis by (rule none) (simp add: Analyze_def True)
  next
    case False
    show ?thesis
    proof (cases body)
      case (Inl err)
      then show ?thesis using none False by (simp add: A)
    next
      case (Inr b)
      note body = Inr
      show ?thesis
      proof (cases "pe_new_request pe url")
        case None
        show ?thesis
        proof (cases "pe_do pe url b")
          case (AnalyzerDown err)
          then show ?thesis using one False body None by (simp add: A)
        next
          case (AnalyzerReply status answer)
          note reply = False body None AnalyzerReply
          define items where "items = (case pe_first pe answer of Inl err \<Rightarrow> Inl err
              | Inr v \<Rightarrow> (case dec_items_list pe v of Some its \<Rightarrow> Inr its | None \<Rightarrow> Inl (pe_type_error pe)))"
          show ?thesis
          proof (cases "status < 200 \<or> status \<ge> 300")
            case True
            then show ?thesis by (intro one [of "''http_error''"]) (simp add: A reply)
          next
            case ok: False
            show ?thesis
            proof (cases items)
              case (Inl err)
              then show ?thesis using ok by (intro one [of "''decode_error''"]) (simp add: A reply items_def)
            next
              case (Inr its)
              then show ?thesis using ok
                by (intro found [of "''success''" "convertEntities t its"]) (simp add: A reply items_def)
            qed
          qed
        qed
      qed (use none False body in \<open>simp add: A\<close>)
    qed
  qed
  then show ?thesis using calls by cases (simp_all add: list_all_iff)
qed



text \<open>The method of a request is a label value as it came, so each method makes a series of its own.\<close>

lemma methods_make_series:
  "\<exists>route class. EvMetric (Count ''http_requests_total'' [route, hr_Method r, class] 1)
     \<in> set (service_effects (fst (Metrics routeOf (\<lambda>r. (h r, None)) r)))"
  by (rule exI [of _ "if routeOf r = [] then ''unmatched'' else routeOf r"], rule exI [of _ "statusClass (recorded_status (h r))"])
    (simp add: Metrics_def inflight_def Let_def)

end
