(* ===== verification/Deadlines.thy ===== *)
theory Deadlines
  imports Middleware
begin

text \<open>
  How long one transfer may take (\<open>middleware/read_timeout.go\<close>, \<open>write_timeout.go\<close>). A connection has a
  deadline for reads and one for writes; every blocking call of a request is cut off at the deadline
  of its direction. What a call would take and give is a parameter, by its number in the request.
\<close>

section \<open>The connection\<close>

datatype transfer = ReadChunk nat | CloseBody | WriteChunk string | SendHeader int | FlushOut

record net_result =
  nr_Takes :: nat                      \<comment> \<open>nanoseconds, were there no deadline\<close>
  nr_Bytes :: string                   \<comment> \<open>what a read gives\<close>
  nr_Count :: nat                      \<comment> \<open>what a write has taken\<close>
  nr_Err :: "go_error option"

record net_call =
  nc_Transfer :: transfer
  nc_Begun :: time
  nc_Ended :: time
  nc_Needed :: nat
  nc_Cut :: bool

record link =
  lk_Now :: time
  lk_ReadDeadline :: "time option"
  lk_WriteDeadline :: "time option"
  lk_Calls :: "net_call list"          \<comment> \<open>the latest first\<close>

type_synonym network = "nat \<Rightarrow> transfer \<Rightarrow> net_result"

definition deadline_error :: go_error where "deadline_error = NetErr ''i/o timeout'' True"

fun transfer_deadline :: "transfer \<Rightarrow> link \<Rightarrow> time option" where
  "transfer_deadline (ReadChunk n) l = lk_ReadDeadline l"
| "transfer_deadline CloseBody l = lk_ReadDeadline l"
| "transfer_deadline x l = lk_WriteDeadline l"

definition blocking_call :: "network \<Rightarrow> transfer \<Rightarrow> link \<Rightarrow> net_result \<times> link" where
  "blocking_call net x l =
     (let r = net (length (lk_Calls l)) x; at_end = lk_Now l + int (nr_Takes r);
          cut = (case transfer_deadline x l of Some t \<Rightarrow> at_end > t | None \<Rightarrow> False);
          ended = (case transfer_deadline x l of Some t \<Rightarrow> if cut then max (lk_Now l) t else at_end | None \<Rightarrow> at_end);
          call = \<lparr>nc_Transfer = x, nc_Begun = lk_Now l, nc_Ended = ended, nc_Needed = nr_Takes r, nc_Cut = cut\<rparr>
      in (if cut then r\<lparr>nr_Err := Some deadline_error\<rparr> else r, l\<lparr>lk_Now := ended, lk_Calls := call # lk_Calls l\<rparr>))"

definition SetReadDeadline :: "time option \<Rightarrow> link \<Rightarrow> link" where
  "SetReadDeadline t l = l\<lparr>lk_ReadDeadline := t\<rparr>"

definition SetWriteDeadline :: "time option \<Rightarrow> link \<Rightarrow> link" where
  "SetWriteDeadline t l = l\<lparr>lk_WriteDeadline := t\<rparr>"

section \<open>The middlewares\<close>

definition maxTransferChunk :: nat where "maxTransferChunk = 32 * 1024"

definition readTimeoutBody_Read :: "network \<Rightarrow> duration \<Rightarrow> nat \<Rightarrow> link \<Rightarrow> (string \<times> go_error option) \<times> link" where
  "readTimeoutBody_Read net timeout buffer l =
     (let (r, l1) = blocking_call net (ReadChunk (min buffer maxTransferChunk)) (SetReadDeadline (Some (lk_Now l + timeout)) l)
      in ((nr_Bytes r, nr_Err r), if nr_Err r \<noteq> None then SetReadDeadline None l1 else l1))"

definition readTimeoutBody_Close :: "network \<Rightarrow> duration \<Rightarrow> link \<Rightarrow> go_error option \<times> link" where
  "readTimeoutBody_Close net timeout l =
     (let (r, l1) = blocking_call net CloseBody (SetReadDeadline (Some (lk_Now l + timeout)) l)
      in (nr_Err r, SetReadDeadline None l1))"

definition write_chunk :: "network \<Rightarrow> duration \<Rightarrow> string \<Rightarrow> link \<Rightarrow> (nat \<times> go_error option) \<times> link" where
  "write_chunk net timeout chunk l =
     (let (r, l1) = blocking_call net (WriteChunk chunk) (SetWriteDeadline (Some (lk_Now l + timeout)) l)
      in ((nr_Count r, nr_Err r), l1))"

function write_loop :: "network \<Rightarrow> duration \<Rightarrow> nat \<Rightarrow> string \<Rightarrow> link \<Rightarrow> (nat \<times> go_error option) \<times> link" where
  "write_loop net timeout written body l =
     (if body = [] then ((written, None), l)
      else let chunk = take maxTransferChunk body; ((n, err), l1) = write_chunk net timeout chunk l
           in case err of
                Some e \<Rightarrow> ((written + n, Some e), l1)
              | None \<Rightarrow>
                  (if n \<noteq> length chunk then ((written + n, Some (PlainErr ''short write'')), l1)
                   else write_loop net timeout (written + n) (drop n body) l1))"
  by pat_completeness auto
termination
  by (relation "measure (\<lambda>(net, timeout, written, body, l). length body)") (auto simp: maxTransferChunk_def)

declare write_loop.simps [simp del]

definition writeTimeoutWriter_Write :: "network \<Rightarrow> duration \<Rightarrow> string \<Rightarrow> link \<Rightarrow> (nat \<times> go_error option) \<times> link" where
  "writeTimeoutWriter_Write net timeout body l =
     (if body = [] then write_chunk net timeout [] l else write_loop net timeout 0 body l)"

definition writeTimeoutWriter_WriteHeader :: "network \<Rightarrow> duration \<Rightarrow> int \<Rightarrow> link \<Rightarrow> link" where
  "writeTimeoutWriter_WriteHeader net timeout status l =
     snd (blocking_call net (SendHeader status) (SetWriteDeadline (Some (lk_Now l + timeout)) l))"

definition FlushError :: "network \<Rightarrow> duration \<Rightarrow> link \<Rightarrow> go_error option \<times> link" where
  "FlushError net timeout l =
     (let (r, l1) = blocking_call net FlushOut (SetWriteDeadline (Some (lk_Now l + timeout)) l) in (nr_Err r, l1))"

text \<open>What a handler has of the connection; the server itself gives it the bare calls.\<close>

record wires =
  wi_Read :: "nat \<Rightarrow> link \<Rightarrow> (string \<times> go_error option) \<times> link"
  wi_Close :: "link \<Rightarrow> go_error option \<times> link"
  wi_Write :: "string \<Rightarrow> link \<Rightarrow> (nat \<times> go_error option) \<times> link"
  wi_WriteHeader :: "int \<Rightarrow> link \<Rightarrow> link"
  wi_Flush :: "link \<Rightarrow> go_error option \<times> link"

definition bare_wires :: "network \<Rightarrow> wires" where
  "bare_wires net =
     \<lparr>wi_Read = (\<lambda>n l. let (r, l1) = blocking_call net (ReadChunk n) l in ((nr_Bytes r, nr_Err r), l1)),
      wi_Close = (\<lambda>l. let (r, l1) = blocking_call net CloseBody l in (nr_Err r, l1)),
      wi_Write = (\<lambda>bs l. let (r, l1) = blocking_call net (WriteChunk bs) l in ((nr_Count r, nr_Err r), l1)),
      wi_WriteHeader = (\<lambda>status l. snd (blocking_call net (SendHeader status) l)),
      wi_Flush = (\<lambda>l. let (r, l1) = blocking_call net FlushOut l in (nr_Err r, l1))\<rparr>"

type_synonym wired_handler = "wires \<Rightarrow> link \<Rightarrow> link"

text \<open>Both clear the deadline that the last request left, and put their own between the handler and the connection. A request to a server always has a body.\<close>

definition ReadTimeout :: "network \<Rightarrow> duration \<Rightarrow> wired_handler \<Rightarrow> wired_handler" where
  "ReadTimeout net timeout handler w l =
     handler (w\<lparr>wi_Read := readTimeoutBody_Read net timeout, wi_Close := readTimeoutBody_Close net timeout\<rparr>) (SetReadDeadline None l)"

definition WriteTimeout :: "network \<Rightarrow> duration \<Rightarrow> wired_handler \<Rightarrow> wired_handler" where
  "WriteTimeout net timeout handler w l =
     handler (w\<lparr>wi_Write := writeTimeoutWriter_Write net timeout, wi_WriteHeader := writeTimeoutWriter_WriteHeader net timeout,
                wi_Flush := FlushError net timeout\<rparr>) (SetWriteDeadline None l)"

text \<open>A handler as its operations, one after the other; \<open>Thinks\<close> is its own time.\<close>

datatype handler_op = Reads nat | ClosesBody | Writes string | WritesHeader int | Flushes | Thinks nat

fun handler_step :: "wires \<Rightarrow> link \<Rightarrow> handler_op \<Rightarrow> link" where
  "handler_step w l (Reads n) = snd (wi_Read w n l)"
| "handler_step w l ClosesBody = snd (wi_Close w l)"
| "handler_step w l (Writes body) = snd (wi_Write w body l)"
| "handler_step w l (WritesHeader status) = wi_WriteHeader w status l"
| "handler_step w l Flushes = snd (wi_Flush w l)"
| "handler_step w l (Thinks d) = l\<lparr>lk_Now := lk_Now l + int d\<rparr>"

definition run_ops :: "handler_op list \<Rightarrow> wired_handler" where
  "run_ops ops w l = foldl (handler_step w) l ops"

definition serve_timed :: "network \<Rightarrow> duration \<Rightarrow> handler_op list \<Rightarrow> link \<Rightarrow> link" where
  "serve_timed net timeout ops = ReadTimeout net timeout (WriteTimeout net timeout (run_ops ops)) (bare_wires net)"

definition timed_wires :: "network \<Rightarrow> duration \<Rightarrow> wires" where
  "timed_wires net timeout =
     \<lparr>wi_Read = readTimeoutBody_Read net timeout, wi_Close = readTimeoutBody_Close net timeout,
      wi_Write = writeTimeoutWriter_Write net timeout, wi_WriteHeader = writeTimeoutWriter_WriteHeader net timeout,
      wi_Flush = FlushError net timeout\<rparr>"

lemma serve_timed_ops:
  "serve_timed net timeout ops l = foldl (handler_step (timed_wires net timeout)) (SetWriteDeadline None (SetReadDeadline None l)) ops"
  by (simp add: serve_timed_def ReadTimeout_def WriteTimeout_def run_ops_def bare_wires_def timed_wires_def)

lemma timed_wires_simps [simp]:
  "wi_Read (timed_wires net timeout) = readTimeoutBody_Read net timeout" "wi_Close (timed_wires net timeout) = readTimeoutBody_Close net timeout"
  "wi_Write (timed_wires net timeout) = writeTimeoutWriter_Write net timeout"
  "wi_WriteHeader (timed_wires net timeout) = writeTimeoutWriter_WriteHeader net timeout" "wi_Flush (timed_wires net timeout) = FlushError net timeout"
  by (simp_all add: timed_wires_def)

section \<open>Stalls are cut, slowness is not\<close>

definition fair_call :: "duration \<Rightarrow> net_call \<Rightarrow> bool" where
  "fair_call timeout c =
     ((nc_Cut c \<longleftrightarrow> int (nc_Needed c) > timeout) \<and> nc_Ended c = nc_Begun c + min (int (nc_Needed c)) timeout
      \<and> (case nc_Transfer c of ReadChunk n \<Rightarrow> n \<le> maxTransferChunk | WriteChunk bs \<Rightarrow> length bs \<le> maxTransferChunk | _ \<Rightarrow> True))"

abbreviation fair_link :: "duration \<Rightarrow> link \<Rightarrow> bool" where "fair_link timeout l \<equiv> list_all (fair_call timeout) (lk_Calls l)"

definition small_transfer :: "transfer \<Rightarrow> bool" where
  "small_transfer x = (case x of ReadChunk n \<Rightarrow> n \<le> maxTransferChunk | WriteChunk bs \<Rightarrow> length bs \<le> maxTransferChunk | _ \<Rightarrow> True)"

lemma blocking_call_fair:
  assumes "0 \<le> timeout" "transfer_deadline x l = Some (lk_Now l + timeout)" "small_transfer x" "fair_link timeout l"
  shows "fair_link timeout (snd (blocking_call net x l))"
  using assms by (auto simp: blocking_call_def fair_call_def small_transfer_def Let_def split: transfer.splits)

lemma set_fair [simp]:
  "fair_link timeout (SetReadDeadline t l) = fair_link timeout l" "fair_link timeout (SetWriteDeadline t l) = fair_link timeout l"
  "transfer_deadline (ReadChunk n) (SetReadDeadline t l) = t" "transfer_deadline CloseBody (SetReadDeadline t l) = t"
  "transfer_deadline (WriteChunk bs) (SetWriteDeadline t l) = t" "transfer_deadline (SendHeader st) (SetWriteDeadline t l) = t"
  "transfer_deadline FlushOut (SetWriteDeadline t l) = t"
  "lk_ReadDeadline (SetReadDeadline t l) = t" "lk_WriteDeadline (SetWriteDeadline t l) = t"
  "lk_Now (SetReadDeadline t l) = lk_Now l" "lk_Now (SetWriteDeadline t l) = lk_Now l"
  by (simp_all add: SetReadDeadline_def SetWriteDeadline_def)

lemma write_chunk_fair:
  "0 \<le> timeout \<Longrightarrow> length chunk \<le> maxTransferChunk \<Longrightarrow> fair_link timeout l \<Longrightarrow> fair_link timeout (snd (write_chunk net timeout chunk l))"
  using blocking_call_fair [of timeout "WriteChunk chunk" "SetWriteDeadline (Some (lk_Now l + timeout)) l" net]
  by (simp add: write_chunk_def small_transfer_def Let_def case_prod_unfold)

lemma write_loop_fair:
  "0 \<le> timeout \<Longrightarrow> fair_link timeout l \<Longrightarrow> fair_link timeout (snd (write_loop net timeout written body l))"
proof (induction net timeout written body l rule: write_loop.induct)
  case (1 net timeout written body l)
  obtain n err l1 where w: "write_chunk net timeout (take maxTransferChunk body) l = ((n, err), l1)" by (metis prod.exhaust)
  then have "fair_link timeout l1" using write_chunk_fair [of timeout "take maxTransferChunk body" l net] "1.prems" by simp
  then show ?case
    using "1.IH" [OF _ refl w [symmetric] refl] "1.prems" w
    by (simp add: write_loop.simps [of net timeout written body l] split: option.splits)
qed

lemma handler_step_fair:
  assumes "0 \<le> timeout" "fair_link timeout l"
  shows "fair_link timeout (handler_step (timed_wires net timeout) l op)"
proof (cases op)
  case (Reads n)
  then show ?thesis
    using blocking_call_fair [of timeout "ReadChunk (min n maxTransferChunk)" "SetReadDeadline (Some (lk_Now l + timeout)) l" net] assms
    by (simp add: readTimeoutBody_Read_def small_transfer_def Let_def case_prod_unfold)
next
  case ClosesBody
  then show ?thesis
    using blocking_call_fair [of timeout CloseBody "SetReadDeadline (Some (lk_Now l + timeout)) l" net] assms
    by (simp add: readTimeoutBody_Close_def small_transfer_def Let_def case_prod_unfold)
next
  case (Writes body)
  then show ?thesis using write_loop_fair write_chunk_fair assms by (simp add: writeTimeoutWriter_Write_def)
next
  case (WritesHeader status)
  then show ?thesis
    using blocking_call_fair [of timeout "SendHeader status" "SetWriteDeadline (Some (lk_Now l + timeout)) l" net] assms
    by (simp add: writeTimeoutWriter_WriteHeader_def small_transfer_def)
next
  case Flushes
  then show ?thesis
    using blocking_call_fair [of timeout FlushOut "SetWriteDeadline (Some (lk_Now l + timeout)) l" net] assms
    by (simp add: FlushError_def small_transfer_def Let_def case_prod_unfold)
next
  case (Thinks d)
  then show ?thesis using assms by simp
qed

lemma serve_timed_fair: "0 \<le> timeout \<Longrightarrow> fair_link timeout l \<Longrightarrow> fair_link timeout (serve_timed net timeout ops l)"
proof -
  have "0 \<le> timeout \<Longrightarrow> fair_link timeout l \<Longrightarrow> fair_link timeout (foldl (handler_step (timed_wires net timeout)) l ops)" for l
    by (induction ops arbitrary: l) (simp_all add: handler_step_fair)
  then show "0 \<le> timeout \<Longrightarrow> fair_link timeout l \<Longrightarrow> fair_link timeout (serve_timed net timeout ops l)"
    by (simp add: serve_timed_ops)
qed

subsection \<open>A healthy transfer ends well\<close>

definition healthy :: "network \<Rightarrow> duration \<Rightarrow> bool" where
  "healthy net timeout = (\<forall>k chunk. int (nr_Takes (net k (WriteChunk chunk))) \<le> timeout \<and> nr_Err (net k (WriteChunk chunk)) = None
     \<and> nr_Count (net k (WriteChunk chunk)) = length chunk)"

lemma write_chunk_healthy:
  assumes "healthy net timeout"
  shows "\<exists>l1 call. write_chunk net timeout chunk l = ((length chunk, None), l1) \<and> lk_Calls l1 = call # lk_Calls l \<and> nc_Transfer call = WriteChunk chunk"
proof -
  let ?r = "net (length (lk_Calls l)) (WriteChunk chunk)"
  have "int (nr_Takes ?r) \<le> timeout" "nr_Err ?r = None" "nr_Count ?r = length chunk" using assms by (simp_all add: healthy_def)
  then show ?thesis by (auto simp: write_chunk_def blocking_call_def Let_def SetWriteDeadline_def)
qed

fun chunk_of :: "net_call \<Rightarrow> string" where
  "chunk_of c = (case nc_Transfer c of WriteChunk bs \<Rightarrow> bs | _ \<Rightarrow> [])"

definition sent_bytes :: "link \<Rightarrow> string" where "sent_bytes l = concat (map chunk_of (rev (lk_Calls l)))"

lemma write_loop_healthy:
  "healthy net timeout \<Longrightarrow> \<exists>l'. write_loop net timeout written body l = ((written + length body, None), l') \<and> sent_bytes l' = sent_bytes l @ body"
proof (induction net timeout written body l rule: write_loop.induct)
  case (1 net timeout written body l)
  show ?case
  proof (cases "body = []")
    case True
    then show ?thesis by (simp add: write_loop.simps [of net timeout written "[]" l])
  next
    case False
    let ?c = "take maxTransferChunk body"
    obtain l1 call where w: "write_chunk net timeout ?c l = ((length ?c, None), l1)" "lk_Calls l1 = call # lk_Calls l"
        "nc_Transfer call = WriteChunk ?c" using write_chunk_healthy [OF "1.prems"] by blast
    obtain l' where rest: "write_loop net timeout (written + length ?c) (drop (length ?c) body) l1
        = ((written + length ?c + length (drop (length ?c) body), None), l')" "sent_bytes l' = sent_bytes l1 @ drop (length ?c) body"
      using "1.IH" [OF False refl w(1) [symmetric] refl refl refl _ "1.prems"] by auto
    have split: "body = ?c @ drop (length ?c) body" by (metis append_take_drop_id length_take min_def take_all_iff drop_all nle_le)
    have "written + length ?c + length (drop (length ?c) body) = written + length body" using split by (metis add.assoc length_append)
    moreover have "sent_bytes l1 = sent_bytes l @ ?c" using w(2,3) by (simp add: sent_bytes_def)
    then have "sent_bytes l' = sent_bytes l @ body" using rest(2) split by (metis append.assoc)
    ultimately show ?thesis using w(1) rest(1) False by (simp add: write_loop.simps [of net timeout written body l])
  qed
qed

text \<open>
  C17: A stall is cut, slowness is not. Whatever a handler does and whatever deadlines the last request
  left on the connection, every blocking call of a request is cut off exactly when it would take
  longer than the timeout, and then at the timeout; none moves more than a chunk. So a response to a
  client that takes each chunk in time is sent whole, however long it is and however long it takes.
\<close>
theorem stalls_are_cut_slowness_is_not:
  assumes "0 \<le> timeout" "lk_Calls l = []"
  shows "list_all (fair_call timeout) (lk_Calls (serve_timed net timeout ops l))
    \<and> (healthy net timeout \<longrightarrow> (\<forall>body l. body \<noteq> [] \<longrightarrow> (\<exists>l'. writeTimeoutWriter_Write net timeout body l = ((length body, None), l')
         \<and> sent_bytes l' = sent_bytes l @ body)))"
proof (intro conjI impI allI)
  show "list_all (fair_call timeout) (lk_Calls (serve_timed net timeout ops l))"
    using serve_timed_fair [OF assms(1)] assms(2) by simp
  fix body :: string and l :: link assume "healthy net timeout" "body \<noteq> []"
  then show "\<exists>l'. writeTimeoutWriter_Write net timeout body l = ((length body, None), l') \<and> sent_bytes l' = sent_bytes l @ body"
    using write_loop_healthy [of net timeout 0 body l] by (simp add: writeTimeoutWriter_Write_def)
qed

text \<open>A client that takes ten for each transfer and stalls at the fourth.\<close>

definition toy_net :: network where
  "toy_net k x = \<lparr>nr_Takes = (if k = 3 then 31 else 10), nr_Bytes = ''ab'', nr_Count = (case x of WriteChunk bs \<Rightarrow> length bs | _ \<Rightarrow> 0), nr_Err = None\<rparr>"

definition toy_link :: link where
  "toy_link = \<lparr>lk_Now = 100, lk_ReadDeadline = Some 7, lk_WriteDeadline = Some 8, lk_Calls = []\<rparr>"

theorem stalls_are_cut_slowness_is_not_witness:
  "map nc_Cut (lk_Calls (serve_timed toy_net 30 [Reads 2, WritesHeader 200, Writes ''abc'', Thinks 500, Flushes] toy_link)) = [True, False, False, False]
   \<and> list_all (fair_call 30) (lk_Calls (serve_timed toy_net 30 [Reads 2, WritesHeader 200, Writes ''abc'', Thinks 500, Flushes] toy_link))"
proof -
  have "lk_Calls toy_link = []" by (simp add: toy_link_def)
  note R = stalls_are_cut_slowness_is_not [OF _ this, of 30 toy_net "[Reads 2, WritesHeader 200, Writes ''abc'', Thinks 500, Flushes]"]
  have "map nc_Cut (lk_Calls (serve_timed toy_net 30 [Reads 2, WritesHeader 200, Writes ''abc'', Thinks 500, Flushes] toy_link)) = [True, False, False, False]"
    by (simp add: serve_timed_ops readTimeoutBody_Read_def writeTimeoutWriter_WriteHeader_def writeTimeoutWriter_Write_def
        write_loop.simps write_chunk_def FlushError_def blocking_call_def toy_net_def toy_link_def SetReadDeadline_def SetWriteDeadline_def
        maxTransferChunk_def Let_def)
  then show ?thesis using R by simp
qed

end
