(* ===== verification/Tools.thy ===== *)
theory Tools
  imports Bootstrap
begin

text \<open>
  The commands around the bootstrap: the parent's side of it (\<open>runBootstrap\<close> and \<open>main\<close> of
  \<open>cmd/nexus-vsock-forwarder\<close>) and the writing of an envelope (\<open>writeEnvelope\<close> and \<open>main\<close> of
  \<open>cmd/nexus-enclave-config\<close>). A process ends with an exit status and what it printed.
\<close>

section \<open>The parent's side of the bootstrap\<close>

record bootstrap_flags =
  bf_cid :: nat
  bf_port :: nat
  bf_envelope :: string
  bf_rest :: "string list"             \<comment> \<open>arguments after the flags\<close>

text \<open>What the connection to the enclave gives, once the payload is written.\<close>

record bootstrap_link =
  bl_write :: "go_error option"
  bl_close_write :: "go_error option"
  bl_reply :: "go_error + string"

definition ok_line :: string where "ok_line = ''OK'' @ [CHR 0x0A]"

definition runBootstrap :: "forwarder_env \<Rightarrow> (nat \<Rightarrow> nat \<Rightarrow> go_error + (string \<Rightarrow> bootstrap_link)) \<Rightarrow> bootstrap_flags \<Rightarrow> go_error + string" where
  "runBootstrap env dial flags =
     (case validateVsockAddress (bf_cid flags) (bf_port flags) of Some err \<Rightarrow> Inl err | None \<Rightarrow>
     (if bf_rest flags \<noteq> [] \<or> bf_envelope flags = [] then Inl (PlainErr ''bootstrap requires --envelope'')
      else case readBootstrapPayload env (bf_envelope flags) of Inl err \<Rightarrow> Inl err | Inr payload \<Rightarrow>
     (case dial (bf_cid flags) (bf_port flags) of Inl err \<Rightarrow> Inl (WrapErr ''dial enclave bootstrap: '' err) | Inr connect \<Rightarrow>
     (let connection = connect payload
      in case bl_write connection of Some err \<Rightarrow> Inl (WrapErr ''send enclave bootstrap: '' err) | None \<Rightarrow>
     (case bl_close_write connection of Some err \<Rightarrow> Inl (WrapErr ''finish enclave bootstrap request: '' err) | None \<Rightarrow>
     (case bl_reply connection of Inl err \<Rightarrow> Inl (WrapErr ''read enclave bootstrap response: '' err) | Inr response \<Rightarrow>
     (case bootstrap_answer response of Some err \<Rightarrow> Inl err | None \<Rightarrow> Inr ok_line)))))))"

text \<open>The enclave at the other end: it reads the payload and writes the answer of \<open>Load\<close>.\<close>

definition enclave_end :: "(go_error + connection \<Rightarrow> go_error option \<times> string \<times> string_map) \<Rightarrow> string \<Rightarrow> bootstrap_link" where
  "enclave_end load payload =
     \<lparr>bl_write = None, bl_close_write = None,
      bl_reply = Inr (fst (snd (load (Inr \<lparr>co_CID = Some ParentCID, co_payload = Inr payload\<rparr>))))\<rparr>"

lemma failure_not_ok: "writeBootstrapFailure message \<noteq> ok_line"
  by (simp add: writeBootstrapFailure_def ok_line_def maxBootstrapResponseBytes_def Let_def)

lemma failure_bounded: "length (writeBootstrapFailure message) \<le> maxBootstrapResponseBytes"
  by (simp add: writeBootstrapFailure_def maxBootstrapResponseBytes_def Let_def)

lemma Load_answers:
  "Load env decode accepted now b decrypt setenv describe = (res, answer, vars) \<Longrightarrow>
   (if res = None then answer = ok_line else answer = [] \<or> (\<exists>m. answer = writeBootstrapFailure m))"
  by (auto simp: Load_def Let_def ok_line_def split: sum.splits if_splits prod.splits option.splits)

lemma answer_agrees:
  assumes "Load env decode accepted now b decrypt setenv describe = (res, answer, vars)"
  shows "bootstrap_answer answer = None \<longleftrightarrow> res = None"
    and "bootstrap_answer answer \<noteq> Some (PlainErr ''enclave bootstrap response is too large'')"
proof -
  have small: "length answer \<le> maxBootstrapResponseBytes"
    using Load_answers [OF assms] failure_bounded by (auto simp: ok_line_def maxBootstrapResponseBytes_def split: if_splits)
  have ok: "answer = ok_line \<longleftrightarrow> res = None"
    using Load_answers [OF assms] failure_not_ok by (auto simp: ok_line_def split: if_splits)
  show "bootstrap_answer answer = None \<longleftrightarrow> res = None"
    using ok small by (simp add: bootstrap_answer_def ok_line_def)
  show "bootstrap_answer answer \<noteq> Some (PlainErr ''enclave bootstrap response is too large'')"
    using small by (simp add: bootstrap_answer_def)
qed

text \<open>
  Both ends of the bootstrap agree: the command of the parent succeeds exactly when loading in the
  enclave did, and what the enclave says of a failure always fits what the parent reads.
\<close>

theorem bootstrap_ends_agree:
  assumes "validateVsockAddress (bf_cid flags) (bf_port flags) = None" "bf_rest flags = []" "bf_envelope flags \<noteq> []"
    and "readBootstrapPayload env (bf_envelope flags) = Inr payload"
    and "dial (bf_cid flags) (bf_port flags) = Inr (enclave_end (\<lambda>accepted. Load benv decode accepted now b decrypt setenv describe))"
    and "Load benv decode (Inr \<lparr>co_CID = Some ParentCID, co_payload = Inr payload\<rparr>) now b decrypt setenv describe = (res, answer, vars)"
  shows "(runBootstrap env dial flags = Inr ok_line \<longleftrightarrow> res = None)
    \<and> runBootstrap env dial flags \<noteq> Inl (PlainErr ''enclave bootstrap response is too large'')"
  using assms answer_agrees [OF assms(6)]
  by (auto simp: runBootstrap_def enclave_end_def Let_def split: option.splits)

section \<open>Commands\<close>

datatype exit_status = Exit int string      \<comment> \<open>status, and the text on standard error\<close>

definition forwarder_usage :: exit_status where
  "forwarder_usage = Exit 2 ''usage: nexus-vsock-forwarder <ingress|bootstrap> [flags]''"

datatype 'a command = Usage exit_status | Ingress 'a | BootstrapCmd 'a

definition forwarder_main :: "string list \<Rightarrow> string list command" where
  "forwarder_main args =
     (case args of
        program # cmd # rest \<Rightarrow>
          (if cmd = ''ingress'' then Ingress rest else if cmd = ''bootstrap'' then BootstrapCmd rest else Usage forwarder_usage)
      | _ \<Rightarrow> Usage forwarder_usage)"

definition config_main :: "(string list \<Rightarrow> go_error option) \<Rightarrow> string list \<Rightarrow> exit_status option" where
  "config_main run args =
     (case args of
        program # cmd # rest \<Rightarrow>
          (if cmd \<noteq> ''encrypt'' then Some (Exit 2 ''usage: nexus-enclave-config encrypt [flags]'')
           else map_option (\<lambda>err. Exit 1 (''nexus-enclave-config: '' @ error_text err)) (run rest))
      | _ \<Rightarrow> Some (Exit 2 ''usage: nexus-enclave-config encrypt [flags]''))"

text \<open>Files with their mode and bytes; \<open>O_EXCL\<close> opens a new file only. A write that fails has written a part.\<close>

type_synonym files = "string \<rightharpoonup> nat \<times> string"

definition writeEnvelope :: "(string \<Rightarrow> go_error option) \<Rightarrow> (string \<Rightarrow> (string \<times> go_error) option) \<Rightarrow> string \<Rightarrow> string \<Rightarrow> files \<times> string
    \<Rightarrow> go_error option \<times> files \<times> string" where
  "writeEnvelope create_error write_error path payload st =
     (case st of (fs, stdout) \<Rightarrow>
        if path = ''-'' then
          (case write_error path of Some (part, err) \<Rightarrow> (Some err, fs, stdout @ part) | None \<Rightarrow> (None, fs, stdout @ payload))
        else case (if path \<in> dom fs then Some (PlainErr ''file exists'') else create_error path) of
               Some err \<Rightarrow> (Some (WrapErr ''create encrypted envelope without overwriting: '' err), fs, stdout)
             | None \<Rightarrow>
                 (case write_error path of
                    Some (part, err) \<Rightarrow> (Some (WrapErr ''write encrypted envelope: '' err), fs(path \<mapsto> (384, part)), stdout)
                  | None \<Rightarrow> (None, fs(path \<mapsto> (384, payload)), stdout)))"

text \<open>No file is ever overwritten, and a new envelope is readable by its owner alone (mode 600, 384 in decimal).\<close>

lemma envelope_never_overwrites:
  assumes "writeEnvelope create_error write_error path payload (fs, stdout) = (err, fs', stdout')"
  shows "fs \<subseteq>\<^sub>m fs'" and "\<forall>p mode bs. fs' p = Some (mode, bs) \<and> fs p = None \<longrightarrow> mode = 384"
    and "err = None \<and> path \<noteq> ''-'' \<Longrightarrow> fs' path = Some (384, payload)"
  using assms by (auto simp: writeEnvelope_def map_le_def dom_def split: if_splits option.splits)

end
