(* ===== verification/Accounts.thy ===== *)
theory Accounts
  imports Domain
begin

text \<open>
  The rest of the account data (\<open>pkg/domain/account.go\<close>, \<open>router.go\<close>, \<open>tool.go\<close>): its constants, and
  the message about a subscription that ends, with the calendar of \<open>time.Time\<close> that it needs.
\<close>

section \<open>Constants\<close>

definition AccountPlanFree :: string where "AccountPlanFree = ''free''"
definition AccountPlanPro20Monthly :: string where "AccountPlanPro20Monthly = ''pro_20_monthly''"
definition RouterStrategyFallback :: string where "RouterStrategyFallback = ''fallback''"
definition RouterStrategyEmbedding :: string where "RouterStrategyEmbedding = ''embedding''"
definition ToolChoiceNone :: string where "ToolChoiceNone = ''none''"
definition ToolChoiceAuto :: string where "ToolChoiceAuto = ''auto''"
definition ToolChoiceRequired :: string where "ToolChoiceRequired = ''required''"
definition ToolChoiceFunction :: string where "ToolChoiceFunction = ''function''"

section \<open>The calendar\<close>

text \<open>Days are counted from Go's zero time, the first of January of year 1, in UTC.\<close>

definition day_length :: duration where "day_length = 24 * 60 * minute"

definition leap_year :: "int \<Rightarrow> bool" where
  "leap_year y = (y mod 4 = 0 \<and> (y mod 100 \<noteq> 0 \<or> y mod 400 = 0))"

definition month_lengths :: "bool \<Rightarrow> int list" where
  "month_lengths leap = [31, if leap then 29 else 28, 31, 30, 31, 30, 31, 31, 30, 31, 30, 31]"

text \<open>The year of a day and the day within it: cycles of 400, 100, 4 and 1 years are cut off in turn.\<close>

definition year_day :: "int \<Rightarrow> int \<times> int" where
  "year_day d =
     (let a = d div 146097; r = d mod 146097; b = min 3 (r div 36524); r2 = r - 36524 * b; c = r2 div 1461; r3 = r2 mod 1461;
          e = min 3 (r3 div 365)
      in (400 * a + 100 * b + 4 * c + e + 1, r3 - 365 * e))"

fun month_day :: "nat \<Rightarrow> int list \<Rightarrow> int \<Rightarrow> nat \<times> int" where
  "month_day m [] k = (m, k + 1)"
| "month_day m (n # ns) k = (if k < n then (m, k + 1) else month_day (m + 1) ns (k - n))"

definition civil_date :: "time \<Rightarrow> int \<times> nat \<times> int" where
  "civil_date t =
     (let (y, k) = year_day (t div day_length); (m, dd) = month_day 1 (month_lengths (leap_year y)) k in (y, m, dd))"

definition month_names :: "string list" where
  "month_names = [''January'', ''February'', ''March'', ''April'', ''May'', ''June'', ''July'', ''August'', ''September'', ''October'',
     ''November'', ''December'']"

text \<open>\<open>Format("January 2, 2006")\<close>: the year has four digits at least.\<close>

definition year_text :: "int \<Rightarrow> string" where
  "year_text y =
     (let digits = itoa (nat \<bar>y\<bar>)
      in (if y < 0 then ''-'' else []) @ replicate (4 - length digits) (CHR ''0'') @ digits)"

definition format_date :: "time \<Rightarrow> string" where
  "format_date t = (case civil_date t of (y, m, dd) \<Rightarrow> month_names ! (m - 1) @ '' '' @ itoa (nat dd) @ '', '' @ year_text y)"

definition SubscriptionStatusMessage :: "account \<Rightarrow> string option" where
  "SubscriptionStatusMessage a =
     (if \<not> acc_SubscriptionCancelAtPeriodEnd a then None
      else case acc_SubscriptionCancelAt a of
             None \<Rightarrow> Some ''scheduled to cancel at period end''
           | Some t \<Rightarrow> Some (''scheduled to cancel on '' @ format_date t))"

section \<open>The date is the right one\<close>

text \<open>Counting the other way: the days before a year, and before a date.\<close>

definition days_before_year :: "int \<Rightarrow> int" where
  "days_before_year y = 365 * (y - 1) + (y - 1) div 4 - (y - 1) div 100 + (y - 1) div 400"

definition days_of_date :: "int \<times> nat \<times> int \<Rightarrow> int" where
  "days_of_date date =
     (case date of (y, m, dd) \<Rightarrow> days_before_year y + sum_list (take (m - 1) (month_lengths (leap_year y))) + dd - 1)"

lemma year_day_cycles:
  fixes a b c e :: int
  assumes "0 \<le> b" "b \<le> 3" "0 \<le> c" "c \<le> 24" "0 \<le> e" "e \<le> 3"
  shows "days_before_year (400 * a + 100 * b + 4 * c + e + 1) = 146097 * a + 36524 * b + 1461 * c + 365 * e"
proof -
  have "(400 * a + 100 * b + 4 * c + e) div 4 = 100 * a + 25 * b + c"
    by (rule int_div_pos_eq [of _ _ _ e]) (use assms in auto)
  moreover have "(400 * a + 100 * b + 4 * c + e) div 100 = 4 * a + b"
    by (rule int_div_pos_eq [of _ _ _ "4 * c + e"]) (use assms in auto)
  moreover have "(400 * a + 100 * b + 4 * c + e) div 400 = a"
    by (rule int_div_pos_eq [of _ _ _ "100 * b + 4 * c + e"]) (use assms in auto)
  ultimately show ?thesis by (simp add: days_before_year_def)
qed

lemma leap_cycles:
  fixes a b c e :: int
  assumes "0 \<le> b" "b \<le> 3" "0 \<le> c" "c \<le> 24"
  shows "leap_year (400 * a + 100 * b + 4 * c + 3 + 1) \<longleftrightarrow> c \<noteq> 24 \<or> b = 3"
proof -
  let ?y = "400 * a + 100 * b + 4 * c + 4"
  have "?y mod 4 = 0" by (rule int_mod_pos_eq [of _ _ "100 * a + 25 * b + c + 1"]) auto
  moreover have "?y mod 100 = (if c = 24 then 0 else 4 * c + 4)"
  proof (cases "c = 24")
    case True
    have "?y mod 100 = 0" by (rule int_mod_pos_eq [of _ _ "4 * a + b + 1"]) (use True in auto)
    then show ?thesis using True by simp
  next
    case False
    have "?y mod 100 = 4 * c + 4" by (rule int_mod_pos_eq [of _ _ "4 * a + b"]) (use assms False in auto)
    then show ?thesis using False by simp
  qed
  moreover have "?y mod 400 = (if b = 3 then 0 else 100 * b + 100)" if "c = 24"
  proof (cases "b = 3")
    case True
    have "?y mod 400 = 0" by (rule int_mod_pos_eq [of _ _ "a + 1"]) (use True that in auto)
    then show ?thesis using True by simp
  next
    case False
    have "?y mod 400 = 100 * b + 100" by (rule int_mod_pos_eq [of _ _ a]) (use assms False that in auto)
    then show ?thesis using False by simp
  qed
  moreover have "400 * a + 100 * b + 4 * c + 3 + 1 = ?y" by simp
  ultimately show ?thesis using assms unfolding leap_year_def by (cases "c = 24"; cases "b = 3") (simp_all only: if_True if_False, auto)
qed

text \<open>A cycle that is cut off at most so often.\<close>

lemma cut_off:
  fixes x n k :: int
  assumes "0 \<le> x" "0 < k" "0 \<le> n" "q = min n (x div k)"
  shows "0 \<le> q \<and> q \<le> n \<and> 0 \<le> x - k * q \<and> (q < n \<longrightarrow> x - k * q < k)"
proof -
  have "k * (x div k) \<le> x" "x < k * (x div k) + k" "0 \<le> x div k"
    using assms(1,2) mult_div_mod_eq [of k x] pos_mod_bound [of k x] pos_mod_sign [of k x]
    by (linarith, linarith, simp add: pos_imp_zdiv_nonneg_iff)
  moreover have "k * q \<le> k * (x div k)" using assms(2,4) by (intro mult_left_mono) simp_all
  moreover have "k * q \<le> x" using calculation(1,4) by (rule order_trans [rotated])
  moreover have "q < n \<longrightarrow> q = x div k" using assms(4) by (auto simp: min_def)
  moreover have "0 \<le> q" "q \<le> n" using assms(3,4) calculation(3) by simp_all
  ultimately show ?thesis by auto
qed

lemma year_day_sound:
  assumes "year_day d = (y, k)"
  shows "days_before_year y + k = d \<and> 0 \<le> k \<and> k < (if leap_year y then 366 else 365)"
proof -
  define a where "a = d div 146097"
  define r where "r = d mod 146097"
  define b where "b = min 3 (r div 36524)"
  define r2 where "r2 = r - 36524 * b"
  define c where "c = r2 div 1461"
  define r3 where "r3 = r2 mod 1461"
  define e where "e = min 3 (r3 div 365)"
  have yk: "y = 400 * a + 100 * b + 4 * c + e + 1" "k = r3 - 365 * e"
    using assms unfolding year_day_def Let_def a_def [symmetric] r_def [symmetric] b_def [symmetric] r2_def [symmetric]
      c_def [symmetric] r3_def [symmetric] e_def [symmetric] by blast+
  have r: "0 \<le> r" "r < 146097" "d = 146097 * a + r" by (simp_all add: r_def a_def)
  have b: "0 \<le> b" "b \<le> 3" "0 \<le> r2" "b < 3 \<longrightarrow> r2 < 36524" "r2 \<le> 36524"
    using cut_off [OF r(1) _ _ b_def] r(2) by (auto simp: r2_def)
  have c: "0 \<le> c" "0 \<le> r3" "r3 < 1461" "r2 = 1461 * c + r3" using b(3) by (simp_all add: c_def r3_def pos_imp_zdiv_nonneg_iff)
  then have "c \<le> 24" using b(5) by linarith
  note c = c(1) this c(2-4)
  have e: "0 \<le> e" "e \<le> 3" "0 \<le> k" "e < 3 \<longrightarrow> k < 365" "k \<le> 365"
    using cut_off [OF c(3) _ _ e_def] c(4) by (auto simp: yk(2))
  have "days_before_year y + k = d" using year_day_cycles [OF b(1,2) c(1,2) e(1,2)] yk r(3) c(5) by (simp add: r2_def)
  moreover have "k < (if leap_year y then 366 else 365)"
  proof (cases "e = 3")
    case True
    have "r3 \<le> 1459" if "c = 24" "b \<noteq> 3" using that b(2,4) c(5) by linarith
    then have "k < 365" if "c = 24" "b \<noteq> 3" using that yk(2) True by simp
    then show ?thesis using leap_cycles [OF b(1,2) c(1,2), of a] yk(1) True e(5) by auto
  next
    case False
    then show ?thesis using e by auto
  qed
  ultimately show ?thesis using e(3) by blast
qed

lemma month_day_sound:
  "month_day m ns k = (m', dd) \<Longrightarrow> 0 \<le> k \<Longrightarrow> k < sum_list ns \<Longrightarrow> list_all (\<lambda>n. 0 < n) ns \<Longrightarrow>
   m \<le> m' \<and> m' < m + length ns \<and> 1 \<le> dd \<and> dd \<le> ns ! (m' - m) \<and> k = sum_list (take (m' - m) ns) + dd - 1"
proof (induction m ns k rule: month_day.induct)
  case (2 m n ns k)
  show ?case
  proof (cases "k < n")
    case True
    then show ?thesis using "2.prems" by auto
  next
    case False
    then have "m + 1 \<le> m' \<and> m' < m + 1 + length ns \<and> 1 \<le> dd \<and> dd \<le> ns ! (m' - (m + 1)) \<and> k - n = sum_list (take (m' - (m + 1)) ns) + dd - 1"
      using "2.IH" "2.prems" by simp
    moreover from this have "m' - m = Suc (m' - Suc m)" by linarith
    ultimately show ?thesis by simp
  qed
qed simp

text \<open>
  The date that a message names is the day of its time, and a date of the calendar: counting the days
  of the years and months before it gives the day back.
\<close>

theorem civil_date_is_the_day:
  assumes "civil_date t = (y, m, dd)"
  shows "days_of_date (y, m, dd) = t div day_length \<and> 1 \<le> m \<and> m \<le> 12 \<and> 1 \<le> dd \<and> dd \<le> month_lengths (leap_year y) ! (m - 1)"
proof -
  obtain k where y: "year_day (t div day_length) = (y, k)" and md: "month_day 1 (month_lengths (leap_year y)) k = (m, dd)"
    using assms by (auto simp: civil_date_def Let_def split: prod.splits)
  note k = year_day_sound [OF y]
  have "sum_list (month_lengths (leap_year y)) = (if leap_year y then 366 else 365)" "length (month_lengths (leap_year y)) = 12"
      "list_all (\<lambda>n. 0 < n) (month_lengths (leap_year y))" by (simp_all add: month_lengths_def)
  then show ?thesis using month_day_sound [OF md] k by (auto simp: days_of_date_def)
qed

lemma format_date_example: "format_date (day_length * 739616 + 5) = ''January 1, 2026''"
  by code_simp

end
