(* ===== verification/Spec2Isabelle.thy ===== *)
theory Spec2Isabelle
  imports PiiRestore Confidential GatewayFacts Presidio ListModels BootstrapFacts Attestation Vsock GatewayHttp
    Wiring Collectors Deadlines Tools Accounts
begin

text \<open>
  A verification development for the Nexus gateway: the Go programs under \<open>src/apps/gateway\<close>,
  \<open>src/cmd\<close>, \<open>src/internal/enclavebundle\<close> and \<open>src/pkg\<close>. The gateway is a proxy. It takes
  OpenAI-style chat requests and SystemOne requests, authenticates the key at the Metering service,
  holds credit for the request, masks personal data in its body, forwards the body to a provider,
  restores and meters the answer and settles the hold. It may run in a Nitro enclave, with a measured
  profile, a sealed configuration and an attested key; callers can then encrypt requests to that key.

  The theories follow the parts of the program. Paths are relative to
  \<open>src/apps/gateway/internal\<close> unless they start with \<open>pkg\<close>, \<open>cmd\<close> or \<open>internal\<close>.
\<close>

section \<open>The parts\<close>

text \<open>
  Prelude.
  \<^item> \<open>GoBase\<close>: byte strings with the functions of \<open>strings\<close>, \<open>strconv\<close> and \<open>utf8\<close> that the code
    calls. A Go string is a list of bytes, an \<open>int\<close> is an \<open>int\<close>, and \<open>wrap64\<close> is written where a
    product can leave 64 bits; a \<open>float64\<close> is its bit pattern, a word.
  \<^item> \<open>GoJson\<close>: decoded JSON trees, as \<open>UseNumber\<close> gives them, and the field decoders; the
    parser and the printer of JSON text are parameters.
  \<^item> \<open>Encodings\<close>: hex and base64, strict where the code is.
  \<^item> \<open>Domain\<close>, \<open>Accounts\<close>, \<open>Errors\<close>: \<open>pkg/domain\<close>. An error is a value of \<open>go_error\<close>, and \<open>errors.As\<close>
    looks through its wrappers; a function that may fail gives a sum. \<open>FaultOf\<close> tells whose fault one is.

  Personal data (\<open>pkg/domain/pii.go\<close>, \<open>application/services/pii.go\<close>, \<open>adapters/pii\<close>).
  \<^item> \<open>PiiMapping\<close>: the placeholders of a request, a store with the invariant \<open>mapping_inv\<close>; its contract
    is the locale \<open>placeholder_store\<close>.
  \<^item> \<open>PiiMask\<close>: masking a text by its detected spans, and restoring. \<open>PiiBody\<close>: masking whole bodies.
    \<open>PiiStream\<close>, \<open>PiiRestore\<close>: restoring an answer that arrives in pieces, refined to restoring it whole.
  \<^item> \<open>Presidio\<close>: the analyzer's adapter, and the offsets of its detections.

  The request path (\<open>application/services\<close>).
  \<^item> \<open>ChatRequest\<close>: the mappers of \<open>adapters/http/mapper\<close>, the output limit of guests, the estimate
    of a prompt.
  \<^item> \<open>Proxy\<close>: \<open>generate_service.go\<close> and \<open>proxy.go\<close>, from the token to the settlement, over the record
    \<open>ports\<close>. A run gives its result and its effects in order: holds, provider calls, settlements,
    metrics and log lines.
  \<^item> \<open>ProxyStream\<close>: the record of a provider's stream with its priming, reading and closing.
    \<open>StreamFacts\<close> has its steps as the relation \<open>stream_step\<close> and the locale \<open>settling_source\<close>.
  \<^item> \<open>ProxyFacts\<close>, \<open>ServiceFacts\<close>, \<open>ProofFacts\<close>: what holds of every request.
  \<^item> \<open>ListModels\<close>: the model list with its cache and its coalesced refresh, and \<open>pkg/fx\<close>; callers and
    landings of refreshes are interleaved at will.

  The outside.
  \<^item> \<open>Providers\<close>, \<open>ProviderFacts\<close>: the OpenAI and TypeSafe adapters and the registry. \<open>Tinfoil\<close>: the
    adapter that talks to verified enclaves only. \<open>StreamTimeouts\<close>: how long a provider may be silent.
  \<^item> \<open>RouterClient\<close>: the router service. \<open>Metering\<close>, \<open>MeteringClient\<close>, \<open>MeteringRuntime\<close>: the client of
    Metering; \<open>MeteringFacts\<close>, \<open>CatalogFacts\<close> with the locale \<open>model_catalog\<close>.
  \<^item> \<open>Lease\<close>, \<open>LeaseFacts\<close>: the loop that renews a credit hold, one iteration for each event.
  \<^item> \<open>GatewayFacts\<close>: the service on the Metering client.

  HTTP (\<open>adapters/http\<close>).
  \<^item> \<open>Http\<close>: what a handler does is a list of actions on the response writer, and \<open>client_reply\<close> is
    what the client makes of it. \<open>ChatHandler\<close>, \<open>PublicApi\<close>: the handlers. \<open>ChatFacts\<close>: what a caller
    sees of a stream between the keep-alives, and that the accounts are straight afterwards.
  \<^item> \<open>Middleware\<close>: the chain and the routes, over handlers that may panic. \<open>GatewayHttp\<close>: every handler is
    an \<open>http_handler\<close>, the locale of what the chain needs. \<open>Deadlines\<close>: the deadlines of one transfer.
  \<^item> \<open>Replay\<close>, \<open>Confidential\<close>: the encrypted endpoint and its replay cache, with the locale \<open>replay_guard\<close>.
  \<^item> \<open>Collectors\<close>: the Prometheus collectors, and that what is recorded fits them. \<open>Logger\<close>: the log.

  The enclave (\<open>enclave\<close>, \<open>cmd\<close>, \<open>internal/enclavebundle\<close>).
  \<^item> \<open>Profile\<close>: the measured manifest and the egress it allows. \<open>Vsock\<close>: the byte pipes of the parent and
    the enclave, and the enclave's DNS answers.
  \<^item> \<open>Bundle\<close>, \<open>Ber\<close>, \<open>Cms\<close>, \<open>Bootstrap\<close>, \<open>BootstrapFacts\<close>, \<open>Tools\<close>: the way of the configuration from
    the operator's tool through the parent and KMS into the enclave's environment.
  \<^item> \<open>Attestation\<close>: the endpoint, and the verifier of the clients.

  The whole (\<open>main.go\<close>).
  \<^item> \<open>Startup\<close>: from the environment to a serving gateway. \<open>Wiring\<close>: the ports of the service filled with
    the models of the clients and adapters.
\<close>

section \<open>What the theorems show\<close>

text \<open>
  \<^item> Credit: a hold is settled exactly once on every path, streams and lost clients included, and the
    keeper gives a hold up before Metering does. The charged model is the one that runs.
  \<^item> Data: with a filter that fails closed nothing unscanned leaves; placeholders resolve, are told
    apart and are restored, whole or in pieces; logs of provider requests hold no text.
  \<^item> Callers: guests stay within their models and limits (and two spellings by which a limit does not
    reach the provider); every request is answered, counted and logged with the status the client got;
    errors name the right party and keep the inside to the inside.
  \<^item> Providers: attempts are bounded, streams end and are relayed line by line, silence is cut exactly
    at its timeout.
  \<^item> The enclave: it serves only after a valid build, a sealed configuration and a self-test; egress is
    measured; an accepted attestation is fresh and of the measured build; BER is normalised to the DER of
    the same value and the padding check is that of PKCS#7; a request is processed once.
  \<^item> Attested models: their calls and proofs are those of verified enclaves, except that the catalog may
    spell the provider in a way that the check accepts and the registry does not know.
\<close>

section \<open>Parameters and bounds\<close>

text \<open>
  What is not under \<open>src\<close> is an argument: HTTP transports and servers, JSON parsing and printing, the
  decimal type, rounding of floats, SHA-2, HPKE, RSA, AES and certificate checks, KMS, the Nitro module,
  the Tinfoil SDK, \<open>zap\<close>, the file system, vsock, random bytes and clocks. Where a theorem needs one of
  them to behave, the hypothesis says so, and its witness has an instance.

  No definition uses fuel. Loops are structural recursion, or a \<open>function\<close> with a measure: the rest of a
  text, the depth that \<open>normalizeBER\<close> allows (\<open>maxBERDepth\<close>), the attempts that \<open>proxy\<close> has left. Loops
  that wait for events (the keeper of a hold, the refresh of the model list, the idle timeout, the
  ingress) are steps over an event or a relation, and the theorems are about every run.

  Concurrency is interleaving of steps that the code makes atomic by a lock or a channel. The callback of
  the idle timer is one step, although the code closes the body after it has left the lock. The ticks
  of the keep-alive fall anywhere between two writes.
\<close>

section \<open>Not modelled\<close>

text \<open>
  Histograms of durations and the log lines about a meter or an analyzer that fails; the text of errors
  of the libraries; wiping buffers; flag parsing; the strict JSON decoders of the tools, which are one
  call of the parser; the ioctls that set the loopback address and the resolver that serves the DNS
  answers; dial and idle limits of transports; the signal handler and the graceful shutdown; the
  interfaces of \<open>application/ports\<close>, which the record \<open>ports\<close> stands for; the build variables and the
  stubs behind build tags. They hold no decisions, or only ones of the libraries they call.
\<close>

end
